(* ===== verification/Prelude.thy ===== *)
theory Prelude
  imports Main "HOL-Library.Word"
begin

unbundle bit_operations_syntax

text \<open>
  The shared base of the development: C characters and C strings, the small
  generic lemmas the components use, and the collections of rewrite rules.

  A C string is a \<open>string\<close> that holds no NUL character; the terminating NUL is
  not stored. \<open>char_at s i\<close> is the access \<open>s[i]\<close> of the C code: it gives the NUL at
  the terminator, and the components that could read past it say so themselves.
\<close>

named_theorems frame_simps \<open>fields a state update leaves alone\<close>
named_theorems env_simps \<open>reading a variable after an update of the environment\<close>
named_theorems char_simps \<open>the character classes, unfolded\<close>

type_synonym cstring = string
type_synonym u32 = "32 word"

abbreviation NUL :: char where "NUL \<equiv> CHR 0x00"
abbreviation TAB :: char where "TAB \<equiv> CHR 0x09"
abbreviation NL :: char where "NL \<equiv> CHR 0x0A"
abbreviation SPACE :: char where "SPACE \<equiv> CHR 0x20"
abbreviation DQUOTE :: char where "DQUOTE \<equiv> CHR 0x22"
abbreviation SQUOTE :: char where "SQUOTE \<equiv> CHR 0x27"
abbreviation BACKSLASH :: char where "BACKSLASH \<equiv> CHR 0x5C"
abbreviation BACKQUOTE :: char where "BACKQUOTE \<equiv> CHR 0x60"

section \<open>Character classes of the C locale\<close>

definition char_code :: "char \<Rightarrow> nat" where
  "char_code c = of_char c"

definition is_digit :: "char \<Rightarrow> bool" where
  "is_digit c \<longleftrightarrow> 48 \<le> char_code c \<and> char_code c \<le> 57"

definition is_upper :: "char \<Rightarrow> bool" where
  "is_upper c \<longleftrightarrow> 65 \<le> char_code c \<and> char_code c \<le> 90"

definition is_lower :: "char \<Rightarrow> bool" where
  "is_lower c \<longleftrightarrow> 97 \<le> char_code c \<and> char_code c \<le> 122"

definition is_alpha :: "char \<Rightarrow> bool" where
  "is_alpha c \<longleftrightarrow> is_upper c \<or> is_lower c"

definition is_alnum :: "char \<Rightarrow> bool" where
  "is_alnum c \<longleftrightarrow> is_alpha c \<or> is_digit c"

definition is_blank :: "char \<Rightarrow> bool" where
  "is_blank c \<longleftrightarrow> c = SPACE \<or> c = TAB"

definition is_space :: "char \<Rightarrow> bool" where
  "is_space c \<longleftrightarrow> c = SPACE \<or> 9 \<le> char_code c \<and> char_code c \<le> 13"

lemmas char_classes [char_simps] =
  is_digit_def is_upper_def is_lower_def is_alpha_def is_alnum_def is_blank_def
  is_space_def char_code_def

text \<open>The value of a plain \<open>char\<close> in arithmetic: it is signed on the targets of the shell.\<close>

definition schar :: "char \<Rightarrow> int" where
  "schar c = (if char_code c < 128 then int (char_code c) else int (char_code c) - 256)"

lemma char_code_inj: "char_code c = char_code d \<longleftrightarrow> c = d"
  by (simp add: char_code_def)

lemma is_digit_cases:
  assumes "is_digit c"
  obtains k where "k < 10" "c = char_of (48 + k)" "char_code c = 48 + k"
proof -
  have "48 \<le> char_code c" "char_code c \<le> 57"
    using assms by (auto simp: is_digit_def)
  then have "char_code c - 48 < 10" "char_code c = 48 + (char_code c - 48)"
    by auto
  moreover from this(2) have "c = char_of (48 + (char_code c - 48))"
    by (metis char_code_def char_of_char)
  ultimately show thesis
    using that by blast
qed

lemma is_digit_not_space: "is_digit c \<Longrightarrow> \<not> is_space c"
  by (auto simp: char_classes)

section \<open>C strings\<close>

definition char_at :: "cstring \<Rightarrow> nat \<Rightarrow> char" where
  "char_at s i = (if i < length s then s ! i else NUL)"

lemma char_at_Nil [simp]: "char_at [] i = NUL"
  by (simp add: char_at_def)

lemma char_at_0 [simp]: "char_at (c # s) 0 = c"
  by (simp add: char_at_def)

lemma char_at_Suc [simp]: "char_at (c # s) (Suc i) = char_at s i"
  by (simp add: char_at_def)

text \<open>\<open>strchr\<close> for a character other than the NUL: the position of its first occurrence.\<close>

fun strchr :: "cstring \<Rightarrow> char \<Rightarrow> nat option" where
  "strchr [] c = None"
| "strchr (d # s) c = (if d = c then Some 0 else map_option Suc (strchr s c))"

text \<open>\<open>strstr\<close> as a truth value: does \<open>needle\<close> occur in \<open>hay\<close>?\<close>

fun strstr :: "cstring \<Rightarrow> cstring \<Rightarrow> nat option" where
  "strstr [] needle = (if needle = [] then Some 0 else None)"
| "strstr (c # hay) needle =
     (if take (length needle) (c # hay) = needle then Some 0
      else map_option Suc (strstr hay needle))"

text \<open>What a NUL-terminated reading of raw bytes sees.\<close>

definition cstr_of :: "string \<Rightarrow> cstring" where
  "cstr_of bs = takeWhile (\<lambda>c. c \<noteq> NUL) bs"

definition is_cstr :: "string \<Rightarrow> bool" where
  "is_cstr s \<longleftrightarrow> NUL \<notin> set s"

lemma is_cstr_cstr_of [simp]: "is_cstr (cstr_of bs)"
  by (auto simp: is_cstr_def cstr_of_def dest: set_takeWhileD)

lemma strchr_None: "strchr s c = None \<longleftrightarrow> c \<notin> set s"
  by (induction s c rule: strchr.induct) auto

lemma strchr_Some_iff:
  "strchr s c = Some i \<longleftrightarrow> i < length s \<and> s ! i = c \<and> c \<notin> set (take i s)"
proof (induction s c arbitrary: i rule: strchr.induct)
  case (1 c)
  then show ?case by simp
next
  case (2 d s c)
  then show ?case
    by (cases i) auto
qed

lemma strchr_split:
  "strchr s c = Some i \<Longrightarrow> s = take i s @ c # drop (Suc i) s \<and> c \<notin> set (take i s)"
  by (auto simp: strchr_Some_iff id_take_nth_drop)

lemma strchr_append: "c \<notin> set xs \<Longrightarrow> strchr (xs @ c # ys) c = Some (length xs)"
  by (induction xs) auto

section \<open>Lists\<close>

text \<open>\<open>filter_first P xs\<close>: the first element with \<open>P\<close>.\<close>

fun find_idx :: "('a \<Rightarrow> bool) \<Rightarrow> 'a list \<Rightarrow> nat option" where
  "find_idx P [] = None"
| "find_idx P (x # xs) = (if P x then Some 0 else map_option Suc (find_idx P xs))"

lemma find_idx_None: "find_idx P xs = None \<longleftrightarrow> (\<forall>x \<in> set xs. \<not> P x)"
  by (induction xs) auto

lemma find_idx_Some:
  "find_idx P xs = Some i \<Longrightarrow> i < length xs \<and> P (xs ! i) \<and> (\<forall>j < i. \<not> P (xs ! j))"
proof (induction xs arbitrary: i)
  case Nil
  then show ?case by simp
next
  case (Cons x xs)
  then show ?case
    by (cases i) (auto split: if_splits simp: less_Suc_eq_0_disj nth_Cons')
qed

lemma find_distinct_key:
  "distinct (map f xs) \<Longrightarrow> x \<in> set xs \<Longrightarrow> find (\<lambda>y. f y = f x) xs = Some x"
  by (induction xs) auto

lemma find_key_member: "find P xs = Some x \<Longrightarrow> x \<in> set xs \<and> P x"
  by (induction xs) (auto split: if_splits)

definition remove_nth :: "nat \<Rightarrow> 'a list \<Rightarrow> 'a list" where
  "remove_nth i xs = take i xs @ drop (Suc i) xs"

lemma length_remove_nth [simp]: "i < length xs \<Longrightarrow> length (remove_nth i xs) = length xs - 1"
  by (simp add: remove_nth_def)

lemma set_remove_nth: "set (remove_nth i xs) \<subseteq> set xs"
  by (auto simp: remove_nth_def dest: in_set_takeD in_set_dropD)

lemma takeWhile_all: "(\<And>x. x \<in> set xs \<Longrightarrow> P x) \<Longrightarrow> takeWhile P xs = xs"
  by (induction xs) auto

lemma takeWhile_stop:
  "(\<And>x. x \<in> set xs \<Longrightarrow> P x) \<Longrightarrow> \<not> P y \<Longrightarrow> takeWhile P (xs @ y # ys) = xs"
  by (induction xs) auto

lemma dropWhile_stop:
  "(\<And>x. x \<in> set xs \<Longrightarrow> P x) \<Longrightarrow> \<not> P y \<Longrightarrow> dropWhile P (xs @ y # ys) = y # ys"
  by (induction xs) auto

end
