(* ===== verification/Growable.thy ===== *)
theory Growable
  imports Prelude
begin

text \<open>
  The growable containers: \<open>struct mrsh_array\<close> (\<open>array.c\<close>, pointers) and \<open>struct mrsh_buffer\<close>
  (\<open>buffer.c\<close>, bytes). Memory is explicit: the block that \<open>realloc\<close> returned is the list of its
  slots, a slot that was never written is \<open>None\<close>, and a write outside the block is \<open>None\<close> in the
  result. Sizes are 64-bit \<open>size_t\<close> values with their wrap-around written out. The allocator is the
  parameter \<open>alloc\<close>: \<open>alloc n\<close> says whether a request for \<open>n\<close> bytes succeeds.

  The contract both share is the locale \<open>growable\<close>: a push either appends one element or
  fails and leaves the container as it was. Both containers are interpretations of it.
\<close>

definition size_mod :: "nat \<Rightarrow> nat" where
  "size_mod n = n mod 18446744073709551616"

lemma size_mod_small [simp]: "n < 18446744073709551616 \<Longrightarrow> size_mod n = n"
  by (simp add: size_mod_def)

text \<open>
  What the C library documents of its allocator: no object is larger than \<open>PTRDIFF_MAX\<close> bytes.
\<close>

definition sane_alloc :: "(nat \<Rightarrow> bool) \<Rightarrow> bool" where
  "sane_alloc alloc \<longleftrightarrow> (\<forall>n. alloc n \<longrightarrow> n < 9223372036854775808)"

definition realloc_slots :: "nat \<Rightarrow> 'a option list \<Rightarrow> 'a option list" where
  "realloc_slots n xs = take n xs @ replicate (n - length xs) None"

lemma length_realloc_slots [simp]: "length (realloc_slots n xs) = n"
  by (simp add: realloc_slots_def)

lemma take_realloc_slots: "m \<le> length xs \<Longrightarrow> m \<le> n \<Longrightarrow> take m (realloc_slots n xs) = take m xs"
  by (simp add: realloc_slots_def min_def)

section \<open>The shared contract\<close>

locale growable =
  fixes cont :: "'c \<Rightarrow> 'e option list"
    and inv :: "'c \<Rightarrow> bool"
    and push :: "(nat \<Rightarrow> bool) \<Rightarrow> 'c \<Rightarrow> 'e \<Rightarrow> (bool \<times> 'c) option"
    and empty :: 'c
  assumes cont_empty: "cont empty = []"
    and inv_empty: "inv empty"
    and push_defined: "sane_alloc alloc \<Longrightarrow> inv c \<Longrightarrow> push alloc c x \<noteq> None"
    and push_inv: "sane_alloc alloc \<Longrightarrow> inv c \<Longrightarrow> push alloc c x = Some (ok, c') \<Longrightarrow> inv c'"
    and push_ok: "sane_alloc alloc \<Longrightarrow> inv c \<Longrightarrow> push alloc c x = Some (True, c') \<Longrightarrow>
      cont c' = cont c @ [Some x]"
    and push_fail: "push alloc c x = Some (False, c') \<Longrightarrow> c' = c"
begin

text \<open>Pushing a whole list, stopping at the first failure as a client's loop would.\<close>

fun push_all :: "(nat \<Rightarrow> bool) \<Rightarrow> 'c \<Rightarrow> 'e list \<Rightarrow> (bool \<times> 'c) option" where
  "push_all alloc c [] = Some (True, c)"
| "push_all alloc c (x # xs) =
     (case push alloc c x of
        None \<Rightarrow> None
      | Some (True, c') \<Rightarrow> push_all alloc c' xs
      | Some (False, c') \<Rightarrow> Some (False, c'))"

lemma push_cases:
  assumes "sane_alloc alloc" "inv c"
  obtains (ok) c' where "push alloc c x = Some (True, c')" "inv c'" "cont c' = cont c @ [Some x]"
    | (failed) "push alloc c x = Some (False, c)"
proof -
  from push_defined [OF assms, of x] obtain b c' where p: "push alloc c x = Some (b, c')"
    by (cases "push alloc c x") auto
  show thesis
  proof (cases b)
    case True
    with p have p': "push alloc c x = Some (True, c')" by simp
    show thesis
      by (rule ok [OF p' push_inv [OF assms p'] push_ok [OF assms p']])
  next
    case False
    with p have p': "push alloc c x = Some (False, c')" by simp
    with push_fail [OF p'] show thesis
      by (intro failed) simp
  qed
qed

lemma push_all_prefix:
  assumes "sane_alloc alloc" "inv c"
  shows "\<exists>ok c' k. push_all alloc c xs = Some (ok, c') \<and> inv c' \<and>
    cont c' = cont c @ map Some (take k xs) \<and> (ok \<longrightarrow> k = length xs)"
  using assms(2)
proof (induction xs arbitrary: c)
  case Nil
  then show ?case by auto
next
  case (Cons x xs)
  from assms(1) Cons.prems show ?case
  proof (cases rule: push_cases [where x = x])
    case (ok c')
    from Cons.IH [OF ok(2)] obtain b c2 k where r: "push_all alloc c' xs = Some (b, c2)"
      "inv c2" "cont c2 = cont c' @ map Some (take k xs)" "b \<longrightarrow> k = length xs"
      by blast
    have "push_all alloc c (x # xs) = Some (b, c2) \<and> inv c2 \<and>
        cont c2 = cont c @ map Some (take (Suc k) (x # xs)) \<and> (b \<longrightarrow> Suc k = length (x # xs))"
      using r ok by simp
    then show ?thesis by blast
  next
    case failed
    have "push_all alloc c (x # xs) = Some (False, c) \<and> inv c \<and>
        cont c = cont c @ map Some (take 0 (x # xs)) \<and> (False \<longrightarrow> 0 = length (x # xs))"
      using failed Cons.prems by simp
    then show ?thesis by blast
  qed
qed

lemma push_all_total:
  assumes "sane_alloc alloc" "inv c" "push_all alloc c xs = Some (True, c')"
  shows "cont c' = cont c @ map Some xs"
  using push_all_prefix [OF assms(1,2), of xs] assms(3) by auto

end

section \<open>array.c\<close>

record 'a mrsh_array =
  arr_data :: "'a option list"
  arr_len :: nat
  arr_cap :: nat

definition INITIAL_SIZE :: nat where "INITIAL_SIZE = 8"

definition array_zero :: "'a mrsh_array" where
  "array_zero = \<lparr>arr_data = [], arr_len = 0, arr_cap = 0\<rparr>"

definition mrsh_array_reserve :: "(nat \<Rightarrow> bool) \<Rightarrow> 'a mrsh_array \<Rightarrow> nat \<Rightarrow> bool \<times> 'a mrsh_array" where
  "mrsh_array_reserve alloc a new_cap =
     (if arr_cap a \<ge> new_cap then (True, a)
      else let bytes = size_mod (new_cap * 8) in
        if \<not> alloc bytes then (False, a)
        else (True, a\<lparr>arr_data := realloc_slots (bytes div 8) (arr_data a), arr_cap := new_cap\<rparr>))"

text \<open>\<open>None\<close>: the assertion fails or the write is out of the block; the index, or -1, otherwise.\<close>

definition mrsh_array_add :: "(nat \<Rightarrow> bool) \<Rightarrow> 'a mrsh_array \<Rightarrow> 'a \<Rightarrow> (int \<times> 'a mrsh_array) option" where
  "mrsh_array_add alloc a v =
     (if \<not> arr_len a \<le> arr_cap a then None
      else
        let (ok, a1) =
          (if arr_len a = arr_cap a then
             let new_cap = size_mod (2 * arr_cap a);
                 new_cap = (if new_cap < INITIAL_SIZE then INITIAL_SIZE else new_cap)
             in mrsh_array_reserve alloc a new_cap
           else (True, a))
        in if \<not> ok then Some (- 1, a1)
           else let i = arr_len a1 in
             if i < length (arr_data a1)
             then Some (int i, a1\<lparr>arr_data := (arr_data a1)[i := Some v], arr_len := size_mod (i + 1)\<rparr>)
             else None)"

definition mrsh_array_finish :: "'a mrsh_array \<Rightarrow> 'a mrsh_array" where
  "mrsh_array_finish a = a\<lparr>arr_data := [], arr_cap := 0, arr_len := 0\<rparr>"

definition array_cont :: "'a mrsh_array \<Rightarrow> 'a option list" where
  "array_cont a = take (arr_len a) (arr_data a)"

definition array_inv :: "'a mrsh_array \<Rightarrow> bool" where
  "array_inv a \<longleftrightarrow> arr_len a \<le> arr_cap a \<and> length (arr_data a) = arr_cap a \<and>
     arr_cap a < 1152921504606846976"

definition array_push :: "(nat \<Rightarrow> bool) \<Rightarrow> 'a mrsh_array \<Rightarrow> 'a \<Rightarrow> (bool \<times> 'a mrsh_array) option" where
  "array_push alloc a v = map_option (\<lambda>(i, a'). (0 \<le> i, a')) (mrsh_array_add alloc a v)"

lemma take_Suc_list_update: "i < length xs \<Longrightarrow> take (Suc i) (xs[i := x]) = take i xs @ [x]"
  by (simp add: take_Suc_conv_app_nth)

lemma array_reserve_inv:
  assumes "sane_alloc alloc" "array_inv a" "n < 2305843009213693952"
    and "mrsh_array_reserve alloc a n = (True, a')"
  shows "array_inv a' \<and> arr_len a' = arr_len a \<and> array_cont a' = array_cont a \<and> n \<le> arr_cap a'"
proof (cases "arr_cap a \<ge> n")
  case True
  with assms show ?thesis by (simp add: mrsh_array_reserve_def)
next
  case False
  from assms(3) have "size_mod (n * 8) = n * 8" by simp
  with False assms have al: "alloc (n * 8)"
    and a': "a' = a\<lparr>arr_data := realloc_slots n (arr_data a), arr_cap := n\<rparr>"
    by (auto simp: mrsh_array_reserve_def Let_def split: if_splits)
  from al assms(1) have "n * 8 < 9223372036854775808"
    by (auto simp: sane_alloc_def)
  with a' False assms(2) show ?thesis
    by (simp add: array_inv_def array_cont_def take_realloc_slots)
qed

lemma array_add_grow:
  assumes "array_inv a"
  shows "(let n = size_mod (2 * arr_cap a) in if n < INITIAL_SIZE then INITIAL_SIZE else n)
    = max INITIAL_SIZE (2 * arr_cap a)"
proof -
  have "2 * arr_cap a < 18446744073709551616"
    using assms by (simp add: array_inv_def)
  then show ?thesis
    by (simp add: Let_def max_def)
qed

text \<open>What \<open>mrsh_array_add\<close> does once there is room.\<close>

lemma array_store:
  fixes a :: "'a mrsh_array" and v :: 'a
  assumes "array_inv a" "arr_len a < arr_cap a"
  defines "a' \<equiv> a\<lparr>arr_data := (arr_data a)[arr_len a := Some v], arr_len := arr_len a + 1\<rparr>"
  shows "array_inv a'" "array_cont a' = array_cont a @ [Some v]"
  using assms by (auto simp: array_inv_def array_cont_def take_Suc_list_update)

lemma array_room:
  assumes "array_inv a" "arr_len a < arr_cap a"
  shows "size_mod (Suc (arr_len a)) = Suc (arr_len a)" "arr_len a < length (arr_data a)"
  using assms by (auto simp: array_inv_def)

lemma mrsh_array_add_spec:
  assumes "sane_alloc alloc" "array_inv a"
  obtains (ok) a' where "mrsh_array_add alloc a v = Some (int (arr_len a), a')" "array_inv a'"
      "array_cont a' = array_cont a @ [Some v]" "arr_len a' = Suc (arr_len a)"
    | (failed) "mrsh_array_add alloc a v = Some (- 1, a)" "arr_len a = arr_cap a"
proof (cases "arr_len a < arr_cap a")
  case True
  note st = array_store [OF assms(2) True, where v = v] array_room [OF assms(2) True]
  show thesis
    by (rule ok [OF _ st(1,2)]) (use st True in \<open>auto simp: mrsh_array_add_def Let_def\<close>)
next
  case False
  with assms(2) have full: "arr_len a = arr_cap a"
    by (simp add: array_inv_def)
  let ?n = "max INITIAL_SIZE (2 * arr_cap a)"
  have small: "?n < 2305843009213693952"
    using assms(2) by (simp add: array_inv_def INITIAL_SIZE_def)
  obtain b a1 where r: "mrsh_array_reserve alloc a ?n = (b, a1)"
    by (cases "mrsh_array_reserve alloc a ?n")
  note unf = mrsh_array_add_def array_add_grow [OF assms(2), unfolded Let_def] Let_def
  show thesis
  proof (cases b)
    case True
    with r have r': "mrsh_array_reserve alloc a ?n = (True, a1)" by simp
    note res = array_reserve_inv [OF assms(1,2) small r']
    with full have lt: "arr_len a1 < arr_cap a1"
      by (auto simp: INITIAL_SIZE_def max_def split: if_splits)
    note st = array_store [OF conjunct1 [OF res] lt, where v = v]
      array_room [OF conjunct1 [OF res] lt]
    show thesis
      by (rule ok [OF _ st(1)]) (use st res r True full in \<open>auto simp: unf\<close>)
  next
    case False
    with r have "a1 = a"
      by (auto simp: mrsh_array_reserve_def Let_def split: if_splits)
    then show thesis
      using failed full r False by (simp add: unf)
  qed
qed

interpretation arr: growable array_cont array_inv array_push array_zero
proof unfold_locales
  fix alloc and c :: "'a mrsh_array" and x ok c'
  assume al: "sane_alloc alloc" "array_inv c"
  note cases = mrsh_array_add_spec [OF al, where v = x]
  show "array_push alloc c x \<noteq> None"
    by (rule cases) (auto simp: array_push_def)
  show "array_inv c'" if "array_push alloc c x = Some (ok, c')"
    by (rule cases) (use that al in \<open>auto simp: array_push_def\<close>)
  show "array_cont c' = array_cont c @ [Some x]" if "array_push alloc c x = Some (True, c')"
    by (rule cases) (use that al in \<open>auto simp: array_push_def\<close>)
next
  fix alloc and c :: "'a mrsh_array" and x c'
  show "array_push alloc c x = Some (False, c') \<Longrightarrow> c' = c"
    by (auto simp: array_push_def mrsh_array_add_def mrsh_array_reserve_def Let_def split: if_splits)
qed (auto simp: array_cont_def array_inv_def array_zero_def)

section \<open>buffer.c\<close>

record mrsh_buffer =
  buf_data :: "char option list"
  buf_len :: nat
  buf_cap :: nat

definition buffer_zero :: mrsh_buffer where
  "buffer_zero = \<lparr>buf_data = [], buf_len = 0, buf_cap = 0\<rparr>"

text \<open>The pointer the code returns is an offset into the block; \<open>None\<close> is the null pointer.\<close>

definition mrsh_buffer_reserve :: "(nat \<Rightarrow> bool) \<Rightarrow> mrsh_buffer \<Rightarrow> nat \<Rightarrow> nat option \<times> mrsh_buffer" where
  "mrsh_buffer_reserve alloc b sz =
     (let new_len = size_mod (buf_len b + sz) in
      if new_len > buf_cap b then
        let new_cap = size_mod (2 * buf_cap b);
            new_cap = (if new_cap = 0 then 32 else new_cap);
            new_cap = (if new_cap < new_len then new_len else new_cap)
        in if \<not> alloc new_cap then (None, b)
           else (Some (buf_len b),
             b\<lparr>buf_data := realloc_slots new_cap (buf_data b), buf_cap := new_cap\<rparr>)
      else (Some (buf_len b), b))"

definition mrsh_buffer_add :: "(nat \<Rightarrow> bool) \<Rightarrow> mrsh_buffer \<Rightarrow> nat \<Rightarrow> nat option \<times> mrsh_buffer" where
  "mrsh_buffer_add alloc b sz =
     (case mrsh_buffer_reserve alloc b sz of
        (None, b1) \<Rightarrow> (None, b1)
      | (Some p, b1) \<Rightarrow> (Some p, b1\<lparr>buf_len := size_mod (buf_len b1 + sz)\<rparr>))"

definition write_block :: "nat \<Rightarrow> string \<Rightarrow> char option list \<Rightarrow> char option list option" where
  "write_block off bs mem =
     (if off + length bs \<le> length mem
      then Some (take off mem @ map Some bs @ drop (off + length bs) mem) else None)"

definition mrsh_buffer_append :: "(nat \<Rightarrow> bool) \<Rightarrow> mrsh_buffer \<Rightarrow> string \<Rightarrow> (bool \<times> mrsh_buffer) option" where
  "mrsh_buffer_append alloc b bs =
     (case mrsh_buffer_add alloc b (length bs) of
        (None, b1) \<Rightarrow> Some (False, b1)
      | (Some p, b1) \<Rightarrow>
          map_option (\<lambda>m. (True, b1\<lparr>buf_data := m\<rparr>)) (write_block p bs (buf_data b1)))"

definition mrsh_buffer_append_char :: "(nat \<Rightarrow> bool) \<Rightarrow> mrsh_buffer \<Rightarrow> char \<Rightarrow> (bool \<times> mrsh_buffer) option" where
  "mrsh_buffer_append_char alloc b c =
     (case mrsh_buffer_add alloc b 1 of
        (None, b1) \<Rightarrow> Some (False, b1)
      | (Some p, b1) \<Rightarrow>
          map_option (\<lambda>m. (True, b1\<lparr>buf_data := m\<rparr>)) (write_block p [c] (buf_data b1)))"

definition mrsh_buffer_steal :: "mrsh_buffer \<Rightarrow> char option list \<times> mrsh_buffer" where
  "mrsh_buffer_steal b = (buf_data b, b\<lparr>buf_data := [], buf_cap := 0, buf_len := 0\<rparr>)"

definition mrsh_buffer_finish :: "mrsh_buffer \<Rightarrow> mrsh_buffer" where
  "mrsh_buffer_finish b = b\<lparr>buf_data := [], buf_cap := 0, buf_len := 0\<rparr>"

definition buffer_cont :: "mrsh_buffer \<Rightarrow> char option list" where
  "buffer_cont b = take (buf_len b) (buf_data b)"

definition buffer_inv :: "mrsh_buffer \<Rightarrow> bool" where
  "buffer_inv b \<longleftrightarrow> buf_len b \<le> buf_cap b \<and> length (buf_data b) = buf_cap b \<and>
     buf_cap b < 9223372036854775808"

definition grow_cap :: "nat \<Rightarrow> nat \<Rightarrow> nat" where
  "grow_cap cap n = (let c = (if cap = 0 then 32 else 2 * cap) in if c < n then n else c)"

lemma grow_cap_ge: "n \<le> grow_cap cap n"
  by (simp add: grow_cap_def Let_def)

lemma buffer_reserve_eq:
  assumes "buffer_inv b" "sz < 9223372036854775808"
  shows "mrsh_buffer_reserve alloc b sz =
    (if buf_len b + sz \<le> buf_cap b then (Some (buf_len b), b)
     else let nc = grow_cap (buf_cap b) (buf_len b + sz) in
       if alloc nc
       then (Some (buf_len b), b\<lparr>buf_data := realloc_slots nc (buf_data b), buf_cap := nc\<rparr>)
       else (None, b))"
proof -
  have "size_mod (buf_len b + sz) = buf_len b + sz" "size_mod (2 * buf_cap b) = 2 * buf_cap b"
    using assms by (simp_all add: buffer_inv_def)
  then show ?thesis
    by (simp add: mrsh_buffer_reserve_def grow_cap_def Let_def not_less [symmetric])
qed

lemma buffer_add_spec:
  assumes "sane_alloc alloc" "buffer_inv b" "sz < 9223372036854775808"
  obtains (ok) b' where "mrsh_buffer_add alloc b sz = (Some (buf_len b), b')" "buffer_inv b'"
      "buf_len b' = buf_len b + sz" "take (buf_len b) (buf_data b') = buffer_cont b"
    | (failed) "mrsh_buffer_add alloc b sz = (None, b)"
proof -
  have small: "size_mod (buf_len b + sz) = buf_len b + sz"
    using assms by (simp add: buffer_inv_def)
  let ?nc = "grow_cap (buf_cap b) (buf_len b + sz)"
  note eq = mrsh_buffer_add_def buffer_reserve_eq [OF assms(2,3)] Let_def small
  consider (fits) "buf_len b + sz \<le> buf_cap b"
    | (grown) "\<not> buf_len b + sz \<le> buf_cap b" "alloc ?nc"
    | (none) "\<not> buf_len b + sz \<le> buf_cap b" "\<not> alloc ?nc"
    by blast
  then show thesis
  proof cases
    case fits
    show thesis
      by (rule ok [of "b\<lparr>buf_len := buf_len b + sz\<rparr>"])
        (use fits assms(2) in \<open>auto simp: eq buffer_inv_def buffer_cont_def\<close>)
  next
    case grown
    then have bound: "?nc < 9223372036854775808"
      using assms(1) by (simp add: sane_alloc_def)
    have ge: "buf_len b + sz \<le> ?nc"
      by (rule grow_cap_ge)
    show thesis
      by (rule ok [of "b\<lparr>buf_data := realloc_slots ?nc (buf_data b), buf_cap := ?nc,
            buf_len := buf_len b + sz\<rparr>"])
        (use grown ge bound assms(2) in
          \<open>auto simp: eq buffer_inv_def buffer_cont_def take_realloc_slots\<close>)
  next
    case none
    then show thesis
      by (intro failed) (simp add: eq)
  qed
qed

lemma write_block_at_end:
  assumes "n + length bs \<le> length mem"
  shows "write_block n bs mem = Some (take n mem @ map Some bs @ drop (n + length bs) mem)"
    "take (n + length bs) (take n mem @ map Some bs @ drop (n + length bs) mem)
      = take n mem @ map Some bs"
  using assms by (cases bs; auto simp: write_block_def min_def)+

lemma buffer_append_spec:
  assumes "sane_alloc alloc" "buffer_inv b" "length bs < 9223372036854775808"
  obtains (ok) b' where "mrsh_buffer_append alloc b bs = Some (True, b')" "buffer_inv b'"
      "buffer_cont b' = buffer_cont b @ map Some bs"
    | (failed) "mrsh_buffer_append alloc b bs = Some (False, b)"
  using assms
proof (cases rule: buffer_add_spec)
  case (ok b')
  then have room: "buf_len b + length bs \<le> length (buf_data b')"
    by (simp add: buffer_inv_def)
  note w = write_block_at_end [OF room]
  let ?m = "take (buf_len b) (buf_data b') @ map Some bs @ drop (buf_len b + length bs) (buf_data b')"
  have "length ?m = length (buf_data b')"
    using room by simp
  then have "buffer_inv (b'\<lparr>buf_data := ?m\<rparr>)"
    using ok by (simp add: buffer_inv_def)
  moreover have "buffer_cont (b'\<lparr>buf_data := ?m\<rparr>) = buffer_cont b @ map Some bs"
    using ok w by (simp add: buffer_cont_def)
  moreover have "mrsh_buffer_append alloc b bs = Some (True, b'\<lparr>buf_data := ?m\<rparr>)"
    using ok w by (simp add: mrsh_buffer_append_def)
  ultimately show thesis by (rule that(1) [rotated])
next
  case failed
  then show thesis
    by (intro that(2)) (simp add: mrsh_buffer_append_def)
qed

lemma append_char_append: "mrsh_buffer_append_char alloc b c = mrsh_buffer_append alloc b [c]"
  by (simp add: mrsh_buffer_append_char_def mrsh_buffer_append_def)

interpretation buf: growable buffer_cont buffer_inv mrsh_buffer_append_char buffer_zero
proof unfold_locales
  fix alloc c x ok c'
  assume al: "sane_alloc alloc" "buffer_inv c"
  note cases = buffer_append_spec [OF al, of "[x]", folded append_char_append]
  show "mrsh_buffer_append_char alloc c x \<noteq> None"
    by (rule cases) auto
  show "buffer_inv c'" if "mrsh_buffer_append_char alloc c x = Some (ok, c')"
    by (rule cases) (use that al in auto)
  show "buffer_cont c' = buffer_cont c @ [Some x]"
    if "mrsh_buffer_append_char alloc c x = Some (True, c')"
    by (rule cases) (use that al in auto)
next
  fix alloc c x c'
  show "mrsh_buffer_append_char alloc c x = Some (False, c') \<Longrightarrow> c' = c"
    by (auto simp: mrsh_buffer_append_char_def mrsh_buffer_add_def mrsh_buffer_reserve_def Let_def
        split: if_splits option.splits prod.splits)
qed (auto simp: buffer_cont_def buffer_inv_def buffer_zero_def)

section \<open>Properties\<close>



text \<open>\<open>mrsh_buffer_append\<close> stays inside its block and is all or nothing: it appends every byte, or
  fails and leaves the buffer as it was.\<close>

theorem buffer_append_all_or_nothing:
  assumes "sane_alloc alloc" "buffer_inv b" "length bs < 9223372036854775808"
  shows "mrsh_buffer_append alloc b bs = Some (False, b) \<or>
    (\<exists>b'. mrsh_buffer_append alloc b bs = Some (True, b') \<and> buffer_inv b' \<and>
       buffer_cont b' = buffer_cont b @ map Some bs)"
  by (rule buffer_append_spec [OF assms]) auto

theorem buffer_append_all_or_nothing_witness:
  "mrsh_buffer_append (\<lambda>n. n \<le> 64) buffer_zero ''text'' = Some (False, buffer_zero) \<or>
    (\<exists>b'. mrsh_buffer_append (\<lambda>n. n \<le> 64) buffer_zero ''text'' = Some (True, b') \<and> buffer_inv b' \<and>
       buffer_cont b' = buffer_cont buffer_zero @ map Some ''text'')"
  by (rule buffer_append_all_or_nothing) (simp_all add: sane_alloc_def buffer_inv_def buffer_zero_def)

end
