(* ===== verification/Ast.thy ===== *)
theory Ast
  imports Prelude
begin

text \<open>
  The syntax trees of \<open>include/mrsh/ast.h\<close> and the functions of \<open>ast.c\<close> that compute on them:
  the text of an expanded word (\<open>mrsh_word_str\<close>), the source ranges, the deep copies, the
  formatter (\<open>mrsh_node_format\<close>) and the traversal (\<open>mrsh_node_for_each\<close>). A null pointer is
  \<open>None\<close>; where the C code calls \<open>abort()\<close>, fails an assertion or follows a null pointer, the
  result is \<open>None\<close>.
\<close>

section \<open>Positions\<close>

record mrsh_position =
  pos_offset :: nat
  pos_line :: int
  pos_column :: int

record mrsh_range =
  rng_begin :: mrsh_position
  rng_end :: mrsh_position

definition position_zero :: mrsh_position where
  "position_zero = \<lparr>pos_offset = 0, pos_line = 0, pos_column = 0\<rparr>"

definition range_zero :: mrsh_range where
  "range_zero = \<lparr>rng_begin = position_zero, rng_end = position_zero\<rparr>"

definition mrsh_position_valid :: "mrsh_position \<Rightarrow> bool" where
  "mrsh_position_valid pos \<longleftrightarrow> pos_line pos > 0"

definition mrsh_range_valid :: "mrsh_range \<Rightarrow> bool" where
  "mrsh_range_valid r \<longleftrightarrow> mrsh_position_valid (rng_begin r) \<and> mrsh_position_valid (rng_end r)"

definition position_next :: "mrsh_position \<Rightarrow> mrsh_position" where
  "position_next p = p\<lparr>pos_offset := pos_offset p + 1, pos_column := pos_column p + 1\<rparr>"

section \<open>The trees\<close>

datatype param_op =
    PARAM_NONE
  | PARAM_MINUS
  | PARAM_EQUAL
  | PARAM_QMARK
  | PARAM_PLUS
  | PARAM_LEADING_HASH
  | PARAM_PERCENT
  | PARAM_DPERCENT
  | PARAM_HASH
  | PARAM_DHASH

datatype io_redirect_op =
    IO_LESS | IO_GREAT | IO_CLOBBER | IO_DGREAT | IO_LESSAND | IO_GREATAND | IO_LESSGREAT
  | IO_DLESS | IO_DLESSDASH

datatype loop_type = LOOP_WHILE | LOOP_UNTIL

datatype binop_type = BINOP_AND | BINOP_OR

record param_positions =
  dollar_pos :: mrsh_position
  name_range :: mrsh_range
  op_range :: mrsh_range
  lbrace_pos :: mrsh_position
  rbrace_pos :: mrsh_position

definition param_positions_zero :: param_positions where
  "param_positions_zero = \<lparr>dollar_pos = position_zero, name_range = range_zero, op_range = range_zero,
     lbrace_pos = position_zero, rbrace_pos = position_zero\<rparr>"

text \<open>
  The fields of each constructor are those of the C struct, in its order; position fields come last.
  \<open>WString str single_quoted split_fields range\<close>,
  \<open>WParameter name op colon arg positions\<close>,
  \<open>WCommand program back_quoted range\<close>, \<open>WArithmetic body\<close>,
  \<open>WList children double_quoted lquote rquote\<close>.
\<close>

datatype mrsh_word =
    WString cstring bool bool mrsh_range
  | WParameter cstring param_op bool "mrsh_word option" param_positions
  | WCommand "mrsh_program option" bool mrsh_range
  | WArithmetic mrsh_word
  | WList "mrsh_word list" bool mrsh_position mrsh_position
and mrsh_io_redirect =
    IoRedirect int io_redirect_op mrsh_word "mrsh_word list" mrsh_position mrsh_range
and mrsh_assignment =
    Assignment cstring mrsh_word mrsh_range mrsh_position
and mrsh_command =
    SimpleCommand "mrsh_word option" "mrsh_word list" "mrsh_io_redirect list" "mrsh_assignment list"
  | BraceGroup "mrsh_command_list list" mrsh_position mrsh_position
  | Subshell "mrsh_command_list list" mrsh_position mrsh_position
  | IfClause "mrsh_command_list list" "mrsh_command_list list" "mrsh_command option"
      mrsh_range mrsh_range mrsh_range mrsh_range
  | ForClause cstring bool "mrsh_word list" "mrsh_command_list list"
      mrsh_range mrsh_range mrsh_range mrsh_range mrsh_range
  | LoopClause loop_type "mrsh_command_list list" "mrsh_command_list list"
      mrsh_range mrsh_range mrsh_range
  | CaseClause mrsh_word "mrsh_case_item list" mrsh_range mrsh_range mrsh_range
  | FunctionDefinition cstring mrsh_command "mrsh_io_redirect list"
      mrsh_range mrsh_position mrsh_position
and mrsh_case_item =
    CaseItem "mrsh_word list" "mrsh_command_list list" mrsh_position mrsh_position mrsh_range
and mrsh_and_or_list =
    Pipeline "mrsh_command list" bool mrsh_position
  | Binop binop_type mrsh_and_or_list mrsh_and_or_list mrsh_range
and mrsh_command_list =
    CommandList mrsh_and_or_list bool mrsh_position
and mrsh_program =
    Program "mrsh_command_list list"

datatype mrsh_node =
    NodeProgram mrsh_program
  | NodeCommandList mrsh_command_list
  | NodeAndOrList mrsh_and_or_list
  | NodeCommand mrsh_command
  | NodeWord mrsh_word

text \<open>The constructors of words as the code calls them: positions and the split mark start at zero.\<close>

definition mrsh_word_string_create :: "cstring \<Rightarrow> bool \<Rightarrow> mrsh_word" where
  "mrsh_word_string_create str single_quoted = WString str single_quoted False range_zero"

definition mrsh_word_parameter_create ::
    "cstring \<Rightarrow> param_op \<Rightarrow> bool \<Rightarrow> mrsh_word option \<Rightarrow> mrsh_word" where
  "mrsh_word_parameter_create name op colon arg = WParameter name op colon arg param_positions_zero"

definition mrsh_word_command_create :: "mrsh_program option \<Rightarrow> bool \<Rightarrow> mrsh_word" where
  "mrsh_word_command_create prog back_quoted = WCommand prog back_quoted range_zero"

definition mrsh_word_arithmetic_create :: "mrsh_word \<Rightarrow> mrsh_word" where
  "mrsh_word_arithmetic_create body = WArithmetic body"

definition mrsh_word_list_create :: "mrsh_word list \<Rightarrow> bool \<Rightarrow> mrsh_word" where
  "mrsh_word_list_create children double_quoted =
     WList children double_quoted position_zero position_zero"

end
