(* ===== verification/Parser_Core.thy ===== *)
theory Parser_Core
  imports Ast
begin

text \<open>
  The input side of the parser, \<open>parser/parser.c\<close>, on the text that is left to read: characters,
  positions, errors and symbols. The buffer that holds the text, filled from a file descriptor or
  another buffer, is modelled in \<open>Parser_Input\<close>, which shows that it behaves like this. The end of the
  text is the end of \<open>p_input\<close>, where the C code sees a NUL. Reading past it fails an assertion, which is
  \<open>None\<close>.
\<close>

datatype symbol_name =
    EOF_TOKEN | TOKEN | NEWLINE
  | AND_IF | OR_IF | DSEMI
  | DLESS | DGREAT | LESSAND | GREATAND | LESSGREAT | DLESSDASH
  | CLOBBER

text \<open>
  A redirection whose here-document is still to be read: its operator, its word, and the offset of the
  operator, which tells the redirections of one input apart. The documents that were read are kept
  under that offset until the tree is complete.
\<close>

record here_pending =
  hp_key :: nat
  hp_op :: io_redirect_op
  hp_name :: mrsh_word

record mrsh_parser =
  p_input :: cstring
  p_pos :: mrsh_position
  p_error :: "(cstring \<times> mrsh_position) option"
  p_has_sym :: bool
  p_sym :: symbol_name
  p_here_documents :: "here_pending list"
  p_continuation_line :: bool
  p_alias :: "(cstring \<Rightarrow> cstring option) option"
  p_arith_nested_parens :: nat
  p_docs :: "nat \<Rightarrow> mrsh_word list option"

definition operators :: "(symbol_name \<times> cstring) list" where
  "operators =
     [(DLESSDASH, ''<<-''), (AND_IF, ''&&''), (OR_IF, ''||''), (DSEMI, '';;''), (DLESS, ''<<''),
      (DGREAT, ''>>''), (LESSAND, ''<&''), (GREATAND, ''>&''), (LESSGREAT, ''<>''), (CLOBBER, ''>|'')]"

definition keyword_names :: "cstring list" where
  "keyword_names =
     [''if'', ''then'', ''else'', ''elif'', ''fi'', ''do'', ''done'', ''case'', ''esac'', ''while'',
      ''until'', ''for'', ''{'', ''}'', ''!'', ''in'']"

text \<open>\<open>mrsh_parser_with_data\<close>: the data up to its first NUL.\<close>

definition mrsh_parser_with_data :: "string \<Rightarrow> mrsh_parser" where
  "mrsh_parser_with_data buf =
     \<lparr>p_input = cstr_of buf, p_pos = \<lparr>pos_offset = 0, pos_line = 1, pos_column = 1\<rparr>, p_error = None,
      p_has_sym = False, p_sym = EOF_TOKEN, p_here_documents = [], p_continuation_line = False,
      p_alias = None, p_arith_nested_parens = 0, p_docs = (\<lambda>_. None)\<rparr>"

section \<open>Characters\<close>

text \<open>\<open>parser_peek(parser, NULL, i + 1)\<close> followed by \<open>parser->buf.data[i]\<close>.\<close>

definition peek_at :: "mrsh_parser \<Rightarrow> nat \<Rightarrow> char" where
  "peek_at p i = char_at (p_input p) i"

definition parser_peek_char :: "mrsh_parser \<Rightarrow> char" where
  "parser_peek_char p = peek_at p 0"

definition pos_after :: "char \<Rightarrow> mrsh_position \<Rightarrow> mrsh_position" where
  "pos_after c pos =
     (if c = NL then \<lparr>pos_offset = pos_offset pos + 1, pos_line = pos_line pos + 1, pos_column = 1\<rparr>
      else pos\<lparr>pos_offset := pos_offset pos + 1, pos_column := pos_column pos + 1\<rparr>)"

text \<open>Taking \<open>n\<close> characters off the input.\<close>

definition skip :: "nat \<Rightarrow> mrsh_parser \<Rightarrow> mrsh_parser" where
  "skip n p =
     (if n = 0 then p
      else p\<lparr>p_input := drop n (p_input p), p_pos := fold pos_after (take n (p_input p)) (p_pos p),
             p_continuation_line := False\<rparr>)"

definition parser_read :: "nat \<Rightarrow> mrsh_parser \<Rightarrow> (cstring \<times> mrsh_parser) option" where
  "parser_read n p = (if n \<le> length (p_input p) then Some (take n (p_input p), skip n p) else None)"

definition parser_read_char :: "mrsh_parser \<Rightarrow> (char \<times> mrsh_parser) option" where
  "parser_read_char p = map_option (\<lambda>(s, p). (hd s, p)) (parser_read 1 p)"

definition read_continuation_line :: "mrsh_parser \<Rightarrow> mrsh_parser option" where
  "read_continuation_line p =
     (case parser_read_char p of
        None \<Rightarrow> None
      | Some (c, p) \<Rightarrow> if c = NL then Some (p\<lparr>p_continuation_line := True\<rparr>) else None)"

section \<open>Errors\<close>

definition parser_set_error :: "cstring \<Rightarrow> mrsh_parser \<Rightarrow> mrsh_parser" where
  "parser_set_error msg p =
     (if p_error p \<noteq> None then p
      else p\<lparr>p_here_documents := [], p_error := Some (msg, p_pos p)\<rparr>)"

definition parser_clear_error :: "mrsh_parser \<Rightarrow> mrsh_parser" where
  "parser_clear_error p = p\<lparr>p_error := None\<rparr>"

definition mrsh_parser_error :: "mrsh_parser \<Rightarrow> cstring option" where
  "mrsh_parser_error p = map_option fst (p_error p)"

definition parser_begin :: "mrsh_parser \<Rightarrow> mrsh_parser" where
  "parser_begin p = (parser_clear_error p)\<lparr>p_continuation_line := False\<rparr>"

section \<open>Symbols\<close>

definition is_operator_start :: "char \<Rightarrow> bool" where
  "is_operator_start c \<longleftrightarrow> c \<in> set ''&|;<>''"

definition match_operator :: "mrsh_parser \<Rightarrow> symbol_name option" where
  "match_operator p =
     (if is_operator_start (parser_peek_char p)
      then map_option fst (find (\<lambda>(_, str). take (length str) (p_input p) = str) operators)
      else None)"

definition skip_comment :: "mrsh_parser \<Rightarrow> mrsh_parser" where
  "skip_comment p = skip (length (takeWhile (\<lambda>c. c \<noteq> NL) (p_input p))) p"

lemma p_input_skip [simp]: "p_input (skip n p) = drop n (p_input p)"
  by (simp add: skip_def)

lemma skip_comment_input: "p_input (skip_comment p) = dropWhile (\<lambda>c. c \<noteq> NL) (p_input p)"
  by (simp add: skip_comment_def dropWhile_eq_drop)

lemma skip_comment_shorter:
  "p_input p \<noteq> [] \<Longrightarrow> parser_peek_char (p\<lparr>p_has_sym := b\<rparr>) = CHR ''#'' \<Longrightarrow>
    length (p_input (skip_comment (p\<lparr>p_has_sym := b\<rparr>))) < length (p_input p)"
  by (cases "p_input p") (auto simp: skip_comment_input parser_peek_char_def peek_at_def less_Suc_eq_le length_dropWhile_le)

function next_symbol :: "mrsh_parser \<Rightarrow> mrsh_parser" where
  "next_symbol p =
     (let p = p\<lparr>p_has_sym := True\<rparr>; c = parser_peek_char p in
      if p_input p = [] then p\<lparr>p_sym := EOF_TOKEN\<rparr>
      else if c = NL then p\<lparr>p_sym := NEWLINE\<rparr>
      else
        case match_operator p of
          Some name \<Rightarrow> p\<lparr>p_sym := name\<rparr>
        | None \<Rightarrow>
            if is_blank c then next_symbol (skip 1 p)
            else if c = CHR ''#'' then next_symbol (skip_comment p)
            else p\<lparr>p_sym := TOKEN\<rparr>)"
  by pat_completeness auto

termination
  by (relation "measure (\<lambda>p. length (p_input p))") (auto simp: skip_comment_shorter Suc_le_eq)

declare next_symbol.simps [simp del]

definition get_symbol :: "mrsh_parser \<Rightarrow> symbol_name \<times> mrsh_parser" where
  "get_symbol p = (let p = (if p_has_sym p then p else next_symbol p) in (p_sym p, p))"

definition consume_symbol :: "mrsh_parser \<Rightarrow> mrsh_parser" where
  "consume_symbol p = p\<lparr>p_has_sym := False\<rparr>"

definition symbol :: "symbol_name \<Rightarrow> mrsh_parser \<Rightarrow> bool \<times> mrsh_parser" where
  "symbol name p = (let (s, p) = get_symbol p in (s = name, p))"

definition eof :: "mrsh_parser \<Rightarrow> bool \<times> mrsh_parser" where
  "eof p = symbol EOF_TOKEN p"

text \<open>The assertion on the character holds whenever the symbol describes the input.\<close>

definition newline :: "mrsh_parser \<Rightarrow> (bool \<times> mrsh_parser) option" where
  "newline p =
     (case symbol NEWLINE p of
        (False, p) \<Rightarrow> Some (False, p)
      | (True, p) \<Rightarrow>
          (case parser_read_char p of
             None \<Rightarrow> None
           | Some (c, p) \<Rightarrow> if c = NL then Some (True, consume_symbol p) else None))"

text \<open>\<open>fuel\<close> bounds the lines taken; one more than the length of the input is enough.\<close>

fun linebreak_loop :: "nat \<Rightarrow> mrsh_parser \<Rightarrow> mrsh_parser option" where
  "linebreak_loop 0 p = None"
| "linebreak_loop (Suc fuel) p =
     (case newline p of
        None \<Rightarrow> None
      | Some (True, p) \<Rightarrow> linebreak_loop fuel p
      | Some (False, p) \<Rightarrow> Some p)"

definition linebreak :: "mrsh_parser \<Rightarrow> mrsh_parser option" where
  "linebreak p = linebreak_loop (Suc (length (p_input p))) p"

definition newline_list :: "mrsh_parser \<Rightarrow> (bool \<times> mrsh_parser) option" where
  "newline_list p =
     (case newline p of
        None \<Rightarrow> None
      | Some (False, p) \<Rightarrow> Some (False, p)
      | Some (True, p) \<Rightarrow> map_option (\<lambda>p. (True, p)) (linebreak p))"

definition mrsh_parser_eof :: "mrsh_parser \<Rightarrow> bool" where
  "mrsh_parser_eof p \<longleftrightarrow> p_has_sym p \<and> p_sym p = EOF_TOKEN"

section \<open>Names\<close>

text \<open>\<open>peek_name\<close> of \<open>parser/word.c\<close>: the length of the name at the front of the input. The symbol that
  is asked for may be one that was recognised earlier.\<close>

definition is_name_char :: "char \<Rightarrow> bool" where
  "is_name_char c \<longleftrightarrow> c = CHR ''_'' \<or> is_alnum c"

definition peek_name :: "bool \<Rightarrow> mrsh_parser \<Rightarrow> nat \<times> mrsh_parser" where
  "peek_name in_braces p =
     (case symbol TOKEN p of
        (False, p) \<Rightarrow> (0, p)
      | (True, p) \<Rightarrow>
          (if \<not> in_braces \<and> is_digit (peek_at p 0) then 0 else length (takeWhile is_name_char (p_input p)), p))"

section \<open>Facts\<close>

lemma next_symbol_has_sym: "p_has_sym (next_symbol p)"
  by (induction p rule: next_symbol.induct, subst next_symbol.simps) (auto simp: Let_def split: option.split)

lemma next_symbol_length: "length (p_input (next_symbol p)) \<le> length (p_input p)"
proof (induction p rule: next_symbol.induct)
  case (1 p)
  have comment: "length (p_input (skip_comment q)) \<le> length (p_input q)" for q
    by (simp add: skip_comment_input length_dropWhile_le)
  note IH = order_trans [OF "1.IH"(1) [OF refl refl]] order_trans [OF "1.IH"(2) [OF refl refl]]
  show ?case
    by (subst next_symbol.simps)
      (auto simp: Let_def split: option.split intro!: IH order_trans [OF comment] simp del: One_nat_def)
qed

end
