(* ===== verification/Ast_Ops.thy ===== *)
theory Ast_Ops
  imports Ast
begin

text \<open>
  The functions of \<open>ast.c\<close> on the trees of theory \<open>Ast\<close>: \<open>mrsh_word_str\<close>, the source ranges, the
  copies, the formatter and the traversal.
\<close>

lemmas ast_induct =
  mrsh_word.induct mrsh_io_redirect.induct mrsh_assignment.induct mrsh_command.induct
  mrsh_case_item.induct mrsh_and_or_list.induct mrsh_command_list.induct mrsh_program.induct

lemma those_map_Some_iff:
  "those (map f xs) = Some ys \<longleftrightarrow> list_all2 (\<lambda>x y. f x = Some y) xs ys"
proof (induction xs arbitrary: ys)
  case Nil
  then show ?case by auto
next
  case (Cons x xs)
  then show ?case
    by (cases ys) (auto split: option.splits)
qed

lemma those_map_transfer:
  assumes "those (map f xs) = Some ys"
    and "\<And>x y. x \<in> set xs \<Longrightarrow> f x = Some y \<Longrightarrow> g y = h x"
  shows "map g ys = map h xs"
  using assms
proof (induction xs arbitrary: ys)
  case Nil
  then show ?case by simp
next
  case (Cons x xs)
  from Cons.prems(1) obtain y ys' where y: "f x = Some y" "those (map f xs) = Some ys'" "ys = y # ys'"
    by (auto split: option.splits)
  have "map g ys' = map h xs"
    by (rule Cons.IH [OF y(2)]) (use Cons.prems(2) in simp)
  with y Cons.prems(2) show ?case by simp
qed

section \<open>The text of an expanded word\<close>

primrec word_str :: "mrsh_word \<Rightarrow> cstring option" where
  "word_str (WString str q sf r) = Some str"
| "word_str (WParameter name op colon arg ps) = None"
| "word_str (WCommand prog bq r) = None"
| "word_str (WArithmetic body) = None"
| "word_str (WList children dq l r) = map_option concat (those (map word_str children))"

definition mrsh_word_str :: "mrsh_word \<Rightarrow> cstring option" where
  "mrsh_word_str w = word_str w"

text \<open>The words whose text exists: strings, and lists of such words.\<close>

primrec expanded :: "mrsh_word \<Rightarrow> bool" where
  "expanded (WString str q sf r) = True"
| "expanded (WParameter name op colon arg ps) = False"
| "expanded (WCommand prog bq r) = False"
| "expanded (WArithmetic body) = False"
| "expanded (WList children dq l r) = list_all id (map expanded children)"

lemma those_map_None: "those (map f xs) = None \<longleftrightarrow> (\<exists>x \<in> set xs. f x = None)"
  by (induction xs) (auto split: option.splits)

lemma word_induct [case_names WString WParameter WCommand WArithmetic WList]:
  assumes "\<And>str q sf r. P (WString str q sf r)"
    and "\<And>name op colon arg ps. (\<And>w. arg = Some w \<Longrightarrow> P w) \<Longrightarrow> P (WParameter name op colon arg ps)"
    and "\<And>prog bq r. P (WCommand prog bq r)"
    and "\<And>body. P body \<Longrightarrow> P (WArithmetic body)"
    and "\<And>children dq l r. (\<And>w. w \<in> set children \<Longrightarrow> P w) \<Longrightarrow> P (WList children dq l r)"
  shows "P w"
  by (rule mrsh_word.induct [where ?P1.0 = P and ?P2.0 = "\<lambda>_. True" and ?P3.0 = "\<lambda>_. True"
      and ?P4.0 = "\<lambda>_. True" and ?P5.0 = "\<lambda>_. True" and ?P6.0 = "\<lambda>_. True"
      and ?P7.0 = "\<lambda>_. True" and ?P8.0 = "\<lambda>_. True"])
    (auto intro: assms)

lemma word_str_None: "word_str w = None \<longleftrightarrow> \<not> expanded w"
  by (induction w rule: word_induct) (auto simp: those_map_None list_all_iff)

section \<open>Source ranges\<close>

text \<open>
  \<open>mrsh_word_range\<close>. The caller may ask for one end only, but both are computed; \<open>None\<close> is the
  \<open>abort()\<close> on an arithmetic word.
\<close>

primrec mrsh_word_range :: "mrsh_word \<Rightarrow> (mrsh_position \<times> mrsh_position) option" where
  "mrsh_word_range (WString str q sf r) = Some (rng_begin r, rng_end r)"
| "mrsh_word_range (WParameter name op colon arg ps) =
     Some (dollar_pos ps,
       if mrsh_position_valid (rbrace_pos ps) then position_next (rbrace_pos ps)
       else rng_end (name_range ps))"
| "mrsh_word_range (WCommand prog bq r) = Some (rng_begin r, rng_end r)"
| "mrsh_word_range (WArithmetic body) = None"
| "mrsh_word_range (WList children dq l r) =
     (case map mrsh_word_range children of
        [] \<Rightarrow> Some (position_zero, position_zero)
      | f # fs \<Rightarrow>
          (case (f, last (f # fs)) of
             (Some (b, _), Some (_, e)) \<Rightarrow> Some (b, e)
           | _ \<Rightarrow> None))"

text \<open>The loops of the simple command: \<open>end\<close> moves to a later end of an operand.\<close>

fun later_end :: "mrsh_position \<Rightarrow> mrsh_word list \<Rightarrow> mrsh_position option" where
  "later_end e [] = Some e"
| "later_end e (w # ws) =
     (case mrsh_word_range w of
        None \<Rightarrow> None
      | Some (_, maybe_end) \<Rightarrow>
          later_end (if pos_offset maybe_end > pos_offset e then maybe_end else e) ws)"

primrec redirect_name :: "mrsh_io_redirect \<Rightarrow> mrsh_word" where
  "redirect_name (IoRedirect n op name here np opr) = name"

primrec assignment_value :: "mrsh_assignment \<Rightarrow> mrsh_word" where
  "assignment_value (Assignment name v nr eq) = v"

primrec assignment_begin :: "mrsh_assignment \<Rightarrow> mrsh_position" where
  "assignment_begin (Assignment name v nr eq) = rng_begin nr"

text \<open>
  The case of a function definition has no \<open>return\<close>: it runs into the \<open>abort()\<close> below the switch.
\<close>

fun mrsh_command_range :: "mrsh_command \<Rightarrow> (mrsh_position \<times> mrsh_position) option" where
  "mrsh_command_range (SimpleCommand name arguments io_redirects assignments) =
     (case (case name of
              Some n \<Rightarrow> mrsh_word_range n
            | None \<Rightarrow>
                (case assignments of
                   [] \<Rightarrow> None
                 | a # _ \<Rightarrow> Some (assignment_begin a, assignment_begin a))) of
        None \<Rightarrow> None
      | Some (b, e) \<Rightarrow>
          map_option (Pair b)
            (later_end e (arguments @ map redirect_name io_redirects @ map assignment_value assignments)))"
| "mrsh_command_range (BraceGroup body lbrace rbrace) = Some (lbrace, position_next rbrace)"
| "mrsh_command_range (Subshell body lparen rparen) = Some (lparen, position_next rparen)"
| "mrsh_command_range (IfClause cond body els if_r then_r fi_r else_r) =
     Some (rng_begin if_r, rng_end fi_r)"
| "mrsh_command_range (ForClause name inn ws body for_r name_r do_r done_r in_r) =
     Some (rng_begin for_r, rng_end done_r)"
| "mrsh_command_range (LoopClause t cond body wu_r do_r done_r) =
     Some (rng_begin wu_r, rng_end done_r)"
| "mrsh_command_range (CaseClause w items case_r in_r esac_r) =
     Some (rng_begin case_r, rng_end esac_r)"
| "mrsh_command_range (FunctionDefinition name body redirs name_r lparen rparen) = None"

section \<open>Copies\<close>

text \<open>
  A copy is made of freshly created nodes: it keeps the syntax, loses every position, and its strings
  are not marked for field splitting. Copying a command substitution without a program follows a
  null pointer (\<open>mrsh_program_copy(NULL)\<close>).
\<close>

abbreviation bind_opt :: "'a option \<Rightarrow> ('a \<Rightarrow> 'b option) \<Rightarrow> 'b option" where
  "bind_opt \<equiv> Option.bind"

primrec mrsh_word_copy :: "mrsh_word \<Rightarrow> mrsh_word option"
  and mrsh_io_redirect_copy :: "mrsh_io_redirect \<Rightarrow> mrsh_io_redirect option"
  and mrsh_assignment_copy :: "mrsh_assignment \<Rightarrow> mrsh_assignment option"
  and mrsh_command_copy :: "mrsh_command \<Rightarrow> mrsh_command option"
  and case_item_copy :: "mrsh_case_item \<Rightarrow> mrsh_case_item option"
  and mrsh_and_or_list_copy :: "mrsh_and_or_list \<Rightarrow> mrsh_and_or_list option"
  and mrsh_command_list_copy :: "mrsh_command_list \<Rightarrow> mrsh_command_list option"
  and mrsh_program_copy :: "mrsh_program \<Rightarrow> mrsh_program option" where
  "mrsh_word_copy (WString str q sf r) = Some (mrsh_word_string_create str q)"
| "mrsh_word_copy (WParameter name op colon arg ps) =
     (case map_option mrsh_word_copy arg of
        None \<Rightarrow> Some (mrsh_word_parameter_create name op colon None)
      | Some r \<Rightarrow> map_option (\<lambda>a. mrsh_word_parameter_create name op colon (Some a)) r)"
| "mrsh_word_copy (WCommand prog bq r) =
     (case map_option mrsh_program_copy prog of
        None \<Rightarrow> None
      | Some p \<Rightarrow> map_option (\<lambda>p. mrsh_word_command_create (Some p) bq) p)"
| "mrsh_word_copy (WArithmetic body) = map_option mrsh_word_arithmetic_create (mrsh_word_copy body)"
| "mrsh_word_copy (WList children dq l r) =
     map_option (\<lambda>cs. mrsh_word_list_create cs dq) (those (map mrsh_word_copy children))"
| "mrsh_io_redirect_copy (IoRedirect n op name here np opr) =
     bind_opt (mrsh_word_copy name) (\<lambda>name.
     bind_opt (those (map mrsh_word_copy here)) (\<lambda>here.
       Some (IoRedirect n op name here position_zero range_zero)))"
| "mrsh_assignment_copy (Assignment name v nr eq) =
     bind_opt (mrsh_word_copy v) (\<lambda>v. Some (Assignment name v range_zero position_zero))"
| "mrsh_command_copy (SimpleCommand name arguments io_redirects assignments) =
     bind_opt (case map_option mrsh_word_copy name of None \<Rightarrow> Some None | Some r \<Rightarrow> map_option Some r)
       (\<lambda>name.
     bind_opt (those (map mrsh_word_copy arguments)) (\<lambda>arguments.
     bind_opt (those (map mrsh_io_redirect_copy io_redirects)) (\<lambda>io_redirects.
     bind_opt (those (map mrsh_assignment_copy assignments)) (\<lambda>assignments.
       Some (SimpleCommand name arguments io_redirects assignments)))))"
| "mrsh_command_copy (BraceGroup body lb rb) =
     bind_opt (those (map mrsh_command_list_copy body)) (\<lambda>body.
       Some (BraceGroup body position_zero position_zero))"
| "mrsh_command_copy (Subshell body lp rp) =
     bind_opt (those (map mrsh_command_list_copy body)) (\<lambda>body.
       Some (Subshell body position_zero position_zero))"
| "mrsh_command_copy (IfClause cond body els if_r then_r fi_r else_r) =
     bind_opt (those (map mrsh_command_list_copy cond)) (\<lambda>cond.
     bind_opt (those (map mrsh_command_list_copy body)) (\<lambda>body.
     bind_opt (case map_option mrsh_command_copy els of None \<Rightarrow> Some None | Some r \<Rightarrow> map_option Some r)
       (\<lambda>els.
       Some (IfClause cond body els range_zero range_zero range_zero range_zero))))"
| "mrsh_command_copy (ForClause name inn ws body for_r name_r do_r done_r in_r) =
     bind_opt (those (map mrsh_word_copy ws)) (\<lambda>ws.
     bind_opt (those (map mrsh_command_list_copy body)) (\<lambda>body.
       Some (ForClause name inn ws body range_zero range_zero range_zero range_zero range_zero)))"
| "mrsh_command_copy (LoopClause t cond body wu_r do_r done_r) =
     bind_opt (those (map mrsh_command_list_copy cond)) (\<lambda>cond.
     bind_opt (those (map mrsh_command_list_copy body)) (\<lambda>body.
       Some (LoopClause t cond body range_zero range_zero range_zero)))"
| "mrsh_command_copy (CaseClause w items case_r in_r esac_r) =
     bind_opt (those (map case_item_copy items)) (\<lambda>items.
     bind_opt (mrsh_word_copy w) (\<lambda>w.
       Some (CaseClause w items range_zero range_zero range_zero)))"
| "mrsh_command_copy (FunctionDefinition name body redirs name_r lp rp) =
     bind_opt (those (map mrsh_io_redirect_copy redirs)) (\<lambda>redirs.
     bind_opt (mrsh_command_copy body) (\<lambda>body.
       Some (FunctionDefinition name body redirs range_zero position_zero position_zero)))"
| "case_item_copy (CaseItem patterns body lp rp dr) =
     bind_opt (those (map mrsh_word_copy patterns)) (\<lambda>patterns.
     bind_opt (those (map mrsh_command_list_copy body)) (\<lambda>body.
       Some (CaseItem patterns body position_zero position_zero range_zero)))"
| "mrsh_and_or_list_copy (Pipeline commands bang bp) =
     bind_opt (those (map mrsh_command_copy commands)) (\<lambda>commands.
       Some (Pipeline commands bang position_zero))"
| "mrsh_and_or_list_copy (Binop t left right op_r) =
     bind_opt (mrsh_and_or_list_copy left) (\<lambda>left.
     bind_opt (mrsh_and_or_list_copy right) (\<lambda>right.
       Some (Binop t left right range_zero)))"
| "mrsh_command_list_copy (CommandList aol ampersand sp) =
     bind_opt (mrsh_and_or_list_copy aol) (\<lambda>aol. Some (CommandList aol ampersand position_zero))"
| "mrsh_program_copy (Program body) =
     bind_opt (those (map mrsh_command_list_copy body)) (\<lambda>body. Some (Program body))"

definition mrsh_node_copy :: "mrsh_node \<Rightarrow> mrsh_node option" where
  "mrsh_node_copy node =
     (case node of
        NodeProgram p \<Rightarrow> map_option NodeProgram (mrsh_program_copy p)
      | NodeCommandList l \<Rightarrow> map_option NodeCommandList (mrsh_command_list_copy l)
      | NodeAndOrList a \<Rightarrow> map_option NodeAndOrList (mrsh_and_or_list_copy a)
      | NodeCommand c \<Rightarrow> map_option NodeCommand (mrsh_command_copy c)
      | NodeWord w \<Rightarrow> map_option NodeWord (mrsh_word_copy w))"

section \<open>The formatter\<close>

fun join :: "cstring \<Rightarrow> cstring list \<Rightarrow> cstring" where
  "join sep [] = []"
| "join sep [x] = x"
| "join sep (x # xs) = x @ sep @ join sep xs"

definition binop_type_str :: "binop_type \<Rightarrow> cstring" where
  "binop_type_str t = (case t of BINOP_AND \<Rightarrow> ''&&'' | BINOP_OR \<Rightarrow> ''||'')"

text \<open>\<open>node_format\<close>, one function per node type; \<open>node_array_format\<close> is \<open>join\<close> over the children.\<close>

primrec fmt_word :: "mrsh_word \<Rightarrow> cstring"
  and fmt_redirect :: "mrsh_io_redirect \<Rightarrow> cstring"
  and fmt_assignment :: "mrsh_assignment \<Rightarrow> cstring"
  and fmt_command :: "mrsh_command \<Rightarrow> cstring"
  and fmt_case_item :: "mrsh_case_item \<Rightarrow> cstring"
  and fmt_and_or_list :: "mrsh_and_or_list \<Rightarrow> cstring"
  and fmt_command_list :: "mrsh_command_list \<Rightarrow> cstring"
  and fmt_program :: "mrsh_program \<Rightarrow> cstring" where
  "fmt_word (WString str q sf r) = (if q then [SQUOTE] @ str @ [SQUOTE] else str)"
| "fmt_word (WParameter name op colon arg ps) =
     ''${'' @ (case map_option fmt_word arg of None \<Rightarrow> [] | Some a \<Rightarrow> a) @ ''}''"
| "fmt_word (WCommand prog bq r) =
     (if bq then [BACKQUOTE] else ''$('') @
     (case map_option fmt_program prog of None \<Rightarrow> [] | Some p \<Rightarrow> p) @
     (if bq then [BACKQUOTE] else '')'')"
| "fmt_word (WArithmetic body) = fmt_word body"
| "fmt_word (WList children dq l r) =
     (if dq then [DQUOTE] else []) @ join [] (map fmt_word children) @ (if dq then [DQUOTE] else [])"
| "fmt_redirect (IoRedirect n op name here np opr) = []"
| "fmt_assignment (Assignment name v nr eq) = []"
| "fmt_command (SimpleCommand name arguments io_redirects assignments) =
     (case map_option fmt_word name of None \<Rightarrow> [] | Some n \<Rightarrow> n @ '' '') @
     join '' '' (map fmt_word arguments)"
| "fmt_command (BraceGroup body lb rb) = ''{ '' @ join '' '' (map fmt_command_list body) @ ''; }''"
| "fmt_command (Subshell body lp rp) = ''('' @ join '' '' (map fmt_command_list body) @ '')''"
| "fmt_command (IfClause cond body els if_r then_r fi_r else_r) =
     ''if '' @ join '' '' (map fmt_command_list cond) @
     ''then '' @ join '' '' (map fmt_command_list body) @
     (case map_option fmt_command els of None \<Rightarrow> [] | Some e \<Rightarrow> ''else '' @ e) @ ''fi''"
| "fmt_command (ForClause name inn ws body for_r name_r do_r done_r in_r) = []"
| "fmt_command (LoopClause t cond body wu_r do_r done_r) =
     (case t of LOOP_WHILE \<Rightarrow> ''while '' | LOOP_UNTIL \<Rightarrow> ''until '') @
     join '' '' (map fmt_command_list cond) @ ''do '' @ join '' '' (map fmt_command_list body) @ ''done''"
| "fmt_command (CaseClause w items case_r in_r esac_r) = []"
| "fmt_command (FunctionDefinition name body redirs name_r lp rp) = name @ ''()'' @ fmt_command body"
| "fmt_case_item (CaseItem patterns body lp rp dr) = []"
| "fmt_and_or_list (Pipeline commands bang bp) =
     (if bang then ''! '' else []) @ join '' | '' (map fmt_command commands)"
| "fmt_and_or_list (Binop t left right op_r) =
     fmt_and_or_list left @ '' '' @ binop_type_str t @ '' '' @ fmt_and_or_list right"
| "fmt_command_list (CommandList aol ampersand sp) =
     fmt_and_or_list aol @ (if ampersand then '' &'' else '';'')"
| "fmt_program (Program body) = join '' '' (map fmt_command_list body)"

definition mrsh_node_format :: "mrsh_node \<Rightarrow> cstring" where
  "mrsh_node_format node =
     (case node of
        NodeProgram p \<Rightarrow> fmt_program p
      | NodeCommandList l \<Rightarrow> fmt_command_list l
      | NodeAndOrList a \<Rightarrow> fmt_and_or_list a
      | NodeCommand c \<Rightarrow> fmt_command c
      | NodeWord w \<Rightarrow> fmt_word w)"

section \<open>The traversal\<close>

text \<open>
  \<open>mrsh_node_for_each\<close> calls its iterator on a node and then on the nodes below it, in this order.
  Redirections, assignments and case items are not visited.
\<close>

primrec visit_word :: "mrsh_word \<Rightarrow> mrsh_node list"
  and visit_redirect :: "mrsh_io_redirect \<Rightarrow> mrsh_node list"
  and visit_assignment :: "mrsh_assignment \<Rightarrow> mrsh_node list"
  and visit_command :: "mrsh_command \<Rightarrow> mrsh_node list"
  and visit_case_item :: "mrsh_case_item \<Rightarrow> mrsh_node list"
  and visit_and_or_list :: "mrsh_and_or_list \<Rightarrow> mrsh_node list"
  and visit_command_list :: "mrsh_command_list \<Rightarrow> mrsh_node list"
  and visit_program :: "mrsh_program \<Rightarrow> mrsh_node list" where
  "visit_word (WString str q sf r) = [NodeWord (WString str q sf r)]"
| "visit_word (WParameter name op colon arg ps) =
     NodeWord (WParameter name op colon arg ps) #
     (case map_option visit_word arg of None \<Rightarrow> [] | Some v \<Rightarrow> v)"
| "visit_word (WCommand prog bq r) =
     NodeWord (WCommand prog bq r) # (case map_option visit_program prog of None \<Rightarrow> [] | Some v \<Rightarrow> v)"
| "visit_word (WArithmetic body) = NodeWord (WArithmetic body) # visit_word body"
| "visit_word (WList children dq l r) =
     NodeWord (WList children dq l r) # concat (map visit_word children)"
| "visit_redirect (IoRedirect n op name here np opr) = []"
| "visit_assignment (Assignment name v nr eq) = []"
| "visit_command (SimpleCommand name arguments io_redirects assignments) =
     NodeCommand (SimpleCommand name arguments io_redirects assignments) #
     (case map_option visit_word name of None \<Rightarrow> [] | Some v \<Rightarrow> v) @ concat (map visit_word arguments)"
| "visit_command (BraceGroup body lb rb) =
     NodeCommand (BraceGroup body lb rb) # concat (map visit_command_list body)"
| "visit_command (Subshell body lp rp) =
     NodeCommand (Subshell body lp rp) # concat (map visit_command_list body)"
| "visit_command (IfClause cond body els if_r then_r fi_r else_r) =
     NodeCommand (IfClause cond body els if_r then_r fi_r else_r) #
     concat (map visit_command_list cond) @ concat (map visit_command_list body) @
     (case map_option visit_command els of None \<Rightarrow> [] | Some v \<Rightarrow> v)"
| "visit_command (ForClause name inn ws body for_r name_r do_r done_r in_r) =
     NodeCommand (ForClause name inn ws body for_r name_r do_r done_r in_r) #
     concat (map visit_word ws) @ concat (map visit_command_list body)"
| "visit_command (LoopClause t cond body wu_r do_r done_r) =
     NodeCommand (LoopClause t cond body wu_r do_r done_r) #
     concat (map visit_command_list cond) @ concat (map visit_command_list body)"
| "visit_command (CaseClause w items case_r in_r esac_r) =
     NodeCommand (CaseClause w items case_r in_r esac_r) # visit_word w"
| "visit_command (FunctionDefinition name body redirs name_r lp rp) =
     NodeCommand (FunctionDefinition name body redirs name_r lp rp) # visit_command body"
| "visit_case_item (CaseItem patterns body lp rp dr) = []"
| "visit_and_or_list (Pipeline commands bang bp) =
     NodeAndOrList (Pipeline commands bang bp) # concat (map visit_command commands)"
| "visit_and_or_list (Binop t left right op_r) =
     NodeAndOrList (Binop t left right op_r) # visit_and_or_list left @ visit_and_or_list right"
| "visit_command_list (CommandList aol ampersand sp) =
     NodeCommandList (CommandList aol ampersand sp) # visit_and_or_list aol"
| "visit_program (Program body) = NodeProgram (Program body) # concat (map visit_command_list body)"

definition visit_node :: "mrsh_node \<Rightarrow> mrsh_node list" where
  "visit_node node =
     (case node of
        NodeProgram p \<Rightarrow> visit_program p
      | NodeCommandList l \<Rightarrow> visit_command_list l
      | NodeAndOrList a \<Rightarrow> visit_and_or_list a
      | NodeCommand c \<Rightarrow> visit_command c
      | NodeWord w \<Rightarrow> visit_word w)"

definition mrsh_node_for_each :: "mrsh_node \<Rightarrow> (mrsh_node \<Rightarrow> 's \<Rightarrow> 's) \<Rightarrow> 's \<Rightarrow> 's" where
  "mrsh_node_for_each node iterator s = fold iterator (visit_node node) s"

section \<open>Facts about copies\<close>

lemmas create_defs =
  mrsh_word_string_create_def mrsh_word_parameter_create_def mrsh_word_command_create_def
  mrsh_word_arithmetic_create_def mrsh_word_list_create_def

lemma word_str_copy: "mrsh_word_copy w = Some w' \<Longrightarrow> word_str w' = word_str w"
proof (induction w arbitrary: w' rule: word_induct)
  case (WList children dq l r)
  then obtain cs where cs: "those (map mrsh_word_copy children) = Some cs"
    and w': "w' = mrsh_word_list_create cs dq"
    by auto
  have "map word_str cs = map word_str children"
    by (rule those_map_transfer [OF cs]) (use WList.IH in auto)
  with w' show ?case by (simp add: create_defs)
qed (auto simp: create_defs split: option.splits)

text \<open>Every position of a copied parameter is zero.\<close>

lemma copy_parameter_positions:
  "mrsh_word_copy (WParameter name op colon arg ps) = Some w' \<Longrightarrow>
    \<exists>arg'. w' = WParameter name op colon arg' param_positions_zero"
  by (auto simp: create_defs split: option.splits)

lemma copy_list:
  assumes "those (map f xs) = Some ys"
    and "\<And>x. x \<in> set xs \<Longrightarrow> \<forall>y. f x = Some y \<longrightarrow> g y = g x"
  shows "map g ys = map g xs"
  by (rule those_map_transfer [OF assms(1)]) (use assms(2) in blast)

lemmas copy_lists =
  copy_list [where f = mrsh_word_copy and g = fmt_word]
  copy_list [where f = mrsh_command_list_copy and g = fmt_command_list]
  copy_list [where f = mrsh_command_copy and g = fmt_command]

text \<open>Formatting a copy gives the text of the original.\<close>

lemma format_copy:
  fixes w :: mrsh_word and rd :: mrsh_io_redirect and asg :: mrsh_assignment and c :: mrsh_command
    and ci :: mrsh_case_item and ao :: mrsh_and_or_list and cl :: mrsh_command_list and p :: mrsh_program
  shows "\<forall>w'. mrsh_word_copy w = Some w' \<longrightarrow> fmt_word w' = fmt_word w"
    and "\<forall>rd'. mrsh_io_redirect_copy rd = Some rd' \<longrightarrow> fmt_redirect rd' = fmt_redirect rd"
    and "\<forall>asg'. mrsh_assignment_copy asg = Some asg' \<longrightarrow> fmt_assignment asg' = fmt_assignment asg"
    and "\<forall>c'. mrsh_command_copy c = Some c' \<longrightarrow> fmt_command c' = fmt_command c"
    and "\<forall>ci'. case_item_copy ci = Some ci' \<longrightarrow> fmt_case_item ci' = fmt_case_item ci"
    and "\<forall>ao'. mrsh_and_or_list_copy ao = Some ao' \<longrightarrow> fmt_and_or_list ao' = fmt_and_or_list ao"
    and "\<forall>cl'. mrsh_command_list_copy cl = Some cl' \<longrightarrow> fmt_command_list cl' = fmt_command_list cl"
    and "\<forall>p'. mrsh_program_copy p = Some p' \<longrightarrow> fmt_program p' = fmt_program p"
proof (induction w and rd and asg and c and ci and ao and cl and p rule: ast_induct)
qed (auto simp: create_defs bind_eq_Some_conv dest!: copy_lists split: option.splits)

section \<open>Properties\<close>

text \<open>A deep copy has the text of its original: jobs print, and functions and loops run, copies.\<close>

theorem copy_formats_alike:
  "mrsh_node_copy n = Some n' \<Longrightarrow> mrsh_node_format n' = mrsh_node_format n"
  by (cases n) (auto simp: mrsh_node_copy_def mrsh_node_format_def format_copy)

theorem copy_formats_alike_witness:
  "\<exists>n'. mrsh_node_copy (NodeWord (WList [WString ''a'' True True range_zero] True position_zero position_zero)) =
      Some n' \<and> mrsh_node_format n' = [DQUOTE, SQUOTE, CHR ''a'', SQUOTE, DQUOTE]"
proof -
  let ?n = "NodeWord (WList [WString ''a'' True True range_zero] True position_zero position_zero)"
  obtain n' where n': "mrsh_node_copy ?n = Some n'"
    by (simp add: mrsh_node_copy_def)
  show ?thesis
    using copy_formats_alike [OF n'] n' by (auto simp: mrsh_node_format_def)
qed

end
