(* ===== verification/Clib.thy ===== *)
theory Clib
  imports Prelude
begin

text \<open>
  The numeric conversions of the C standard library that the shell calls, for a 64-bit
  \<open>long\<close> (\<open>strtol\<close>, \<open>strtod\<close> followed by a conversion to \<open>long\<close>, and the \<open>%d\<close>, \<open>%ld\<close> and
  \<open>%04o\<close> conversions of \<open>printf\<close>). Nothing here is code of the repository: these are the
  documented meanings its source relies on, written out so that the models of the callers compute.
  A \<open>long\<close> is an \<open>int\<close> in \<open>LONG_MIN .. LONG_MAX\<close>; the operations that can leave that range
  say what C says of them.
\<close>

definition LONG_MIN :: int where "LONG_MIN = - 9223372036854775808"
definition LONG_MAX :: int where "LONG_MAX = 9223372036854775807"
definition INT_MAX :: int where "INT_MAX = 2147483647"

definition in_long :: "int \<Rightarrow> bool" where
  "in_long n \<longleftrightarrow> LONG_MIN \<le> n \<and> n \<le> LONG_MAX"

text \<open>The conversion of a \<open>long\<close> to an \<open>int\<close>: modulo 2^32, as GCC and Clang define it.\<close>

definition int_of_long :: "int \<Rightarrow> int" where
  "int_of_long n = (n + 2147483648) mod 4294967296 - 2147483648"

lemma int_of_long_small: "- 2147483648 \<le> n \<Longrightarrow> n \<le> 2147483647 \<Longrightarrow> int_of_long n = n"
  by (simp add: int_of_long_def)

section \<open>Printing numbers\<close>

definition digit_char :: "nat \<Rightarrow> char" where
  "digit_char k = char_of (48 + k)"

fun show_base :: "nat \<Rightarrow> nat \<Rightarrow> cstring" where
  "show_base b n = (if n < b \<or> b < 2 then [digit_char (n mod 10)]
     else show_base b (n div b) @ [digit_char (n mod b)])"

declare show_base.simps [simp del]

definition fmt_d :: "int \<Rightarrow> cstring" where
  "fmt_d n = (if n < 0 then CHR ''-'' # show_base 10 (nat (- n)) else show_base 10 (nat n))"

definition fmt_04o :: "nat \<Rightarrow> cstring" where
  "fmt_04o n = (let s = show_base 8 n in replicate (4 - length s) (CHR ''0'') @ s)"

lemma char_code_digit: "k < 10 \<Longrightarrow> char_code (digit_char k) = 48 + k"
  by (simp add: char_code_def digit_char_def of_char_of)

lemma is_digit_digit_char: "k < 10 \<Longrightarrow> is_digit (digit_char k)"
  by (simp add: is_digit_def char_code_digit)

lemma show_base_small: "n < b \<Longrightarrow> show_base b n = [digit_char (n mod 10)]"
  by (subst show_base.simps) simp

lemma show_base_step:
  "\<not> n < b \<Longrightarrow> 2 \<le> b \<Longrightarrow> show_base b n = show_base b (n div b) @ [digit_char (n mod b)]"
  by (subst show_base.simps) simp

lemma show_base_10_digits: "c \<in> set (show_base 10 n) \<Longrightarrow> is_digit c"
proof (induction n rule: less_induct)
  case (less n)
  show ?case
  proof (cases "n < 10")
    case True
    with less.prems show ?thesis
      by (simp add: show_base_small is_digit_digit_char)
  next
    case False
    then have "n div 10 < n" by simp
    from less.IH [OF this] less.prems False show ?thesis
      by (auto simp: show_base_step is_digit_digit_char)
  qed
qed

lemma show_base_nonempty: "show_base b n \<noteq> []"
  by (subst show_base.simps) simp

section \<open>strtol\<close>

definition digit_val :: "char \<Rightarrow> nat" where
  "digit_val c = (if is_digit c then char_code c - 48
     else if is_lower c then char_code c - 87
     else if is_upper c then char_code c - 55
     else 36)"

definition number_of :: "nat \<Rightarrow> cstring \<Rightarrow> nat" where
  "number_of b ds = foldl (\<lambda>n c. n * b + digit_val c) 0 ds"

definition is_base_digit :: "nat \<Rightarrow> char \<Rightarrow> bool" where
  "is_base_digit b c \<longleftrightarrow> digit_val c < b"

text \<open>The sign and the \<open>0\<close>/\<open>0x\<close> prefixes; base 0 asks for the base to be read off the prefix.\<close>

definition split_sign :: "cstring \<Rightarrow> bool \<times> cstring" where
  "split_sign s = (case s of [] \<Rightarrow> (False, [])
     | c # t \<Rightarrow> if c = CHR ''-'' then (True, t) else if c = CHR ''+'' then (False, t) else (False, s))"

definition has_hex_prefix :: "cstring \<Rightarrow> bool" where
  "has_hex_prefix s \<longleftrightarrow> char_at s 0 = CHR ''0'' \<and>
     (char_at s 1 = CHR ''x'' \<or> char_at s 1 = CHR ''X'') \<and> is_base_digit 16 (char_at s 2)"

definition split_base :: "nat \<Rightarrow> cstring \<Rightarrow> nat \<times> cstring" where
  "split_base base s =
     (if (base = 0 \<or> base = 16) \<and> has_hex_prefix s then (16, drop 2 s)
      else if base = 0 then (if char_at s 0 = CHR ''0'' then 8 else 10, s)
      else (base, s))"

text \<open>\<open>strtol str &end base\<close>: the value, the text at \<open>*end\<close>, and whether \<open>errno\<close> became \<open>ERANGE\<close>.\<close>

definition strtol :: "nat \<Rightarrow> cstring \<Rightarrow> int \<times> cstring \<times> bool" where
  "strtol base s =
     (let (neg, t) = split_sign (dropWhile is_space s);
          (b, u) = split_base base t;
          ds = takeWhile (is_base_digit b) u;
          n = int (number_of b ds);
          v = (if neg then - n else n)
      in if ds = [] then (0, s, False)
         else if v < LONG_MIN then (LONG_MIN, drop (length ds) u, True)
         else if LONG_MAX < v then (LONG_MAX, drop (length ds) u, True)
         else (v, drop (length ds) u, False))"

lemma number_of_snoc: "number_of b (ds @ [c]) = number_of b ds * b + digit_val c"
  by (simp add: number_of_def)

lemma digit_val_digit_char: "k < 10 \<Longrightarrow> digit_val (digit_char k) = k"
  by (simp add: digit_val_def is_digit_digit_char char_code_digit)

lemma number_of_show_base: "number_of 10 (show_base 10 n) = n"
proof (induction n rule: less_induct)
  case (less n)
  show ?case
  proof (cases "n < 10")
    case True
    then show ?thesis
      by (subst show_base.simps) (simp add: number_of_def digit_val_digit_char)
  next
    case False
    then have "n div 10 < n" by simp
    then have "number_of 10 (show_base 10 (n div 10)) = n div 10"
      by (rule less)
    with False show ?thesis
      by (subst show_base.simps) (simp add: number_of_snoc digit_val_digit_char)
  qed
qed

lemma digit_is_base_digit: "is_digit c \<Longrightarrow> is_base_digit 10 c"
  by (auto simp: is_base_digit_def digit_val_def is_digit_def)

lemma not_base_digit_NUL: "b \<le> 36 \<Longrightarrow> \<not> is_base_digit b NUL"
  by (simp add: is_base_digit_def digit_val_def char_simps)

lemma split_sign_digit: "is_digit c \<Longrightarrow> split_sign (c # s) = (False, c # s)"
  by (auto simp: split_sign_def char_simps)

lemma takeWhile_digits:
  "takeWhile (is_base_digit 10) (show_base 10 n) = show_base 10 n"
  by (rule takeWhile_all) (blast intro: digit_is_base_digit dest: show_base_10_digits)

text \<open>Reading back what \<open>%ld\<close> printed gives the number, with nothing left over.\<close>

lemma strtol_fmt_d:
  assumes "in_long n"
  shows "strtol 10 (fmt_d n) = (n, [], False)"
proof -
  obtain c s where cs: "show_base 10 (nat \<bar>n\<bar>) = c # s"
    by (cases "show_base 10 (nat \<bar>n\<bar>)") (auto simp: show_base_nonempty)
  then have c: "is_digit c"
    by (metis list.set_intros(1) show_base_10_digits)
  have tw: "takeWhile (is_base_digit 10) (c # s) = c # s"
    using takeWhile_digits [of "nat \<bar>n\<bar>"] cs by metis
  have num: "number_of 10 (c # s) = nat \<bar>n\<bar>"
    using number_of_show_base [of "nat \<bar>n\<bar>"] cs by metis
  have minus: "\<not> is_space (CHR ''-'')"
    by (simp add: char_simps)
  show ?thesis
  proof (cases "n < 0")
    case True
    then have "fmt_d n = CHR ''-'' # c # s"
      using cs by (simp add: fmt_d_def)
    moreover have "split_sign (CHR ''-'' # c # s) = (True, c # s)"
      by (simp add: split_sign_def)
    ultimately show ?thesis
      using True assms
      by (simp add: strtol_def Let_def split_base_def tw num minus in_long_def del: takeWhile.simps)
  next
    case False
    then have "fmt_d n = c # s"
      using cs by (simp add: fmt_d_def)
    then show ?thesis
      using False assms
      by (simp add: strtol_def Let_def split_base_def tw num c split_sign_digit in_long_def
          is_digit_not_space del: takeWhile.simps)
  qed
qed

lemma strtol_range: "fst (strtol b s) \<ge> LONG_MIN \<and> fst (strtol b s) \<le> LONG_MAX"
  by (auto simp: strtol_def Let_def LONG_MIN_def LONG_MAX_def split: prod.splits)

lemma fmt_d_nonempty: "fmt_d n \<noteq> []"
  by (simp add: fmt_d_def show_base_nonempty)

lemma fmt_d_cstr: "is_cstr (fmt_d n)"
proof -
  have "NUL \<notin> set (show_base 10 k)" for k
    using show_base_10_digits [of NUL k] by (auto simp: char_simps)
  then show ?thesis
    by (simp add: is_cstr_def fmt_d_def)
qed

lemma fmt_d_inj: "in_long m \<Longrightarrow> in_long n \<Longrightarrow> fmt_d m = fmt_d n \<Longrightarrow> m = n"
  by (metis strtol_fmt_d prod.inject)

end
