(* ===== verification/Jobs.thy ===== *)
theory Jobs
  imports Ast_Ops Clib
begin

text \<open>
  Child processes and jobs: \<open>shell/process.c\<close> and \<open>shell/job.c\<close>.

  A process object is shared by the shell's list of processes and by a job, and it is updated
  through the one and read through the other. The objects therefore live in a store, from
  identities (\<open>nat\<close>) to records, and the two lists hold identities. The results of
  \<open>waitpid\<close> are the events of \<open>js_events\<close>, one per call, in order; the calls on the terminal that
  only matter to it (\<open>tcgetattr\<close>, \<open>tcsetattr\<close>) are left out, and the process group that owns the
  terminal is \<open>js_term_pgrp\<close>. Wait statuses have the encoding of Linux.
\<close>

definition TASK_STATUS_WAIT :: int where "TASK_STATUS_WAIT = - 1"
definition TASK_STATUS_ERROR :: int where "TASK_STATUS_ERROR = - 2"
definition TASK_STATUS_STOPPED :: int where "TASK_STATUS_STOPPED = - 3"
definition TASK_STATUS_INTERRUPTED :: int where "TASK_STATUS_INTERRUPTED = - 4"

lemmas task_status_defs =
  TASK_STATUS_WAIT_def TASK_STATUS_ERROR_def TASK_STATUS_STOPPED_def TASK_STATUS_INTERRUPTED_def

section \<open>Wait statuses\<close>

definition WIFEXITED :: "nat \<Rightarrow> bool" where "WIFEXITED s \<longleftrightarrow> s mod 128 = 0"
definition WEXITSTATUS :: "nat \<Rightarrow> nat" where "WEXITSTATUS s = s div 256 mod 256"
definition WIFSIGNALED :: "nat \<Rightarrow> bool" where "WIFSIGNALED s \<longleftrightarrow> s mod 128 \<noteq> 0 \<and> s mod 128 \<noteq> 127"
definition WIFSTOPPED :: "nat \<Rightarrow> bool" where "WIFSTOPPED s \<longleftrightarrow> s mod 256 = 127"
definition WSTOPSIG :: "nat \<Rightarrow> nat" where "WSTOPSIG s = s div 256 mod 256"

lemmas wait_macros =
  WIFEXITED_def WEXITSTATUS_def WIFSIGNALED_def WIFSTOPPED_def WSTOPSIG_def

text \<open>What \<open>waitpid\<close> can report of a child without \<open>WCONTINUED\<close>: it exited, was killed or stopped.\<close>

definition reported_status :: "nat \<Rightarrow> bool" where
  "reported_status s \<longleftrightarrow> WIFEXITED s \<or> WIFSIGNALED s \<or> WIFSTOPPED s"

lemma wait_kinds_exclusive:
  "WIFSTOPPED s \<Longrightarrow> \<not> WIFEXITED s \<and> \<not> WIFSIGNALED s"
proof -
  assume "WIFSTOPPED s"
  then have "s mod 256 mod 128 = 127"
    by (simp add: WIFSTOPPED_def)
  moreover have "s mod 256 mod 128 = s mod 128"
    by (simp add: mod_mod_cancel)
  ultimately show ?thesis
    by (simp add: wait_macros)
qed

section \<open>Processes\<close>

record mrsh_process =
  pr_pid :: int
  pr_stopped :: bool
  pr_terminated :: bool
  pr_stat :: nat
  pr_signal :: nat

record mrsh_job =
  jb_key :: nat \<comment> \<open>the identity of the object, for pointer comparisons\<close>
  jb_node :: mrsh_node
  jb_pgid :: int
  jb_id :: int
  jb_processes :: "nat list"
  jb_pending :: bool
  jb_last_status :: int

datatype wait_event =
    EvNoStatus \<comment> \<open>0: no status yet (only with \<open>WNOHANG\<close>)\<close>
  | EvInterrupted \<comment> \<open>-1 with \<open>EINTR\<close>\<close>
  | EvFailed \<comment> \<open>-1 with another error\<close>
  | EvStatus nat

record jobs_state =
  js_store :: "nat \<Rightarrow> mrsh_process"
  js_next :: nat
  js_processes :: "nat list"
  js_jobs :: "mrsh_job list"
  js_foreground :: "nat option"
  js_job_control :: bool
  js_child :: bool
  js_pgid :: int
  js_term_pgrp :: int
  js_events :: "wait_event list"

definition process_create :: "int \<Rightarrow> jobs_state \<Rightarrow> nat \<times> jobs_state" where
  "process_create pid s =
     (js_next s,
      s\<lparr>js_store := (js_store s)(js_next s :=
            \<lparr>pr_pid = pid, pr_stopped = False, pr_terminated = False, pr_stat = 0, pr_signal = 0\<rparr>),
        js_next := Suc (js_next s),
        js_processes := js_processes s @ [js_next s]\<rparr>)"

definition process_destroy :: "nat \<Rightarrow> jobs_state \<Rightarrow> jobs_state" where
  "process_destroy proc s = s\<lparr>js_processes := remove1 proc (js_processes s)\<rparr>"

text \<open>\<open>None\<close>: the \<open>abort()\<close> of a status that is neither an exit nor a signal.\<close>

definition process_poll :: "mrsh_process \<Rightarrow> int option" where
  "process_poll proc =
     (if pr_stopped proc then Some TASK_STATUS_STOPPED
      else if \<not> pr_terminated proc then Some TASK_STATUS_WAIT
      else if WIFEXITED (pr_stat proc) then Some (int (WEXITSTATUS (pr_stat proc)))
      else if WIFSIGNALED (pr_stat proc) then Some 129
      else None)"

definition set_process_status :: "nat \<Rightarrow> mrsh_process \<Rightarrow> mrsh_process option" where
  "set_process_status stat proc =
     (if WIFEXITED stat \<or> WIFSIGNALED stat then Some (proc\<lparr>pr_terminated := True, pr_stat := stat\<rparr>)
      else if WIFSTOPPED stat then Some (proc\<lparr>pr_stopped := True, pr_signal := WSTOPSIG stat\<rparr>)
      else None)"

definition update_process :: "int \<Rightarrow> nat \<Rightarrow> jobs_state \<Rightarrow> jobs_state option" where
  "update_process pid stat s =
     (case find (\<lambda>p. pr_pid (js_store s p) = pid) (js_processes s) of
        None \<Rightarrow> Some s
      | Some p \<Rightarrow>
          map_option (\<lambda>proc. s\<lparr>js_store := (js_store s)(p := proc)\<rparr>)
            (set_process_status stat (js_store s p)))"

section \<open>Jobs\<close>

fun next_job_id :: "int \<Rightarrow> mrsh_job list \<Rightarrow> int" where
  "next_job_id i [] = i"
| "next_job_id i (job # jobs) = next_job_id (if i < jb_id job + 1 then jb_id job + 1 else i) jobs"

definition job_create :: "mrsh_node \<Rightarrow> jobs_state \<Rightarrow> (mrsh_job \<times> jobs_state) option" where
  "job_create node s =
     (case mrsh_node_copy node of
        None \<Rightarrow> None
      | Some copy \<Rightarrow>
          let job = \<lparr>jb_key = js_next s, jb_node = copy, jb_pgid = - 1,
                     jb_id = next_job_id 1 (js_jobs s), jb_processes = [], jb_pending = False,
                     jb_last_status = TASK_STATUS_WAIT\<rparr>
          in Some (job, s\<lparr>js_jobs := js_jobs s @ [job], js_next := Suc (js_next s)\<rparr>))"

definition update_job_object :: "nat \<Rightarrow> (mrsh_job \<Rightarrow> mrsh_job) \<Rightarrow> jobs_state \<Rightarrow> jobs_state" where
  "update_job_object key f s =
     s\<lparr>js_jobs := map (\<lambda>j. if jb_key j = key then f j else j) (js_jobs s)\<rparr>"

text \<open>The loop of \<open>job_poll\<close>: the status of the last process, and whether one was stopped.\<close>

fun job_poll_loop :: "int \<Rightarrow> bool \<Rightarrow> mrsh_process list \<Rightarrow> int option" where
  "job_poll_loop st stopped [] = Some (if stopped then TASK_STATUS_STOPPED else st)"
| "job_poll_loop st stopped (proc # procs) =
     (case process_poll proc of
        None \<Rightarrow> None
      | Some ps \<Rightarrow>
          if ps = TASK_STATUS_WAIT then Some TASK_STATUS_WAIT
          else job_poll_loop ps (stopped \<or> ps = TASK_STATUS_STOPPED) procs)"

definition job_poll :: "jobs_state \<Rightarrow> mrsh_job \<Rightarrow> int option" where
  "job_poll s job = job_poll_loop 0 False (map (js_store s) (jb_processes job))"

definition job_queue_notification :: "mrsh_job \<Rightarrow> jobs_state \<Rightarrow> jobs_state option" where
  "job_queue_notification job s =
     (case job_poll s job of
        None \<Rightarrow> None
      | Some status \<Rightarrow>
          Some (update_job_object (jb_key job)
            (\<lambda>j. j\<lparr>jb_pending := jb_pending j \<or>
                     (status \<noteq> jb_last_status job \<and> jb_pgid job > 0 \<and>
                      js_foreground s \<noteq> Some (jb_key job)),
                   jb_last_status := status\<rparr>) s))"

text \<open>
  \<open>setpgid\<close> reports by \<open>setpgid_ok\<close> whether it succeeded or failed with \<open>EPERM\<close>, which is fine.
\<close>

definition job_add_process :: "bool \<Rightarrow> mrsh_job \<Rightarrow> nat \<Rightarrow> jobs_state \<Rightarrow> jobs_state" where
  "job_add_process setpgid_ok job proc s =
     (let s = (if jb_pgid job \<le> 0
               then update_job_object (jb_key job) (\<lambda>j. j\<lparr>jb_pgid := pr_pid (js_store s proc)\<rparr>) s
               else s)
      in if \<not> setpgid_ok then s
         else update_job_object (jb_key job) (\<lambda>j. j\<lparr>jb_processes := jb_processes j @ [proc]\<rparr>) s)"

text \<open>
  \<open>job_set_foreground\<close>: \<open>kill_ok\<close> says whether sending \<open>SIGCONT\<close> to the group worked. \<open>None\<close> is a
  failed assertion.
\<close>

definition job_set_foreground ::
    "bool \<Rightarrow> mrsh_job \<Rightarrow> bool \<Rightarrow> bool \<Rightarrow> jobs_state \<Rightarrow> (bool \<times> jobs_state) option" where
  "job_set_foreground kill_ok job foreground cont s =
     (if \<not> jb_pgid job > 0 then None
      else if \<not> js_job_control s then Some (False, s)
      else case job_poll s job of
        None \<Rightarrow> None
      | Some status \<Rightarrow>
          let cont = (if status \<noteq> TASK_STATUS_STOPPED then False else cont);
              enter = (foreground \<and> js_foreground s \<noteq> Some (jb_key job));
              leave = (\<not> foreground \<and> js_foreground s = Some (jb_key job))
          in if enter \<and> js_foreground s \<noteq> None then None
             else
               let s1 = (if enter then s\<lparr>js_term_pgrp := jb_pgid job, js_foreground := Some (jb_key job)\<rparr>
                         else if leave then s\<lparr>js_term_pgrp := js_pgid s, js_foreground := None\<rparr>
                         else s)
               in if cont \<and> \<not> kill_ok then Some (False, s1)
                  else
                    let s2 = (if cont then s1\<lparr>js_store := (\<lambda>p. if p \<in> set (jb_processes job)
                                then (js_store s1 p)\<lparr>pr_stopped := False\<rparr> else js_store s1 p)\<rparr>
                              else s1)
                    in map_option (Pair True) (job_queue_notification job s2))"

definition job_destroy :: "mrsh_job \<Rightarrow> jobs_state \<Rightarrow> jobs_state option" where
  "job_destroy job s =
     (case (if js_foreground s = Some (jb_key job)
            then map_option snd (job_set_foreground True job False False s) else Some s) of
        None \<Rightarrow> None
      | Some s \<Rightarrow>
          let s = s\<lparr>js_jobs := filter (\<lambda>j. jb_key j \<noteq> jb_key job) (js_jobs s)\<rparr>
          in Some (fold process_destroy (jb_processes job) s))"

text \<open>The loop of \<open>update_job\<close> runs over the job objects, read afresh at each step.\<close>

fun update_jobs_loop :: "nat list \<Rightarrow> jobs_state \<Rightarrow> jobs_state option" where
  "update_jobs_loop [] s = Some s"
| "update_jobs_loop (key # keys) s =
     (case find (\<lambda>j. jb_key j = key) (js_jobs s) of
        None \<Rightarrow> update_jobs_loop keys s
      | Some job \<Rightarrow>
          (case job_poll s job of
             None \<Rightarrow> None
           | Some status \<Rightarrow>
               (case (if status \<ge> 0 then job_queue_notification job s else Some s) of
                  None \<Rightarrow> None
                | Some s1 \<Rightarrow>
                    (case find (\<lambda>j. jb_key j = key) (js_jobs s1) of
                       None \<Rightarrow> update_jobs_loop keys s1
                     | Some job1 \<Rightarrow>
                         if status \<noteq> TASK_STATUS_WAIT \<and> jb_pgid job1 > 0
                         then (case job_set_foreground True job1 False False s1 of
                                 None \<Rightarrow> None
                               | Some (_, s2) \<Rightarrow> update_jobs_loop keys s2)
                         else update_jobs_loop keys s1))))"

definition update_job :: "int \<Rightarrow> nat \<Rightarrow> jobs_state \<Rightarrow> jobs_state option" where
  "update_job pid stat s =
     (case update_process pid stat s of
        None \<Rightarrow> None
      | Some s1 \<Rightarrow>
          if \<not> js_job_control s1 then Some s1
          else update_jobs_loop (map jb_key (js_jobs s1)) s1)"

section \<open>Waiting\<close>

datatype 'a wait_result =
    WDone 'a
  | WBlocked \<comment> \<open>no event is left: the call has not returned\<close>
  | WAbort

text \<open>\<open>_job_wait\<close>: one status of the process, skipping interruptions. An option of \<open>WNOHANG\<close> allows
  the answer that there is none.\<close>

fun job_wait_events :: "bool \<Rightarrow> int \<Rightarrow> wait_event list \<Rightarrow> jobs_state \<Rightarrow> (bool \<times> jobs_state) wait_result" where
  "job_wait_events wnohang pid [] s = WBlocked"
| "job_wait_events wnohang pid (ev # evs) s =
     (case ev of
        EvNoStatus \<Rightarrow> if wnohang then WDone (True, s\<lparr>js_events := evs\<rparr>) else WAbort
      | EvInterrupted \<Rightarrow> job_wait_events wnohang pid evs s
      | EvFailed \<Rightarrow> WDone (False, s\<lparr>js_events := evs\<rparr>)
      | EvStatus stat \<Rightarrow>
          (case update_job pid stat (s\<lparr>js_events := evs\<rparr>) of
             None \<Rightarrow> WAbort
           | Some s' \<Rightarrow> WDone (True, s')))"

definition job_wait_1 :: "bool \<Rightarrow> int \<Rightarrow> jobs_state \<Rightarrow> (bool \<times> jobs_state) wait_result" where
  "job_wait_1 wnohang pid s =
     (if \<not> 0 < pid then WAbort else job_wait_events wnohang pid (js_events s) s)"

definition job_get_running_process :: "jobs_state \<Rightarrow> mrsh_job \<Rightarrow> nat option" where
  "job_get_running_process s job =
     find (\<lambda>p. process_poll (js_store s p) = Some TASK_STATUS_WAIT) (jb_processes job)"

text \<open>
  \<open>job_wait_process\<close> and \<open>job_wait\<close>. Each turn of a loop takes at least one event, so a fuel of one
  more than the events left is never used up (lemma \<open>job_wait_process_fuel\<close>).
\<close>

fun job_wait_process_loop :: "nat \<Rightarrow> nat \<Rightarrow> jobs_state \<Rightarrow> (int \<times> jobs_state) wait_result" where
  "job_wait_process_loop 0 proc s = WBlocked"
| "job_wait_process_loop (Suc fuel) proc s =
     (case process_poll (js_store s proc) of
        None \<Rightarrow> WAbort
      | Some status \<Rightarrow>
          if status \<noteq> TASK_STATUS_WAIT then WDone (status, s)
          else case job_wait_1 False (pr_pid (js_store s proc)) s of
            WBlocked \<Rightarrow> WBlocked
          | WAbort \<Rightarrow> WAbort
          | WDone (ok, s1) \<Rightarrow>
              if \<not> ok then WDone (TASK_STATUS_ERROR, s1)
              else job_wait_process_loop fuel proc s1)"

definition job_wait_process :: "nat \<Rightarrow> jobs_state \<Rightarrow> (int \<times> jobs_state) wait_result" where
  "job_wait_process proc s = job_wait_process_loop (Suc (length (js_events s))) proc s"

fun job_wait_loop :: "nat \<Rightarrow> nat \<Rightarrow> jobs_state \<Rightarrow> (int \<times> jobs_state) wait_result" where
  "job_wait_loop 0 key s = WBlocked"
| "job_wait_loop (Suc fuel) key s =
     (case find (\<lambda>j. jb_key j = key) (js_jobs s) of
        None \<Rightarrow> WAbort
      | Some job \<Rightarrow>
          (case job_poll s job of
             None \<Rightarrow> WAbort
           | Some status \<Rightarrow>
               if status \<noteq> TASK_STATUS_WAIT then WDone (status, s)
               else (case job_get_running_process s job of
                       None \<Rightarrow> WAbort
                     | Some p \<Rightarrow>
                         (case job_wait_1 False (pr_pid (js_store s p)) s of
                            WBlocked \<Rightarrow> WBlocked
                          | WAbort \<Rightarrow> WAbort
                          | WDone (ok, s1) \<Rightarrow>
                              if \<not> ok then WDone (TASK_STATUS_ERROR, s1)
                              else job_wait_loop fuel key s1))))"

definition job_wait :: "nat \<Rightarrow> jobs_state \<Rightarrow> (int \<times> jobs_state) wait_result" where
  "job_wait key s = job_wait_loop (Suc (length (js_events s))) key s"

fun refresh_jobs_loop :: "nat list \<Rightarrow> jobs_state \<Rightarrow> (bool \<times> jobs_state) wait_result" where
  "refresh_jobs_loop [] s = WDone (True, s)"
| "refresh_jobs_loop (key # keys) s =
     (case find (\<lambda>j. jb_key j = key) (js_jobs s) of
        None \<Rightarrow> refresh_jobs_loop keys s
      | Some job \<Rightarrow>
          (case job_get_running_process s job of
             None \<Rightarrow> refresh_jobs_loop keys s
           | Some p \<Rightarrow>
               (case job_wait_1 True (pr_pid (js_store s p)) s of
                  WBlocked \<Rightarrow> WBlocked
                | WAbort \<Rightarrow> WAbort
                | WDone (ok, s1) \<Rightarrow>
                    if \<not> ok then WDone (False, s1) else refresh_jobs_loop keys s1)))"

definition refresh_jobs_status :: "jobs_state \<Rightarrow> (bool \<times> jobs_state) wait_result" where
  "refresh_jobs_status s = refresh_jobs_loop (map jb_key (js_jobs s)) s"

section \<open>Looking jobs up\<close>

text \<open>The loops of \<open>job_by_id\<close>: the \<open>n\<close>th job, from the newest, that polls as \<open>status\<close>.\<close>

fun nth_polled :: "jobs_state \<Rightarrow> int \<Rightarrow> nat \<Rightarrow> mrsh_job list \<Rightarrow> mrsh_job option option" where
  "nth_polled s status n [] = Some None"
| "nth_polled s status n (job # jobs) =
     (case job_poll s job of
        None \<Rightarrow> None
      | Some st \<Rightarrow>
          if st = status
          then (if n = 0 then Some (Some job) else nth_polled s status (n - 1) jobs)
          else nth_polled s status n jobs)"

definition stopped_or_running :: "nat \<Rightarrow> jobs_state \<Rightarrow> mrsh_job option option" where
  "stopped_or_running n s =
     (case nth_polled s TASK_STATUS_STOPPED n (rev (js_jobs s)) of
        Some None \<Rightarrow> nth_polled s TASK_STATUS_WAIT n (rev (js_jobs s))
      | r \<Rightarrow> r)"

text \<open>
  \<open>job_by_id\<close>; the messages of the interactive mode are left out. The outer \<open>None\<close> is the abort of
  a poll.
\<close>

definition job_by_id :: "jobs_state \<Rightarrow> cstring \<Rightarrow> mrsh_job option option" where
  "job_by_id s spec =
     (if char_at spec 0 \<noteq> CHR ''%'' \<or> char_at spec 1 = NUL then Some None
      else if length spec = 2 \<and> (char_at spec 1 = CHR ''%'' \<or> char_at spec 1 = CHR ''+'')
      then stopped_or_running 0 s
      else if length spec = 2 \<and> char_at spec 1 = CHR ''-''
      then stopped_or_running 1 s
      else if is_digit (char_at spec 1) then
        (case strtol 10 (drop 1 spec) of
           (n, rest, _) \<Rightarrow>
             if rest \<noteq> [] then Some None
             else Some (find (\<lambda>j. jb_id j = int_of_long n) (js_jobs s)))
      else if char_at spec 1 = CHR ''?''
      then Some (find (\<lambda>j. strstr (mrsh_node_format (jb_node j)) (drop 2 spec) \<noteq> None) (js_jobs s))
      else Some (find (\<lambda>j. strstr (mrsh_node_format (jb_node j)) (drop 1 spec) = Some 0) (js_jobs s)))"

definition SIGSTOP :: nat where "SIGSTOP = 19"
definition SIGTTIN :: nat where "SIGTTIN = 21"
definition SIGTTOU :: nat where "SIGTTOU = 22"

text \<open>\<open>job_state_str\<close>; \<open>r\<close> is the caller's random choice.\<close>

definition job_state_str :: "jobs_state \<Rightarrow> mrsh_job \<Rightarrow> bool \<Rightarrow> cstring option" where
  "job_state_str s job r =
     (case job_poll s job of
        None \<Rightarrow> None
      | Some status \<Rightarrow>
          Some (if status = TASK_STATUS_WAIT then ''Running''
            else if status = TASK_STATUS_ERROR then ''Error''
            else if status = TASK_STATUS_STOPPED then
              (let base = (if r then ''Stopped'' else ''Suspended'') in
               case jb_processes job of
                 [] \<Rightarrow> base
               | p # _ \<Rightarrow>
                   let sig = pr_signal (js_store s p) in
                   if sig = SIGSTOP then base @ '' (SIGSTOP)''
                   else if sig = SIGTTIN then base @ '' (SIGTTIN)''
                   else if sig = SIGTTOU then base @ '' (SIGTTOU)''
                   else base)
            else
              (case jb_processes job of
                 [] \<Rightarrow> ''Done''
               | p # _ \<Rightarrow>
                   let stat = pr_stat (js_store s p) in
                   if stat \<noteq> 0 then ''Done('' @ fmt_d (int stat) @ '')'' else ''Done'')))"

text \<open>\<open>broadcast_sighup_to_jobs\<close>: the process groups that are sent \<open>SIGHUP\<close>, in order.\<close>

definition broadcast_sighup_to_jobs :: "jobs_state \<Rightarrow> int list option" where
  "broadcast_sighup_to_jobs s =
     (if \<not> js_job_control s then None
      else map_option concat
        (those (map (\<lambda>job. map_option (\<lambda>st. if st \<ge> 0 then [] else [jb_pgid job]) (job_poll s job))
          (js_jobs s))))"

section \<open>Invariants\<close>

definition process_ok :: "mrsh_process \<Rightarrow> bool" where
  "process_ok p \<longleftrightarrow> (pr_terminated p \<longrightarrow> WIFEXITED (pr_stat p) \<or> WIFSIGNALED (pr_stat p))"

definition processes_ok :: "jobs_state \<Rightarrow> bool" where
  "processes_ok s \<longleftrightarrow> (\<forall>p. process_ok (js_store s p))"

lemma process_poll_ok: "process_ok p \<Longrightarrow> \<exists>st. process_poll p = Some st"
  by (auto simp: process_poll_def process_ok_def)

lemma process_poll_range:
  "process_poll p = Some st \<Longrightarrow>
    st = TASK_STATUS_STOPPED \<or> st = TASK_STATUS_WAIT \<or> 0 \<le> st \<and> st \<le> 255"
  by (auto simp: process_poll_def wait_macros split: if_splits)

lemma set_process_status_ok:
  "reported_status stat \<Longrightarrow> process_ok p \<Longrightarrow>
    \<exists>p'. set_process_status stat p = Some p' \<and> process_ok p'"
  by (auto simp: set_process_status_def process_ok_def reported_status_def)

lemma update_process_ok:
  assumes "reported_status stat" "processes_ok s"
  obtains s' where "update_process pid stat s = Some s'" "processes_ok s'"
    "js_jobs s' = js_jobs s" "js_foreground s' = js_foreground s" "js_pgid s' = js_pgid s"
    "js_term_pgrp s' = js_term_pgrp s" "js_job_control s' = js_job_control s"
    "js_events s' = js_events s" "js_next s' = js_next s"
proof (cases "find (\<lambda>p. pr_pid (js_store s p) = pid) (js_processes s)")
  case None
  then show thesis
    using assms that [of s] by (simp add: update_process_def)
next
  case (Some p)
  obtain p' where "set_process_status stat (js_store s p) = Some p'" "process_ok p'"
    using set_process_status_ok assms by (metis processes_ok_def)
  with Some show thesis
    using assms(2) that [of "s\<lparr>js_store := (js_store s)(p := p')\<rparr>"]
    by (simp add: update_process_def processes_ok_def)
qed

text \<open>What \<open>job_poll\<close> says of a job.\<close>

lemma job_poll_loop_spec:
  assumes "\<forall>p \<in> set ps. process_ok p"
  shows "job_poll_loop st stopped ps = Some
    (if \<exists>p \<in> set ps. process_poll p = Some TASK_STATUS_WAIT then TASK_STATUS_WAIT
     else if stopped \<or> (\<exists>p \<in> set ps. process_poll p = Some TASK_STATUS_STOPPED)
     then TASK_STATUS_STOPPED
     else if ps = [] then st else the (process_poll (last ps)))"
  using assms
proof (induction ps arbitrary: st stopped)
  case Nil
  then show ?case by simp
next
  case (Cons p ps)
  then obtain ps1 where ps1: "process_poll p = Some ps1"
    using process_poll_ok by fastforce
  with Cons show ?case
    by (auto simp: task_status_defs)
qed

lemma job_poll_spec:
  assumes "processes_ok s"
  shows "job_poll s job = Some
    (if \<exists>p \<in> set (jb_processes job). process_poll (js_store s p) = Some TASK_STATUS_WAIT
     then TASK_STATUS_WAIT
     else if \<exists>p \<in> set (jb_processes job). process_poll (js_store s p) = Some TASK_STATUS_STOPPED
     then TASK_STATUS_STOPPED
     else if jb_processes job = [] then 0
     else the (process_poll (js_store s (last (jb_processes job)))))"
proof -
  have "\<forall>p \<in> set (map (js_store s) (jb_processes job)). process_ok p"
    using assms by (simp add: processes_ok_def)
  from job_poll_loop_spec [OF this, of 0 False] show ?thesis
    by (simp add: job_poll_def last_map)
qed

lemma job_poll_ok: "processes_ok s \<Longrightarrow> \<exists>st. job_poll s job = Some st"
  by (simp add: job_poll_spec)

lemma job_poll_depends:
  "js_store s' = js_store s \<Longrightarrow> jb_processes job' = jb_processes job \<Longrightarrow>
    job_poll s' job' = job_poll s job"
  by (simp add: job_poll_def)

text \<open>The numbers of jobs: a new job's number is larger than every other.\<close>

lemma next_job_id_ge: "i \<le> next_job_id i jobs \<and> (\<forall>j \<in> set jobs. jb_id j < next_job_id i jobs)"
proof (induction jobs arbitrary: i)
  case Nil
  then show ?case by simp
next
  case (Cons j jobs)
  from Cons [of "if i < jb_id j + 1 then jb_id j + 1 else i"] show ?case
    by auto
qed

definition job_ids_ok :: "jobs_state \<Rightarrow> bool" where
  "job_ids_ok s \<longleftrightarrow> distinct (map jb_id (js_jobs s)) \<and> (\<forall>i \<in> set (map jb_id (js_jobs s)). 1 \<le> i) \<and>
     distinct (map jb_key (js_jobs s)) \<and> (\<forall>k \<in> set (map jb_key (js_jobs s)). k < js_next s)"

lemma job_create_ids:
  assumes "job_create node s = Some (job, s')" "job_ids_ok s"
  shows "job_ids_ok s'" "jb_id job \<notin> jb_id ` set (js_jobs s)" "js_jobs s' = js_jobs s @ [job]"
proof -
  from assms(1) have job: "jb_key job = js_next s" "jb_id job = next_job_id 1 (js_jobs s)"
    and s': "s' = s\<lparr>js_jobs := js_jobs s @ [job], js_next := Suc (js_next s)\<rparr>"
    by (auto simp: job_create_def Let_def split: option.splits)
  have "\<forall>j \<in> set (js_jobs s). jb_id j < jb_id job" "1 \<le> jb_id job"
    using next_job_id_ge [of 1 "js_jobs s"] job by auto
  with assms(2) job s' show "job_ids_ok s'" "jb_id job \<notin> jb_id ` set (js_jobs s)"
    "js_jobs s' = js_jobs s @ [job]"
    by (auto simp: job_ids_ok_def less_Suc_eq)
qed

text \<open>The part of a job that notifications leave alone.\<close>

definition job_core :: "mrsh_job \<Rightarrow> nat \<times> mrsh_node \<times> int \<times> int \<times> nat list" where
  "job_core j = (jb_key j, jb_node j, jb_pgid j, jb_id j, jb_processes j)"

lemma job_core_maps:
  "map job_core js' = map job_core js \<Longrightarrow> map jb_key js' = map jb_key js \<and> map jb_id js' = map jb_id js"
proof -
  assume eq: "map job_core js' = map job_core js"
  have "map (fst \<circ> job_core) js' = map (fst \<circ> job_core) js"
    "map ((fst \<circ> snd \<circ> snd \<circ> snd) \<circ> job_core) js' = map ((fst \<circ> snd \<circ> snd \<circ> snd) \<circ> job_core) js"
    using eq by (simp_all only: map_map [symmetric])
  then show ?thesis
    by (simp add: comp_def job_core_def)
qed

lemma job_core_member:
  assumes "map job_core js' = map job_core js" "j' \<in> set js'"
  obtains j where "j \<in> set js" "job_core j = job_core j'"
proof -
  have "job_core j' \<in> job_core ` set js"
    using assms by (metis imageI list.set_map)
  then show thesis using that by auto
qed

lemma job_core_poll:
  "js_store s' = js_store s \<Longrightarrow> job_core j' = job_core j \<Longrightarrow> job_poll s' j' = job_poll s j"
  by (rule job_poll_depends) (simp_all add: job_core_def)

lemma job_queue_notification_spec:
  assumes "processes_ok s"
  obtains jobs' where "job_queue_notification job s = Some (s\<lparr>js_jobs := jobs'\<rparr>)"
    "map job_core jobs' = map job_core (js_jobs s)"
proof -
  obtain st where st: "job_poll s job = Some st"
    using job_poll_ok [OF assms] by blast
  let ?f = "\<lambda>j. j\<lparr>jb_pending := jb_pending j \<or> (st \<noteq> jb_last_status job \<and> jb_pgid job > 0 \<and>
    js_foreground s \<noteq> Some (jb_key job)), jb_last_status := st\<rparr>"
  show thesis
    by (rule that [of "map (\<lambda>j. if jb_key j = jb_key job then ?f j else j) (js_jobs s)"])
      (simp_all add: job_queue_notification_def st update_job_object_def job_core_def)
qed

definition term_ok :: "jobs_state \<Rightarrow> bool" where
  "term_ok s \<longleftrightarrow>
     (case js_foreground s of
        None \<Rightarrow> js_term_pgrp s = js_pgid s
      | Some k \<Rightarrow> \<exists>j \<in> set (js_jobs s). jb_key j = k \<and> js_term_pgrp s = jb_pgid j)"

definition jobs_inv :: "jobs_state \<Rightarrow> bool" where
  "jobs_inv s \<longleftrightarrow> processes_ok s \<and> job_ids_ok s \<and> (js_job_control s \<longrightarrow> term_ok s)"

lemma term_ok_core:
  assumes "term_ok s" "map job_core (js_jobs s') = map job_core (js_jobs s)"
    "js_foreground s' = js_foreground s" "js_term_pgrp s' = js_term_pgrp s" "js_pgid s' = js_pgid s"
  shows "term_ok s'"
proof (cases "js_foreground s")
  case None
  with assms show ?thesis by (simp add: term_ok_def)
next
  case (Some k)
  with assms(1) obtain j where j: "j \<in> set (js_jobs s)" "jb_key j = k" "js_term_pgrp s = jb_pgid j"
    by (auto simp: term_ok_def)
  obtain j' where "j' \<in> set (js_jobs s')" "job_core j' = job_core j"
    using job_core_member [OF assms(2) [symmetric] j(1)] by blast
  with Some j assms show ?thesis
    by (auto simp: term_ok_def job_core_def)
qed

lemma jobs_inv_core:
  assumes "jobs_inv s" "map job_core (js_jobs s') = map job_core (js_jobs s)"
    "js_foreground s' = js_foreground s" "js_term_pgrp s' = js_term_pgrp s" "js_pgid s' = js_pgid s"
    "js_job_control s' = js_job_control s" "processes_ok s'" "js_next s' = js_next s"
  shows "jobs_inv s'"
proof -
  have "job_ids_ok s'"
    using assms(1,8) job_core_maps [OF assms(2)] by (simp add: jobs_inv_def job_ids_ok_def)
  moreover have "js_job_control s' \<longrightarrow> term_ok s'"
    using assms(1,6) term_ok_core [OF _ assms(2-5)] by (auto simp: jobs_inv_def)
  ultimately show ?thesis
    using assms(7) by (simp add: jobs_inv_def)
qed

text \<open>Putting a job in the background.\<close>

lemma background_spec:
  assumes "jobs_inv s" "job \<in> set (js_jobs s)" "jb_pgid job > 0" "js_job_control s"
  obtains s' where "job_set_foreground True job False False s = Some (True, s')" "jobs_inv s'"
    "js_store s' = js_store s" "map job_core (js_jobs s') = map job_core (js_jobs s)"
    "js_foreground s' = (if js_foreground s = Some (jb_key job) then None else js_foreground s)"
    "js_job_control s'" "js_events s' = js_events s" "js_processes s' = js_processes s"
proof -
  obtain st where st: "job_poll s job = Some st"
    using job_poll_ok assms(1) by (auto simp: jobs_inv_def)
  let ?s1 = "if js_foreground s = Some (jb_key job)
    then s\<lparr>js_term_pgrp := js_pgid s, js_foreground := None\<rparr> else s"
  have ok: "processes_ok ?s1"
    using assms(1) by (simp add: jobs_inv_def processes_ok_def)
  obtain jobs' where q: "job_queue_notification job ?s1 = Some (?s1\<lparr>js_jobs := jobs'\<rparr>)"
    and core: "map job_core jobs' = map job_core (js_jobs ?s1)"
    by (rule job_queue_notification_spec [OF ok])
  have inv1: "jobs_inv ?s1"
    using assms(1) by (auto simp: jobs_inv_def processes_ok_def job_ids_ok_def term_ok_def)
  have inv: "jobs_inv (?s1\<lparr>js_jobs := jobs'\<rparr>)"
    by (rule jobs_inv_core [OF inv1]) (use core ok in \<open>simp_all add: processes_ok_def\<close>)
  have res: "job_set_foreground True job False False s = Some (True, ?s1\<lparr>js_jobs := jobs'\<rparr>)"
    using assms(3,4) st q by (auto simp: job_set_foreground_def Let_def split: if_splits)
  show thesis
    by (rule that [OF res inv]) (use core assms(4) in auto)
qed


text \<open>What the passes over the jobs after a status change leave alone.\<close>

definition quiet :: "jobs_state \<Rightarrow> jobs_state \<Rightarrow> bool" where
  "quiet s s' \<longleftrightarrow>
     js_store s' = js_store s \<and> js_processes s' = js_processes s \<and>
     map job_core (js_jobs s') = map job_core (js_jobs s) \<and>
     js_job_control s' = js_job_control s \<and> js_events s' = js_events s \<and>
     (js_foreground s' = js_foreground s \<or> js_foreground s' = None)"

lemma quiet_refl: "quiet s s"
  by (simp add: quiet_def)

lemma quiet_trans: "quiet s s' \<Longrightarrow> quiet s' s'' \<Longrightarrow> quiet s s''"
  by (auto simp: quiet_def)

text \<open>A job that owns the terminal after a pass is one that still runs.\<close>

definition fg_running :: "jobs_state \<Rightarrow> nat \<Rightarrow> bool" where
  "fg_running s k \<longleftrightarrow>
     (js_foreground s = Some k \<longrightarrow>
        (\<forall>j \<in> set (js_jobs s). jb_key j = k \<and> jb_pgid j > 0 \<longrightarrow> job_poll s j = Some TASK_STATUS_WAIT))"

lemma fg_running_quiet:
  assumes "fg_running s k" "quiet s s'"
  shows "fg_running s' k"
  unfolding fg_running_def
proof (intro impI ballI)
  fix j assume fg: "js_foreground s' = Some k" and j: "j \<in> set (js_jobs s')" "jb_key j = k \<and> jb_pgid j > 0"
  obtain j0 where j0: "j0 \<in> set (js_jobs s)" "job_core j0 = job_core j"
    using assms(2) j(1) by (auto simp: quiet_def elim: job_core_member)
  have "js_foreground s = Some k"
    using assms(2) fg by (auto simp: quiet_def)
  then have "job_poll s j0 = Some TASK_STATUS_WAIT"
    using assms(1) j0 j(2) by (auto simp: fg_running_def job_core_def)
  then show "job_poll s' j = Some TASK_STATUS_WAIT"
    using job_core_poll [of s' s j j0] assms(2) j0(2) by (simp add: quiet_def)
qed

lemma find_key:
  assumes "job_ids_ok s" "j \<in> set (js_jobs s)"
  shows "find (\<lambda>j'. jb_key j' = jb_key j) (js_jobs s) = Some j"
  using assms by (simp add: job_ids_ok_def find_distinct_key)

lemma update_jobs_step:
  assumes inv: "jobs_inv s" and jc: "js_job_control s"
  obtains s' where "update_jobs_loop (key # keys) s = update_jobs_loop keys s'"
    "jobs_inv s'" "quiet s s'" "fg_running s' key"
proof (cases "find (\<lambda>j. jb_key j = key) (js_jobs s)")
  case None
  then have "fg_running s key"
    by (auto simp: fg_running_def find_None_iff)
  with None inv show thesis
    by (intro that [of s]) (simp_all add: quiet_refl)
next
  case (Some job)
  then have job: "job \<in> set (js_jobs s)" "jb_key job = key"
    by (auto dest: find_key_member)
  have ok: "processes_ok s"
    using inv by (simp add: jobs_inv_def)
  obtain st where st: "job_poll s job = Some st"
    using job_poll_ok [OF ok] by blast
  obtain s1 where s1: "(if st \<ge> 0 then job_queue_notification job s else Some s) = Some s1"
    and q1: "quiet s s1" and inv1: "jobs_inv s1"
    and frame1: "js_foreground s1 = js_foreground s"
  proof (cases "st \<ge> 0")
    case True
    obtain jobs' where q: "job_queue_notification job s = Some (s\<lparr>js_jobs := jobs'\<rparr>)"
      and core: "map job_core jobs' = map job_core (js_jobs s)"
      by (rule job_queue_notification_spec [OF ok])
    have "jobs_inv (s\<lparr>js_jobs := jobs'\<rparr>)"
      by (rule jobs_inv_core [OF inv]) (use core ok in \<open>simp_all add: processes_ok_def\<close>)
    with True q core show thesis
      by (intro that [of "s\<lparr>js_jobs := jobs'\<rparr>"]) (simp_all add: quiet_def)
  next
    case False
    with inv show thesis
      by (intro that [of s]) (simp_all add: quiet_refl)
  qed
  obtain job1 where job1: "job1 \<in> set (js_jobs s1)" "job_core job1 = job_core job"
    using q1 job(1) job_core_member [of "js_jobs s" "js_jobs s1" job] by (auto simp: quiet_def)
  have key1: "jb_key job1 = key" "jb_pgid job1 = jb_pgid job"
    using job1(2) job(2) by (auto simp: job_core_def)
  have find1: "find (\<lambda>j. jb_key j = key) (js_jobs s1) = Some job1"
    using find_key [of s1 job1] inv1 job1(1) key1 by (simp add: jobs_inv_def)
  have poll1: "job_poll s1 job1 = Some st"
    using job_core_poll [of s1 s job1 job] q1 job1(2) st by (simp add: quiet_def)
  have only: "j = job1" if "j \<in> set (js_jobs s1)" "jb_key j = key" for j
    using find_key [of s1 j] inv1 that find1 by (simp add: jobs_inv_def)
  show thesis
  proof (cases "st \<noteq> TASK_STATUS_WAIT \<and> jb_pgid job1 > 0")
    case True
    obtain s2 where s2: "job_set_foreground True job1 False False s1 = Some (True, s2)" "jobs_inv s2"
      "js_store s2 = js_store s1" "map job_core (js_jobs s2) = map job_core (js_jobs s1)"
      "js_foreground s2 = (if js_foreground s1 = Some (jb_key job1) then None else js_foreground s1)"
      "js_job_control s2" "js_events s2 = js_events s1" "js_processes s2 = js_processes s1"
      using background_spec [OF inv1 job1(1)] True jc q1 by (auto simp: quiet_def)
    have "quiet s1 s2"
      using s2 jc q1 by (auto simp: quiet_def)
    moreover have "fg_running s2 key"
      using s2(5) key1 by (auto simp: fg_running_def)
    ultimately show thesis
      using that [of s2] Some st s1 find1 True s2(1,2) quiet_trans [OF q1] by simp
  next
    case False
    then have "fg_running s1 key"
      using poll1 only by (auto simp: fg_running_def)
    then show thesis
      using that [of s1] Some st s1 find1 False inv1 q1 by auto
  qed
qed

lemma update_jobs_loop_ok:
  assumes "jobs_inv s" "js_job_control s"
  obtains s' where "update_jobs_loop keys s = Some s'" "jobs_inv s'" "quiet s s'"
    "\<forall>k \<in> set keys. fg_running s' k"
  using assms
proof (induction keys arbitrary: s thesis)
  case Nil
  from Nil(1) [of s] Nil(2) show ?case by (simp add: quiet_refl)
next
  case (Cons k keys)
  obtain s1 where s1: "update_jobs_loop (k # keys) s = update_jobs_loop keys s1"
    "jobs_inv s1" "quiet s s1" "fg_running s1 k"
    by (rule update_jobs_step [OF Cons.prems(2,3)])
  then have "js_job_control s1"
    using Cons.prems(3) by (simp add: quiet_def)
  then obtain s2 where s2: "update_jobs_loop keys s1 = Some s2" "jobs_inv s2" "quiet s1 s2"
    "\<forall>k \<in> set keys. fg_running s2 k"
    using Cons.IH [OF _ s1(2)] by blast
  show ?case
    by (rule Cons.prems(1) [OF _ s2(2) quiet_trans [OF s1(3) s2(3)]])
      (use s1 s2 fg_running_quiet in auto)
qed


definition fg_all_running :: "jobs_state \<Rightarrow> bool" where
  "fg_all_running s \<longleftrightarrow>
     (\<forall>j \<in> set (js_jobs s). js_foreground s = Some (jb_key j) \<and> jb_pgid j > 0 \<longrightarrow>
        job_poll s j = Some TASK_STATUS_WAIT)"

lemma update_job_ok:
  assumes "reported_status stat" "jobs_inv s"
  obtains s0 s' where "update_process pid stat s = Some s0" "update_job pid stat s = Some s'"
    "jobs_inv s'" "js_store s' = js_store s0" "js_events s' = js_events s"
    "map job_core (js_jobs s') = map job_core (js_jobs s)"
    "js_job_control s' = js_job_control s" "js_job_control s \<longrightarrow> fg_all_running s'"
    "js_processes s' = js_processes s0"
proof -
  have "processes_ok s"
    using assms(2) by (simp add: jobs_inv_def)
  then obtain s0 where s0: "update_process pid stat s = Some s0" "processes_ok s0"
    "js_jobs s0 = js_jobs s" "js_foreground s0 = js_foreground s" "js_pgid s0 = js_pgid s"
    "js_term_pgrp s0 = js_term_pgrp s" "js_job_control s0 = js_job_control s"
    "js_events s0 = js_events s" "js_next s0 = js_next s"
    by (rule update_process_ok [OF assms(1)])
  have inv0: "jobs_inv s0"
    by (rule jobs_inv_core [OF assms(2)]) (simp_all add: s0)
  show thesis
  proof (cases "js_job_control s")
    case False
    with s0 inv0 show thesis
      by (intro that [of s0 s0]) (simp_all add: update_job_def)
  next
    case True
    then have jc: "js_job_control s0" by (simp add: s0)
    obtain s' where s': "update_jobs_loop (map jb_key (js_jobs s0)) s0 = Some s'" "jobs_inv s'"
      "quiet s0 s'" "\<forall>k \<in> set (map jb_key (js_jobs s0)). fg_running s' k"
      by (rule update_jobs_loop_ok [OF inv0 jc])
    have "jb_key j \<in> set (map jb_key (js_jobs s0))" if "j \<in> set (js_jobs s')" for j
    proof -
      have "map jb_key (js_jobs s') = map jb_key (js_jobs s0)"
        using job_core_maps [of "js_jobs s'" "js_jobs s0"] s'(3) by (simp only: quiet_def simp_thms)
      moreover have "jb_key j \<in> set (map jb_key (js_jobs s'))"
        using that by simp
      ultimately show ?thesis
        by (simp only:)
    qed
    then have "fg_running s' (jb_key j)" if "j \<in> set (js_jobs s')" for j
      using that s'(4) by blast
    then have "fg_all_running s'"
      unfolding fg_all_running_def fg_running_def by blast
    moreover have "update_job pid stat s = Some s'"
      using s0(1) s'(1) jc by (simp add: update_job_def)
    ultimately show thesis
      using that [OF s0(1) _ s'(2)] s'(3) s0 by (simp add: quiet_def)
  qed
qed

section \<open>Waiting returns\<close>

text \<open>
  Both waiting loops poll, take one wait status from the kernel, and start again. The locale is
  that shape; what is to be known of a turn is that it uses up a part of the input.
\<close>

locale wait_loop =
  fixes poll :: "'s \<Rightarrow> int option"
    and turn :: "'s \<Rightarrow> (bool \<times> 's) wait_result"
    and loop :: "nat \<Rightarrow> 's \<Rightarrow> (int \<times> 's) wait_result"
    and todo :: "'s \<Rightarrow> nat"
    and inv :: "'s \<Rightarrow> bool"
  assumes loop_Suc: "loop (Suc n) s =
      (case poll s of None \<Rightarrow> WAbort
       | Some status \<Rightarrow>
           if status \<noteq> TASK_STATUS_WAIT then WDone (status, s)
           else case turn s of
             WBlocked \<Rightarrow> WBlocked
           | WAbort \<Rightarrow> WAbort
           | WDone (ok, s1) \<Rightarrow> if \<not> ok then WDone (TASK_STATUS_ERROR, s1) else loop n s1)"
    and poll_some: "inv s \<Longrightarrow> \<exists>status. poll s = Some status"
    and turn_ok: "inv s \<Longrightarrow> poll s = Some TASK_STATUS_WAIT \<Longrightarrow>
      turn s = WBlocked \<or> (\<exists>ok s1. turn s = WDone (ok, s1) \<and> inv s1 \<and> todo s1 < todo s)"
begin

lemma fuel_enough: "inv s \<Longrightarrow> todo s < n \<Longrightarrow> todo s < m \<Longrightarrow> loop n s = loop m s"
proof (induction n arbitrary: m s)
  case 0
  then show ?case by simp
next
  case (Suc n)
  then obtain m' where m: "m = Suc m'"
    by (cases m) auto
  obtain st where st: "poll s = Some st"
    using poll_some [OF Suc.prems(1)] by blast
  show ?case
  proof (cases "st = TASK_STATUS_WAIT")
    case False
    with st show ?thesis by (simp add: loop_Suc m)
  next
    case True
    with turn_ok [OF Suc.prems(1)] st consider "turn s = WBlocked"
      | ok s1 where "turn s = WDone (ok, s1)" "inv s1" "todo s1 < todo s"
      by blast
    then show ?thesis
    proof cases
      case 1
      with st True show ?thesis by (simp add: loop_Suc m)
    next
      case 2
      then have "loop n s1 = loop m' s1"
        using Suc.IH [of s1 m'] Suc.prems(2,3) m by simp
      with 2 st True show ?thesis by (simp add: loop_Suc m)
    qed
  qed
qed

lemma result:
  "inv s \<Longrightarrow> todo s < n \<Longrightarrow>
    loop n s = WBlocked \<or>
    (\<exists>status s'. loop n s = WDone (status, s') \<and> inv s' \<and> status \<noteq> TASK_STATUS_WAIT \<and>
       (poll s' = Some status \<or> status = TASK_STATUS_ERROR))"
proof (induction n arbitrary: s)
  case 0
  then show ?case by simp
next
  case (Suc n)
  obtain st where st: "poll s = Some st"
    using poll_some [OF Suc.prems(1)] by blast
  show ?case
  proof (cases "st = TASK_STATUS_WAIT")
    case False
    with st Suc.prems show ?thesis by (simp add: loop_Suc)
  next
    case True
    with turn_ok [OF Suc.prems(1)] st consider "turn s = WBlocked"
      | ok s1 where "turn s = WDone (ok, s1)" "inv s1" "todo s1 < todo s"
      by blast
    then show ?thesis
    proof cases
      case 1
      with st True show ?thesis by (simp add: loop_Suc)
    next
      case 2
      with Suc st True show ?thesis
        by (cases ok) (auto simp: loop_Suc task_status_defs)
    qed
  qed
qed

end

text \<open>What the kernel may answer to a blocking wait, and the pids \<open>fork\<close> gives.\<close>

definition event_ok :: "wait_event \<Rightarrow> bool" where
  "event_ok ev = (case ev of EvNoStatus \<Rightarrow> False | EvStatus st \<Rightarrow> reported_status st | _ \<Rightarrow> True)"

definition wait_inv :: "jobs_state \<Rightarrow> bool" where
  "wait_inv s \<longleftrightarrow> jobs_inv s \<and> (\<forall>ev \<in> set (js_events s). event_ok ev) \<and>
     (\<forall>p. pr_pid (js_store s p) > 0)"

lemma set_process_status_pid: "set_process_status st p = Some p' \<Longrightarrow> pr_pid p' = pr_pid p"
  by (auto simp: set_process_status_def split: if_splits)

lemma update_process_pid:
  "update_process pid st s = Some s' \<Longrightarrow> pr_pid (js_store s' p) = pr_pid (js_store s p)"
  by (auto simp: update_process_def set_process_status_pid split: option.splits)

lemma wait_inv_status:
  assumes "wait_inv s" "js_events s = evs0 @ EvStatus st # evs"
  obtains s0 s' where "update_process pid st (s\<lparr>js_events := evs\<rparr>) = Some s0"
    "update_job pid st (s\<lparr>js_events := evs\<rparr>) = Some s'"
    "wait_inv s'" "js_events s' = evs" "js_store s' = js_store s0"
    "map job_core (js_jobs s') = map job_core (js_jobs s)"
proof -
  have rep: "reported_status st"
    using assms by (auto simp: wait_inv_def event_ok_def)
  have inv: "jobs_inv (s\<lparr>js_events := evs\<rparr>)"
    using assms by (auto simp: wait_inv_def jobs_inv_def processes_ok_def job_ids_ok_def term_ok_def
        split: option.splits)
  obtain s0 s' where s': "update_process pid st (s\<lparr>js_events := evs\<rparr>) = Some s0"
    "update_job pid st (s\<lparr>js_events := evs\<rparr>) = Some s'" "jobs_inv s'"
    "js_store s' = js_store s0" "js_events s' = evs"
    "map job_core (js_jobs s') = map job_core (js_jobs s)"
    by (rule update_job_ok [OF rep inv, of pid]) auto
  then have "wait_inv s'"
    using assms update_process_pid [OF s'(1)] by (auto simp: wait_inv_def)
  with s' show thesis
    using that by blast
qed


lemma wait_inv_events: "wait_inv s \<Longrightarrow> set evs \<subseteq> set (js_events s) \<Longrightarrow> wait_inv (s\<lparr>js_events := evs\<rparr>)"
  by (auto simp: wait_inv_def jobs_inv_def processes_ok_def job_ids_ok_def term_ok_def split: option.splits)

lemma job_wait_events_ok:
  assumes "wait_inv s" "js_events s = evs0 @ evs"
  shows "job_wait_events False pid evs s = WBlocked \<or>
    (\<exists>ok s1. job_wait_events False pid evs s = WDone (ok, s1) \<and> wait_inv s1 \<and>
       length (js_events s1) < length evs \<and> map job_core (js_jobs s1) = map job_core (js_jobs s))"
  using assms
proof (induction evs arbitrary: evs0)
  case Nil
  then show ?case by simp
next
  case (Cons ev evs)
  have ok: "event_ok ev"
    using Cons.prems by (auto simp: wait_inv_def)
  show ?case
  proof (cases ev)
    case EvInterrupted
    then show ?thesis
      using Cons.IH [of "evs0 @ [ev]"] Cons.prems by (auto intro: less_SucI)
  next
    case EvFailed
    then show ?thesis
      using wait_inv_events [OF Cons.prems(1), of evs] Cons.prems by auto
  next
    case (EvStatus st)
    with Cons.prems obtain s' where "update_job pid st (s\<lparr>js_events := evs\<rparr>) = Some s'"
      "wait_inv s'" "js_events s' = evs" "map job_core (js_jobs s') = map job_core (js_jobs s)"
      using wait_inv_status [of s evs0 st evs pid] by metis
    with EvStatus show ?thesis by fastforce
  qed (use ok in \<open>simp add: event_ok_def\<close>)
qed

definition process_turn :: "nat \<Rightarrow> jobs_state \<Rightarrow> (bool \<times> jobs_state) wait_result" where
  "process_turn proc s = job_wait_1 False (pr_pid (js_store s proc)) s"

definition found_poll :: "nat \<Rightarrow> jobs_state \<Rightarrow> int option" where
  "found_poll key s =
     (case find (\<lambda>j. jb_key j = key) (js_jobs s) of None \<Rightarrow> None | Some job \<Rightarrow> job_poll s job)"

definition job_turn :: "nat \<Rightarrow> jobs_state \<Rightarrow> (bool \<times> jobs_state) wait_result" where
  "job_turn key s =
     (case find (\<lambda>j. jb_key j = key) (js_jobs s) of
        None \<Rightarrow> WAbort
      | Some job \<Rightarrow>
          (case job_get_running_process s job of
             None \<Rightarrow> WAbort
           | Some p \<Rightarrow> job_wait_1 False (pr_pid (js_store s p)) s))"

definition waited_inv :: "nat \<Rightarrow> jobs_state \<Rightarrow> bool" where
  "waited_inv key s \<longleftrightarrow> wait_inv s \<and> key \<in> set (map jb_key (js_jobs s))"

lemma job_wait_1_ok:
  assumes "wait_inv s"
  shows "job_wait_1 False (pr_pid (js_store s p)) s = WBlocked \<or>
    (\<exists>ok s1. job_wait_1 False (pr_pid (js_store s p)) s = WDone (ok, s1) \<and> wait_inv s1 \<and>
       length (js_events s1) < length (js_events s) \<and>
       map job_core (js_jobs s1) = map job_core (js_jobs s))"
  using job_wait_events_ok [OF assms, of "[]" "js_events s" "pr_pid (js_store s p)"] assms
  by (simp add: job_wait_1_def wait_inv_def)

interpretation wp: wait_loop "\<lambda>s. process_poll (js_store s proc)" "process_turn proc"
  "\<lambda>n. job_wait_process_loop n proc" "\<lambda>s. length (js_events s)" wait_inv
  for proc
proof unfold_locales
  fix n s
  show "job_wait_process_loop (Suc n) proc s =
      (case process_poll (js_store s proc) of None \<Rightarrow> WAbort
       | Some status \<Rightarrow>
           if status \<noteq> TASK_STATUS_WAIT then WDone (status, s)
           else case process_turn proc s of
             WBlocked \<Rightarrow> WBlocked
           | WAbort \<Rightarrow> WAbort
           | WDone (ok, s1) \<Rightarrow>
               if \<not> ok then WDone (TASK_STATUS_ERROR, s1) else job_wait_process_loop n proc s1)"
    unfolding process_turn_def by (simp split: option.split)
  assume "wait_inv s"
  then show "\<exists>status. process_poll (js_store s proc) = Some status"
    by (simp add: wait_inv_def jobs_inv_def processes_ok_def process_poll_ok)
  show "process_turn proc s = WBlocked \<or> (\<exists>ok s1. process_turn proc s = WDone (ok, s1) \<and>
      wait_inv s1 \<and> length (js_events s1) < length (js_events s))"
    using job_wait_1_ok [OF \<open>wait_inv s\<close>, of proc] unfolding process_turn_def by blast
qed

lemma waited_found:
  assumes "waited_inv key s"
  obtains job where "find (\<lambda>j. jb_key j = key) (js_jobs s) = Some job"
  using assms by (cases "find (\<lambda>j. jb_key j = key) (js_jobs s)") (auto simp: waited_inv_def find_None_iff)

lemma running_process_some:
  assumes "processes_ok s" "job_poll s job = Some TASK_STATUS_WAIT"
  obtains p where "job_get_running_process s job = Some p"
proof (cases "job_get_running_process s job")
  case None
  then have "\<forall>p \<in> set (jb_processes job). process_poll (js_store s p) \<noteq> Some TASK_STATUS_WAIT"
    by (auto simp: job_get_running_process_def find_None_iff)
  moreover from this have "the (process_poll (js_store s (last (jb_processes job)))) \<noteq> TASK_STATUS_WAIT"
    if "jb_processes job \<noteq> []"
    using that process_poll_ok [of "js_store s (last (jb_processes job))"] assms(1)
    by (metis last_in_set option.sel processes_ok_def)
  ultimately show thesis
    using assms(2) by (auto simp: job_poll_spec [OF assms(1)] task_status_defs split: if_splits)
qed

interpretation jw: wait_loop "found_poll key" "job_turn key"
  "\<lambda>n. job_wait_loop n key" "\<lambda>s. length (js_events s)" "waited_inv key"
  for key
proof unfold_locales
  fix n s
  show "job_wait_loop (Suc n) key s =
      (case found_poll key s of None \<Rightarrow> WAbort
       | Some status \<Rightarrow>
           if status \<noteq> TASK_STATUS_WAIT then WDone (status, s)
           else case job_turn key s of
             WBlocked \<Rightarrow> WBlocked
           | WAbort \<Rightarrow> WAbort
           | WDone (ok, s1) \<Rightarrow>
               if \<not> ok then WDone (TASK_STATUS_ERROR, s1) else job_wait_loop n key s1)"
    by (auto simp: job_turn_def found_poll_def split: option.splits)
  assume inv: "waited_inv key s"
  then have ok: "processes_ok s" and wi: "wait_inv s"
    by (auto simp: waited_inv_def wait_inv_def jobs_inv_def)
  obtain job where job: "find (\<lambda>j. jb_key j = key) (js_jobs s) = Some job"
    by (rule waited_found [OF inv])
  then show "\<exists>status. found_poll key s = Some status"
    using job_poll_ok [OF ok] by (simp add: found_poll_def)
  assume "found_poll key s = Some TASK_STATUS_WAIT"
  then have "job_poll s job = Some TASK_STATUS_WAIT"
    using job by (simp add: found_poll_def)
  then obtain p where p: "job_get_running_process s job = Some p"
    using running_process_some [OF ok] by blast
  have keys: "waited_inv key s1" if "wait_inv s1" "map job_core (js_jobs s1) = map job_core (js_jobs s)" for s1
    using inv that job_core_maps [of "js_jobs s1" "js_jobs s"] by (simp add: waited_inv_def del: set_map)
  show "job_turn key s = WBlocked \<or> (\<exists>ok s1. job_turn key s = WDone (ok, s1) \<and>
      waited_inv key s1 \<and> length (js_events s1) < length (js_events s))"
    using job_wait_1_ok [OF wi, of p] keys job p by (auto simp: job_turn_def)
qed

text \<open>A process that ends, or stops, is what its wait returns.\<close>

definition status_of_event :: "nat \<Rightarrow> int" where
  "status_of_event st =
     (if WIFEXITED st then int (WEXITSTATUS st) else if WIFSIGNALED st then 129 else TASK_STATUS_STOPPED)"

lemma job_wait_events_skip:
  "job_wait_events b pid (replicate n EvInterrupted @ evs) s = job_wait_events b pid evs s"
  by (induction n) auto

lemma poll_after_update:
  assumes "update_process pid st s = Some s'" "reported_status st"
    "find (\<lambda>p. pr_pid (js_store s p) = pid) (js_processes s) = Some proc"
    "process_poll (js_store s proc) = Some TASK_STATUS_WAIT"
  shows "process_poll (js_store s' proc) = Some (status_of_event st)"
proof -
  have run: "\<not> pr_stopped (js_store s proc)"
    using assms(4) by (auto simp: process_poll_def task_status_defs split: if_splits)
  obtain p' where p': "set_process_status st (js_store s proc) = Some p'"
    "s' = s\<lparr>js_store := (js_store s)(proc := p')\<rparr>"
    using assms(1,3) by (auto simp: update_process_def)
  with run assms(2) show ?thesis
    using wait_kinds_exclusive [of st]
    by (auto simp: set_process_status_def process_poll_def status_of_event_def reported_status_def
        split: if_splits)
qed


section \<open>Properties\<close>

definition sample_jobs :: jobs_state where
  "sample_jobs =
     \<lparr>js_store = (\<lambda>p. \<lparr>pr_pid = 100 + int p, pr_stopped = False, pr_terminated = False,
                       pr_stat = 0, pr_signal = 0\<rparr>),
      js_next = 9, js_processes = [3, 4],
      js_jobs = [\<lparr>jb_key = 7, jb_node = NodeWord (mrsh_word_string_create [] False), jb_pgid = 103, jb_id = 1,
                  jb_processes = [3, 4], jb_pending = False, jb_last_status = TASK_STATUS_WAIT\<rparr>],
      js_foreground = Some 7, js_job_control = True, js_child = False, js_pgid = 50,
      js_term_pgrp = 103, js_events = [EvInterrupted, EvStatus 256]\<rparr>"

lemma sample_jobs_inv: "jobs_inv sample_jobs"
  by (simp add: sample_jobs_def jobs_inv_def processes_ok_def process_ok_def job_ids_ok_def term_ok_def)

lemma sample_wait_inv: "wait_inv sample_jobs" "waited_inv 7 sample_jobs"
  using sample_jobs_inv
  by (auto simp: waited_inv_def wait_inv_def sample_jobs_def event_ok_def reported_status_def wait_macros)

text \<open>C20: \<open>update_job\<close> never aborts on a status the kernel can report; it keeps the invariant of the
  job table (valid statuses, distinct positive job numbers, a terminal owned by the foreground job
  or else by the shell), and with job control no stopped or finished job keeps the terminal.\<close>

theorem update_job_invariant:
  assumes "reported_status stat" "jobs_inv s"
  shows "\<exists>s'. update_job pid stat s = Some s' \<and> jobs_inv s' \<and>
    map job_core (js_jobs s') = map job_core (js_jobs s) \<and>
    (js_job_control s \<longrightarrow> fg_all_running s')"
  by (rule update_job_ok [OF assms, of pid]) blast

theorem update_job_invariant_witness:
  "\<exists>s'. update_job 103 256 sample_jobs = Some s' \<and> jobs_inv s' \<and>
    map job_core (js_jobs s') = map job_core (js_jobs sample_jobs) \<and>
    (js_job_control sample_jobs \<longrightarrow> fg_all_running s')"
  by (rule update_job_invariant [OF _ sample_jobs_inv]) (simp add: reported_status_def wait_macros)





text \<open>Once a process has stopped, a later exit of it goes unnoticed by the shell: whatever status
  is recorded afterwards, the process still polls as stopped.\<close>

theorem stopped_process_stays_stopped:
  assumes "pr_stopped proc" "set_process_status stat proc = Some proc'"
  shows "process_poll proc' = Some TASK_STATUS_STOPPED"
  using assms by (auto simp: set_process_status_def process_poll_def split: if_splits)

theorem stopped_process_stays_stopped_witness:
  "process_poll \<lparr>pr_pid = 5, pr_stopped = True, pr_terminated = True, pr_stat = 9, pr_signal = 20\<rparr> =
    Some TASK_STATUS_STOPPED"
  by (rule stopped_process_stays_stopped
      [of "\<lparr>pr_pid = 5, pr_stopped = True, pr_terminated = False, pr_stat = 0, pr_signal = 20\<rparr>" 9])
    (simp_all add: set_process_status_def wait_macros)

end
