(* ===== verification/Getopt.thy ===== *)
theory Getopt
  imports Prelude
begin

text \<open>
  \<open>getopt.c\<close>: the option parser of the builtins. Its global variables are the record
  \<open>getopt_state\<close>. The argument vector is the list of its \<open>argc\<close> strings; \<open>terminated\<close> says whether
  the slot after them holds the null pointer the code asserts. A returned \<open>None\<close> inside the result
  is the \<open>-1\<close> that ends the options. The outer \<open>None\<close> is the failed assertion, or a read behind the
  end of an argument.
\<close>

record getopt_state =
  go_optarg :: "cstring option"
  go_optind :: nat
  go_opterr :: nat
  go_optopt :: char
  go_optpos :: nat

definition getopt_init :: getopt_state where
  "getopt_init = \<lparr>go_optarg = None, go_optind = 1, go_opterr = 1, go_optopt = NUL, go_optpos = 1\<rparr>"

text \<open>The option character as the \<open>int\<close> the function returns: a character 0xFF is \<open>-1\<close>.\<close>

definition opt_ret :: "char \<Rightarrow> char option" where
  "opt_ret c = (if c = CHR 0xFF then None else Some c)"

text \<open>The loop over the option string: does \<open>opt\<close> occur, and is it followed by a colon?\<close>

fun opt_lookup :: "char \<Rightarrow> cstring \<Rightarrow> bool option" where
  "opt_lookup opt [] = None"
| "opt_lookup opt (c # cs) =
     (if c \<noteq> opt then opt_lookup opt cs else Some (char_at cs 0 = CHR '':''))"

definition getopt_found ::
    "cstring list \<Rightarrow> cstring \<Rightarrow> char \<Rightarrow> bool \<Rightarrow> getopt_state \<Rightarrow> char option \<times> getopt_state" where
  "getopt_found argv optstring opt has_arg g =
     (let arg = argv ! go_optind g;
          rest = drop (go_optpos g + 1) arg
      in if \<not> has_arg then
           (opt_ret opt,
            if rest = [] then g\<lparr>go_optind := go_optind g + 1, go_optpos := 1\<rparr>
            else g\<lparr>go_optpos := go_optpos g + 1\<rparr>)
         else if rest \<noteq> [] then
           (opt_ret opt, g\<lparr>go_optarg := Some rest, go_optind := go_optind g + 1\<rparr>)
         else if go_optind g + 2 > length argv then
           (Some (if char_at optstring 0 = CHR '':'' then CHR '':'' else CHR ''?''),
            g\<lparr>go_optopt := opt\<rparr>)
         else
           (opt_ret opt,
            g\<lparr>go_optarg := Some (argv ! (go_optind g + 1)), go_optind := go_optind g + 2\<rparr>))"

definition mrsh_getopt ::
    "bool \<Rightarrow> cstring list \<Rightarrow> cstring \<Rightarrow> getopt_state \<Rightarrow> (char option \<times> getopt_state) option" where
  "mrsh_getopt terminated argv optstring g =
     (if \<not> terminated then None
      else
        let g = g\<lparr>go_optarg := None\<rparr>;
            g = (if go_optind g = 0 then g\<lparr>go_optind := 1, go_optpos := 1\<rparr> else g)
        in if go_optind g \<ge> length argv then Some (None, g)
           else
             let arg = argv ! go_optind g in
             if char_at arg 0 \<noteq> CHR ''-'' then Some (None, g)
             else if char_at arg 1 = NUL then Some (None, g)
             else if char_at arg 1 = CHR ''-'' then Some (None, g\<lparr>go_optind := go_optind g + 1\<rparr>)
             else if go_optpos g > length arg then None
             else
               let cs = (if char_at optstring 0 = CHR '':'' then drop 1 optstring else optstring);
                   g = g\<lparr>go_optopt := NUL\<rparr>;
                   opt = char_at arg (go_optpos g)
               in case opt_lookup opt cs of
                    None \<Rightarrow> Some (Some (CHR ''?''), g)
                  | Some has_arg \<Rightarrow> Some (getopt_found argv optstring opt has_arg g))"

section \<open>The loop of a builtin\<close>

text \<open>
  \<open>while ((opt = _mrsh_getopt(argc, argv, optstring)) != -1)\<close> with a body that goes on for a known
  option and leaves at \<open>?\<close> or \<open>:\<close>: the options seen, and whether the loop was left early. Each turn
  that goes on advances the position, so \<open>getopt_fuel\<close> turns are enough.
\<close>

definition getopt_fuel :: "cstring list \<Rightarrow> nat" where
  "getopt_fuel argv = Suc (sum_list (map length argv) + length argv)"

fun getopt_loop ::
    "nat \<Rightarrow> cstring list \<Rightarrow> cstring \<Rightarrow> getopt_state \<Rightarrow> (cstring \<times> bool \<times> getopt_state) option" where
  "getopt_loop 0 argv optstring g = None"
| "getopt_loop (Suc fuel) argv optstring g =
     (case mrsh_getopt True argv optstring g of
        None \<Rightarrow> None
      | Some (None, g) \<Rightarrow> Some ([], False, g)
      | Some (Some c, g) \<Rightarrow>
          if c = CHR ''?'' \<or> c = CHR '':'' then Some ([], True, g)
          else map_option (\<lambda>(cs, bad, g). (c # cs, bad, g)) (getopt_loop fuel argv optstring g))"

definition getopt_all :: "cstring list \<Rightarrow> cstring \<Rightarrow> getopt_state \<Rightarrow> (cstring \<times> bool \<times> getopt_state) option" where
  "getopt_all argv optstring g = getopt_loop (getopt_fuel argv) argv optstring (g\<lparr>go_optind := 0\<rparr>)"

section \<open>The reference: reading the options of an argument vector\<close>

text \<open>An argument that holds options, and one that ends them and is skipped.\<close>

definition is_optarg :: "cstring \<Rightarrow> bool" where
  "is_optarg a \<longleftrightarrow> char_at a 0 = CHR ''-'' \<and> char_at a 1 \<noteq> NUL \<and> char_at a 1 \<noteq> CHR ''-''"

definition is_dashdash :: "cstring \<Rightarrow> bool" where
  "is_dashdash a \<longleftrightarrow> char_at a 0 = CHR ''-'' \<and> char_at a 1 = CHR ''-''"

text \<open>The options, whether one is unknown, and the index of the first operand.\<close>

fun ref_flags :: "cstring \<Rightarrow> nat \<Rightarrow> cstring list \<Rightarrow> cstring \<times> bool \<times> nat" where
  "ref_flags known i [] = ([], False, i)"
| "ref_flags known i (a # as) =
     (if is_dashdash a then ([], False, i + 1)
      else if \<not> is_optarg a then ([], False, i)
      else
        let good = takeWhile (\<lambda>c. c \<in> set known) (tl a) in
        if good \<noteq> tl a then (good, True, i)
        else let (cs, bad, j) = ref_flags known (i + 1) as in (tl a @ cs, bad, j))"

text \<open>The option strings of the builtins: a leading colon, then flags without arguments.\<close>

definition flag_string :: "cstring \<Rightarrow> bool" where
  "flag_string known \<longleftrightarrow> CHR '':'' \<notin> set known \<and> CHR ''?'' \<notin> set known \<and> CHR 0xFF \<notin> set known \<and> NUL \<notin> set known"

lemma opt_lookup_flags:
  "CHR '':'' \<notin> set known \<Longrightarrow> opt_lookup c known = (if c \<in> set known then Some False else None)"
proof (induction known)
  case Nil
  then show ?case by simp
next
  case (Cons d known)
  have "char_at known 0 \<noteq> CHR '':''"
    using Cons.prems by (cases known) auto
  with Cons show ?case by auto
qed

lemma getopt_flag_step:
  assumes "flag_string known" "i < length argv" "is_optarg (argv ! i)" "p < length (argv ! i)"
    "go_optind g = i" "0 < i" "go_optpos g = p" "0 < p" "NUL \<notin> set (argv ! i)"
  shows "mrsh_getopt True argv (CHR '':'' # known) g =
    (let c = argv ! i ! p; g = g\<lparr>go_optarg := None, go_optopt := NUL\<rparr> in
     if c \<notin> set known then Some (Some (CHR ''?''), g)
     else Some (Some c, if Suc p = length (argv ! i) then g\<lparr>go_optind := i + 1, go_optpos := 1\<rparr>
                        else g\<lparr>go_optpos := p + 1\<rparr>))"
  using assms
  by (auto simp: mrsh_getopt_def Let_def is_optarg_def getopt_found_def flag_string_def
      opt_lookup_flags opt_ret_def char_at_def)


definition ref_from :: "cstring \<Rightarrow> cstring list \<Rightarrow> nat \<Rightarrow> nat \<Rightarrow> cstring \<times> bool \<times> nat" where
  "ref_from known argv i p =
     (let rest = drop p (argv ! i); good = takeWhile (\<lambda>c. c \<in> set known) rest in
      if good \<noteq> rest then (good, True, i)
      else let (cs, bad, j) = ref_flags known (i + 1) (drop (i + 1) argv) in (rest @ cs, bad, j))"

lemma ref_flags_from:
  assumes "i < length argv" "is_optarg (argv ! i)"
  shows "ref_flags known i (drop i argv) = ref_from known argv i 1"
proof -
  have "drop i argv = argv ! i # drop (i + 1) argv"
    using assms(1) by (simp add: Cons_nth_drop_Suc)
  moreover have "\<not> is_dashdash (argv ! i)"
    using assms(2) by (auto simp: is_optarg_def is_dashdash_def)
  ultimately show ?thesis
    using assms(2) by (simp add: ref_from_def Let_def drop_Suc)
qed

lemma ref_from_step:
  assumes "p < length (argv ! i)"
  shows "ref_from known argv i p =
    (let c = argv ! i ! p in
     if c \<notin> set known then ([], True, i)
     else let (cs, bad, j) = (if Suc p = length (argv ! i) then ref_flags known (i + 1) (drop (i + 1) argv)
                              else ref_from known argv i (p + 1))
          in (c # cs, bad, j))"
proof -
  have "drop p (argv ! i) = argv ! i ! p # drop (Suc p) (argv ! i)"
    using assms by (simp add: Cons_nth_drop_Suc)
  then show ?thesis
    by (auto simp: ref_from_def Let_def case_prod_beta)
qed

text \<open>The turns left: the characters and arguments not yet read.\<close>

definition getopt_todo :: "cstring list \<Rightarrow> nat \<Rightarrow> nat \<Rightarrow> nat" where
  "getopt_todo argv i p =
     (case drop i argv of [] \<Rightarrow> 0
      | a # as \<Rightarrow> (length a - p) + sum_list (map length as) + length as)"

lemma getopt_todo_char:
  "i < length argv \<Longrightarrow> p < length (argv ! i) \<Longrightarrow> getopt_todo argv i (Suc p) < getopt_todo argv i p"
  by (simp add: getopt_todo_def Cons_nth_drop_Suc [symmetric])

lemma getopt_todo_arg:
  "i < length argv \<Longrightarrow> p < length (argv ! i) \<Longrightarrow> getopt_todo argv (Suc i) 1 < getopt_todo argv i p"
  by (cases "drop (Suc i) argv") (auto simp: getopt_todo_def Cons_nth_drop_Suc [symmetric])

lemma getopt_todo_start: "getopt_todo (a # args) 1 1 < getopt_fuel (a # args)"
  by (cases args) (auto simp: getopt_todo_def getopt_fuel_def)

definition getopt_at :: "cstring list \<Rightarrow> getopt_state \<Rightarrow> bool" where
  "getopt_at argv g \<longleftrightarrow> 0 < go_optind g \<and> 0 < go_optpos g \<and>
     (go_optpos g = 1 \<or>
      go_optind g < length argv \<and> is_optarg (argv ! go_optind g) \<and>
      go_optpos g < length (argv ! go_optind g))"

definition ref_at :: "cstring \<Rightarrow> cstring list \<Rightarrow> getopt_state \<Rightarrow> cstring \<times> bool \<times> nat" where
  "ref_at known argv g =
     (if go_optpos g = 1 then ref_flags known (go_optind g) (drop (go_optind g) argv)
      else ref_from known argv (go_optind g) (go_optpos g))"

lemma getopt_stop:
  assumes "0 < go_optind g" "go_optpos g = 1"
    "go_optind g < length argv \<Longrightarrow> \<not> is_optarg (argv ! go_optind g)"
  shows "\<exists>g'. mrsh_getopt True argv os g = Some (None, g') \<and>
    ref_flags known (go_optind g) (drop (go_optind g) argv) = ([], False, go_optind g')"
proof (cases "go_optind g < length argv")
  case False
  with assms show ?thesis
    by (simp add: mrsh_getopt_def Let_def)
next
  case True
  have d: "drop (go_optind g) argv = argv ! go_optind g # drop (go_optind g + 1) argv"
    using True by (simp add: Cons_nth_drop_Suc)
  show ?thesis
    using assms True unfolding d
    by (auto simp: mrsh_getopt_def Let_def is_optarg_def is_dashdash_def)
qed

lemma getopt_loop_ref:
  assumes "flag_string known" "\<forall>a \<in> set argv. NUL \<notin> set a"
  shows "getopt_at argv g \<Longrightarrow> getopt_todo argv (go_optind g) (go_optpos g) < fuel \<Longrightarrow>
    \<exists>g'. getopt_loop fuel argv (CHR '':'' # known) g =
      (case ref_at known argv g of (cs, bad, j) \<Rightarrow> Some (cs, bad, g')) \<and>
      go_optind g' = snd (snd (ref_at known argv g))"
proof (induction fuel arbitrary: g)
  case 0
  then show ?case by simp
next
  case (Suc fuel)
  let ?i = "go_optind g" and ?p = "go_optpos g"
  show ?case
  proof (cases "?i < length argv \<and> is_optarg (argv ! ?i)")
    case False
    with Suc.prems(1) have "?p = 1" "0 < ?i"
      by (auto simp: getopt_at_def)
    with getopt_stop [of g argv "CHR '':'' # known" known] False show ?thesis
      by (auto simp: ref_at_def)
  next
    case True
    then have i: "?i < length argv" "is_optarg (argv ! ?i)" and len: "1 < length (argv ! ?i)"
      by (auto simp: is_optarg_def char_at_def split: if_splits)
    have p: "?p < length (argv ! ?i)" "0 < ?p" "0 < ?i"
      using Suc.prems(1) len by (auto simp: getopt_at_def)
    have ref: "ref_at known argv g = ref_from known argv ?i ?p"
      using ref_flags_from [OF i] by (simp add: ref_at_def)
    have nul: "NUL \<notin> set (argv ! ?i)"
      using assms(2) i(1) by auto
    let ?c = "argv ! ?i ! ?p" and ?g0 = "g\<lparr>go_optarg := None, go_optopt := NUL\<rparr>"
    let ?g1 = "if Suc ?p = length (argv ! ?i) then ?g0\<lparr>go_optind := ?i + 1, go_optpos := 1\<rparr>
               else ?g0\<lparr>go_optpos := ?p + 1\<rparr>"
    have step: "mrsh_getopt True argv (CHR '':'' # known) g =
      (if ?c \<notin> set known then Some (Some (CHR ''?''), ?g0) else Some (Some ?c, ?g1))"
      using getopt_flag_step [OF assms(1) i p(1) refl p(3) refl p(2) nul] by (simp only: Let_def)
    show ?thesis
    proof (cases "?c \<in> set known")
      case False
      with step ref_from_step [OF p(1), of known] show ?thesis
        by (auto simp: ref Let_def)
    next
      case known: True
      have not_err: "?c \<noteq> CHR ''?''" "?c \<noteq> CHR '':''"
        using known assms(1) by (auto simp: flag_string_def)
      have at: "getopt_at argv ?g1"
        using i p by (auto simp: getopt_at_def)
      have todo: "getopt_todo argv (go_optind ?g1) (go_optpos ?g1) < fuel"
        using getopt_todo_char [OF i(1) p(1)] getopt_todo_arg [OF i(1) p(1)] Suc.prems(2)
        by (auto split: if_splits)
      have next_ref: "ref_at known argv ?g1 =
        (if Suc ?p = length (argv ! ?i) then ref_flags known (?i + 1) (drop (?i + 1) argv)
         else ref_from known argv ?i (?p + 1))"
        using p by (auto simp: ref_at_def)
      obtain cs bad j where r: "ref_at known argv ?g1 = (cs, bad, j)"
        by (metis prod_cases3)
      with Suc.IH [OF at todo] obtain g' where
        "getopt_loop fuel argv (CHR '':'' # known) ?g1 = Some (cs, bad, g')" "go_optind g' = j"
        by auto
      moreover have "ref_at known argv g = (?c # cs, bad, j)"
        using ref ref_from_step [OF p(1), of known] known r next_ref by (simp add: Let_def)
      ultimately show ?thesis
        using step known not_err by simp
    qed
  qed
qed

text \<open>C24: For the option strings of the builtins, which only know flags, the loop over \<open>_mrsh_getopt\<close>
  ends and reads exactly what the reference reads: the flags of every option argument in order up
  to the first unknown one, and the index where the operands start.\<close>

theorem getopt_all_reference:
  assumes "flag_string known" "\<forall>a \<in> set args. NUL \<notin> set a" "NUL \<notin> set name"
  shows "\<exists>g'. getopt_all (name # args) (CHR '':'' # known) g =
      (case ref_flags known 1 args of (cs, bad, j) \<Rightarrow> Some (cs, bad, g')) \<and>
    go_optind g' = snd (snd (ref_flags known 1 args))"
proof -
  let ?g1 = "g\<lparr>go_optind := 1, go_optpos := 1\<rparr>"
  have nul: "\<forall>a \<in> set (name # args). NUL \<notin> set a"
    using assms(2,3) by simp
  have same: "mrsh_getopt True argv os (g\<lparr>go_optind := 0\<rparr>) = mrsh_getopt True argv os ?g1" for argv os
    by (cases g) (simp add: mrsh_getopt_def Let_def)
  have "getopt_loop (Suc n) argv os (g\<lparr>go_optind := 0\<rparr>) = getopt_loop (Suc n) argv os ?g1" for n argv os
    by (simp only: getopt_loop.simps same)
  then have "getopt_all (name # args) os g = getopt_loop (getopt_fuel (name # args)) (name # args) os ?g1" for os
    by (simp add: getopt_all_def getopt_fuel_def)
  moreover have "getopt_at (name # args) ?g1"
    by (simp add: getopt_at_def)
  moreover have "ref_at known (name # args) ?g1 = ref_flags known 1 args"
    by (simp add: ref_at_def)
  ultimately show ?thesis
    using getopt_loop_ref [OF assms(1) nul, of ?g1 "getopt_fuel (name # args)"]
      getopt_todo_start [of name args] by simp
qed

theorem getopt_all_reference_witness:
  "\<exists>g'. getopt_all [''unset'', ''-fv'', ''-v'', ''x''] '':fv'' getopt_init = Some (''fvv'', False, g') \<and>
    go_optind g' = 3"
  using getopt_all_reference [of "''fv''" "[''-fv'', ''-v'', ''x'']" "''unset''" getopt_init]
  by (simp add: flag_string_def is_dashdash_def is_optarg_def Let_def eval_nat_numeral)

text \<open>An option with an argument leaves the position in the group behind, so that the next option
  argument is read from the middle: here \<open>-a\<close> after \<open>-ab val\<close> is an unknown option.\<close>

lemma getopt_position_kept:
  "getopt_loop 4 [''sh'', ''-ab'', ''val'', ''-a''] ''ab:'' getopt_init =
    Some (''ab'', True, \<lparr>go_optarg = None, go_optind = 3, go_opterr = 1, go_optopt = NUL, go_optpos = 2\<rparr>)"
  by code_simp

end
