(* ===== verification/Hashtable.thy ===== *)
theory Hashtable
  imports Prelude
begin

text \<open>
  \<open>hashtable.c\<close>: 256 chains of entries, chosen by the djb2 hash of the key in 32-bit arithmetic.
  The table is the function from bucket numbers to chains (\<open>buckets[]\<close>); a chain is the list its
  \<open>next\<close> pointers make. The iteration of \<open>mrsh_hashtable_for_each\<close> is a fold over the entries in
  bucket order. Allocation is assumed to succeed, as the code does.

  The locale \<open>kv_store\<close> is what the clients of the table (environment, aliases, functions) rely on;
  it is proved of the table at the end.
\<close>

section \<open>The contract of a key-value store\<close>

locale kv_store =
  fixes empty :: 't
    and get :: "'t \<Rightarrow> cstring \<Rightarrow> 'v option"
    and set :: "'t \<Rightarrow> cstring \<Rightarrow> 'v \<Rightarrow> 'v option \<times> 't"
    and del :: "'t \<Rightarrow> cstring \<Rightarrow> 'v option \<times> 't"
    and entries :: "'t \<Rightarrow> (cstring \<times> 'v) list"
    and inv :: "'t \<Rightarrow> bool"
  assumes get_empty: "get empty k = None"
    and inv_empty: "inv empty"
    and set_old: "fst (set t k v) = get t k"
    and get_set: "get (snd (set t k v)) k' = (if k' = k then Some v else get t k')"
    and inv_set: "inv t \<Longrightarrow> inv (snd (set t k v))"
    and del_old: "fst (del t k) = get t k"
    and get_del: "inv t \<Longrightarrow> get (snd (del t k)) k' = (if k' = k then None else get t k')"
    and inv_del: "inv t \<Longrightarrow> inv (snd (del t k))"
    and entries_distinct: "inv t \<Longrightarrow> distinct (map fst (entries t))"
    and entries_get: "inv t \<Longrightarrow> map_of (entries t) = get t"
begin

lemma set_same: "get (snd (set t k v)) k = Some v"
  by (simp add: get_set)

lemma set_other: "k' \<noteq> k \<Longrightarrow> get (snd (set t k v)) k' = get t k'"
  by (simp add: get_set)

lemma abs_set: "get (snd (set t k v)) = (get t)(k \<mapsto> v)"
  by (auto simp: get_set)

lemma abs_del: "inv t \<Longrightarrow> get (snd (del t k)) = (get t)(k := None)"
  by (auto simp: get_del)

lemma set_set: "get (snd (set (snd (set t k v)) k w)) = get (snd (set t k w))"
  by (simp add: abs_set)

lemma set_commute:
  "k \<noteq> k' \<Longrightarrow> get (snd (set (snd (set t k v)) k' w)) = get (snd (set (snd (set t k' w)) k v))"
  by (simp add: abs_set fun_upd_twist)

lemma entries_set_iff: "inv t \<Longrightarrow> (k, v) \<in> List.set (entries t) \<longleftrightarrow> get t k = Some v"
  by (metis entries_distinct entries_get map_of_eq_Some_iff)

definition del_all :: "'t \<Rightarrow> cstring list \<Rightarrow> 't" where
  "del_all t ks = fold (\<lambda>k t. snd (del t k)) ks t"

lemma del_all_get:
  "inv t \<Longrightarrow> inv (del_all t ks) \<and> get (del_all t ks) k = (if k \<in> List.set ks then None else get t k)"
proof (induction ks arbitrary: t)
  case Nil
  then show ?case by (simp add: del_all_def)
next
  case (Cons a ks)
  from Cons.IH [OF inv_del [OF Cons.prems, of a]] Cons.prems show ?case
    by (auto simp: del_all_def get_del)
qed

text \<open>Deleting every key the iteration yields empties the store.\<close>

lemma del_all_entries:
  assumes "inv t"
  shows "get (del_all t (map fst (entries t))) k = None"
proof (cases "get t k")
  case None
  with del_all_get [OF assms] show ?thesis by simp
next
  case (Some v)
  then have "(k, v) \<in> List.set (entries t)"
    using entries_set_iff [OF assms] by blast
  then have "k \<in> List.set (map fst (entries t))"
    by (metis fst_conv image_eqI list.set_map)
  with del_all_get [OF assms] show ?thesis by simp
qed

end

section \<open>The table\<close>

record 'v hashtable_entry =
  ent_hash :: u32
  ent_key :: cstring
  ent_value :: 'v

type_synonym 'v mrsh_hashtable = "nat \<Rightarrow> 'v hashtable_entry list"

definition MRSH_HASHTABLE_BUCKETS :: nat where
  "MRSH_HASHTABLE_BUCKETS = 256"

fun djb2_loop :: "u32 \<Rightarrow> cstring \<Rightarrow> u32" where
  "djb2_loop h [] = h"
| "djb2_loop h (c # str) = djb2_loop ((push_bit 5 h + h) + of_int (schar c)) str"

definition djb2 :: "cstring \<Rightarrow> u32" where
  "djb2 str = djb2_loop 5381 str"

definition bucket_of :: "u32 \<Rightarrow> nat" where
  "bucket_of h = unat h mod MRSH_HASHTABLE_BUCKETS"

definition hashtable_zero :: "'v mrsh_hashtable" where
  "hashtable_zero = (\<lambda>_. [])"

definition entry_matches :: "u32 \<Rightarrow> cstring \<Rightarrow> 'v hashtable_entry \<Rightarrow> bool" where
  "entry_matches h k e \<longleftrightarrow> ent_hash e = h \<and> ent_key e = k"

fun chain_get :: "u32 \<Rightarrow> cstring \<Rightarrow> 'v hashtable_entry list \<Rightarrow> 'v option" where
  "chain_get h k [] = None"
| "chain_get h k (e # es) = (if entry_matches h k e then Some (ent_value e) else chain_get h k es)"

definition mrsh_hashtable_get :: "'v mrsh_hashtable \<Rightarrow> cstring \<Rightarrow> 'v option" where
  "mrsh_hashtable_get t k = (let h = djb2 k in chain_get h k (t (bucket_of h)))"

text \<open>The walk to the matching entry, or the append of a new one behind the last.\<close>

fun chain_set :: "u32 \<Rightarrow> cstring \<Rightarrow> 'v \<Rightarrow> 'v hashtable_entry list \<Rightarrow>
    'v option \<times> 'v hashtable_entry list" where
  "chain_set h k v [] = (None, [\<lparr>ent_hash = h, ent_key = k, ent_value = v\<rparr>])"
| "chain_set h k v (e # es) =
     (if entry_matches h k e then (Some (ent_value e), e\<lparr>ent_value := v\<rparr> # es)
      else let (old, es') = chain_set h k v es in (old, e # es'))"

definition mrsh_hashtable_set :: "'v mrsh_hashtable \<Rightarrow> cstring \<Rightarrow> 'v \<Rightarrow> 'v option \<times> 'v mrsh_hashtable" where
  "mrsh_hashtable_set t k v =
     (let h = djb2 k; b = bucket_of h; (old, es) = chain_set h k v (t b) in (old, t(b := es)))"

fun chain_del :: "u32 \<Rightarrow> cstring \<Rightarrow> 'v hashtable_entry list \<Rightarrow> 'v option \<times> 'v hashtable_entry list" where
  "chain_del h k [] = (None, [])"
| "chain_del h k (e # es) =
     (if entry_matches h k e then (Some (ent_value e), es)
      else let (old, es') = chain_del h k es in (old, e # es'))"

definition mrsh_hashtable_del :: "'v mrsh_hashtable \<Rightarrow> cstring \<Rightarrow> 'v option \<times> 'v mrsh_hashtable" where
  "mrsh_hashtable_del t k =
     (let h = djb2 k; b = bucket_of h; (old, es) = chain_del h k (t b) in (old, t(b := es)))"

definition mrsh_hashtable_finish :: "'v mrsh_hashtable \<Rightarrow> 'v hashtable_entry list" where
  \<comment> \<open>the entries it frees; the table is dead afterwards\<close>
  "mrsh_hashtable_finish t = concat (map t [0..<MRSH_HASHTABLE_BUCKETS])"

definition hashtable_entries :: "'v mrsh_hashtable \<Rightarrow> (cstring \<times> 'v) list" where
  "hashtable_entries t =
     map (\<lambda>e. (ent_key e, ent_value e)) (concat (map t [0..<MRSH_HASHTABLE_BUCKETS]))"

text \<open>The iterator threads its own state; it may delete the current entry, whose successor the loop
  has already read.\<close>

definition mrsh_hashtable_for_each :: "'v mrsh_hashtable \<Rightarrow> (cstring \<Rightarrow> 'v \<Rightarrow> 's \<Rightarrow> 's) \<Rightarrow> 's \<Rightarrow> 's" where
  "mrsh_hashtable_for_each t iterator s = fold (\<lambda>(k, v). iterator k v) (hashtable_entries t) s"

section \<open>Correctness\<close>

lemma bucket_of_bound: "bucket_of h < MRSH_HASHTABLE_BUCKETS"
  by (simp add: bucket_of_def MRSH_HASHTABLE_BUCKETS_def)

definition entry_ok :: "nat \<Rightarrow> 'v hashtable_entry \<Rightarrow> bool" where
  "entry_ok b e \<longleftrightarrow> ent_hash e = djb2 (ent_key e) \<and> bucket_of (ent_hash e) = b"

definition chain_inv :: "nat \<Rightarrow> 'v hashtable_entry list \<Rightarrow> bool" where
  "chain_inv b es \<longleftrightarrow> distinct (map ent_key es) \<and> list_all (entry_ok b) es"

lemma entry_ok_new:
  "entry_ok (bucket_of (djb2 k)) \<lparr>ent_hash = djb2 k, ent_key = k, ent_value = v\<rparr>"
  by (simp add: entry_ok_def)

lemma entry_ok_update [simp]: "entry_ok b (e\<lparr>ent_value := v\<rparr>) = entry_ok b e"
  by (simp add: entry_ok_def)

lemma entry_ok_matches: "entry_ok b e \<Longrightarrow> entry_matches (djb2 k) k e \<longleftrightarrow> ent_key e = k"
  by (auto simp: entry_ok_def entry_matches_def)

definition hashtable_inv :: "'v mrsh_hashtable \<Rightarrow> bool" where
  "hashtable_inv t \<longleftrightarrow> (\<forall>b. chain_inv b (t b))"

lemma chain_set_old: "fst (chain_set h k v es) = chain_get h k es"
  by (induction es) (auto split: prod.splits)

lemma chain_get_set:
  "chain_get h' k' (snd (chain_set h k v es)) =
    (if h' = h \<and> k' = k then Some v else chain_get h' k' es)"
  by (induction es) (auto simp: entry_matches_def split: prod.splits)

lemma chain_del_old: "fst (chain_del h k es) = chain_get h k es"
  by (induction es) (auto split: prod.splits)

lemma chain_get_notin: "k \<notin> ent_key ` set es \<Longrightarrow> chain_get h k es = None"
  by (induction es) (auto simp: entry_matches_def)

lemma chain_get_del:
  "distinct (map ent_key es) \<Longrightarrow> chain_get h' k' (snd (chain_del h k es)) =
    (if h' = h \<and> k' = k then None else chain_get h' k' es)"
  by (induction es) (auto simp: entry_matches_def chain_get_notin split: prod.splits)

lemma keys_chain_set:
  "ent_key ` set (snd (chain_set h k v es)) \<subseteq> insert k (ent_key ` set es)"
  by (induction es) (auto simp: image_subset_iff case_prod_beta)

lemma set_chain_del: "set (snd (chain_del h k es)) \<subseteq> set es"
  by (induction es) (auto simp: case_prod_beta)

lemma list_all_chain_set:
  "list_all (entry_ok (bucket_of (djb2 k))) es \<Longrightarrow>
    list_all (entry_ok (bucket_of (djb2 k))) (snd (chain_set (djb2 k) k v es))"
  by (induction es) (auto simp: entry_ok_new case_prod_beta)

lemma distinct_chain_set:
  "list_all (entry_ok b) es \<Longrightarrow> distinct (map ent_key es) \<Longrightarrow>
    distinct (map ent_key (snd (chain_set (djb2 k) k v es)))"
proof (induction es)
  case Nil
  then show ?case by simp
next
  case (Cons e es)
  then show ?case
    using keys_chain_set [of "djb2 k" k v es]
    by (auto simp: case_prod_beta entry_ok_matches image_subset_iff)
qed

lemma distinct_chain_del:
  "distinct (map ent_key es) \<Longrightarrow> distinct (map ent_key (snd (chain_del h k es)))"
proof (induction es)
  case Nil
  then show ?case by simp
next
  case (Cons e es)
  then show ?case
    using set_chain_del [of h k es] by (auto simp: case_prod_beta)
qed

lemma chain_inv_set:
  "chain_inv (bucket_of (djb2 k)) es \<Longrightarrow>
    chain_inv (bucket_of (djb2 k)) (snd (chain_set (djb2 k) k v es))"
  by (auto simp: chain_inv_def list_all_chain_set distinct_chain_set)

lemma chain_inv_del: "chain_inv b es \<Longrightarrow> chain_inv b (snd (chain_del h k es))"
  using set_chain_del [of h k es] by (auto simp: chain_inv_def distinct_chain_del list_all_iff)

lemma chain_inv_map_of:
  "list_all (entry_ok b) es \<Longrightarrow>
    map_of (map (\<lambda>e. (ent_key e, ent_value e)) es) k = chain_get (djb2 k) k es"
  by (induction es) (auto simp: entry_ok_matches)

lemma map_of_other_bucket:
  assumes "chain_inv b es" "b \<noteq> bucket_of (djb2 k)"
  shows "map_of (map (\<lambda>e. (ent_key e, ent_value e)) es) k = None"
  using assms by (auto simp: map_of_eq_None_iff chain_inv_def list_all_iff entry_ok_def)

lemma map_of_concat_bucket:
  assumes "hashtable_inv t"
  shows "map_of (map (\<lambda>e. (ent_key e, ent_value e)) (concat (map t bs))) k =
    (if bucket_of (djb2 k) \<in> set bs then mrsh_hashtable_get t k else None)"
proof (induction bs)
  case Nil
  then show ?case by simp
next
  case (Cons b bs)
  have inv: "chain_inv b (t b)"
    using assms by (simp add: hashtable_inv_def)
  show ?case
  proof (cases "b = bucket_of (djb2 k)")
    case True
    with inv Cons show ?thesis
      by (auto simp: map_add_def chain_inv_def chain_inv_map_of mrsh_hashtable_get_def Let_def split: option.splits)
  next
    case False
    with inv Cons show ?thesis
      by (simp add: map_add_def map_of_other_bucket)
  qed
qed

lemma distinct_keys_concat:
  assumes "hashtable_inv t" "distinct bs"
  shows "distinct (map ent_key (concat (map t bs)))"
  using assms(2)
proof (induction bs)
  case Nil
  then show ?case by simp
next
  case (Cons b bs)
  have "bucket_of (djb2 (ent_key e)) = x" if "e \<in> set (t x)" for e x
    using assms(1) that by (metis chain_inv_def entry_ok_def hashtable_inv_def list_all_iff)
  note home = this
  have "ent_key e \<noteq> ent_key e'" if "e \<in> set (t b)" "x \<in> set bs" "e' \<in> set (t x)" for e e' x
    using home [OF that(1)] home [OF that(3)] that(2) Cons.prems by auto
  then have "ent_key ` set (t b) \<inter> ent_key ` (\<Union>x \<in> set bs. set (t x)) = {}"
    by blast
  moreover have "distinct (map ent_key (t b))"
    using assms(1) by (simp add: hashtable_inv_def chain_inv_def)
  ultimately show ?case
    using Cons by auto
qed

interpretation ht: kv_store hashtable_zero mrsh_hashtable_get mrsh_hashtable_set
  mrsh_hashtable_del hashtable_entries hashtable_inv
proof unfold_locales
  fix t :: "'v mrsh_hashtable" and k k' :: cstring and v :: 'v
  show "mrsh_hashtable_get hashtable_zero k = None"
    by (simp add: mrsh_hashtable_get_def hashtable_zero_def Let_def)
  show "hashtable_inv hashtable_zero"
    by (simp add: hashtable_inv_def chain_inv_def hashtable_zero_def)
  show "fst (mrsh_hashtable_set t k v) = mrsh_hashtable_get t k"
    by (simp add: mrsh_hashtable_set_def mrsh_hashtable_get_def Let_def case_prod_beta chain_set_old)
  show "mrsh_hashtable_get (snd (mrsh_hashtable_set t k v)) k' =
      (if k' = k then Some v else mrsh_hashtable_get t k')"
    by (auto simp: mrsh_hashtable_set_def mrsh_hashtable_get_def Let_def case_prod_beta chain_get_set)
  show "fst (mrsh_hashtable_del t k) = mrsh_hashtable_get t k"
    by (simp add: mrsh_hashtable_del_def mrsh_hashtable_get_def Let_def case_prod_beta chain_del_old)
  assume inv: "hashtable_inv t"
  show "hashtable_inv (snd (mrsh_hashtable_set t k v))"
    using inv by (auto simp: hashtable_inv_def mrsh_hashtable_set_def Let_def case_prod_beta chain_inv_set)
  show "mrsh_hashtable_get (snd (mrsh_hashtable_del t k)) k' =
      (if k' = k then None else mrsh_hashtable_get t k')"
    using inv by (auto simp: hashtable_inv_def chain_inv_def mrsh_hashtable_del_def
        mrsh_hashtable_get_def Let_def case_prod_beta chain_get_del)
  show "hashtable_inv (snd (mrsh_hashtable_del t k))"
    using inv by (auto simp: hashtable_inv_def mrsh_hashtable_del_def Let_def case_prod_beta chain_inv_del)
  show "distinct (map fst (hashtable_entries t))"
    using distinct_keys_concat [OF inv, of "[0..<MRSH_HASHTABLE_BUCKETS]"]
    by (simp add: hashtable_entries_def comp_def)
  show "map_of (hashtable_entries t) = mrsh_hashtable_get t"
    using map_of_concat_bucket [OF inv, of "[0..<MRSH_HASHTABLE_BUCKETS]"] bucket_of_bound
    by (auto simp: hashtable_entries_def)
qed

section \<open>Properties\<close>

text \<open>C23: The hash table implements a finite map: \<open>set\<close> and \<open>del\<close> update it at one key and
  return what was stored there, for any collision of hashes, and keep its invariant; the
  iteration yields every binding once.\<close>

theorem hashtable_refines_map:
  assumes "hashtable_inv t"
  shows "mrsh_hashtable_set t k v =
      (mrsh_hashtable_get t k, snd (mrsh_hashtable_set t k v)) \<and>
    mrsh_hashtable_get (snd (mrsh_hashtable_set t k v)) = (mrsh_hashtable_get t)(k \<mapsto> v) \<and>
    fst (mrsh_hashtable_del t k) = mrsh_hashtable_get t k \<and>
    mrsh_hashtable_get (snd (mrsh_hashtable_del t k)) = (mrsh_hashtable_get t)(k := None) \<and>
    hashtable_inv (snd (mrsh_hashtable_set t k v)) \<and> hashtable_inv (snd (mrsh_hashtable_del t k)) \<and>
    distinct (map fst (hashtable_entries t)) \<and> map_of (hashtable_entries t) = mrsh_hashtable_get t"
proof -
  have "mrsh_hashtable_set t k v = (mrsh_hashtable_get t k, snd (mrsh_hashtable_set t k v))"
    by (metis ht.set_old prod.collapse)
  then show ?thesis
    by (simp add: ht.abs_set ht.abs_del [OF assms] ht.del_old ht.inv_set [OF assms]
        ht.inv_del [OF assms] ht.entries_distinct [OF assms] ht.entries_get [OF assms])
qed

theorem hashtable_refines_map_witness:
  "mrsh_hashtable_get (snd (mrsh_hashtable_set hashtable_zero ''PATH'' (1 :: nat))) ''PATH'' = Some 1"
  using hashtable_refines_map [OF ht.inv_empty, of "''PATH''" "1 :: nat"] by simp

end
