(* ===== verification/Shell_State.thy ===== *)
theory Shell_State
  imports Jobs Getopt Hashtable
begin

text \<open>
  The state of the shell, \<open>shell/shell.c\<close> with \<open>include/mrsh/shell.h\<close> and
  \<open>include/shell/shell.h\<close>: the public fields, the hash tables of variables, functions and aliases,
  the call frames (the list's head is \<open>state->frame\<close>), the jobs, the traps, and the process-wide
  data the code keeps outside the structure (the option parser's globals, the pending signals of
  \<open>shell/trap.c\<close>, the signal dispositions, the file mode mask, the descriptors with the open files
  behind them, the environment and working directory, the process numbers the system hands out and
  the statuses of the children that ended). What is printed on standard error is left out.

  The strings of a frame's \<open>argv\<close> live in a memory of the frame, from addresses to strings, with
  \<open>None\<close> for a string that was freed: \<open>shift\<close> moves and frees the pointers one by one.
\<close>

section \<open>Options and attributes\<close>

datatype mrsh_option =
    MRSH_OPT_ALLEXPORT | MRSH_OPT_NOTIFY | MRSH_OPT_NOCLOBBER | MRSH_OPT_ERREXIT
  | MRSH_OPT_NOGLOB | MRSH_OPT_PRELOOKUP | MRSH_OPT_MONITOR | MRSH_OPT_NOEXEC
  | MRSH_OPT_IGNOREEOF | MRSH_OPT_NOLOG | MRSH_OPT_VI | MRSH_OPT_NOUNSET
  | MRSH_OPT_VERBOSE | MRSH_OPT_XTRACE

fun option_shift :: "mrsh_option \<Rightarrow> nat" where
  "option_shift MRSH_OPT_ALLEXPORT = 0"
| "option_shift MRSH_OPT_NOTIFY = 1"
| "option_shift MRSH_OPT_NOCLOBBER = 2"
| "option_shift MRSH_OPT_ERREXIT = 3"
| "option_shift MRSH_OPT_NOGLOB = 4"
| "option_shift MRSH_OPT_PRELOOKUP = 5"
| "option_shift MRSH_OPT_MONITOR = 6"
| "option_shift MRSH_OPT_NOEXEC = 7"
| "option_shift MRSH_OPT_IGNOREEOF = 8"
| "option_shift MRSH_OPT_NOLOG = 9"
| "option_shift MRSH_OPT_VI = 10"
| "option_shift MRSH_OPT_NOUNSET = 11"
| "option_shift MRSH_OPT_VERBOSE = 12"
| "option_shift MRSH_OPT_XTRACE = 13"

definition option_value :: "mrsh_option \<Rightarrow> u32" where
  "option_value opt = push_bit (option_shift opt) 1"

definition has_option :: "u32 \<Rightarrow> mrsh_option \<Rightarrow> bool" where
  "has_option options opt \<longleftrightarrow> options AND option_value opt \<noteq> 0"

definition MRSH_VAR_ATTRIB_NONE :: u32 where "MRSH_VAR_ATTRIB_NONE = 0"
definition MRSH_VAR_ATTRIB_EXPORT :: u32 where "MRSH_VAR_ATTRIB_EXPORT = push_bit 0 1"
definition MRSH_VAR_ATTRIB_READONLY :: u32 where "MRSH_VAR_ATTRIB_READONLY = push_bit 1 1"

definition has_attrib :: "u32 \<Rightarrow> u32 \<Rightarrow> bool" where
  "has_attrib attribs a \<longleftrightarrow> attribs AND a \<noteq> 0"

lemmas attrib_defs = MRSH_VAR_ATTRIB_NONE_def MRSH_VAR_ATTRIB_EXPORT_def MRSH_VAR_ATTRIB_READONLY_def

section \<open>The state\<close>

record mrsh_variable =
  var_value :: cstring
  var_attribs :: u32

datatype mrsh_branch_control =
  MRSH_BRANCH_BREAK | MRSH_BRANCH_CONTINUE | MRSH_BRANCH_RETURN | MRSH_BRANCH_EXIT

record mrsh_call_frame =
  fr_argv :: "nat option list option"
  fr_argc :: nat
  fr_mem :: "nat \<Rightarrow> cstring option"
  fr_branch_control :: mrsh_branch_control
  fr_nloops :: int

datatype mrsh_trap_action = MRSH_TRAP_DEFAULT | MRSH_TRAP_IGNORE | MRSH_TRAP_CATCH

datatype sig_handler = SIG_DFL | SIG_IGN | HandleSignal

record mrsh_trap =
  tr_set :: bool
  tr_action :: mrsh_trap_action
  tr_program :: "nat option" \<comment> \<open>the address of the program\<close>

record mrsh_state =
  st_exit :: int
  st_options :: u32
  st_frames :: "mrsh_call_frame list"
  st_interactive :: bool
  st_last_status :: int
  st_aliases :: "cstring mrsh_hashtable"
  st_variables :: "mrsh_variable mrsh_hashtable"
  st_functions :: "mrsh_command mrsh_hashtable"
  st_jobs :: jobs_state
  st_traps :: "mrsh_trap list"
  st_progs :: "nat \<Rightarrow> mrsh_program option" \<comment> \<open>\<open>None\<close>: not allocated, or freed\<close>
  st_next_prog :: nat
  st_handlers :: "nat \<Rightarrow> sig_handler"
  st_pending :: "nat \<Rightarrow> nat"
  st_in_trap :: bool
  st_getopt :: getopt_state
  st_umask :: u32
  st_fds :: "int \<Rightarrow> nat option" \<comment> \<open>the descriptors, with the open file behind each\<close>
  st_files :: "nat \<Rightarrow> string" \<comment> \<open>the bytes of an open file that are left to read, or were written\<close>
  st_next_file :: nat
  st_pid :: int
  st_pids :: "nat \<Rightarrow> int" \<comment> \<open>what the next calls of \<open>fork\<close> return to the parent\<close>
  st_zombies :: "int \<Rightarrow> nat option" \<comment> \<open>the wait status of a child that was not waited for yet\<close>
  st_environ :: "cstring \<Rightarrow> cstring option"
  st_cwd :: cstring
  st_fsize :: "64 word" \<comment> \<open>the limit \<open>RLIMIT_FSIZE\<close>\<close>

definition MRSH_NSIG :: nat where "MRSH_NSIG = 64"

definition frame_zero :: mrsh_call_frame where
  "frame_zero = \<lparr>fr_argv = None, fr_argc = 0, fr_mem = (\<lambda>_. None),
     fr_branch_control = MRSH_BRANCH_BREAK, fr_nloops = 0\<rparr>"

definition trap_zero :: mrsh_trap where
  "trap_zero = \<lparr>tr_set = False, tr_action = MRSH_TRAP_DEFAULT, tr_program = None\<rparr>"

definition jobs_zero :: jobs_state where
  "jobs_zero = \<lparr>js_store = (\<lambda>_. \<lparr>pr_pid = 0, pr_stopped = False, pr_terminated = False,
       pr_stat = 0, pr_signal = 0\<rparr>),
     js_next = 0, js_processes = [], js_jobs = [], js_foreground = None, js_job_control = False,
     js_child = False, js_pgid = 0, js_term_pgrp = 0, js_events = []\<rparr>"

text \<open>\<open>mrsh_state_create\<close> in a process with the given dispositions, mask and standard input.\<close>

definition mrsh_state_create :: "(nat \<Rightarrow> sig_handler) \<Rightarrow> u32 \<Rightarrow> string \<Rightarrow> mrsh_state" where
  "mrsh_state_create handlers umask stdin =
     \<lparr>st_exit = - 1, st_options = 0, st_frames = [frame_zero], st_interactive = False,
      st_last_status = 0, st_aliases = hashtable_zero, st_variables = hashtable_zero,
      st_functions = hashtable_zero, st_jobs = jobs_zero,
      st_traps = replicate MRSH_NSIG trap_zero, st_progs = (\<lambda>_. None), st_next_prog = 0,
      st_handlers = handlers, st_pending = (\<lambda>_. 0), st_in_trap = False,
      st_getopt = getopt_init, st_umask = umask,
      st_fds = (\<lambda>fd. if 0 \<le> fd \<and> fd < 3 then Some (nat fd) else None),
      st_files = (\<lambda>f. if f = 0 then stdin else []), st_next_file = 3,
      st_pid = 1, st_pids = (\<lambda>i. int i + 2), st_zombies = (\<lambda>_. None),
      st_environ = (\<lambda>_. None), st_cwd = ''/'', st_fsize = - 1\<rparr>"

definition cur_frame :: "mrsh_state \<Rightarrow> mrsh_call_frame" where
  "cur_frame s = hd (st_frames s)"

definition upd_frame :: "(mrsh_call_frame \<Rightarrow> mrsh_call_frame) \<Rightarrow> mrsh_state \<Rightarrow> mrsh_state" where
  "upd_frame f s = s\<lparr>st_frames := f (hd (st_frames s)) # tl (st_frames s)\<rparr>"

text \<open>Writing to a descriptor and reading all of one; a closed descriptor takes and gives nothing.\<close>

definition fd_write :: "int \<Rightarrow> string \<Rightarrow> mrsh_state \<Rightarrow> mrsh_state" where
  "fd_write fd str s =
     (case st_fds s fd of None \<Rightarrow> s
      | Some f \<Rightarrow> s\<lparr>st_files := (st_files s)(f := st_files s f @ str)\<rparr>)"

definition fd_text :: "mrsh_state \<Rightarrow> int \<Rightarrow> string" where
  "fd_text s fd = (case st_fds s fd of None \<Rightarrow> [] | Some f \<Rightarrow> st_files s f)"

definition fd_set_text :: "int \<Rightarrow> string \<Rightarrow> mrsh_state \<Rightarrow> mrsh_state" where
  "fd_set_text fd str s =
     (case st_fds s fd of None \<Rightarrow> s | Some f \<Rightarrow> s\<lparr>st_files := (st_files s)(f := str)\<rparr>)"

definition puts :: "cstring \<Rightarrow> mrsh_state \<Rightarrow> mrsh_state" where
  "puts str s = fd_write 1 str s"

lemma fd_write_frame [simp]:
  "st_exit (fd_write fd str s) = st_exit s" "st_options (fd_write fd str s) = st_options s"
  "st_frames (fd_write fd str s) = st_frames s" "st_interactive (fd_write fd str s) = st_interactive s"
  "st_last_status (fd_write fd str s) = st_last_status s" "st_aliases (fd_write fd str s) = st_aliases s"
  "st_variables (fd_write fd str s) = st_variables s" "st_functions (fd_write fd str s) = st_functions s"
  "st_jobs (fd_write fd str s) = st_jobs s" "st_traps (fd_write fd str s) = st_traps s"
  "st_progs (fd_write fd str s) = st_progs s" "st_next_prog (fd_write fd str s) = st_next_prog s"
  "st_handlers (fd_write fd str s) = st_handlers s" "st_pending (fd_write fd str s) = st_pending s"
  "st_in_trap (fd_write fd str s) = st_in_trap s" "st_getopt (fd_write fd str s) = st_getopt s"
  "st_umask (fd_write fd str s) = st_umask s" "st_fds (fd_write fd str s) = st_fds s"
  "st_pids (fd_write fd str s) = st_pids s" "st_zombies (fd_write fd str s) = st_zombies s"
  by (simp_all add: fd_write_def split: option.split)

lemma fd_set_text_frame [simp]:
  "st_exit (fd_set_text fd str s) = st_exit s" "st_options (fd_set_text fd str s) = st_options s"
  "st_frames (fd_set_text fd str s) = st_frames s" "st_last_status (fd_set_text fd str s) = st_last_status s"
  "st_aliases (fd_set_text fd str s) = st_aliases s" "st_variables (fd_set_text fd str s) = st_variables s"
  "st_functions (fd_set_text fd str s) = st_functions s" "st_jobs (fd_set_text fd str s) = st_jobs s"
  "st_getopt (fd_set_text fd str s) = st_getopt s" "st_fds (fd_set_text fd str s) = st_fds s"
  by (simp_all add: fd_set_text_def split: option.split)

section \<open>Outcomes\<close>

text \<open>
  What a part of the shell that runs programs comes to. It returns (\<open>Inr\<close>), or the process does not
  get that far: undefined behaviour, an abort or a failed assertion (\<open>Crash\<close>), a system call that
  never returns (\<open>Blocked\<close>), the process ended, by \<open>exit\<close> or as the program that replaced it, with a
  wait status (\<open>Ended\<close>); \<open>NoFuel\<close> is the model's own: the bound on the nesting of programs was too
  small.
\<close>

datatype stop = Crash | Blocked | NoFuel | Ended nat mrsh_state

type_synonym 'a run = "stop + 'a \<times> mrsh_state"

definition bind_run :: "'a run \<Rightarrow> ('a \<Rightarrow> mrsh_state \<Rightarrow> 'b run) \<Rightarrow> 'b run" where
  "bind_run r f = (case r of Inl e \<Rightarrow> Inl e | Inr (x, s) \<Rightarrow> f x s)"

definition run_of :: "('a \<times> mrsh_state) option \<Rightarrow> 'a run" where
  "run_of r = (case r of None \<Rightarrow> Inl Crash | Some x \<Rightarrow> Inr x)"

text \<open>\<open>abort()\<close> for a value that is not there.\<close>

definition need :: "'a option \<Rightarrow> mrsh_state \<Rightarrow> ('a \<Rightarrow> mrsh_state \<Rightarrow> 'b run) \<Rightarrow> 'b run" where
  "need x s f = (case x of None \<Rightarrow> Inl Crash | Some v \<Rightarrow> f v s)"

definition exit_process :: "int \<Rightarrow> mrsh_state \<Rightarrow> 'a run" where
  "exit_process status s = Inl (Ended (256 * nat (status mod 256)) s)"

lemma bind_run_simps [simp]:
  "bind_run (Inl e) f = Inl e" "bind_run (Inr (x, s)) f = f x s"
  by (simp_all add: bind_run_def)

lemma run_of_simps [simp]: "run_of None = Inl Crash" "run_of (Some x) = Inr x"
  by (simp_all add: run_of_def)

lemma need_simps [simp]: "need None s f = Inl Crash" "need (Some v) s f = f v s"
  by (simp_all add: need_def)

lemma bind_run_cong [fundef_cong]:
  "r = r' \<Longrightarrow> (\<And>x s. r' = Inr (x, s) \<Longrightarrow> f x s = g x s) \<Longrightarrow> bind_run r f = bind_run r' g"
  by (auto simp: bind_run_def split: sum.splits)

lemma need_cong [fundef_cong]:
  "x = x' \<Longrightarrow> s = s' \<Longrightarrow> (\<And>v. x' = Some v \<Longrightarrow> f v s' = g v s') \<Longrightarrow> need x s f = need x' s' g"
  by (auto simp: need_def split: option.splits)

lemma bind_run_Inr: "bind_run r f = Inr y \<longleftrightarrow> (\<exists>x s. r = Inr (x, s) \<and> f x s = Inr y)"
  by (auto simp: bind_run_def split: sum.splits)

lemma need_Inr: "need x s f = Inr y \<longleftrightarrow> (\<exists>v. x = Some v \<and> f v s = Inr y)"
  by (auto simp: need_def split: option.splits)

lemma run_of_Inr: "run_of r = Inr y \<longleftrightarrow> r = Some y"
  by (auto simp: run_of_def split: option.splits)

lemma bind_run_assoc: "bind_run (bind_run r f) g = bind_run r (\<lambda>x s. bind_run (f x s) g)"
  by (auto simp: bind_run_def split: sum.splits)

lemmas run_Inr = bind_run_Inr need_Inr run_of_Inr

section \<open>Variables\<close>

definition mrsh_env_set :: "cstring \<Rightarrow> cstring \<Rightarrow> u32 \<Rightarrow> mrsh_state \<Rightarrow> mrsh_state" where
  "mrsh_env_set key value attribs s =
     s\<lparr>st_variables := snd (mrsh_hashtable_set (st_variables s) key
         \<lparr>var_value = value, var_attribs = attribs\<rparr>)\<rparr>"

definition mrsh_env_unset :: "cstring \<Rightarrow> mrsh_state \<Rightarrow> mrsh_state" where
  "mrsh_env_unset key s = s\<lparr>st_variables := snd (mrsh_hashtable_del (st_variables s) key)\<rparr>"

text \<open>The value, and the attributes where the caller asks for them.\<close>

definition mrsh_env_get :: "mrsh_state \<Rightarrow> cstring \<Rightarrow> cstring option" where
  "mrsh_env_get s key = map_option var_value (mrsh_hashtable_get (st_variables s) key)"

definition mrsh_env_get_attribs :: "mrsh_state \<Rightarrow> cstring \<Rightarrow> u32 option" where
  "mrsh_env_get_attribs s key = map_option var_attribs (mrsh_hashtable_get (st_variables s) key)"

text \<open>\<open>uint32_t attribs = 0; mrsh_env_get(state, key, &attribs)\<close>.\<close>

definition env_attribs :: "mrsh_state \<Rightarrow> cstring \<Rightarrow> u32" where
  "env_attribs s key = (case mrsh_env_get_attribs s key of None \<Rightarrow> 0 | Some a \<Rightarrow> a)"

definition is_readonly :: "mrsh_state \<Rightarrow> cstring \<Rightarrow> bool" where
  "is_readonly s key \<longleftrightarrow> has_attrib (env_attribs s key) MRSH_VAR_ATTRIB_READONLY"

definition get_alias_func :: "mrsh_state \<Rightarrow> cstring \<Rightarrow> cstring option" where
  "get_alias_func s name = mrsh_hashtable_get (st_aliases s) name"

lemma env_get_set [env_simps]:
  "mrsh_env_get (mrsh_env_set k v a s) k' = (if k' = k then Some v else mrsh_env_get s k')"
  by (simp add: mrsh_env_get_def mrsh_env_set_def ht.get_set)

lemma env_attribs_set [env_simps]:
  "env_attribs (mrsh_env_set k v a s) k' = (if k' = k then a else env_attribs s k')"
  by (simp add: env_attribs_def mrsh_env_get_attribs_def mrsh_env_set_def ht.get_set)

definition env_inv :: "mrsh_state \<Rightarrow> bool" where
  "env_inv s \<longleftrightarrow> hashtable_inv (st_variables s) \<and> hashtable_inv (st_aliases s) \<and>
     hashtable_inv (st_functions s)"

lemma env_inv_set [simp]: "env_inv s \<Longrightarrow> env_inv (mrsh_env_set k v a s)"
  by (simp add: env_inv_def mrsh_env_set_def ht.inv_set)

lemma env_inv_unset [simp]: "env_inv s \<Longrightarrow> env_inv (mrsh_env_unset k s)"
  by (simp add: env_inv_def mrsh_env_unset_def ht.inv_del)

lemma env_get_unset [env_simps]:
  "env_inv s \<Longrightarrow> mrsh_env_get (mrsh_env_unset k s) k' = (if k' = k then None else mrsh_env_get s k')"
  by (simp add: mrsh_env_get_def mrsh_env_unset_def env_inv_def ht.get_del)

lemma env_attribs_unset [env_simps]:
  "env_inv s \<Longrightarrow> env_attribs (mrsh_env_unset k s) k' = (if k' = k then 0 else env_attribs s k')"
  by (simp add: env_attribs_def mrsh_env_get_attribs_def mrsh_env_unset_def env_inv_def ht.get_del)

lemma env_frames [simp]:
  "st_frames (mrsh_env_set k v a s) = st_frames s" "st_frames (mrsh_env_unset k s) = st_frames s"
  "st_options (mrsh_env_set k v a s) = st_options s" "st_options (mrsh_env_unset k s) = st_options s"
  "st_traps (mrsh_env_set k v a s) = st_traps s" "st_jobs (mrsh_env_set k v a s) = st_jobs s"
  "st_exit (mrsh_env_set k v a s) = st_exit s" "st_exit (mrsh_env_unset k s) = st_exit s"
  "st_last_status (mrsh_env_set k v a s) = st_last_status s"
  "st_fds (mrsh_env_set k v a s) = st_fds s" "st_files (mrsh_env_set k v a s) = st_files s"
  by (simp_all add: mrsh_env_set_def mrsh_env_unset_def)

section \<open>Call frames\<close>

text \<open>A fresh copy of a vector of strings, with the null pointer behind it.\<close>

definition fresh_argv :: "cstring list \<Rightarrow> nat option list" where
  "fresh_argv args = map Some [0..<length args] @ [None]"

definition fresh_mem :: "cstring list \<Rightarrow> nat \<Rightarrow> cstring option" where
  "fresh_mem args a = (if a < length args then Some (args ! a) else None)"

definition push_frame :: "cstring list \<Rightarrow> mrsh_state \<Rightarrow> mrsh_state" where
  "push_frame argv s =
     s\<lparr>st_frames :=
         frame_zero\<lparr>fr_argv := Some (fresh_argv argv), fr_argc := length argv, fr_mem := fresh_mem argv\<rparr>
         # st_frames s\<rparr>"

text \<open>\<open>free\<close> of the string a slot points to: \<open>None\<close> when it was freed before.\<close>

definition free_arg :: "nat option \<Rightarrow> (nat \<Rightarrow> cstring option) \<Rightarrow> (nat \<Rightarrow> cstring option) option" where
  "free_arg p mem =
     (case p of None \<Rightarrow> Some mem
      | Some a \<Rightarrow> if mem a = None then None else Some (mem(a := None)))"

fun free_args :: "nat option list \<Rightarrow> (nat \<Rightarrow> cstring option) \<Rightarrow> (nat \<Rightarrow> cstring option) option" where
  "free_args [] mem = Some mem"
| "free_args (p # ps) mem =
     (case free_arg p mem of None \<Rightarrow> None | Some mem \<Rightarrow> free_args ps mem)"

definition call_frame_destroy :: "mrsh_call_frame \<Rightarrow> (nat \<Rightarrow> cstring option) option" where
  "call_frame_destroy fr =
     (case fr_argv fr of None \<Rightarrow> Some (fr_mem fr)
      | Some ps \<Rightarrow> free_args (take (fr_argc fr) ps) (fr_mem fr))"

text \<open>\<open>None\<close>: the assertion that a frame is left, or a double free.\<close>

definition pop_frame :: "mrsh_state \<Rightarrow> mrsh_state option" where
  "pop_frame s =
     (case st_frames s of
        fr # prev # frs \<Rightarrow>
          (case call_frame_destroy fr of
             None \<Rightarrow> None
           | Some _ \<Rightarrow> Some (s\<lparr>st_frames := prev # frs\<rparr>))
      | _ \<Rightarrow> None)"

text \<open>Reading \<open>argv[i]\<close>: \<open>None\<close> for a string that was freed.\<close>

definition frame_arg :: "mrsh_call_frame \<Rightarrow> nat \<Rightarrow> cstring option" where
  "frame_arg fr i =
     (case fr_argv fr of None \<Rightarrow> None
      | Some ps \<Rightarrow> if i < length ps then (case ps ! i of None \<Rightarrow> None | Some a \<Rightarrow> fr_mem fr a) else None)"

definition frame_args :: "mrsh_call_frame \<Rightarrow> cstring list option" where
  "frame_args fr = those (map (frame_arg fr) [0..<fr_argc fr])"

text \<open>The vector is sound: its \<open>argc\<close> slots hold live strings, no two of them the same one.\<close>

definition frame_ok :: "mrsh_call_frame \<Rightarrow> bool" where
  "frame_ok fr \<longleftrightarrow>
     (\<exists>ps. fr_argv fr = Some ps \<and> fr_argc fr < length ps \<and> 0 < fr_argc fr \<and>
        (\<forall>i < fr_argc fr. \<exists>a. ps ! i = Some a \<and> fr_mem fr a \<noteq> None) \<and>
        distinct (take (fr_argc fr) ps))"

text \<open>What \<open>_mrsh_getopt\<close> asserts of a vector.\<close>

definition argv_terminated :: "mrsh_call_frame \<Rightarrow> bool" where
  "argv_terminated fr \<longleftrightarrow>
     (\<exists>ps. fr_argv fr = Some ps \<and> fr_argc fr < length ps \<and> ps ! fr_argc fr = None)"

lemma those_map_Some: "those (map (\<lambda>x. Some (f x)) xs) = Some (map f xs)"
  by (induction xs) auto

lemma those_Some_iff: "those xs = Some ys \<longleftrightarrow> xs = map Some ys"
  by (induction xs arbitrary: ys) (auto split: option.splits)

lemma frame_args_iff:
  "frame_args fr = Some args \<longleftrightarrow>
    length args = fr_argc fr \<and> (\<forall>i < fr_argc fr. frame_arg fr i = Some (args ! i))"
  by (auto simp: frame_args_def those_Some_iff list_eq_iff_nth_eq)

lemma frame_arg_fresh: "i < length args \<Longrightarrow>
    frame_arg (fr\<lparr>fr_argv := Some (fresh_argv args), fr_argc := n, fr_mem := fresh_mem args\<rparr>) i = Some (args ! i)"
  by (simp add: frame_arg_def fresh_argv_def fresh_mem_def nth_append)

lemma frame_ok_fresh:
  "args \<noteq> [] \<Longrightarrow>
    frame_ok (fr\<lparr>fr_argv := Some (fresh_argv args), fr_argc := length args, fr_mem := fresh_mem args\<rparr>)"
  by (auto simp: frame_ok_def fresh_argv_def fresh_mem_def nth_append distinct_map inj_on_def)

lemma terminated_fresh:
  "argv_terminated (fr\<lparr>fr_argv := Some (fresh_argv args), fr_argc := length args, fr_mem := fresh_mem args\<rparr>)"
  by (simp add: argv_terminated_def fresh_argv_def nth_append)

lemma frame_ok_args: "frame_ok fr \<Longrightarrow> \<exists>args. frame_args fr = Some args"
proof -
  assume ok: "frame_ok fr"
  have "frame_arg fr i = Some (the (frame_arg fr i))" if "i < fr_argc fr" for i
    using ok that by (auto simp: frame_ok_def frame_arg_def)
  then have "map (frame_arg fr) [0..<fr_argc fr] = map Some (map (\<lambda>i. the (frame_arg fr i)) [0..<fr_argc fr])"
    by (simp add: list_eq_iff_nth_eq)
  then show ?thesis
    unfolding frame_args_def those_Some_iff by (rule exI)
qed

lemma free_args_ok:
  "distinct ps \<Longrightarrow> \<forall>p \<in> set ps. \<exists>a. p = Some a \<and> mem a \<noteq> None \<Longrightarrow> \<exists>mem'. free_args ps mem = Some mem'"
proof (induction ps arbitrary: mem)
  case Nil
  then show ?case by simp
next
  case (Cons p ps)
  then obtain a where a: "p = Some a" "mem a \<noteq> None" by auto
  have "\<forall>q \<in> set ps. \<exists>b. q = Some b \<and> (mem(a := None)) b \<noteq> None"
    using Cons.prems a(1) by fastforce
  with Cons a show ?case
    by (simp add: free_arg_def)
qed

lemma frame_destroy_ok: "frame_ok fr \<Longrightarrow> \<exists>mem. call_frame_destroy fr = Some mem"
proof -
  assume "frame_ok fr"
  then obtain ps where ps: "fr_argv fr = Some ps" "fr_argc fr < length ps"
    "\<forall>i < fr_argc fr. \<exists>a. ps ! i = Some a \<and> fr_mem fr a \<noteq> None" "distinct (take (fr_argc fr) ps)"
    by (auto simp: frame_ok_def)
  have "\<forall>p \<in> set (take (fr_argc fr) ps). \<exists>a. p = Some a \<and> fr_mem fr a \<noteq> None"
    using ps(2,3) by (auto simp: in_set_conv_nth)
  from free_args_ok [OF ps(4) this] ps(1) show ?thesis
    by (auto simp: call_frame_destroy_def)
qed

lemma pop_push: "st_frames s \<noteq> [] \<Longrightarrow> argv \<noteq> [] \<Longrightarrow> pop_frame (push_frame argv s) = Some s"
proof -
  assume ne: "st_frames s \<noteq> []" "argv \<noteq> []"
  obtain prev frs where frs: "st_frames s = prev # frs"
    using ne(1) by (cases "st_frames s") auto
  obtain mem where "call_frame_destroy (frame_zero\<lparr>fr_argv := Some (fresh_argv argv),
      fr_argc := length argv, fr_mem := fresh_mem argv\<rparr>) = Some mem"
    using frame_destroy_ok [OF frame_ok_fresh [OF ne(2)]] by blast
  then show ?thesis
    by (simp add: pop_frame_def push_frame_def frs)
qed

end
