(* ===== verification/Clib_Strtod.thy ===== *)
theory Clib_Strtod
  imports Clib
begin

text \<open>
  \<open>strtod\<close> followed by the conversion of its result to a \<open>long\<close>, as \<open>shell/arithm.c\<close> uses it: the
  syntax of the C standard (decimal and hexadecimal numbers, infinities and NaNs), a correctly rounded
  IEEE double, and a conversion that drops the fraction and is undefined outside the range of a \<open>long\<close>.
\<close>

section \<open>Rounding to a double\<close>

fun bit_length :: "nat \<Rightarrow> nat" where
  "bit_length n = (if n = 0 then 0 else Suc (bit_length (n div 2)))"

declare bit_length.simps [simp del]

definition round_half_even :: "nat \<Rightarrow> nat \<Rightarrow> nat" where
  "round_half_even n d =
     (let q = n div d; r = n mod d in if 2 * r < d \<or> (2 * r = d \<and> even q) then q else q + 1)"

text \<open>The integral part of the double nearest to \<open>n / d\<close>: 53 significant bits, ties to even. A fraction
  below one half never rounds to one, so that 53 binary places are enough there.\<close>

definition trunc_double :: "nat \<Rightarrow> nat \<Rightarrow> nat" where
  "trunc_double n d =
     (let k = bit_length (n div d) in
      if k \<le> 53 then round_half_even (n * 2 ^ (53 - k)) d div 2 ^ (53 - k)
      else round_half_even n (d * 2 ^ (k - 53)) * 2 ^ (k - 53))"

section \<open>Scanning\<close>

text \<open>The digits with an optional point: their value, the number of places, and the rest.\<close>

definition scan_mantissa :: "nat \<Rightarrow> cstring \<Rightarrow> (nat \<times> nat \<times> cstring) option" where
  "scan_mantissa b s =
     (let ip = takeWhile (is_base_digit b) s; s1 = drop (length ip) s;
          point = (char_at s1 0 = CHR ''.'');
          fp = (if point then takeWhile (is_base_digit b) (tl s1) else []);
          s2 = (if point then drop (length fp) (tl s1) else s1)
      in if ip = [] \<and> fp = [] then None else Some (number_of b (ip @ fp), length fp, s2))"

definition scan_exponent :: "cstring \<Rightarrow> cstring \<Rightarrow> int \<times> cstring" where
  "scan_exponent marks s =
     (case s of [] \<Rightarrow> (0, s)
      | c # t \<Rightarrow>
          let (neg, u) = split_sign t; ds = takeWhile is_digit u; n = int (number_of 10 ds) in
          if c \<in> set marks \<and> ds \<noteq> [] then (if neg then - n else n, drop (length ds) u) else (0, s))"

definition to_lower :: "char \<Rightarrow> char" where
  "to_lower c = (if is_upper c then char_of (char_code c + 32) else c)"

definition has_word :: "cstring \<Rightarrow> cstring \<Rightarrow> bool" where
  "has_word w s \<longleftrightarrow> map to_lower (take (length w) s) = w"

text \<open>After \<open>nan\<close>, a parenthesised sequence of letters, digits and underscores belongs to the number.\<close>

definition skip_nan_seq :: "cstring \<Rightarrow> cstring" where
  "skip_nan_seq s =
     (let t = dropWhile (\<lambda>c. is_alnum c \<or> c = CHR ''_'') (tl s) in
      if char_at s 0 = CHR ''('' \<and> char_at t 0 = CHR '')'' then tl t else s)"

definition scaled :: "nat \<Rightarrow> nat \<Rightarrow> int \<Rightarrow> nat" where
  "scaled m b e = (if e \<ge> 0 then trunc_double (m * b ^ nat e) 1 else trunc_double m (b ^ nat (- e)))"

text \<open>The magnitude (\<open>None\<close>: an infinity or a NaN) and the rest; \<open>None\<close> when nothing can be converted.\<close>

definition scan_double :: "cstring \<Rightarrow> (nat option \<times> cstring) option" where
  "scan_double s =
     (if has_word ''infinity'' s then Some (None, drop 8 s)
      else if has_word ''inf'' s then Some (None, drop 3 s)
      else if has_word ''nan'' s then Some (None, skip_nan_seq (drop 3 s))
      else
        case (if has_word ''0x'' s then scan_mantissa 16 (drop 2 s) else None) of
          Some (m, places, rest) \<Rightarrow>
            (case scan_exponent ''pP'' rest of
               (e, rest) \<Rightarrow> Some (Some (scaled m 2 (e - 4 * int places)), rest))
        | None \<Rightarrow>
            (case scan_mantissa 10 s of
               None \<Rightarrow> None
             | Some (m, places, rest) \<Rightarrow>
                 (case scan_exponent ''eE'' rest of
                    (e, rest) \<Rightarrow> Some (Some (scaled m 10 (e - int places)), rest))))"

text \<open>\<open>long val = strtod(str, &end)\<close>: the value, \<open>None\<close> where the conversion is undefined, and the text
  at \<open>end\<close>.\<close>

definition strtod_long :: "cstring \<Rightarrow> int option \<times> cstring" where
  "strtod_long s =
     (let (neg, t) = split_sign (dropWhile is_space s) in
      case scan_double t of
        None \<Rightarrow> (Some 0, s)
      | Some (None, rest) \<Rightarrow> (None, rest)
      | Some (Some n, rest) \<Rightarrow>
          let v = (if neg then - int n else int n) in (if in_long v then Some v else None, rest))"

section \<open>Numbers that are read exactly\<close>

lemma round_half_even_exact: "0 < d \<Longrightarrow> round_half_even (n * d) d = n"
  by (simp add: round_half_even_def)

lemma bit_length_bound: "n < 2 ^ k \<Longrightarrow> bit_length n \<le> k"
proof (induction n arbitrary: k rule: bit_length.induct)
  case (1 n)
  show ?case
  proof (cases "n = 0")
    case True
    then show ?thesis by (simp add: bit_length.simps)
  next
    case False
    with 1(2) obtain j where j: "k = Suc j" by (cases k) auto
    with 1(2) have "n div 2 < 2 ^ j" by auto
    with 1(1) [OF False this] False j show ?thesis
      by (subst bit_length.simps) simp
  qed
qed

lemma trunc_double_exact: "n \<le> 2 ^ 53 \<Longrightarrow> trunc_double n 1 = n"
proof (cases "n = 2 ^ 53")
  case True
  have "bit_length (2 ^ 53) = 54"
    by (simp add: bit_length.simps)
  with True show ?thesis
    by (simp add: trunc_double_def round_half_even_def)
next
  case False
  assume "n \<le> 2 ^ 53"
  with False have "bit_length n \<le> 53"
    by (intro bit_length_bound) simp
  then show ?thesis
    by (simp add: trunc_double_def round_half_even_def)
qed

lemma has_word_digit: "is_digit c \<Longrightarrow> w \<noteq> [] \<Longrightarrow> is_alpha (hd w) \<Longrightarrow> \<not> has_word w (c # s)"
  by (cases w) (auto simp: has_word_def to_lower_def char_classes)

lemma scan_double_digits:
  assumes "ds \<noteq> []" "\<forall>c \<in> set ds. is_digit c"
  shows "scan_double ds = Some (Some (trunc_double (number_of 10 ds) 1), [])"
proof -
  obtain c s where cs: "ds = c # s"
    using assms(1) by (cases ds) auto
  have tw: "takeWhile (is_base_digit 10) ds = ds"
    by (rule takeWhile_all) (use assms(2) digit_is_base_digit in blast)
  have letters: "is_alpha (CHR ''i'')" "is_alpha (CHR ''n'')"
    by (simp_all add: char_simps)
  have "\<not> has_word ''0x'' ds"
    using assms(2) cs by (cases s) (auto simp: has_word_def to_lower_def char_classes)
  moreover have "\<not> has_word w ds" if "w \<noteq> []" "is_alpha (hd w)" for w
    using assms(2) cs that by (simp add: has_word_digit)
  moreover have "scan_mantissa 10 ds = Some (number_of 10 ds, 0, [])"
    using assms(1) by (simp add: scan_mantissa_def Let_def tw)
  ultimately show ?thesis
    by (simp add: scan_double_def scan_exponent_def scaled_def letters)
qed

lemma strtod_fmt_d:
  assumes "\<bar>n\<bar> \<le> 2 ^ 53"
  shows "strtod_long (fmt_d n) = (Some n, [])"
proof -
  let ?ds = "show_base 10 (nat \<bar>n\<bar>)"
  obtain c s where cs: "?ds = c # s"
    by (cases ?ds) (auto simp: show_base_nonempty)
  then have c: "is_digit c"
    by (metis list.set_intros(1) show_base_10_digits)
  have "nat \<bar>n\<bar> \<le> 2 ^ 53"
    using assms by simp
  then have sd: "scan_double ?ds = Some (Some (nat \<bar>n\<bar>), [])"
    using trunc_double_exact [of "nat \<bar>n\<bar>"]
    by (subst scan_double_digits) (auto simp: show_base_nonempty number_of_show_base dest: show_base_10_digits)
  have long: "in_long n"
    using assms by (auto simp: in_long_def LONG_MIN_def LONG_MAX_def abs_le_iff)
  have minus: "\<not> is_space (CHR ''-'')"
    by (simp add: char_simps)
  show ?thesis
  proof (cases "n < 0")
    case True
    then have "split_sign (dropWhile is_space (fmt_d n)) = (True, ?ds)"
      by (simp add: fmt_d_def minus split_sign_def)
    with True sd long show ?thesis
      by (simp add: strtod_long_def)
  next
    case False
    then have "split_sign (dropWhile is_space (fmt_d n)) = (False, ?ds)"
      using cs c by (simp add: fmt_d_def is_digit_not_space split_sign_digit)
    with False sd long show ?thesis
      by (simp add: strtod_long_def)
  qed
qed

lemma strtod_long_range: "strtod_long s = (Some v, r) \<Longrightarrow> in_long v"
  by (auto simp: strtod_long_def in_long_def LONG_MIN_def LONG_MAX_def
      split: prod.splits option.splits if_splits)

text \<open>Above 2^53 the value goes through a double and changes.\<close>

lemmas strtod_defs = strtod_long_def scan_double_def scan_mantissa_def scan_exponent_def scaled_def
  trunc_double_def round_half_even_def bit_length.simps has_word_def to_lower_def split_sign_def
  number_of_def is_base_digit_def digit_val_def in_long_def LONG_MIN_def LONG_MAX_def char_classes

lemma strtod_precision: "strtod_long ''9007199254740993'' = (Some 9007199254740992, [])"
  by (simp add: strtod_defs Let_def)

lemma strtod_samples:
  "strtod_long '' -12.9'' = (Some (- 12), [])" "strtod_long ''0x1Fp1'' = (Some 62, [])"
  "strtod_long ''1e3x'' = (Some 1000, ''x'')" "strtod_long ''e3'' = (Some 0, ''e3'')"
  "strtod_long ''0.99999999999999999999'' = (Some 1, [])" "strtod_long ''inf'' = (None, [])"
  "strtod_long ''1e30'' = (None, [])"
  by (simp_all add: strtod_defs Let_def)

end
