(* ===== verification/Arithm_Eval.thy ===== *)
theory Arithm_Eval
  imports Shell_State Clib_Strtod "HOL-Library.Signed_Division"
begin

text \<open>
  Arithmetic expressions: the trees of \<open>include/mrsh/arithm.h\<close> and their evaluation,
  \<open>shell/arithm.c\<close>. A \<open>long\<close> is an \<open>int\<close> in its range; an operation C leaves undefined (overflow, a
  shift out of range, reading a variable nothing was stored in) makes the evaluation \<open>Undefined\<close>.
  A right shift of a negative number is arithmetic, as GCC and Clang define it.
\<close>

section \<open>Expressions\<close>

datatype mrsh_arithm_unop_type =
  MRSH_ARITHM_UNOP_PLUS | MRSH_ARITHM_UNOP_MINUS | MRSH_ARITHM_UNOP_TILDE | MRSH_ARITHM_UNOP_BANG

datatype mrsh_arithm_binop_type =
    MRSH_ARITHM_BINOP_ASTERISK | MRSH_ARITHM_BINOP_SLASH | MRSH_ARITHM_BINOP_PERCENT
  | MRSH_ARITHM_BINOP_PLUS | MRSH_ARITHM_BINOP_MINUS
  | MRSH_ARITHM_BINOP_DLESS | MRSH_ARITHM_BINOP_DGREAT
  | MRSH_ARITHM_BINOP_LESS | MRSH_ARITHM_BINOP_LESSEQ | MRSH_ARITHM_BINOP_GREAT | MRSH_ARITHM_BINOP_GREATEQ
  | MRSH_ARITHM_BINOP_DEQ | MRSH_ARITHM_BINOP_BANGEQ
  | MRSH_ARITHM_BINOP_AND | MRSH_ARITHM_BINOP_CIRC | MRSH_ARITHM_BINOP_OR
  | MRSH_ARITHM_BINOP_DAND | MRSH_ARITHM_BINOP_DOR

datatype mrsh_arithm_assign_op =
    MRSH_ARITHM_ASSIGN_NONE | MRSH_ARITHM_ASSIGN_ASTERISK | MRSH_ARITHM_ASSIGN_SLASH
  | MRSH_ARITHM_ASSIGN_PERCENT | MRSH_ARITHM_ASSIGN_PLUS | MRSH_ARITHM_ASSIGN_MINUS
  | MRSH_ARITHM_ASSIGN_DLESS | MRSH_ARITHM_ASSIGN_DGREAT | MRSH_ARITHM_ASSIGN_AND
  | MRSH_ARITHM_ASSIGN_CIRC | MRSH_ARITHM_ASSIGN_OR

datatype mrsh_arithm_expr =
    ArithmLiteral int
  | ArithmVariable cstring
  | ArithmUnop mrsh_arithm_unop_type mrsh_arithm_expr
  | ArithmBinop mrsh_arithm_binop_type mrsh_arithm_expr mrsh_arithm_expr
  | ArithmCond mrsh_arithm_expr mrsh_arithm_expr mrsh_arithm_expr
  | ArithmAssign mrsh_arithm_assign_op cstring mrsh_arithm_expr

section \<open>Operations on longs\<close>

datatype 'a arith = Value 'a | Error | Undefined

definition checked :: "int \<Rightarrow> int arith" where
  "checked v = (if in_long v then Value v else Undefined)"

definition shift_left :: "int \<Rightarrow> int \<Rightarrow> int arith" where
  "shift_left l r = (if 0 \<le> r \<and> r < 64 \<and> 0 \<le> l then checked (l * 2 ^ nat r) else Undefined)"

definition shift_right :: "int \<Rightarrow> int \<Rightarrow> int arith" where
  "shift_right l r = (if 0 \<le> r \<and> r < 64 then Value (l div 2 ^ nat r) else Undefined)"

definition divide :: "int \<Rightarrow> int \<Rightarrow> int arith" where
  "divide l r = (if r = 0 then Error else checked (l sdiv r))"

text \<open>\<open>l % r\<close> is undefined when \<open>l / r\<close> does not fit.\<close>

definition remainder :: "int \<Rightarrow> int \<Rightarrow> int arith" where
  "remainder l r = (if r = 0 then Error else if in_long (l sdiv r) then Value (l smod r) else Undefined)"

fun binop_value :: "mrsh_arithm_binop_type \<Rightarrow> int \<Rightarrow> int \<Rightarrow> int arith" where
  "binop_value MRSH_ARITHM_BINOP_ASTERISK l r = checked (l * r)"
| "binop_value MRSH_ARITHM_BINOP_SLASH l r = divide l r"
| "binop_value MRSH_ARITHM_BINOP_PERCENT l r = remainder l r"
| "binop_value MRSH_ARITHM_BINOP_PLUS l r = checked (l + r)"
| "binop_value MRSH_ARITHM_BINOP_MINUS l r = checked (l - r)"
| "binop_value MRSH_ARITHM_BINOP_DLESS l r = shift_left l r"
| "binop_value MRSH_ARITHM_BINOP_DGREAT l r = shift_right l r"
| "binop_value MRSH_ARITHM_BINOP_LESS l r = Value (of_bool (l < r))"
| "binop_value MRSH_ARITHM_BINOP_LESSEQ l r = Value (of_bool (l \<le> r))"
| "binop_value MRSH_ARITHM_BINOP_GREAT l r = Value (of_bool (l > r))"
| "binop_value MRSH_ARITHM_BINOP_GREATEQ l r = Value (of_bool (l \<ge> r))"
| "binop_value MRSH_ARITHM_BINOP_DEQ l r = Value (of_bool (l = r))"
| "binop_value MRSH_ARITHM_BINOP_BANGEQ l r = Value (of_bool (l \<noteq> r))"
| "binop_value MRSH_ARITHM_BINOP_AND l r = Value (l AND r)"
| "binop_value MRSH_ARITHM_BINOP_CIRC l r = Value (l XOR r)"
| "binop_value MRSH_ARITHM_BINOP_OR l r = Value (l OR r)"
| "binop_value MRSH_ARITHM_BINOP_DAND l r = Value (of_bool (l \<noteq> 0 \<and> r \<noteq> 0))"
| "binop_value MRSH_ARITHM_BINOP_DOR l r = Value (of_bool (l \<noteq> 0 \<or> r \<noteq> 0))"

fun run_arithm_assign_op :: "mrsh_arithm_assign_op \<Rightarrow> int \<Rightarrow> int \<Rightarrow> int arith" where
  "run_arithm_assign_op MRSH_ARITHM_ASSIGN_NONE cur val = Value val"
| "run_arithm_assign_op MRSH_ARITHM_ASSIGN_ASTERISK cur val = checked (cur * val)"
| "run_arithm_assign_op MRSH_ARITHM_ASSIGN_SLASH cur val = divide cur val"
| "run_arithm_assign_op MRSH_ARITHM_ASSIGN_PERCENT cur val = remainder cur val"
| "run_arithm_assign_op MRSH_ARITHM_ASSIGN_PLUS cur val = checked (cur + val)"
| "run_arithm_assign_op MRSH_ARITHM_ASSIGN_MINUS cur val = checked (cur - val)"
| "run_arithm_assign_op MRSH_ARITHM_ASSIGN_DLESS cur val = shift_left cur val"
| "run_arithm_assign_op MRSH_ARITHM_ASSIGN_DGREAT cur val = shift_right cur val"
| "run_arithm_assign_op MRSH_ARITHM_ASSIGN_AND cur val = Value (cur AND val)"
| "run_arithm_assign_op MRSH_ARITHM_ASSIGN_CIRC cur val = Value (cur XOR val)"
| "run_arithm_assign_op MRSH_ARITHM_ASSIGN_OR cur val = Value (cur OR val)"

section \<open>Evaluation\<close>

text \<open>The value of a variable; its attributes, which the caller may ask for, are those of \<open>env_attribs\<close>.\<close>

definition run_variable :: "mrsh_state \<Rightarrow> cstring \<Rightarrow> int arith" where
  "run_variable s name =
     (case mrsh_env_get s name of
        None \<Rightarrow> if has_option (st_options s) MRSH_OPT_NOUNSET then Error else Value 0
      | Some str \<Rightarrow>
          (case strtod_long str of
             (val, end_str) \<Rightarrow>
               case val of
                 None \<Rightarrow> Undefined
               | Some v \<Rightarrow> if end_str = str \<or> end_str \<noteq> [] then Error else Value v))"

text \<open>The outcome of an evaluation: \<open>true\<close> with what was stored through \<open>result\<close>, if anything was,
  or \<open>false\<close>; the assignments made on the way are kept in both cases.\<close>

datatype arith_run = Done "int option" mrsh_state | Failed mrsh_state | UndefinedRun

text \<open>Going on after a call, and reading the \<open>long\<close> that a call was to fill.\<close>

definition and_then :: "arith_run \<Rightarrow> (int option \<Rightarrow> mrsh_state \<Rightarrow> arith_run) \<Rightarrow> arith_run" where
  "and_then r k = (case r of Done v s \<Rightarrow> k v s | Failed s \<Rightarrow> Failed s | UndefinedRun \<Rightarrow> UndefinedRun)"

definition reading :: "int option \<Rightarrow> (int \<Rightarrow> arith_run) \<Rightarrow> arith_run" where
  "reading v k = (case v of None \<Rightarrow> UndefinedRun | Some x \<Rightarrow> k x)"

definition of_arith :: "int arith \<Rightarrow> (int \<Rightarrow> arith_run) \<Rightarrow> mrsh_state \<Rightarrow> arith_run" where
  "of_arith a k s = (case a of Value v \<Rightarrow> k v | Error \<Rightarrow> Failed s | Undefined \<Rightarrow> UndefinedRun)"

text \<open>The unary plus neither reads the operand nor stores a result.\<close>

fun unop_value :: "mrsh_arithm_unop_type \<Rightarrow> int option \<Rightarrow> mrsh_state \<Rightarrow> arith_run" where
  "unop_value MRSH_ARITHM_UNOP_PLUS val s = Done None s"
| "unop_value MRSH_ARITHM_UNOP_MINUS val s =
     reading val (\<lambda>v. of_arith (checked (- v)) (\<lambda>r. Done (Some r) s) s)"
| "unop_value MRSH_ARITHM_UNOP_TILDE val s = reading val (\<lambda>v. Done (Some (NOT v)) s)"
| "unop_value MRSH_ARITHM_UNOP_BANG val s = reading val (\<lambda>v. Done (Some (of_bool (v = 0))) s)"

fun mrsh_run_arithm_expr :: "mrsh_arithm_expr \<Rightarrow> mrsh_state \<Rightarrow> arith_run" where
  "mrsh_run_arithm_expr (ArithmLiteral v) s = Done (Some v) s"
| "mrsh_run_arithm_expr (ArithmVariable name) s = of_arith (run_variable s name) (\<lambda>v. Done (Some v) s) s"
| "mrsh_run_arithm_expr (ArithmUnop op body) s =
     and_then (mrsh_run_arithm_expr body s) (\<lambda>val s. unop_value op val s)"
| "mrsh_run_arithm_expr (ArithmBinop op left right) s =
     and_then (mrsh_run_arithm_expr left s) (\<lambda>l s.
       and_then (mrsh_run_arithm_expr right s) (\<lambda>r s.
         reading l (\<lambda>l. reading r (\<lambda>r.
           of_arith (binop_value op l r) (\<lambda>v. Done (Some v) s) s))))"
| "mrsh_run_arithm_expr (ArithmCond condition body else_part) s =
     and_then (mrsh_run_arithm_expr condition s) (\<lambda>c s.
       reading c (\<lambda>c. if c \<noteq> 0 then mrsh_run_arithm_expr body s else mrsh_run_arithm_expr else_part s))"
| "mrsh_run_arithm_expr (ArithmAssign op name value) s =
     and_then (mrsh_run_arithm_expr value s) (\<lambda>val s.
       of_arith (if op = MRSH_ARITHM_ASSIGN_NONE then Value 0 else run_variable s name) (\<lambda>cur.
         reading val (\<lambda>val. of_arith (run_arithm_assign_op op cur val) (\<lambda>v.
           Done (Some v)
             (mrsh_env_set name (fmt_d v)
               (if op = MRSH_ARITHM_ASSIGN_NONE then MRSH_VAR_ATTRIB_NONE else env_attribs s name) s)) s)) s)"

lemma arith_run_simps [simp]:
  "and_then (Done v s) k = k v s" "and_then (Failed s) k = Failed s" "and_then UndefinedRun k = UndefinedRun"
  "reading (Some x) f = f x" "reading None f = UndefinedRun"
  "of_arith (Value x) f s = f x" "of_arith Error f s = Failed s" "of_arith Undefined f s = UndefinedRun"
  by (simp_all add: and_then_def reading_def of_arith_def)

section \<open>Results are longs\<close>

lemma in_long_bit: "in_long v \<longleftrightarrow> (\<forall>n. bit v (min 63 n) = bit v n)"
proof -
  have "in_long v \<longleftrightarrow> signed_take_bit 63 v = v"
    by (auto simp: in_long_def LONG_MIN_def LONG_MAX_def signed_take_bit_int_eq_self_iff)
  then show ?thesis
    by (simp add: bit_eq_iff bit_signed_take_bit_iff)
qed

lemma in_long_bits:
  "in_long l \<Longrightarrow> in_long r \<Longrightarrow> in_long (l AND r)" "in_long l \<Longrightarrow> in_long r \<Longrightarrow> in_long (l OR r)"
  "in_long l \<Longrightarrow> in_long r \<Longrightarrow> in_long (l XOR r)" "in_long l \<Longrightarrow> in_long (NOT l)"
  by (simp_all add: in_long_bit bit_simps)

lemma in_long_of_bool [simp]: "in_long (of_bool b)" "in_long 0"
  by (simp_all add: in_long_def LONG_MIN_def LONG_MAX_def)

lemma checked_long: "checked v = Value w \<Longrightarrow> in_long w"
  by (auto simp: checked_def split: if_splits)

lemma shift_right_long: "in_long l \<Longrightarrow> shift_right l r = Value w \<Longrightarrow> in_long w"
proof -
  assume l: "in_long l" and w: "shift_right l r = Value w"
  then have "w = l div 2 ^ nat r"
    by (auto simp: shift_right_def split: if_splits)
  moreover have "l div 2 ^ nat r \<le> l div 1 \<and> 0 \<le> l div 2 ^ nat r" if "0 \<le> l"
    using zdiv_mono2 [of l 1 "2 ^ nat r"] that by (simp add: pos_imp_zdiv_nonneg_iff)
  moreover have "l div 1 \<le> l div 2 ^ nat r \<and> l div 2 ^ nat r < 0" if "l < 0"
    using zdiv_mono2_neg [of l 1 "2 ^ nat r"] that by (simp add: pos_imp_zdiv_neg_iff)
  ultimately show ?thesis
    using l by (cases "0 \<le> l") (auto simp: in_long_def LONG_MIN_def LONG_MAX_def)
qed

lemma remainder_long: "in_long r \<Longrightarrow> remainder l r = Value w \<Longrightarrow> in_long w"
proof -
  assume r: "in_long r" and w: "remainder l r = Value w"
  then have "w = l smod r" "r \<noteq> 0"
    by (auto simp: remainder_def split: if_splits)
  with smod_int_range [of r l] r show ?thesis
    by (auto simp: in_long_def LONG_MIN_def LONG_MAX_def)
qed

lemma op_value_long:
  assumes "in_long l" "in_long r"
  shows "binop_value op l r = Value w \<Longrightarrow> in_long w" "run_arithm_assign_op aop l r = Value w \<Longrightarrow> in_long w"
proof -
  show "in_long w" if "binop_value op l r = Value w"
    using that assms by (cases op)
      (auto simp: divide_def shift_left_def in_long_bits split: if_splits
        intro: checked_long remainder_long shift_right_long)
  show "in_long w" if "run_arithm_assign_op aop l r = Value w"
    using that assms by (cases aop)
      (auto simp: divide_def shift_left_def in_long_bits split: if_splits
        intro: checked_long remainder_long shift_right_long)
qed

lemma run_variable_long: "run_variable s x = Value v \<Longrightarrow> in_long v"
  by (auto simp: run_variable_def split: option.splits prod.splits if_splits dest: strtod_long_range)

primrec literals_long :: "mrsh_arithm_expr \<Rightarrow> bool" where
  "literals_long (ArithmLiteral v) \<longleftrightarrow> in_long v"
| "literals_long (ArithmVariable x) \<longleftrightarrow> True"
| "literals_long (ArithmUnop op e) \<longleftrightarrow> literals_long e"
| "literals_long (ArithmBinop op l r) \<longleftrightarrow> literals_long l \<and> literals_long r"
| "literals_long (ArithmCond c b e) \<longleftrightarrow> literals_long c \<and> literals_long b \<and> literals_long e"
| "literals_long (ArithmAssign op x e) \<longleftrightarrow> literals_long e"

lemma run_cases [elim!]:
  assumes "and_then r k = Done v s'"
  obtains u t where "r = Done u t" "k u t = Done v s'"
  using assms by (auto simp: and_then_def split: arith_run.splits)

lemma reading_Done [elim!]:
  assumes "reading u k = Done v s'"
  obtains x where "u = Some x" "k x = Done v s'"
  using assms by (auto simp: reading_def split: option.splits)

lemma of_arith_Done [elim!]:
  assumes "of_arith a k s = Done v s'"
  obtains x where "a = Value x" "k x = Done v s'"
  using assms by (auto simp: of_arith_def split: arith.splits)



section \<open>A reference\<close>

text \<open>The meaning of an expression over an assignment of numbers to variables, in exact arithmetic.
  \<open>None\<close>: a division by zero, a shift by a number of places that is not in 0 to 63 or of a negative
  number to the left, or a number that does not fit: every value must be a \<open>long\<close>, and those stored in
  variables must be at most 2^53 in absolute value, since variables are read back as a double.\<close>

definition quotient :: "int \<Rightarrow> int \<Rightarrow> int" where
  "quotient l r = (if (l < 0) = (r < 0) then \<bar>l\<bar> div \<bar>r\<bar> else - (\<bar>l\<bar> div \<bar>r\<bar>))"

fun ref_op :: "mrsh_arithm_binop_type \<Rightarrow> int \<Rightarrow> int \<Rightarrow> int" where
  "ref_op MRSH_ARITHM_BINOP_ASTERISK l r = l * r"
| "ref_op MRSH_ARITHM_BINOP_SLASH l r = quotient l r"
| "ref_op MRSH_ARITHM_BINOP_PERCENT l r = l - quotient l r * r"
| "ref_op MRSH_ARITHM_BINOP_PLUS l r = l + r"
| "ref_op MRSH_ARITHM_BINOP_MINUS l r = l - r"
| "ref_op MRSH_ARITHM_BINOP_DLESS l r = l * 2 ^ nat r"
| "ref_op MRSH_ARITHM_BINOP_DGREAT l r = l div 2 ^ nat r"
| "ref_op MRSH_ARITHM_BINOP_LESS l r = of_bool (l < r)"
| "ref_op MRSH_ARITHM_BINOP_LESSEQ l r = of_bool (l \<le> r)"
| "ref_op MRSH_ARITHM_BINOP_GREAT l r = of_bool (r < l)"
| "ref_op MRSH_ARITHM_BINOP_GREATEQ l r = of_bool (r \<le> l)"
| "ref_op MRSH_ARITHM_BINOP_DEQ l r = of_bool (l = r)"
| "ref_op MRSH_ARITHM_BINOP_BANGEQ l r = of_bool (l \<noteq> r)"
| "ref_op MRSH_ARITHM_BINOP_AND l r = l AND r"
| "ref_op MRSH_ARITHM_BINOP_CIRC l r = l XOR r"
| "ref_op MRSH_ARITHM_BINOP_OR l r = l OR r"
| "ref_op MRSH_ARITHM_BINOP_DAND l r = of_bool (l \<noteq> 0 \<and> r \<noteq> 0)"
| "ref_op MRSH_ARITHM_BINOP_DOR l r = of_bool (l \<noteq> 0 \<or> r \<noteq> 0)"

definition ref_ok :: "mrsh_arithm_binop_type \<Rightarrow> int \<Rightarrow> int \<Rightarrow> bool" where
  "ref_ok op l r \<longleftrightarrow>
     (op \<in> {MRSH_ARITHM_BINOP_SLASH, MRSH_ARITHM_BINOP_PERCENT} \<longrightarrow> r \<noteq> 0 \<and> in_long (quotient l r)) \<and>
     (op \<in> {MRSH_ARITHM_BINOP_DLESS, MRSH_ARITHM_BINOP_DGREAT} \<longrightarrow> 0 \<le> r \<and> r < 64) \<and>
     (op = MRSH_ARITHM_BINOP_DLESS \<longrightarrow> 0 \<le> l)"

definition ref_binop :: "mrsh_arithm_binop_type \<Rightarrow> int \<Rightarrow> int \<Rightarrow> int option" where
  "ref_binop op l r = (if ref_ok op l r \<and> in_long (ref_op op l r) then Some (ref_op op l r) else None)"

text \<open>\<open>x op= e\<close> is \<open>x = x op e\<close>.\<close>

fun assign_binop :: "mrsh_arithm_assign_op \<Rightarrow> mrsh_arithm_binop_type option" where
  "assign_binop MRSH_ARITHM_ASSIGN_NONE = None"
| "assign_binop MRSH_ARITHM_ASSIGN_ASTERISK = Some MRSH_ARITHM_BINOP_ASTERISK"
| "assign_binop MRSH_ARITHM_ASSIGN_SLASH = Some MRSH_ARITHM_BINOP_SLASH"
| "assign_binop MRSH_ARITHM_ASSIGN_PERCENT = Some MRSH_ARITHM_BINOP_PERCENT"
| "assign_binop MRSH_ARITHM_ASSIGN_PLUS = Some MRSH_ARITHM_BINOP_PLUS"
| "assign_binop MRSH_ARITHM_ASSIGN_MINUS = Some MRSH_ARITHM_BINOP_MINUS"
| "assign_binop MRSH_ARITHM_ASSIGN_DLESS = Some MRSH_ARITHM_BINOP_DLESS"
| "assign_binop MRSH_ARITHM_ASSIGN_DGREAT = Some MRSH_ARITHM_BINOP_DGREAT"
| "assign_binop MRSH_ARITHM_ASSIGN_AND = Some MRSH_ARITHM_BINOP_AND"
| "assign_binop MRSH_ARITHM_ASSIGN_CIRC = Some MRSH_ARITHM_BINOP_CIRC"
| "assign_binop MRSH_ARITHM_ASSIGN_OR = Some MRSH_ARITHM_BINOP_OR"

definition ref_assign :: "mrsh_arithm_assign_op \<Rightarrow> int \<Rightarrow> int \<Rightarrow> int option" where
  "ref_assign op cur val =
     (case assign_binop op of None \<Rightarrow> Some val | Some bop \<Rightarrow> ref_binop bop cur val)"

fun ref_unop :: "mrsh_arithm_unop_type \<Rightarrow> int \<Rightarrow> int" where
  "ref_unop MRSH_ARITHM_UNOP_PLUS v = v"
| "ref_unop MRSH_ARITHM_UNOP_MINUS v = - v"
| "ref_unop MRSH_ARITHM_UNOP_TILDE v = - v - 1"
| "ref_unop MRSH_ARITHM_UNOP_BANG v = of_bool (v = 0)"

fun arith_ref :: "mrsh_arithm_expr \<Rightarrow> (cstring \<Rightarrow> int) \<Rightarrow> (int \<times> (cstring \<Rightarrow> int)) option" where
  "arith_ref (ArithmLiteral v) env = Some (v, env)"
| "arith_ref (ArithmVariable x) env = Some (env x, env)"
| "arith_ref (ArithmUnop op e) env =
     (case arith_ref e env of None \<Rightarrow> None
      | Some (v, env) \<Rightarrow> if in_long (ref_unop op v) then Some (ref_unop op v, env) else None)"
| "arith_ref (ArithmBinop op l r) env =
     (case arith_ref l env of None \<Rightarrow> None
      | Some (lv, env) \<Rightarrow>
          (case arith_ref r env of None \<Rightarrow> None
           | Some (rv, env) \<Rightarrow> map_option (\<lambda>v. (v, env)) (ref_binop op lv rv)))"
| "arith_ref (ArithmCond c b e) env =
     (case arith_ref c env of None \<Rightarrow> None
      | Some (v, env) \<Rightarrow> if v \<noteq> 0 then arith_ref b env else arith_ref e env)"
| "arith_ref (ArithmAssign op x e) env =
     (case arith_ref e env of None \<Rightarrow> None
      | Some (val, env) \<Rightarrow>
          (case ref_assign op (env x) val of
             None \<Rightarrow> None
           | Some v \<Rightarrow> if \<bar>v\<bar> \<le> 2 ^ 53 then Some (v, env(x := v)) else None))"

primrec no_unary_plus :: "mrsh_arithm_expr \<Rightarrow> bool" where
  "no_unary_plus (ArithmLiteral v) \<longleftrightarrow> True"
| "no_unary_plus (ArithmVariable x) \<longleftrightarrow> True"
| "no_unary_plus (ArithmUnop op e) \<longleftrightarrow> op \<noteq> MRSH_ARITHM_UNOP_PLUS \<and> no_unary_plus e"
| "no_unary_plus (ArithmBinop op l r) \<longleftrightarrow> no_unary_plus l \<and> no_unary_plus r"
| "no_unary_plus (ArithmCond c b e) \<longleftrightarrow> no_unary_plus c \<and> no_unary_plus b \<and> no_unary_plus e"
| "no_unary_plus (ArithmAssign op x e) \<longleftrightarrow> no_unary_plus e"

text \<open>The shell's variables read as numbers.\<close>

definition env_rel :: "mrsh_state \<Rightarrow> (cstring \<Rightarrow> int) \<Rightarrow> bool" where
  "env_rel s env \<longleftrightarrow> (\<forall>x. run_variable s x = Value (env x))"

lemma quotient_sdiv: "quotient l r = l sdiv r"
  by (auto simp: quotient_def signed_divide_int_def sgn_if)

lemma ref_binop_value: "ref_binop op l r = Some v \<Longrightarrow> binop_value op l r = Value v"
  by (cases op) (auto simp: ref_binop_def ref_ok_def checked_def divide_def remainder_def shift_left_def
      shift_right_def quotient_sdiv minus_sdiv_mult_eq_smod split: if_splits)

lemma ref_assign_value: "ref_assign op cur val = Some v \<Longrightarrow> run_arithm_assign_op op cur val = Value v"
  by (cases op) (auto simp: ref_assign_def dest: ref_binop_value)

lemma run_variable_set:
  "\<bar>v\<bar> \<le> 2 ^ 53 \<Longrightarrow>
    run_variable (mrsh_env_set x (fmt_d v) a s) y = (if y = x then Value v else run_variable s y)"
  by (simp add: run_variable_def env_simps strtod_fmt_d fmt_d_nonempty eq_commute [of _ "fmt_d v"])


lemma env_rel_create: "env_rel (mrsh_state_create h m i) (\<lambda>_. 0)"
  by (simp add: env_rel_def run_variable_def mrsh_state_create_def mrsh_env_get_def ht.get_empty has_option_def)


text \<open>A unary plus yields no value: nothing is stored where the caller expects the result, so that
  \<open>$((+x))\<close> is undefined behaviour in whatever way the value is used.\<close>

theorem unary_plus_undefined:
  "(\<forall>v s'. mrsh_run_arithm_expr (ArithmUnop MRSH_ARITHM_UNOP_PLUS e) s \<noteq> Done (Some v) s') \<and>
   mrsh_run_arithm_expr (ArithmUnop MRSH_ARITHM_UNOP_MINUS (ArithmUnop MRSH_ARITHM_UNOP_PLUS (ArithmLiteral 1))) s =
     UndefinedRun"
  by (auto simp: and_then_def split: arith_run.splits)

text \<open>Both operands of \<open>&&\<close> are evaluated: \<open>0 && 1/0\<close> fails where POSIX gives 0.\<close>

lemma and_not_short_circuit:
  "mrsh_run_arithm_expr (ArithmBinop MRSH_ARITHM_BINOP_DAND (ArithmLiteral 0)
     (ArithmBinop MRSH_ARITHM_BINOP_SLASH (ArithmLiteral 1) (ArithmLiteral 0))) s = Failed s"
  by (simp add: divide_def)

text \<open>A plain assignment drops the attributes of the variable, read-only or not.\<close>

lemma arith_assign_drops_attribs:
  "mrsh_run_arithm_expr (ArithmAssign MRSH_ARITHM_ASSIGN_NONE x (ArithmLiteral v)) s =
     Done (Some v) (mrsh_env_set x (fmt_d v) MRSH_VAR_ATTRIB_NONE s)"
  by simp

end
