(* ===== verification/Arithm_Parser.thy ===== *)
theory Arithm_Parser
  imports Parser_Core Arithm_Eval
begin

text \<open>
  The parser of arithmetic expressions, \<open>parser/arithm.c\<close>. A parsing function gives the expression, or
  \<open>None\<close> for the null pointer, and the parser after it; the loops and the recursion take fuel, and the
  outer \<open>None\<close> is the fuel running out. No function here reads a character it has not seen before, so
  that the assertion of \<open>parser_read\<close> cannot fail (lemma \<open>read_seen\<close>) and is left out.
\<close>

type_synonym arith_parser = "mrsh_parser \<Rightarrow> (mrsh_arithm_expr option \<times> mrsh_parser) option"

lemma read_seen: "parser_peek_char p = c \<Longrightarrow> c \<noteq> NUL \<Longrightarrow> parser_read_char p = Some (c, skip 1 p)"
  by (cases "p_input p") (auto simp: parser_peek_char_def peek_at_def parser_read_char_def parser_read_def)

section \<open>Characters\<close>

definition parse_char :: "char \<Rightarrow> mrsh_parser \<Rightarrow> bool \<times> mrsh_parser" where
  "parse_char c p = (if parser_peek_char p \<noteq> c then (False, p) else (True, skip 1 p))"

definition consume_whitespace :: "mrsh_parser \<Rightarrow> mrsh_parser" where
  "consume_whitespace p = skip (length (takeWhile is_space (p_input p))) p"

definition expect_char :: "char \<Rightarrow> mrsh_parser \<Rightarrow> bool \<times> mrsh_parser" where
  "expect_char c p =
     (case parse_char c p of
        (True, p) \<Rightarrow> (True, p)
      | (False, p) \<Rightarrow> (False, parser_set_error (''expected '' @ [SQUOTE, c, SQUOTE]) p))"

definition parse_str :: "cstring \<Rightarrow> mrsh_parser \<Rightarrow> bool \<times> mrsh_parser" where
  "parse_str str p =
     (if take (length str) (p_input p) = str then (True, skip (length str) p) else (False, p))"

definition peek_literal :: "mrsh_parser \<Rightarrow> nat" where
  "peek_literal p = length (takeWhile is_digit (p_input p))"

section \<open>Terms\<close>

definition literal :: "mrsh_parser \<Rightarrow> mrsh_arithm_expr option \<times> mrsh_parser" where
  "literal p =
     (let len = peek_literal p; str = take len (p_input p); p1 = skip len p in
      if len = 0 then (None, p)
      else
        case strtol 0 str of
          (value, end_str, erange) \<Rightarrow>
            if end_str \<noteq> [] \<or> erange then (None, parser_set_error ''failed to parse literal'' p1)
            else (Some (ArithmLiteral value), p1))"

definition variable :: "mrsh_parser \<Rightarrow> mrsh_arithm_expr option \<times> mrsh_parser" where
  "variable p =
     (case peek_name False p of
        (name_len, p) \<Rightarrow>
          if name_len = 0 then (None, p)
          else (Some (ArithmVariable (take name_len (p_input p))), skip name_len p))"

definition unop_type :: "char \<Rightarrow> mrsh_arithm_unop_type option" where
  "unop_type c =
     (if c = CHR ''+'' then Some MRSH_ARITHM_UNOP_PLUS
      else if c = CHR ''-'' then Some MRSH_ARITHM_UNOP_MINUS
      else if c = CHR ''~'' then Some MRSH_ARITHM_UNOP_TILDE
      else if c = CHR ''!'' then Some MRSH_ARITHM_UNOP_BANG
      else None)"

definition unop :: "arith_parser \<Rightarrow> arith_parser" where
  "unop rec p =
     (case unop_type (parser_peek_char p) of
        None \<Rightarrow> Some (None, p)
      | Some type \<Rightarrow>
          (case rec (skip 1 p) of
             None \<Rightarrow> None
           | Some (None, p) \<Rightarrow>
               Some (None, parser_set_error ''expected an arithmetic expression after unary operator'' p)
           | Some (Some body, p) \<Rightarrow> Some (Some (ArithmUnop type body), p)))"

definition paren :: "arith_parser \<Rightarrow> arith_parser" where
  "paren rec p =
     (case parse_char (CHR ''('') p of
        (False, p) \<Rightarrow> Some (None, p)
      | (True, p) \<Rightarrow>
          (case rec (consume_whitespace p) of
             None \<Rightarrow> None
           | Some (expr, p) \<Rightarrow>
               (case expect_char (CHR '')'') p of
                  (False, p) \<Rightarrow> Some (None, p)
                | (True, p) \<Rightarrow> Some (expr, p))))"

text \<open>\<open>term\<close>: after a null pointer, the next alternative goes on where the last one stopped.\<close>

definition term_expr :: "arith_parser \<Rightarrow> arith_parser" where
  "term_expr rec p =
     (case paren rec p of
        None \<Rightarrow> None
      | Some (Some e, p) \<Rightarrow> Some (Some e, p)
      | Some (None, p) \<Rightarrow>
          (case unop rec p of
             None \<Rightarrow> None
           | Some (Some e, p) \<Rightarrow> Some (Some e, p)
           | Some (None, p) \<Rightarrow>
               (case literal p of
                  (Some e, p) \<Rightarrow> Some (Some e, p)
                | (None, p) \<Rightarrow> Some (variable p))))"

section \<open>Binary operators\<close>

definition factor_op :: "mrsh_parser \<Rightarrow> mrsh_arithm_binop_type option \<times> mrsh_parser" where
  "factor_op p =
     (case parse_char (CHR ''*'') p of
        (True, p) \<Rightarrow> (Some MRSH_ARITHM_BINOP_ASTERISK, p)
      | (False, p) \<Rightarrow>
          (case parse_char (CHR ''/'') p of
             (True, p) \<Rightarrow> (Some MRSH_ARITHM_BINOP_SLASH, p)
           | (False, p) \<Rightarrow>
               (case parse_char (CHR ''%'') p of
                  (True, p) \<Rightarrow> (Some MRSH_ARITHM_BINOP_PERCENT, p)
                | (False, p) \<Rightarrow> (None, p))))"

fun factor_loop :: "nat \<Rightarrow> arith_parser \<Rightarrow> mrsh_arithm_expr \<Rightarrow> arith_parser" where
  "factor_loop 0 rec expr p = None"
| "factor_loop (Suc fuel) rec expr p =
     (case factor_op (consume_whitespace p) of
        (None, p) \<Rightarrow> Some (Some expr, p)
      | (Some type, p) \<Rightarrow>
          (case term_expr rec (consume_whitespace p) of
             None \<Rightarrow> None
           | Some (None, p) \<Rightarrow> Some (None, parser_set_error ''expected a term after *, / or % operator'' p)
           | Some (Some right, p) \<Rightarrow> factor_loop fuel rec (ArithmBinop type expr right) p))"

definition factor :: "nat \<Rightarrow> arith_parser \<Rightarrow> arith_parser" where
  "factor fuel rec p =
     (case term_expr rec p of
        None \<Rightarrow> None
      | Some (None, p) \<Rightarrow> Some (None, p)
      | Some (Some expr, p) \<Rightarrow> factor_loop fuel rec expr p)"

definition addend_op :: "mrsh_parser \<Rightarrow> mrsh_arithm_binop_type option \<times> mrsh_parser" where
  "addend_op p =
     (case parse_char (CHR ''+'') p of
        (True, p) \<Rightarrow> (Some MRSH_ARITHM_BINOP_PLUS, p)
      | (False, p) \<Rightarrow>
          (case parse_char (CHR ''-'') p of
             (True, p) \<Rightarrow> (Some MRSH_ARITHM_BINOP_MINUS, p)
           | (False, p) \<Rightarrow> (None, p)))"

fun addend_loop :: "nat \<Rightarrow> nat \<Rightarrow> arith_parser \<Rightarrow> mrsh_arithm_expr \<Rightarrow> arith_parser" where
  "addend_loop 0 n rec expr p = None"
| "addend_loop (Suc fuel) n rec expr p =
     (case addend_op p of
        (None, p) \<Rightarrow> Some (Some expr, p)
      | (Some type, p) \<Rightarrow>
          (case factor n rec (consume_whitespace p) of
             None \<Rightarrow> None
           | Some (None, p) \<Rightarrow> Some (None, parser_set_error ''expected a factor after + or - operator'' p)
           | Some (Some right, p) \<Rightarrow> addend_loop fuel n rec (ArithmBinop type expr right) p))"

definition addend :: "nat \<Rightarrow> arith_parser \<Rightarrow> arith_parser" where
  "addend fuel rec p =
     (case factor fuel rec p of
        None \<Rightarrow> None
      | Some (None, p) \<Rightarrow> Some (None, p)
      | Some (Some expr, p) \<Rightarrow> addend_loop fuel fuel rec expr p)"

text \<open>The levels that call themselves for the right operand: the operand on the left, the operator, and
  whether white space is skipped after it.\<close>

fun right_assoc ::
    "nat \<Rightarrow> (mrsh_parser \<Rightarrow> mrsh_arithm_binop_type option \<times> mrsh_parser) \<Rightarrow>
     (mrsh_parser \<Rightarrow> mrsh_parser) \<Rightarrow> arith_parser \<Rightarrow> arith_parser" where
  "right_assoc 0 op ws operand p = None"
| "right_assoc (Suc fuel) op ws operand p =
     (case operand p of
        None \<Rightarrow> None
      | Some (None, p) \<Rightarrow> Some (None, p)
      | Some (Some left, p) \<Rightarrow>
          (case op p of
             (None, p) \<Rightarrow> Some (Some left, p)
           | (Some type, p) \<Rightarrow>
               (case right_assoc fuel op ws operand (ws p) of
                  None \<Rightarrow> None
                | Some (None, p) \<Rightarrow> Some (None, parser_set_error ''expected a term'' p)
                | Some (Some right, p) \<Rightarrow> Some (Some (ArithmBinop type left right), p))))"

definition shift_op :: "mrsh_parser \<Rightarrow> mrsh_arithm_binop_type option \<times> mrsh_parser" where
  "shift_op p =
     (case parse_str ''<<'' p of
        (True, p) \<Rightarrow> (Some MRSH_ARITHM_BINOP_DLESS, p)
      | (False, p) \<Rightarrow>
          (case parse_str ''>>'' p of
             (True, p) \<Rightarrow> (Some MRSH_ARITHM_BINOP_DGREAT, p)
           | (False, p) \<Rightarrow> (None, p)))"

definition shift_expr :: "nat \<Rightarrow> arith_parser \<Rightarrow> arith_parser" where
  "shift_expr fuel rec = right_assoc fuel shift_op consume_whitespace (addend fuel rec)"

definition comp_op :: "mrsh_parser \<Rightarrow> mrsh_arithm_binop_type option \<times> mrsh_parser" where
  "comp_op p =
     (case parse_str ''<='' p of
        (True, p) \<Rightarrow> (Some MRSH_ARITHM_BINOP_LESSEQ, p)
      | (False, p) \<Rightarrow>
          (case parse_char (CHR ''<'') p of
             (True, p) \<Rightarrow> (Some MRSH_ARITHM_BINOP_LESS, p)
           | (False, p) \<Rightarrow>
               (case parse_str ''>='' p of
                  (True, p) \<Rightarrow> (Some MRSH_ARITHM_BINOP_GREATEQ, p)
                | (False, p) \<Rightarrow>
                    (case parse_char (CHR ''>'') p of
                       (True, p) \<Rightarrow> (Some MRSH_ARITHM_BINOP_GREAT, p)
                     | (False, p) \<Rightarrow> (None, p)))))"

definition comp_expr :: "nat \<Rightarrow> arith_parser \<Rightarrow> arith_parser" where
  "comp_expr fuel rec = right_assoc fuel comp_op consume_whitespace (shift_expr fuel rec)"

definition equal_op :: "mrsh_parser \<Rightarrow> mrsh_arithm_binop_type option \<times> mrsh_parser" where
  "equal_op p =
     (case parse_str ''=='' p of
        (True, p) \<Rightarrow> (Some MRSH_ARITHM_BINOP_DEQ, p)
      | (False, p) \<Rightarrow>
          (case parse_str ''!='' p of
             (True, p) \<Rightarrow> (Some MRSH_ARITHM_BINOP_BANGEQ, p)
           | (False, p) \<Rightarrow> (None, p)))"

text \<open>No white space is skipped after \<open>==\<close> and \<open>!=\<close>.\<close>

definition equal_expr :: "nat \<Rightarrow> arith_parser \<Rightarrow> arith_parser" where
  "equal_expr fuel rec = right_assoc fuel equal_op id (comp_expr fuel rec)"

definition parse_binop :: "cstring \<Rightarrow> mrsh_parser \<Rightarrow> bool \<times> mrsh_parser" where
  "parse_binop str p =
     (if take (length str) (p_input p) \<noteq> str then (False, p)
      else if peek_at p (length str) = CHR ''|'' \<or> peek_at p (length str) = CHR ''&'' then (False, p)
      else (True, skip (length str) p))"

definition binop :: "nat \<Rightarrow> mrsh_arithm_binop_type \<Rightarrow> cstring \<Rightarrow> arith_parser \<Rightarrow> arith_parser" where
  "binop fuel type str operand =
     right_assoc fuel (\<lambda>p. case parse_binop str p of (True, p) \<Rightarrow> (Some type, p) | (False, p) \<Rightarrow> (None, p))
       consume_whitespace operand"

definition bitwise_and :: "nat \<Rightarrow> arith_parser \<Rightarrow> arith_parser" where
  "bitwise_and fuel rec = binop fuel MRSH_ARITHM_BINOP_AND ''&'' (equal_expr fuel rec)"

definition bitwise_xor :: "nat \<Rightarrow> arith_parser \<Rightarrow> arith_parser" where
  "bitwise_xor fuel rec = binop fuel MRSH_ARITHM_BINOP_CIRC ''^'' (bitwise_and fuel rec)"

definition bitwise_or :: "nat \<Rightarrow> arith_parser \<Rightarrow> arith_parser" where
  "bitwise_or fuel rec = binop fuel MRSH_ARITHM_BINOP_OR ''|'' (bitwise_xor fuel rec)"

definition logical_and :: "nat \<Rightarrow> arith_parser \<Rightarrow> arith_parser" where
  "logical_and fuel rec = binop fuel MRSH_ARITHM_BINOP_DAND ''&&'' (bitwise_or fuel rec)"

definition logical_or :: "nat \<Rightarrow> arith_parser \<Rightarrow> arith_parser" where
  "logical_or fuel rec = binop fuel MRSH_ARITHM_BINOP_DOR ''||'' (logical_and fuel rec)"

section \<open>Conditions, assignments and expressions\<close>

fun ternary :: "nat \<Rightarrow> nat \<Rightarrow> arith_parser \<Rightarrow> arith_parser" where
  "ternary 0 n rec p = None"
| "ternary (Suc fuel) n rec p =
     (case logical_or n rec p of
        None \<Rightarrow> None
      | Some (None, p) \<Rightarrow> Some (None, p)
      | Some (Some condition, p) \<Rightarrow>
          (case parse_char (CHR ''?'') p of
             (False, p) \<Rightarrow> Some (Some condition, p)
           | (True, p) \<Rightarrow>
               (case ternary fuel n rec p of
                  None \<Rightarrow> None
                | Some (None, p) \<Rightarrow> Some (None, parser_set_error ''expected a logical or term'' p)
                | Some (Some body, p) \<Rightarrow>
                    (case expect_char (CHR '':'') p of
                       (False, p) \<Rightarrow> Some (None, p)
                     | (True, p) \<Rightarrow>
                         (case ternary fuel n rec p of
                            None \<Rightarrow> None
                          | Some (None, p) \<Rightarrow> Some (None, parser_set_error ''expected an or term'' p)
                          | Some (Some else_part, p) \<Rightarrow>
                              Some (Some (ArithmCond condition body else_part), p))))))"

definition assign_ops :: "(cstring \<times> mrsh_arithm_assign_op) list" where
  "assign_ops =
     [(''='', MRSH_ARITHM_ASSIGN_NONE), (''*='', MRSH_ARITHM_ASSIGN_ASTERISK),
      (''/='', MRSH_ARITHM_ASSIGN_SLASH), (''%='', MRSH_ARITHM_ASSIGN_PERCENT),
      (''+='', MRSH_ARITHM_ASSIGN_PLUS), (''-='', MRSH_ARITHM_ASSIGN_MINUS),
      (''<<='', MRSH_ARITHM_ASSIGN_DLESS), (''>>='', MRSH_ARITHM_ASSIGN_DGREAT),
      (''&='', MRSH_ARITHM_ASSIGN_AND), (''^='', MRSH_ARITHM_ASSIGN_CIRC), (''|='', MRSH_ARITHM_ASSIGN_OR)]"

definition peek_assign_op :: "cstring \<Rightarrow> nat \<Rightarrow> mrsh_parser \<Rightarrow> bool" where
  "peek_assign_op str offset p \<longleftrightarrow> take (length str) (drop offset (p_input p)) = str"

definition assignment :: "arith_parser \<Rightarrow> arith_parser" where
  "assignment rec p =
     (case peek_name False p of
        (name_len, p) \<Rightarrow>
          if name_len = 0 then Some (None, p)
          else
            (case find (\<lambda>(str, op). peek_assign_op str name_len p) assign_ops of
              None \<Rightarrow> Some (None, p)
            | Some (str, op) \<Rightarrow>
                let name = take name_len (p_input p); p = skip (length str) (skip name_len p) in
                (case rec p of
                   None \<Rightarrow> None
                 | Some (None, p) \<Rightarrow> Some (None, parser_set_error ''expected an assignment value'' p)
                 | Some (Some value, p) \<Rightarrow> Some (Some (ArithmAssign op name value), p))))"

primrec arithm_expr :: "nat \<Rightarrow> arith_parser" where
  "arithm_expr 0 = (\<lambda>p. None)"
| "arithm_expr (Suc fuel) =
     (\<lambda>p.
       case assignment (arithm_expr fuel) p of
         None \<Rightarrow> None
       | Some (Some expr, p) \<Rightarrow> Some (Some expr, p)
       | Some (None, p) \<Rightarrow> ternary (Suc fuel) (Suc fuel) (arithm_expr fuel) p)"

definition mrsh_parse_arithm_expr :: "nat \<Rightarrow> arith_parser" where
  "mrsh_parse_arithm_expr fuel p =
     (case arithm_expr fuel (consume_whitespace p) of
        None \<Rightarrow> None
      | Some (None, p) \<Rightarrow> Some (None, p)
      | Some (Some expr, p) \<Rightarrow>
          if parser_peek_char p \<noteq> NUL
          then Some (None, parser_set_error ''garbage at the end of the arithmetic expression'' p)
          else Some (Some expr, p))"

section \<open>Parsing ends\<close>

text \<open>A parser works on inputs shorter than \<open>n\<close>: it returns, does not give characters back, and takes at
  least one for an expression.\<close>

definition good :: "nat \<Rightarrow> arith_parser \<Rightarrow> bool" where
  "good n f \<longleftrightarrow>
     (\<forall>p. length (p_input p) < n \<longrightarrow>
        (\<exists>r q. f p = Some (r, q) \<and> length (p_input q) \<le> length (p_input p) \<and>
           (r \<noteq> None \<longrightarrow> length (p_input q) < length (p_input p))))"

definition op_ok :: "(mrsh_parser \<Rightarrow> mrsh_arithm_binop_type option \<times> mrsh_parser) \<Rightarrow> bool" where
  "op_ok op \<longleftrightarrow>
     (\<forall>p. length (p_input (snd (op p))) \<le> length (p_input p) \<and>
        (fst (op p) \<noteq> None \<longrightarrow> length (p_input (snd (op p))) < length (p_input p)))"

lemma goodD:
  assumes "good n f" "length (p_input p) < n"
  obtains r q where "f p = Some (r, q)" "length (p_input q) \<le> length (p_input p)"
    "r \<noteq> None \<longrightarrow> length (p_input q) < length (p_input p)"
  using assms unfolding good_def by blast

lemma goodI:
  assumes "\<And>p. length (p_input p) < n \<Longrightarrow>
    \<exists>r q. f p = Some (r, q) \<and> length (p_input q) \<le> length (p_input p) \<and>
      (r \<noteq> None \<longrightarrow> length (p_input q) < length (p_input p))"
  shows "good n f"
  using assms unfolding good_def by blast

lemma set_error_input [simp]: "p_input (parser_set_error msg p) = p_input p"
  by (simp add: parser_set_error_def)

lemma consume_whitespace_input: "p_input (consume_whitespace p) = dropWhile is_space (p_input p)"
  by (simp add: consume_whitespace_def dropWhile_eq_drop)

lemma consume_whitespace_length: "length (p_input (consume_whitespace p)) \<le> length (p_input p)"
  by (simp add: consume_whitespace_input length_dropWhile_le)

lemma parse_char_length:
  "parse_char c p = (b, q) \<Longrightarrow> c \<noteq> NUL \<Longrightarrow>
    length (p_input q) = length (p_input p) - (if b then 1 else 0) \<and> (b \<longrightarrow> p_input p \<noteq> [])"
  by (auto simp: parse_char_def parser_peek_char_def peek_at_def split: if_splits)

lemma parse_str_length:
  "parse_str str p = (b, q) \<Longrightarrow>
    length (p_input q) = length (p_input p) - (if b then length str else 0) \<and> (b \<longrightarrow> length str \<le> length (p_input p))"
  by (auto simp: parse_str_def split: if_splits dest: arg_cong [of _ _ length])

lemma expect_char_length:
  "expect_char c p = (b, q) \<Longrightarrow> c \<noteq> NUL \<Longrightarrow> length (p_input q) \<le> length (p_input p)"
  by (auto simp: expect_char_def split: prod.splits bool.splits dest!: parse_char_length)

lemma peek_name_length: "peek_name b p = (n, q) \<Longrightarrow> n \<le> length (p_input q) \<and> length (p_input q) \<le> length (p_input p)"
  by (auto simp: peek_name_def symbol_def get_symbol_def Let_def next_symbol_length length_takeWhile_le
      split: prod.splits bool.splits if_splits)

lemma takeWhile_shorter: "takeWhile P xs \<noteq> [] \<Longrightarrow> length xs - length (takeWhile P xs) < length xs"
  by (cases xs) (auto simp: less_Suc_eq_le split: if_splits)

lemma literal_length:
  "literal p = (r, q) \<Longrightarrow>
    length (p_input q) \<le> length (p_input p) \<and> (r \<noteq> None \<longrightarrow> length (p_input q) < length (p_input p))"
  by (auto simp: literal_def peek_literal_def Let_def takeWhile_shorter dest!: sym [of _ q]
      split: prod.splits if_splits)

lemma variable_length:
  "variable p = (r, q) \<Longrightarrow>
    length (p_input q) \<le> length (p_input p) \<and> (r \<noteq> None \<longrightarrow> length (p_input q) < length (p_input p))"
  by (auto simp: variable_def split: prod.splits if_splits dest!: peek_name_length)

lemma unop_good:
  assumes "good n rec"
  shows "good (Suc n) (unop rec)"
proof (rule goodI)
  fix p :: mrsh_parser
  assume len: "length (p_input p) < Suc n"
  show "\<exists>r q. unop rec p = Some (r, q) \<and> length (p_input q) \<le> length (p_input p) \<and>
      (r \<noteq> None \<longrightarrow> length (p_input q) < length (p_input p))"
  proof (cases "unop_type (parser_peek_char p)")
    case None
    then show ?thesis by (simp add: unop_def)
  next
    case (Some type)
    then have ne: "p_input p \<noteq> []"
      by (auto simp: unop_type_def parser_peek_char_def peek_at_def split: if_splits)
    with len have "length (p_input (skip 1 p)) < n"
      by (cases "p_input p") auto
    then obtain r q where r: "rec (skip 1 p) = Some (r, q)" "length (p_input q) \<le> length (p_input (skip 1 p))"
      by (rule goodD [OF assms])
    with ne have "length (p_input q) < length (p_input p)"
      by (cases "p_input p") auto
    with Some r show ?thesis
      by (cases r) (auto simp: unop_def)
  qed
qed

lemma paren_good:
  assumes "good n rec"
  shows "good (Suc n) (paren rec)"
proof (rule goodI)
  fix p :: mrsh_parser
  assume len: "length (p_input p) < Suc n"
  obtain b p1 where p1: "parse_char (CHR ''('') p = (b, p1)"
    by (rule prod.exhaust)
  note l1 = parse_char_length [OF p1]
  show "\<exists>r q. paren rec p = Some (r, q) \<and> length (p_input q) \<le> length (p_input p) \<and>
      (r \<noteq> None \<longrightarrow> length (p_input q) < length (p_input p))"
  proof (cases b)
    case False
    with p1 l1 show ?thesis by (simp add: paren_def)
  next
    case True
    have shorter: "length (p_input p1) < length (p_input p)"
      using l1 True by (cases "p_input p") auto
    then have "length (p_input (consume_whitespace p1)) < n"
      using len consume_whitespace_length [of p1] by simp
    then obtain r q where r: "rec (consume_whitespace p1) = Some (r, q)"
      "length (p_input q) \<le> length (p_input (consume_whitespace p1))"
      by (rule goodD [OF assms])
    obtain b2 p2 where p2: "expect_char (CHR '')'') q = (b2, p2)"
      by (rule prod.exhaust)
    then have "length (p_input p2) < length (p_input p)"
      using expect_char_length [OF p2] r(2) consume_whitespace_length [of p1] shorter by simp
    with True p1 r p2 show ?thesis
      by (cases b2) (auto simp: paren_def)
  qed
qed

text \<open>Trying one parser after another keeps them good.\<close>

lemma good_alternative:
  assumes "good n f" "good n g"
  shows "good n (\<lambda>p. case f p of None \<Rightarrow> None | Some (Some e, q) \<Rightarrow> Some (Some e, q) | Some (None, q) \<Rightarrow> g q)"
proof (rule goodI)
  fix p :: mrsh_parser
  assume len: "length (p_input p) < n"
  obtain r q where r: "f p = Some (r, q)" "length (p_input q) \<le> length (p_input p)"
    "r \<noteq> None \<longrightarrow> length (p_input q) < length (p_input p)"
    by (rule goodD [OF assms(1) len])
  moreover have "length (p_input q) < n"
    using r(2) len by simp
  then obtain r2 q2 where "g q = Some (r2, q2)" "length (p_input q2) \<le> length (p_input q)"
    "r2 \<noteq> None \<longrightarrow> length (p_input q2) < length (p_input q)"
    by (rule goodD [OF assms(2)])
  ultimately show "\<exists>r q. (case f p of None \<Rightarrow> None | Some (Some e, q) \<Rightarrow> Some (Some e, q) | Some (None, q) \<Rightarrow> g q) =
        Some (r, q) \<and> length (p_input q) \<le> length (p_input p) \<and>
      (r \<noteq> None \<longrightarrow> length (p_input q) < length (p_input p))"
    by (cases r) auto
qed

lemma good_total: 
  "(\<And>p r q. f p = (r, q) \<Longrightarrow> length (p_input q) \<le> length (p_input p) \<and> (r \<noteq> None \<longrightarrow> length (p_input q) < length (p_input p))) \<Longrightarrow>
    good n (\<lambda>p. Some (f p))"
  by (rule goodI) (metis surj_pair)

lemma term_good:
  assumes "good n rec"
  shows "good (Suc n) (term_expr rec)"
proof -
  have "good (Suc n) (\<lambda>p. Some (literal p))" "good (Suc n) (\<lambda>p. Some (variable p))"
    by (rule good_total, erule literal_length, rule good_total, erule variable_length)
  from good_alternative [OF paren_good [OF assms] good_alternative [OF unop_good [OF assms] good_alternative [OF this]]]
  have "good (Suc n) (\<lambda>p. case paren rec p of None \<Rightarrow> None | Some (Some e, q) \<Rightarrow> Some (Some e, q)
     | Some (None, q) \<Rightarrow> (case unop rec q of None \<Rightarrow> None | Some (Some e, q) \<Rightarrow> Some (Some e, q)
       | Some (None, q) \<Rightarrow> (case literal q of (Some e, q) \<Rightarrow> Some (Some e, q) | (None, q) \<Rightarrow> Some (variable q))))"
    by (simp cong: option.case_cong prod.case_cong)
  then show ?thesis
    unfolding term_expr_def [abs_def] .
qed

lemma op_okD:
  assumes "op_ok op" "op p = (t, q)"
  shows "length (p_input q) \<le> length (p_input p)" "t \<noteq> None \<Longrightarrow> length (p_input q) < length (p_input p)"
  using assms unfolding op_ok_def by (metis fst_conv snd_conv)+

lemma op_okI:
  "(\<And>p t q. op p = (t, q) \<Longrightarrow>
      length (p_input q) \<le> length (p_input p) \<and> (t \<noteq> None \<longrightarrow> length (p_input q) < length (p_input p))) \<Longrightarrow>
    op_ok op"
  unfolding op_ok_def by (metis surjective_pairing)

lemma op_ok_none: "op_ok (\<lambda>p. (None, p))"
  by (simp add: op_ok_def)

lemma op_ok_char:
  assumes "op_ok g" "c \<noteq> NUL"
  shows "op_ok (\<lambda>p. case parse_char c p of (True, p) \<Rightarrow> (Some t, p) | (False, p) \<Rightarrow> g p)"
proof (rule op_okI)
  fix p u q
  assume op: "(case parse_char c p of (True, p) \<Rightarrow> (Some t, p) | (False, p) \<Rightarrow> g p) = (u, q)"
  obtain b p1 where p1: "parse_char c p = (b, p1)" by (rule prod.exhaust)
  show "length (p_input q) \<le> length (p_input p) \<and> (u \<noteq> None \<longrightarrow> length (p_input q) < length (p_input p))"
    using op p1 parse_char_length [OF p1 assms(2)] op_okD [OF assms(1), of p1 u q] by (cases b) auto
qed

lemma op_ok_str:
  assumes "op_ok g" "str \<noteq> []"
  shows "op_ok (\<lambda>p. case parse_str str p of (True, p) \<Rightarrow> (Some t, p) | (False, p) \<Rightarrow> g p)"
proof (rule op_okI)
  fix p u q
  assume op: "(case parse_str str p of (True, p) \<Rightarrow> (Some t, p) | (False, p) \<Rightarrow> g p) = (u, q)"
  obtain b p1 where p1: "parse_str str p = (b, p1)" by (rule prod.exhaust)
  show "length (p_input q) \<le> length (p_input p) \<and> (u \<noteq> None \<longrightarrow> length (p_input q) < length (p_input p))"
    using op p1 parse_str_length [OF p1] op_okD [OF assms(1), of p1 u q] assms(2)
    by (cases b; cases str) auto
qed

lemma ops_ok:
  "op_ok factor_op" "op_ok addend_op" "op_ok shift_op" "op_ok comp_op" "op_ok equal_op"
  unfolding factor_op_def [abs_def] addend_op_def [abs_def] shift_op_def [abs_def] comp_op_def [abs_def]
    equal_op_def [abs_def]
  by - (intro op_ok_char op_ok_str op_ok_none; simp)+

lemma take_whole: "take (length str) xs = str \<Longrightarrow> str \<noteq> [] \<Longrightarrow> length xs - length str < length xs"
  by (cases xs) auto

lemma binop_op_ok:
  "str \<noteq> [] \<Longrightarrow> op_ok (\<lambda>p. case parse_binop str p of (True, p) \<Rightarrow> (Some type, p) | (False, p) \<Rightarrow> (None, p))"
  by (rule op_okI) (auto simp: parse_binop_def take_whole split: prod.splits bool.splits if_splits)

lemma after_operator:
  "op_ok op \<Longrightarrow> op p = (Some t, q) \<Longrightarrow> length (p_input (consume_whitespace q)) < length (p_input p)"
  using op_okD(2) [of op p "Some t" q] consume_whitespace_length [of q] by simp

lemma factor_loop_ok:
  assumes "good m (term_expr rec)"
  shows "length (p_input p) < fuel \<Longrightarrow> length (p_input p) < m \<Longrightarrow>
    \<exists>r q. factor_loop fuel rec e p = Some (r, q) \<and> length (p_input q) \<le> length (p_input p)"
proof (induction fuel arbitrary: e p)
  case 0
  then show ?case by simp
next
  case (Suc fuel)
  obtain t p1 where p1: "factor_op (consume_whitespace p) = (t, p1)"
    by (rule prod.exhaust)
  note l1 = op_okD [OF ops_ok(1) p1] consume_whitespace_length [of p]
  show ?case
  proof (cases t)
    case None
    with p1 l1 show ?thesis by simp
  next
    case (Some type)
    then have l2: "length (p_input (consume_whitespace p1)) < length (p_input p)"
      using after_operator [OF ops_ok(1), of "consume_whitespace p" type p1] p1 l1 by simp
    then obtain r q where r: "term_expr rec (consume_whitespace p1) = Some (r, q)"
      "length (p_input q) \<le> length (p_input (consume_whitespace p1))"
      using Suc.prems by (meson goodD [OF assms] less_trans)
    show ?thesis
    proof (cases r)
      case None
      with Some p1 r l2 show ?thesis by simp
    next
      case (Some right)
      with \<open>t = Some type\<close> p1 r l2 Suc.prems Suc.IH [of q "ArithmBinop type e right"] show ?thesis
        by auto
    qed
  qed
qed

lemma factor_good:
  assumes "good m (term_expr rec)" "m \<le> fuel"
  shows "good m (factor fuel rec)"
proof (rule goodI)
  fix p :: mrsh_parser
  assume len: "length (p_input p) < m"
  obtain r q where r: "term_expr rec p = Some (r, q)" "length (p_input q) \<le> length (p_input p)"
    "r \<noteq> None \<longrightarrow> length (p_input q) < length (p_input p)"
    by (rule goodD [OF assms(1) len])
  then show "\<exists>r q. factor fuel rec p = Some (r, q) \<and> length (p_input q) \<le> length (p_input p) \<and>
      (r \<noteq> None \<longrightarrow> length (p_input q) < length (p_input p))"
    using factor_loop_ok [OF assms(1), of q fuel "the r"] len assms(2)
    by (cases r) (auto simp: factor_def)
qed

lemma addend_loop_ok:
  assumes "good m (factor n rec)"
  shows "length (p_input p) < fuel \<Longrightarrow> length (p_input p) < m \<Longrightarrow>
    \<exists>r q. addend_loop fuel n rec e p = Some (r, q) \<and> length (p_input q) \<le> length (p_input p)"
proof (induction fuel arbitrary: e p)
  case 0
  then show ?case by simp
next
  case (Suc fuel)
  obtain t p1 where p1: "addend_op p = (t, p1)"
    by (rule prod.exhaust)
  show ?case
  proof (cases t)
    case None
    with p1 op_okD [OF ops_ok(2) p1] show ?thesis by simp
  next
    case (Some type)
    then have l2: "length (p_input (consume_whitespace p1)) < length (p_input p)"
      using after_operator [OF ops_ok(2), of p type p1] p1 by simp
    then obtain r q where r: "factor n rec (consume_whitespace p1) = Some (r, q)"
      "length (p_input q) \<le> length (p_input (consume_whitespace p1))"
      using Suc.prems by (meson goodD [OF assms] less_trans)
    show ?thesis
    proof (cases r)
      case None
      with Some p1 r l2 show ?thesis by simp
    next
      case (Some right)
      with \<open>t = Some type\<close> p1 r l2 Suc.prems Suc.IH [of q "ArithmBinop type e right"] show ?thesis
        by auto
    qed
  qed
qed

lemma addend_good:
  assumes "good m (term_expr rec)" "m \<le> fuel"
  shows "good m (addend fuel rec)"
proof (rule goodI)
  fix p :: mrsh_parser
  assume len: "length (p_input p) < m"
  obtain r q where r: "factor fuel rec p = Some (r, q)" "length (p_input q) \<le> length (p_input p)"
    "r \<noteq> None \<longrightarrow> length (p_input q) < length (p_input p)"
    by (rule goodD [OF factor_good [OF assms] len])
  then show "\<exists>r q. addend fuel rec p = Some (r, q) \<and> length (p_input q) \<le> length (p_input p) \<and>
      (r \<noteq> None \<longrightarrow> length (p_input q) < length (p_input p))"
    using addend_loop_ok [OF factor_good [OF assms], of q fuel "the r"] len assms(2)
    by (cases r) (auto simp: addend_def)
qed

lemma right_assoc_good:
  assumes "good m operand" "op_ok op" "\<And>p. length (p_input (ws p)) \<le> length (p_input p)"
  shows "length (p_input p) < fuel \<Longrightarrow> length (p_input p) < m \<Longrightarrow>
    \<exists>r q. right_assoc fuel op ws operand p = Some (r, q) \<and> length (p_input q) \<le> length (p_input p) \<and>
      (r \<noteq> None \<longrightarrow> length (p_input q) < length (p_input p))"
proof (induction fuel arbitrary: p)
  case 0
  then show ?case by simp
next
  case (Suc fuel)
  obtain r q where r: "operand p = Some (r, q)" "length (p_input q) \<le> length (p_input p)"
    "r \<noteq> None \<longrightarrow> length (p_input q) < length (p_input p)"
    by (rule goodD [OF assms(1) Suc.prems(2)])
  obtain t p1 where p1: "op q = (t, p1)"
    by (rule prod.exhaust)
  note l1 = op_okD [OF assms(2) p1]
  show ?case
  proof (cases "r \<noteq> None \<and> t \<noteq> None")
    case True
    then have "length (p_input (ws p1)) < length (p_input p)"
      using r l1 assms(3) [of p1] by simp
    with Suc.IH [of "ws p1"] Suc.prems obtain r2 q2 where
      "right_assoc fuel op ws operand (ws p1) = Some (r2, q2)" "length (p_input q2) \<le> length (p_input (ws p1))"
      by auto
    with True r p1 \<open>length (p_input (ws p1)) < length (p_input p)\<close> show ?thesis
      by (cases r2) auto
  next
    case False
    with r p1 l1 show ?thesis
      by (cases r; cases t) auto
  qed
qed

lemma good_right_assoc:
  assumes "good m operand" "op_ok op" "\<And>p. length (p_input (ws p)) \<le> length (p_input p)" "m \<le> fuel"
  shows "good m (right_assoc fuel op ws operand)"
  by (rule goodI, rule right_assoc_good [OF assms(1-3)]) (use assms(4) in auto)

lemma binop_good: "good m operand \<Longrightarrow> str \<noteq> [] \<Longrightarrow> m \<le> fuel \<Longrightarrow> good m (binop fuel type str operand)"
  unfolding binop_def by (intro good_right_assoc binop_op_ok consume_whitespace_length)

lemma logical_or_good:
  assumes "good m (term_expr rec)" "m \<le> fuel"
  shows "good m (logical_or fuel rec)"
proof -
  have "good m (equal_expr fuel rec)"
    unfolding equal_expr_def comp_expr_def shift_expr_def using assms
    by (intro good_right_assoc ops_ok consume_whitespace_length addend_good) auto
  then show ?thesis
    unfolding logical_or_def logical_and_def bitwise_or_def bitwise_xor_def bitwise_and_def using assms(2)
    by (intro binop_good) auto
qed

lemma ternary_ok:
  assumes "good m (logical_or n rec)"
  shows "length (p_input p) < fuel \<Longrightarrow> length (p_input p) < m \<Longrightarrow>
    \<exists>r q. ternary fuel n rec p = Some (r, q) \<and> length (p_input q) \<le> length (p_input p) \<and>
      (r \<noteq> None \<longrightarrow> length (p_input q) < length (p_input p))"
proof (induction fuel arbitrary: p)
  case 0
  then show ?case by simp
next
  case (Suc fuel)
  obtain r q where r: "logical_or n rec p = Some (r, q)" "length (p_input q) \<le> length (p_input p)"
    "r \<noteq> None \<longrightarrow> length (p_input q) < length (p_input p)"
    by (rule goodD [OF assms Suc.prems(2)])
  obtain b p1 where p1: "parse_char (CHR ''?'') q = (b, p1)" by (rule prod.exhaust)
  note l1 = parse_char_length [OF p1]
  show ?case
  proof (cases "r \<noteq> None \<and> b")
    case False
    with r p1 l1 show ?thesis by (cases r; cases b) auto
  next
    case True
    then have s1: "length (p_input p1) < length (p_input p)"
      using r l1 by auto
    with Suc.IH [of p1] Suc.prems obtain r2 p2 where r2: "ternary fuel n rec p1 = Some (r2, p2)"
      "length (p_input p2) \<le> length (p_input p1)"
      by auto
    obtain b3 p3 where p3: "expect_char (CHR '':'') p2 = (b3, p3)" by (rule prod.exhaust)
    have s3: "length (p_input p3) < length (p_input p)"
      using expect_char_length [OF p3] r2 s1 by simp
    with Suc.IH [of p3] Suc.prems obtain r4 p4 where r4: "ternary fuel n rec p3 = Some (r4, p4)"
      "length (p_input p4) \<le> length (p_input p3)"
      by auto
    show ?thesis
      using True r p1 r2 p3 r4 s1 s3 by (cases r2; cases b3; cases r4) auto
  qed
qed

lemma assignment_good:
  assumes "good n rec"
  shows "good (Suc n) (assignment rec)"
proof (rule goodI)
  fix p :: mrsh_parser
  assume len: "length (p_input p) < Suc n"
  obtain k p1 where p1: "peek_name False p = (k, p1)" by (rule prod.exhaust)
  note l1 = peek_name_length [OF p1]
  show "\<exists>r q. assignment rec p = Some (r, q) \<and> length (p_input q) \<le> length (p_input p) \<and>
      (r \<noteq> None \<longrightarrow> length (p_input q) < length (p_input p))"
  proof (cases "k = 0 \<or> find (\<lambda>(str, op). peek_assign_op str k p1) assign_ops = None")
    case True
    with p1 l1 show ?thesis by (auto simp: assignment_def)
  next
    case False
    then obtain str op where op: "find (\<lambda>(str, op). peek_assign_op str k p1) assign_ops = Some (str, op)"
      and k: "0 < k" by auto
    let ?p2 = "skip (length str) (skip k p1)"
    have "length (p_input ?p2) < length (p_input p)"
      using l1 k by auto
    moreover from this len have "length (p_input ?p2) < n" by simp
    then obtain r q where "rec ?p2 = Some (r, q)" "length (p_input q) \<le> length (p_input ?p2)"
      by (rule goodD [OF assms])
    ultimately show ?thesis
      using p1 op k by (cases r) (auto simp: assignment_def Let_def)
  qed
qed

lemma arithm_expr_good: "good fuel (arithm_expr fuel)"
proof (induction fuel)
  case 0
  then show ?case by (simp add: good_def)
next
  case (Suc n)
  have "good (Suc n) (ternary (Suc n) (Suc n) (arithm_expr n))"
    by (rule goodI, rule ternary_ok [OF logical_or_good [OF term_good [OF Suc]]]) auto
  from good_alternative [OF assignment_good [OF Suc] this] show ?case
    by simp
qed

text \<open>C25: Parsing an arithmetic expression always ends: whatever the text is, and with fuel for its
  length, there is a result, and an expression only when the end of the text was reached.\<close>

theorem parse_arithm_total:
  "\<exists>r p. mrsh_parse_arithm_expr (Suc (length text)) (mrsh_parser_with_data text) = Some (r, p) \<and>
    (r = None \<or> parser_peek_char p = NUL)"
proof -
  let ?p = "consume_whitespace (mrsh_parser_with_data text)"
  have "length (p_input ?p) < Suc (length text)"
    using consume_whitespace_length [of "mrsh_parser_with_data text"]
    by (simp add: mrsh_parser_with_data_def cstr_of_def length_takeWhile_le less_Suc_eq_le order_trans)
  then obtain r q where "arithm_expr (Suc (length text)) ?p = Some (r, q)"
    by (rule goodD [OF arithm_expr_good])
  then show ?thesis
    by (cases r) (auto simp: mrsh_parse_arithm_expr_def)
qed

section \<open>Where the parser leaves the grammar\<close>

definition parse_only :: "cstring \<Rightarrow> mrsh_arithm_expr option option" where
  "parse_only text = map_option fst (mrsh_parse_arithm_expr (Suc (length text)) (mrsh_parser_with_data text))"

text \<open>The grammar differs from that of C in four ways: the operand of a unary operator is everything
  that follows, shifts associate to the right, white space is not allowed after \<open>==\<close> nor around \<open>=\<close>, and
  empty parentheses before a number are skipped.\<close>

theorem arith_grammar_deviations:
  "parse_only ''-1+2'' = Some (Some (ArithmUnop MRSH_ARITHM_UNOP_MINUS
      (ArithmBinop MRSH_ARITHM_BINOP_PLUS (ArithmLiteral 1) (ArithmLiteral 2)))) \<and>
   parse_only ''8>>1>>1'' = Some (Some (ArithmBinop MRSH_ARITHM_BINOP_DGREAT (ArithmLiteral 8)
      (ArithmBinop MRSH_ARITHM_BINOP_DGREAT (ArithmLiteral 1) (ArithmLiteral 1)))) \<and>
   parse_only ''1 == 2'' = Some None \<and> parse_only ''x = 1'' = Some None \<and>
   parse_only ''()5'' = Some (Some (ArithmLiteral 5))"
  by code_simp

end
