(* ===== verification/Arithm_Roundtrip.thy ===== *)
theory Arithm_Roundtrip
  imports Arithm_Parser
begin

text \<open>
  The parser of arithmetic expressions reads back what is printed: a printer that puts every operand in
  parentheses, and the proof that parsing its output gives the expression again. The proof climbs the
  levels of the grammar: at each of them, an operand that no operator of the level follows is passed on.
\<close>

section \<open>Parsing what is printed\<close>

text \<open>The text of an expression, with every operand in parentheses.\<close>

fun unop_char :: "mrsh_arithm_unop_type \<Rightarrow> char" where
  "unop_char MRSH_ARITHM_UNOP_PLUS = CHR ''+''"
| "unop_char MRSH_ARITHM_UNOP_MINUS = CHR ''-''"
| "unop_char MRSH_ARITHM_UNOP_TILDE = CHR ''~''"
| "unop_char MRSH_ARITHM_UNOP_BANG = CHR ''!''"

fun binop_str :: "mrsh_arithm_binop_type \<Rightarrow> cstring" where
  "binop_str MRSH_ARITHM_BINOP_ASTERISK = ''*''"
| "binop_str MRSH_ARITHM_BINOP_SLASH = ''/''"
| "binop_str MRSH_ARITHM_BINOP_PERCENT = ''%''"
| "binop_str MRSH_ARITHM_BINOP_PLUS = ''+''"
| "binop_str MRSH_ARITHM_BINOP_MINUS = ''-''"
| "binop_str MRSH_ARITHM_BINOP_DLESS = ''<<''"
| "binop_str MRSH_ARITHM_BINOP_DGREAT = ''>>''"
| "binop_str MRSH_ARITHM_BINOP_LESS = ''<''"
| "binop_str MRSH_ARITHM_BINOP_LESSEQ = ''<=''"
| "binop_str MRSH_ARITHM_BINOP_GREAT = ''>''"
| "binop_str MRSH_ARITHM_BINOP_GREATEQ = ''>=''"
| "binop_str MRSH_ARITHM_BINOP_DEQ = ''==''"
| "binop_str MRSH_ARITHM_BINOP_BANGEQ = ''!=''"
| "binop_str MRSH_ARITHM_BINOP_AND = ''&''"
| "binop_str MRSH_ARITHM_BINOP_CIRC = ''^''"
| "binop_str MRSH_ARITHM_BINOP_OR = ''|''"
| "binop_str MRSH_ARITHM_BINOP_DAND = ''&&''"
| "binop_str MRSH_ARITHM_BINOP_DOR = ''||''"

fun assign_str :: "mrsh_arithm_assign_op \<Rightarrow> cstring" where
  "assign_str MRSH_ARITHM_ASSIGN_NONE = ''=''"
| "assign_str MRSH_ARITHM_ASSIGN_ASTERISK = ''*=''"
| "assign_str MRSH_ARITHM_ASSIGN_SLASH = ''/=''"
| "assign_str MRSH_ARITHM_ASSIGN_PERCENT = ''%=''"
| "assign_str MRSH_ARITHM_ASSIGN_PLUS = ''+=''"
| "assign_str MRSH_ARITHM_ASSIGN_MINUS = ''-=''"
| "assign_str MRSH_ARITHM_ASSIGN_DLESS = ''<<=''"
| "assign_str MRSH_ARITHM_ASSIGN_DGREAT = ''>>=''"
| "assign_str MRSH_ARITHM_ASSIGN_AND = ''&=''"
| "assign_str MRSH_ARITHM_ASSIGN_CIRC = ''^=''"
| "assign_str MRSH_ARITHM_ASSIGN_OR = ''|=''"

fun arith_text :: "mrsh_arithm_expr \<Rightarrow> cstring" where
  "arith_text (ArithmLiteral v) = fmt_d v"
| "arith_text (ArithmVariable x) = x"
| "arith_text (ArithmUnop op e) = [unop_char op] @ ''('' @ arith_text e @ '')''"
| "arith_text (ArithmBinop op l r) = ''('' @ arith_text l @ '')'' @ binop_str op @ ''('' @ arith_text r @ '')''"
| "arith_text (ArithmCond c b e) =
     ''('' @ arith_text c @ '')?('' @ arith_text b @ ''):('' @ arith_text e @ '')''"
| "arith_text (ArithmAssign op x e) = x @ assign_str op @ ''('' @ arith_text e @ '')''"

definition is_name :: "cstring \<Rightarrow> bool" where
  "is_name x \<longleftrightarrow> x \<noteq> [] \<and> (\<forall>c \<in> set x. is_name_char c) \<and> \<not> is_digit (hd x)"

primrec printable :: "mrsh_arithm_expr \<Rightarrow> bool" where
  "printable (ArithmLiteral v) \<longleftrightarrow> 0 \<le> v \<and> v \<le> LONG_MAX"
| "printable (ArithmVariable x) \<longleftrightarrow> is_name x"
| "printable (ArithmUnop op e) \<longleftrightarrow> printable e"
| "printable (ArithmBinop op l r) \<longleftrightarrow> printable l \<and> printable r"
| "printable (ArithmCond c b e) \<longleftrightarrow> printable c \<and> printable b \<and> printable e"
| "printable (ArithmAssign op x e) \<longleftrightarrow> is_name x \<and> printable e"

text \<open>A token was recognised before, and is not asked for again.\<close>

definition ready :: "mrsh_parser \<Rightarrow> bool" where
  "ready p \<longleftrightarrow> p_has_sym p \<and> p_sym p = TOKEN"

text \<open>What may follow an operand without being an operator of its own.\<close>

definition stop :: "mrsh_parser \<Rightarrow> bool" where
  "stop p \<longleftrightarrow> p_input p = [] \<or> hd (p_input p) \<in> set '')?:''"

lemma skip_0 [simp]: "skip 0 p = p"
  by (simp add: skip_def)

lemma skip_skip [simp]: "skip m (skip n p) = skip (n + m) p"
proof -
  have "drop m (drop n (p_input p)) = drop (n + m) (p_input p)"
    by (simp add: add.commute)
  then show ?thesis
    by (auto simp: skip_def take_add simp del: drop_drop)
qed

lemma ready_skip [simp]: "ready (skip n p) = ready p"
  by (simp add: ready_def skip_def)

lemma error_skip [simp]: "p_error (skip n p) = p_error p"
  by (simp add: skip_def)

lemma peek_name_ready:
  "ready p \<Longrightarrow> peek_name False p =
    (if is_digit (parser_peek_char p) then 0 else length (takeWhile is_name_char (p_input p)), p)"
  by (simp add: peek_name_def symbol_def get_symbol_def ready_def parser_peek_char_def)

lemma no_whitespace: "p_input p = c # i \<Longrightarrow> \<not> is_space c \<Longrightarrow> consume_whitespace p = p"
  by (simp add: consume_whitespace_def)

lemmas op_defs = factor_op_def addend_op_def shift_op_def comp_op_def equal_op_def parse_char_def parse_str_def
  parse_binop_def parser_peek_char_def peek_at_def

lemma stop_quiet:
  assumes "stop q"
  shows "consume_whitespace q = q" "factor_op q = (None, q)" "addend_op q = (None, q)" "shift_op q = (None, q)"
    "comp_op q = (None, q)" "equal_op q = (None, q)"
    "parse_binop ''&'' q = (False, q)" "parse_binop ''^'' q = (False, q)" "parse_binop ''|'' q = (False, q)"
    "parse_binop ''&&'' q = (False, q)" "parse_binop ''||'' q = (False, q)"
  using assms
  by (cases "p_input q"; auto simp: stop_def op_defs consume_whitespace_def char_simps)+

subsection \<open>From an operand up to the whole expression\<close>

text \<open>A level without one of its operators passes on what the level below gives.\<close>

lemma factor_pass:
  "term_expr rec p = Some (Some e, q) \<Longrightarrow> consume_whitespace q = q \<Longrightarrow> factor_op q = (None, q) \<Longrightarrow>
    factor (Suc n) rec p = Some (Some e, q)"
  by (simp add: factor_def)

lemma addend_pass:
  "factor (Suc n) rec p = Some (Some e, q) \<Longrightarrow> addend_op q = (None, q) \<Longrightarrow> addend (Suc n) rec p = Some (Some e, q)"
  by (simp add: addend_def)

lemma right_assoc_pass:
  "operand p = Some (Some e, q) \<Longrightarrow> op q = (None, q) \<Longrightarrow> right_assoc (Suc n) op ws operand p = Some (Some e, q)"
  by simp

lemma right_assoc_op:
  "operand p = Some (Some l, q) \<Longrightarrow> op q = (Some t, q1) \<Longrightarrow> operand (ws q1) = Some (Some r, q2) \<Longrightarrow>
    op q2 = (None, q2) \<Longrightarrow> right_assoc (Suc (Suc n)) op ws operand p = Some (Some (ArithmBinop t l r), q2)"
  by simp

lemma binop_pass:
  "operand p = Some (Some e, q) \<Longrightarrow> parse_binop str q = (False, q) \<Longrightarrow> binop (Suc n) t str operand p = Some (Some e, q)"
  by (simp add: binop_def)

lemma binop_op:
  "operand p = Some (Some l, q) \<Longrightarrow> parse_binop str q = (True, q1) \<Longrightarrow> consume_whitespace q1 = q1 \<Longrightarrow>
    operand q1 = Some (Some r, q2) \<Longrightarrow> parse_binop str q2 = (False, q2) \<Longrightarrow>
    binop (Suc (Suc n)) t str operand p = Some (Some (ArithmBinop t l r), q2)"
  by (simp add: binop_def)

lemma from_logical_and:
  "logical_and (Suc n) rec p = Some (Some e, q) \<Longrightarrow> stop q \<Longrightarrow> logical_or (Suc n) rec p = Some (Some e, q)"
  unfolding logical_or_def by (rule binop_pass) (simp_all add: stop_quiet)

lemma from_bitwise_or:
  "bitwise_or (Suc n) rec p = Some (Some e, q) \<Longrightarrow> stop q \<Longrightarrow> logical_or (Suc n) rec p = Some (Some e, q)"
  by (rule from_logical_and) (simp_all add: logical_and_def binop_pass stop_quiet)

lemma from_bitwise_xor:
  "bitwise_xor (Suc n) rec p = Some (Some e, q) \<Longrightarrow> stop q \<Longrightarrow> logical_or (Suc n) rec p = Some (Some e, q)"
  by (rule from_bitwise_or) (simp_all add: bitwise_or_def binop_pass stop_quiet)

lemma from_bitwise_and:
  "bitwise_and (Suc n) rec p = Some (Some e, q) \<Longrightarrow> stop q \<Longrightarrow> logical_or (Suc n) rec p = Some (Some e, q)"
  by (rule from_bitwise_xor) (simp_all add: bitwise_xor_def binop_pass stop_quiet)

lemma from_equal:
  "equal_expr (Suc n) rec p = Some (Some e, q) \<Longrightarrow> stop q \<Longrightarrow> logical_or (Suc n) rec p = Some (Some e, q)"
  by (rule from_bitwise_and) (simp_all add: bitwise_and_def binop_pass stop_quiet)

lemma from_comp:
  "comp_expr (Suc n) rec p = Some (Some e, q) \<Longrightarrow> stop q \<Longrightarrow> logical_or (Suc n) rec p = Some (Some e, q)"
  by (rule from_equal) (simp_all add: equal_expr_def stop_quiet)

lemma from_shift:
  "shift_expr (Suc n) rec p = Some (Some e, q) \<Longrightarrow> stop q \<Longrightarrow> logical_or (Suc n) rec p = Some (Some e, q)"
  by (rule from_comp) (simp_all add: comp_expr_def stop_quiet)

lemma from_addend:
  "addend (Suc n) rec p = Some (Some e, q) \<Longrightarrow> stop q \<Longrightarrow> logical_or (Suc n) rec p = Some (Some e, q)"
  by (rule from_shift) (simp_all add: shift_expr_def stop_quiet)

lemma from_factor:
  "factor (Suc n) rec p = Some (Some e, q) \<Longrightarrow> stop q \<Longrightarrow> logical_or (Suc n) rec p = Some (Some e, q)"
  by (rule from_addend) (simp_all add: addend_pass stop_quiet)

lemma from_term:
  "term_expr rec p = Some (Some e, q) \<Longrightarrow> stop q \<Longrightarrow> logical_or (Suc n) rec p = Some (Some e, q)"
  by (rule from_factor) (simp_all add: factor_pass stop_quiet)

text \<open>The levels below an operator, for an operand that the operator follows.\<close>

lemma to_factor:
  "term_expr rec p = Some (Some e, q) \<Longrightarrow> p_input q = c # i \<Longrightarrow> c \<notin> set ''*/%'' \<Longrightarrow> \<not> is_space c \<Longrightarrow>
    factor (Suc n) rec p = Some (Some e, q)"
  by (rule factor_pass) (auto simp: no_whitespace op_defs)

lemma to_addend:
  "term_expr rec p = Some (Some e, q) \<Longrightarrow> p_input q = c # i \<Longrightarrow> c \<notin> set ''*/%+-'' \<Longrightarrow> \<not> is_space c \<Longrightarrow>
    addend (Suc n) rec p = Some (Some e, q)"
  by (rule addend_pass, rule to_factor) (auto simp: op_defs)

lemma to_shift:
  "term_expr rec p = Some (Some e, q) \<Longrightarrow> p_input q = c # i \<Longrightarrow> c \<notin> set ''*/%+-'' \<Longrightarrow> \<not> is_space c \<Longrightarrow>
    shift_op q = (None, q) \<Longrightarrow> shift_expr (Suc n) rec p = Some (Some e, q)"
  unfolding shift_expr_def by (rule right_assoc_pass, rule to_addend)

lemma to_comp:
  "term_expr rec p = Some (Some e, q) \<Longrightarrow> p_input q = c # i \<Longrightarrow> c \<notin> set ''*/%+-<>'' \<Longrightarrow> \<not> is_space c \<Longrightarrow>
    comp_expr (Suc n) rec p = Some (Some e, q)"
  unfolding comp_expr_def by (rule right_assoc_pass, rule to_shift) (auto simp: op_defs)

lemma to_equal:
  "term_expr rec p = Some (Some e, q) \<Longrightarrow> p_input q = c # i \<Longrightarrow> c \<notin> set ''*/%+-<>=!'' \<Longrightarrow> \<not> is_space c \<Longrightarrow>
    equal_expr (Suc n) rec p = Some (Some e, q)"
  unfolding equal_expr_def by (rule right_assoc_pass, rule to_comp) (auto simp: op_defs)

lemma to_bitwise_and:
  "term_expr rec p = Some (Some e, q) \<Longrightarrow> p_input q = c # i \<Longrightarrow> c \<notin> set ''*/%+-<>=!'' \<Longrightarrow> \<not> is_space c \<Longrightarrow>
    parse_binop ''&'' q = (False, q) \<Longrightarrow> bitwise_and (Suc n) rec p = Some (Some e, q)"
  unfolding bitwise_and_def by (rule binop_pass, rule to_equal)

lemma to_bitwise_xor:
  "term_expr rec p = Some (Some e, q) \<Longrightarrow> p_input q = c # i \<Longrightarrow> c \<notin> set ''*/%+-<>=!^'' \<Longrightarrow> \<not> is_space c \<Longrightarrow>
    parse_binop ''&'' q = (False, q) \<Longrightarrow> bitwise_xor (Suc n) rec p = Some (Some e, q)"
  unfolding bitwise_xor_def by (rule binop_pass, rule to_bitwise_and) (auto simp: op_defs)

lemma to_bitwise_or:
  "term_expr rec p = Some (Some e, q) \<Longrightarrow> p_input q = c # i \<Longrightarrow> c \<notin> set ''*/%+-<>=!^'' \<Longrightarrow> \<not> is_space c \<Longrightarrow>
    parse_binop ''&'' q = (False, q) \<Longrightarrow> parse_binop ''|'' q = (False, q) \<Longrightarrow>
    bitwise_or (Suc n) rec p = Some (Some e, q)"
  unfolding bitwise_or_def by (rule binop_pass, rule to_bitwise_xor)

lemma to_logical_and:
  "term_expr rec p = Some (Some e, q) \<Longrightarrow> p_input q = c # i \<Longrightarrow> c \<notin> set ''*/%+-<>=!^&'' \<Longrightarrow> \<not> is_space c \<Longrightarrow>
    parse_binop ''|'' q = (False, q) \<Longrightarrow> logical_and (Suc n) rec p = Some (Some e, q)"
  unfolding logical_and_def by (rule binop_pass, rule to_bitwise_or) (auto simp: op_defs)

text \<open>All levels, for an operand at which the expression ends.\<close>

lemma stop_levels:
  assumes "term_expr rec p = Some (Some e, q)" "stop q"
  shows "factor (Suc n) rec p = Some (Some e, q)" "addend (Suc n) rec p = Some (Some e, q)"
    "shift_expr (Suc n) rec p = Some (Some e, q)" "comp_expr (Suc n) rec p = Some (Some e, q)"
    "equal_expr (Suc n) rec p = Some (Some e, q)" "bitwise_and (Suc n) rec p = Some (Some e, q)"
    "bitwise_xor (Suc n) rec p = Some (Some e, q)" "bitwise_or (Suc n) rec p = Some (Some e, q)"
    "logical_and (Suc n) rec p = Some (Some e, q)"
proof -
  note quiet = stop_quiet [OF assms(2)]
  show f: "factor (Suc n) rec p = Some (Some e, q)"
    using assms(1) by (simp add: factor_pass quiet)
  show a: "addend (Suc n) rec p = Some (Some e, q)"
    using f by (simp add: addend_pass quiet)
  show s: "shift_expr (Suc n) rec p = Some (Some e, q)"
    using a by (simp add: shift_expr_def quiet)
  show c: "comp_expr (Suc n) rec p = Some (Some e, q)"
    using s by (simp add: comp_expr_def quiet)
  show e: "equal_expr (Suc n) rec p = Some (Some e, q)"
    using c by (simp add: equal_expr_def quiet)
  show ba: "bitwise_and (Suc n) rec p = Some (Some e, q)"
    using e by (simp add: bitwise_and_def binop_pass quiet)
  show bx: "bitwise_xor (Suc n) rec p = Some (Some e, q)"
    using ba by (simp add: bitwise_xor_def binop_pass quiet)
  show bo: "bitwise_or (Suc n) rec p = Some (Some e, q)"
    using bx by (simp add: bitwise_or_def binop_pass quiet)
  show "logical_and (Suc n) rec p = Some (Some e, q)"
    using bo by (simp add: logical_and_def binop_pass quiet)
qed

lemma logical_or_binop:
  assumes l: "term_expr rec p = Some (Some l, q)" "p_input q = binop_str t @ CHR ''('' # i"
    and r: "term_expr rec (skip (length (binop_str t)) q) = Some (Some r, q2)" "stop q2"
  shows "logical_or (Suc (Suc n)) rec p = Some (Some (ArithmBinop t l r), q2)"
proof -
  let ?q1 = "skip (length (binop_str t)) q"
  have ws: "consume_whitespace ?q1 = ?q1"
    using l(2) by (intro no_whitespace [of _ "CHR ''(''" i]) (simp_all add: char_simps)
  note quiet = stop_quiet [OF r(2)] and levels = stop_levels [OF r]
  consider (factor) "t \<in> {MRSH_ARITHM_BINOP_ASTERISK, MRSH_ARITHM_BINOP_SLASH, MRSH_ARITHM_BINOP_PERCENT}"
    | (addend) "t \<in> {MRSH_ARITHM_BINOP_PLUS, MRSH_ARITHM_BINOP_MINUS}"
    | (shift) "t \<in> {MRSH_ARITHM_BINOP_DLESS, MRSH_ARITHM_BINOP_DGREAT}"
    | (comp) "t \<in> {MRSH_ARITHM_BINOP_LESS, MRSH_ARITHM_BINOP_LESSEQ, MRSH_ARITHM_BINOP_GREAT, MRSH_ARITHM_BINOP_GREATEQ}"
    | (equal) "t \<in> {MRSH_ARITHM_BINOP_DEQ, MRSH_ARITHM_BINOP_BANGEQ}"
    | (and_) "t = MRSH_ARITHM_BINOP_AND" | (circ) "t = MRSH_ARITHM_BINOP_CIRC" | (or_) "t = MRSH_ARITHM_BINOP_OR"
    | (dand) "t = MRSH_ARITHM_BINOP_DAND" | (dor) "t = MRSH_ARITHM_BINOP_DOR"
    by (cases t) auto
  then show ?thesis
  proof cases
    case factor
    then have "consume_whitespace q = q" "factor_op q = (Some t, ?q1)"
      using l(2) by (auto simp: op_defs no_whitespace char_simps)
    then show ?thesis
      using l r ws quiet by (intro from_factor) (simp_all add: factor_def)
  next
    case addend
    then have "addend_op q = (Some t, ?q1)" "factor (Suc (Suc n)) rec p = Some (Some l, q)"
      using l by (auto simp: op_defs char_simps intro!: to_factor)
    then show ?thesis
      using r ws quiet levels by (intro from_addend) (simp_all add: addend_def)
  next
    case shift
    then have "shift_op q = (Some t, ?q1)" "addend (Suc (Suc n)) rec p = Some (Some l, q)"
      using l by (auto simp: op_defs char_simps intro!: to_addend)
    then show ?thesis
      using r ws quiet levels
      by (intro from_shift) (auto simp: shift_expr_def simp del: right_assoc.simps intro!: right_assoc_op)
  next
    case comp
    then have "comp_op q = (Some t, ?q1)" "shift_expr (Suc (Suc n)) rec p = Some (Some l, q)"
      using l by (auto simp: op_defs char_simps intro!: to_shift)
    then show ?thesis
      using r ws quiet levels
      by (intro from_comp) (auto simp: comp_expr_def simp del: right_assoc.simps intro!: right_assoc_op)
  next
    case equal
    then have "equal_op q = (Some t, ?q1)" "comp_expr (Suc (Suc n)) rec p = Some (Some l, q)"
      using l by (auto simp: op_defs char_simps intro!: to_comp)
    then show ?thesis
      using r quiet levels
      by (intro from_equal) (auto simp: equal_expr_def simp del: right_assoc.simps intro!: right_assoc_op)
  next
    case and_
    then have "parse_binop ''&'' q = (True, ?q1)" "equal_expr (Suc (Suc n)) rec p = Some (Some l, q)"
      using l by (auto simp: op_defs char_simps intro!: to_equal)
    then show ?thesis
      using r ws quiet levels and_ by (intro from_bitwise_and) (auto simp: bitwise_and_def intro!: binop_op)
  next
    case circ
    then have "parse_binop ''^'' q = (True, ?q1)" "bitwise_and (Suc (Suc n)) rec p = Some (Some l, q)"
      using l by (auto simp: op_defs char_simps intro!: to_bitwise_and)
    then show ?thesis
      using r ws quiet levels circ by (intro from_bitwise_xor) (auto simp: bitwise_xor_def intro!: binop_op)
  next
    case or_
    then have "parse_binop ''|'' q = (True, ?q1)" "bitwise_xor (Suc (Suc n)) rec p = Some (Some l, q)"
      using l by (auto simp: op_defs char_simps intro!: to_bitwise_xor)
    then show ?thesis
      using r ws quiet levels or_ by (intro from_bitwise_or) (auto simp: bitwise_or_def intro!: binop_op)
  next
    case dand
    then have "parse_binop ''&&'' q = (True, ?q1)" "bitwise_or (Suc (Suc n)) rec p = Some (Some l, q)"
      using l by (auto simp: op_defs char_simps intro!: to_bitwise_or)
    then show ?thesis
      using r ws quiet levels dand by (intro from_logical_and) (auto simp: logical_and_def intro!: binop_op)
  next
    case dor
    then have "parse_binop ''||'' q = (True, ?q1)" "logical_and (Suc (Suc n)) rec p = Some (Some l, q)"
      using l by (auto simp: op_defs char_simps intro!: to_logical_and)
    then show ?thesis
      using r ws quiet levels dor by (auto simp: logical_or_def intro!: binop_op)
  qed
qed

subsection \<open>Terms and expressions\<close>

lemma name_char_not:
  "is_name_char c \<Longrightarrow> c \<notin> set ''()+-~!?:=*/%<>&^|'' \<and> \<not> is_space c"
  by (auto simp: is_name_char_def char_classes)

lemma digit_name_char: "is_digit c \<Longrightarrow> is_name_char c"
  by (simp add: is_name_char_def is_alnum_def)

lemma text_front: "printable e \<Longrightarrow> \<exists>c i. arith_text e = c # i \<and> \<not> is_space c"
proof (cases e)
  case (ArithmLiteral v)
  assume "printable e"
  then have "fmt_d v = show_base 10 (nat v)"
    using ArithmLiteral by (simp add: fmt_d_def)
  moreover obtain c s where "show_base 10 (nat v) = c # s"
    using show_base_nonempty [of 10 "nat v"] by (cases "show_base 10 (nat v)") auto
  moreover from this have "is_digit c"
    by (metis list.set_intros(1) show_base_10_digits)
  ultimately show ?thesis
    using ArithmLiteral by (simp add: is_digit_not_space)
next
  case (ArithmVariable x)
  assume "printable e"
  with ArithmVariable show ?thesis
    by (cases x) (auto simp: is_name_def dest: name_char_not)
next
  case (ArithmUnop op f)
  then show ?thesis
    by (cases op) (auto simp: char_simps)
next
  case (ArithmAssign op x f)
  assume "printable e"
  with ArithmAssign show ?thesis
    by (cases x) (auto simp: is_name_def dest: name_char_not)
qed (auto simp: char_simps)

lemma paren_term:
  assumes "printable e" "p_input p = CHR ''('' # arith_text e @ CHR '')'' # i"
    "rec (skip 1 p) = Some (Some e, skip (length (arith_text e)) (skip 1 p))"
  shows "term_expr rec p = Some (Some e, skip (length (arith_text e) + 2) p)"
proof -
  obtain c j where c: "arith_text e = c # j" "\<not> is_space c"
    using text_front [OF assms(1)] by blast
  then have "consume_whitespace (skip 1 p) = skip 1 p"
    using assms(2) by (intro no_whitespace [of _ c]) auto
  then show ?thesis
    using assms(2,3)
    by (simp add: term_expr_def paren_def expect_char_def parse_char_def parser_peek_char_def peek_at_def char_at_def)
qed

lemma no_assignment:
  "ready p \<Longrightarrow> p_input p = c # i \<Longrightarrow> is_digit c \<or> \<not> is_name_char c \<Longrightarrow> assignment rec p = Some (None, p)"
  by (auto simp: assignment_def peek_name_ready parser_peek_char_def peek_at_def)

lemma paren_no_name: "is_digit (CHR ''('') \<or> \<not> is_name_char (CHR ''('')"
  by (simp add: is_name_char_def char_simps)

lemma expr_of_logical_or:
  "assignment (arithm_expr n) p = Some (None, p) \<Longrightarrow> logical_or (Suc n) (arithm_expr n) p = Some (Some e, q) \<Longrightarrow>
    parser_peek_char q \<noteq> CHR ''?'' \<Longrightarrow> arithm_expr (Suc n) p = Some (Some e, q)"
  by (simp add: parse_char_def)

lemma expr_of_term:
  "assignment (arithm_expr n) p = Some (None, p) \<Longrightarrow> term_expr (arithm_expr n) p = Some (Some e, q) \<Longrightarrow>
    stop q \<Longrightarrow> parser_peek_char q \<noteq> CHR ''?'' \<Longrightarrow> arithm_expr (Suc n) p = Some (Some e, q)"
  by (intro expr_of_logical_or from_term)

lemma show_base_front: "0 < n \<Longrightarrow> hd (show_base 10 n) \<noteq> CHR ''0''"
proof (induction n rule: less_induct)
  case (less n)
  show ?case
  proof (cases "n < 10")
    case True
    have "digit_char n \<noteq> CHR ''0''"
      using True less.prems char_code_digit [of n] by (auto simp: char_code_def)
    with True show ?thesis by (simp add: show_base_small)
  next
    case False
    then have "hd (show_base 10 (n div 10)) \<noteq> CHR ''0''"
      by (intro less.IH) auto
    with False show ?thesis
      by (simp add: show_base_step show_base_nonempty)
  qed
qed

lemma strtol_literal:
  assumes "0 \<le> v" "v \<le> LONG_MAX"
  shows "strtol 0 (fmt_d v) = (v, [], False)"
proof (cases "v = 0")
  case True
  have "digit_char 0 = CHR ''0''"
    using char_code_digit [of 0] char_code_inj [of "digit_char 0" "CHR ''0''"] by (simp add: char_code_def)
  with True show ?thesis
    by (simp add: strtol_def fmt_d_def show_base_small split_sign_def split_base_def
        has_hex_prefix_def number_of_def is_base_digit_def digit_val_def char_simps LONG_MIN_def LONG_MAX_def)
next
  case False
  obtain c s where cs: "fmt_d v = c # s"
    using fmt_d_nonempty [of v] by (cases "fmt_d v") auto
  then have "c \<noteq> CHR ''0''" "is_digit c"
    using assms False show_base_front [of "nat v"] show_base_10_digits [of c "nat v"] by (auto simp: fmt_d_def)
  then have "split_base 0 (c # s) = split_base 10 (c # s)"
    by (simp add: split_base_def has_hex_prefix_def)
  then have "strtol 0 (fmt_d v) = strtol 10 (fmt_d v)"
    using cs \<open>is_digit c\<close> by (simp add: strtol_def is_digit_not_space split_sign_digit)
  with assms show ?thesis
    by (simp add: strtol_fmt_d in_long_def LONG_MIN_def)
qed

lemma literal_term:
  assumes "0 \<le> v" "v \<le> LONG_MAX" "p_input p = fmt_d v @ CHR '')'' # i"
  shows "term_expr rec p = Some (Some (ArithmLiteral v), skip (length (fmt_d v)) p)"
proof -
  obtain c s where cs: "fmt_d v = c # s"
    using fmt_d_nonempty [of v] by (cases "fmt_d v") auto
  have digits: "\<And>d. d \<in> set (fmt_d v) \<Longrightarrow> is_digit d"
    using assms(1) by (auto simp: fmt_d_def dest: show_base_10_digits)
  then have "is_digit c" using cs by simp
  then have c: "c \<noteq> CHR ''(''" "unop_type c = None"
    by (auto simp: char_classes unop_type_def)
  have "takeWhile is_digit (p_input p) = fmt_d v"
    unfolding assms(3) by (rule takeWhile_stop) (use digits in \<open>auto simp: char_simps\<close>)
  then have "literal p = (Some (ArithmLiteral v), skip (length (fmt_d v)) p)"
    using strtol_literal [OF assms(1,2)] assms(3) fmt_d_nonempty [of v] by (simp add: literal_def peek_literal_def)
  with c assms(3) cs show ?thesis
    by (simp add: term_expr_def paren_def unop_def parse_char_def parser_peek_char_def peek_at_def)
qed

lemma variable_term:
  assumes "is_name x" "ready p" "p_input p = x @ CHR '')'' # i"
  shows "term_expr rec p = Some (Some (ArithmVariable x), skip (length x) p)"
proof -
  obtain c s where cs: "x = c # s"
    using assms(1) by (cases x) (auto simp: is_name_def)
  then have nc: "is_name_char c" "\<not> is_digit c"
    using assms(1) by (auto simp: is_name_def)
  then have c: "c \<noteq> CHR ''(''" "unop_type c = None"
    using name_char_not [of c] by (auto simp: unop_type_def)
  have "takeWhile is_name_char (p_input p) = x"
    unfolding assms(3) by (rule takeWhile_stop) (use assms(1) in \<open>auto simp: is_name_def is_name_char_def char_simps\<close>)
  then have "variable p = (Some (ArithmVariable x), skip (length x) p)"
    using assms(3) cs nc
    by (simp add: variable_def peek_name_ready [OF assms(2)] parser_peek_char_def peek_at_def)
  moreover have "literal p = (None, p)"
    using assms(3) cs nc by (simp add: literal_def peek_literal_def)
  ultimately show ?thesis
    using c assms(3) cs
    by (simp add: term_expr_def paren_def unop_def parse_char_def parser_peek_char_def peek_at_def)
qed

text \<open>An expression whose text is parsed, once in parentheses as an operand.\<close>

definition parses :: "mrsh_arithm_expr \<Rightarrow> bool" where
  "parses e \<longleftrightarrow> (\<forall>p i n. ready p \<longrightarrow> p_input p = arith_text e @ CHR '')'' # i \<longrightarrow> length (arith_text e) < n \<longrightarrow>
     arithm_expr n p = Some (Some e, skip (length (arith_text e)) p))"

lemma operand_term:
  assumes "parses e" "printable e" "ready p" "p_input p = CHR ''('' # arith_text e @ CHR '')'' # i"
    "length (arith_text e) < n"
  shows "term_expr (arithm_expr n) p = Some (Some e, skip (length (arith_text e) + 2) p)"
  using assms by (intro paren_term) (auto simp: parses_def)

lemma operand_after:
  "p_input p = CHR ''('' # arith_text e @ CHR '')'' # i \<Longrightarrow> p_input (skip (length (arith_text e) + 2) p) = i"
  by simp

lemma operand_expr:
  assumes "parses e" "printable e" "ready p" "p_input p = CHR ''('' # arith_text e @ CHR '')'' # i"
    "length (arith_text e) + 1 < n" "i = [] \<or> (\<exists>j. i = CHR '')'' # j)"
  shows "arithm_expr n p = Some (Some e, skip (length (arith_text e) + 2) p)"
proof -
  obtain m where m: "n = Suc m" "length (arith_text e) < m"
    using assms(5) by (cases n) auto
  note t = operand_term [OF assms(1-4) m(2)]
  show ?thesis
    unfolding m(1)
  proof (rule expr_of_term [OF _ t])
    show "assignment (arithm_expr m) p = Some (None, p)"
      by (rule no_assignment [OF assms(3,4) paren_no_name])
    show "stop (skip (length (arith_text e) + 2) p)"
      "parser_peek_char (skip (length (arith_text e) + 2) p) \<noteq> CHR ''?''"
      using assms(4,6) operand_after [OF assms(4)] by (auto simp: stop_def parser_peek_char_def peek_at_def)
  qed
qed

lemma parses_unop:
  assumes "parses e" "printable e"
  shows "parses (ArithmUnop op e)"
  unfolding parses_def
proof (intro allI impI)
  fix p :: mrsh_parser and i n
  assume p: "ready p" "p_input p = arith_text (ArithmUnop op e) @ CHR '')'' # i" "length (arith_text (ArithmUnop op e)) < n"
  then obtain m where m: "n = Suc m" "length (arith_text e) + 1 < m"
    by (cases n) auto
  let ?c = "unop_char op"
  have front: "p_input p = ?c # CHR ''('' # arith_text e @ CHR '')'' # CHR '')'' # i"
    using p(2) by simp
  have "arithm_expr m (skip 1 p) = Some (Some e, skip (length (arith_text e) + 2) (skip 1 p))"
    using operand_expr [OF assms _ _ m(2), of "skip 1 p" "CHR '')'' # i"] p(1) front by simp
  moreover have "unop_type ?c = Some op" "?c \<noteq> CHR ''(''" "\<not> is_name_char ?c"
    by (cases op; simp add: unop_type_def is_name_char_def char_simps)+
  ultimately have t: "term_expr (arithm_expr m) p = Some (Some (ArithmUnop op e), skip (length (arith_text e) + 3) p)"
    using front
    by (simp add: term_expr_def paren_def unop_def parse_char_def parser_peek_char_def peek_at_def numeral_3_eq_3)
  have after: "p_input (skip (length (arith_text e) + 3) p) = CHR '')'' # i"
    using front by (simp add: numeral_3_eq_3)
  have "arithm_expr (Suc m) p = Some (Some (ArithmUnop op e), skip (length (arith_text e) + 3) p)"
    using after no_assignment [OF p(1) front] \<open>\<not> is_name_char ?c\<close>
    by (intro expr_of_term t) (auto simp: stop_def parser_peek_char_def peek_at_def)
  then show "arithm_expr n p = Some (Some (ArithmUnop op e), skip (length (arith_text (ArithmUnop op e))) p)"
    using m(1) by (simp add: numeral_3_eq_3)
qed

lemma parses_binop:
  assumes "parses l" "printable l" "parses r" "printable r"
  shows "parses (ArithmBinop op l r)"
  unfolding parses_def
proof (intro allI impI)
  fix p :: mrsh_parser and i n
  let ?e = "ArithmBinop op l r" and ?L = "length (arith_text l) + 2" and ?O = "length (binop_str op)"
    and ?R = "length (arith_text r) + 2"
  assume p: "ready p" "p_input p = arith_text ?e @ CHR '')'' # i" "length (arith_text ?e) < n"
  then obtain m where m: "n = Suc (Suc m)" "length (arith_text l) < Suc m" "length (arith_text r) < Suc m"
    by (cases n; cases "n - 1") auto
  have front: "p_input p = CHR ''('' # arith_text l @ CHR '')'' #
      binop_str op @ CHR ''('' # arith_text r @ CHR '')'' # CHR '')'' # i"
    using p(2) by simp
  have l: "term_expr (arithm_expr (Suc m)) p = Some (Some l, skip ?L p)"
    by (rule operand_term [OF assms(1,2) p(1) front m(2)])
  have mid: "p_input (skip ?L p) = binop_str op @ CHR ''('' # arith_text r @ CHR '')'' # CHR '')'' # i"
    by (rule operand_after [OF front])
  then have right: "p_input (skip ?O (skip ?L p)) = CHR ''('' # arith_text r @ CHR '')'' # CHR '')'' # i"
    by (subst p_input_skip) (simp del: skip_skip)
  have r: "term_expr (arithm_expr (Suc m)) (skip ?O (skip ?L p)) = Some (Some r, skip ?R (skip ?O (skip ?L p)))"
    using operand_term [OF assms(3,4) _ right m(3)] p(1) by simp
  have after: "p_input (skip ?R (skip ?O (skip ?L p))) = CHR '')'' # i"
    by (rule operand_after [OF right])
  have lor: "logical_or (Suc (Suc m)) (arithm_expr (Suc m)) p = Some (Some ?e, skip ?R (skip ?O (skip ?L p)))"
    by (rule logical_or_binop [OF l mid r]) (unfold stop_def after, simp)
  have "arithm_expr (Suc (Suc m)) p = Some (Some ?e, skip ?R (skip ?O (skip ?L p)))"
    by (rule expr_of_logical_or [OF no_assignment [OF p(1) front paren_no_name] lor])
      (unfold parser_peek_char_def peek_at_def after, simp)
  then show "arithm_expr n p = Some (Some ?e, skip (length (arith_text ?e)) p)"
    using m(1) by (simp add: ac_simps)
qed

lemma parses_cond:
  assumes "parses c" "printable c" "parses b" "printable b" "parses e" "printable e"
  shows "parses (ArithmCond c b e)"
  unfolding parses_def
proof (intro allI impI)
  fix p :: mrsh_parser and i n
  let ?e = "ArithmCond c b e" and ?C = "length (arith_text c) + 2" and ?B = "length (arith_text b) + 2"
    and ?E = "length (arith_text e) + 2"
  assume p: "ready p" "p_input p = arith_text ?e @ CHR '')'' # i" "length (arith_text ?e) < n"
  then obtain m where m: "n = Suc (Suc m)" "length (arith_text c) < Suc m" "length (arith_text b) < Suc m"
    "length (arith_text e) < Suc m"
    by (cases n; cases "n - 1") auto
  let ?p1 = "skip ?C p" let ?p2 = "skip 1 ?p1" let ?p3 = "skip ?B ?p2" let ?p4 = "skip 1 ?p3" let ?p5 = "skip ?E ?p4"
  have f0: "p_input p = CHR ''('' # arith_text c @ CHR '')'' # CHR ''?'' # CHR ''('' # arith_text b @ CHR '')'' #
      CHR '':'' # CHR ''('' # arith_text e @ CHR '')'' # CHR '')'' # i"
    using p(2) by simp
  note f1 = operand_after [OF f0]
  have f2: "p_input ?p2 = CHR ''('' # arith_text b @ CHR '')'' # CHR '':'' # CHR ''('' # arith_text e @ CHR '')'' # CHR '')'' # i"
    by (subst p_input_skip, subst f1) simp
  note f3 = operand_after [OF f2]
  have f4: "p_input ?p4 = CHR ''('' # arith_text e @ CHR '')'' # CHR '')'' # i"
    by (subst p_input_skip, subst f3) simp
  note f5 = operand_after [OF f4]
  have r: "ready ?p2" "ready ?p4"
    using p(1) by simp_all
  have "stop ?p1" "stop ?p3" "stop ?p5"
    by (unfold stop_def f1 f3 f5) simp_all
  note lor = from_term [OF operand_term [OF assms(1,2) p(1) f0 m(2)] this(1), of "Suc m"]
    from_term [OF operand_term [OF assms(3,4) r(1) f2 m(3)] this(2), of "Suc m"]
    from_term [OF operand_term [OF assms(5,6) r(2) f4 m(4)] this(3), of "Suc m"]
  have chars: "parse_char (CHR ''?'') ?p1 = (True, ?p2)" "parse_char (CHR ''?'') ?p3 = (False, ?p3)"
    "expect_char (CHR '':'') ?p3 = (True, ?p4)" "parse_char (CHR ''?'') ?p5 = (False, ?p5)"
    by (unfold expect_char_def parse_char_def parser_peek_char_def peek_at_def f1 f3 f5) simp_all
  have "arithm_expr n p = Some (Some ?e, ?p5)"
    using no_assignment [OF p(1) f0 paren_no_name] lor chars m(1) by (simp del: skip_skip)
  then show "arithm_expr n p = Some (Some ?e, skip (length (arith_text ?e)) p)"
    by (simp add: ac_simps)
qed

lemma parses_assign:
  assumes "parses e" "printable e" "is_name x"
  shows "parses (ArithmAssign op x e)"
  unfolding parses_def
proof (intro allI impI)
  fix p :: mrsh_parser and i n
  let ?e = "ArithmAssign op x e" and ?p1 = "skip (length (assign_str op)) (skip (length x) p)"
  assume p: "ready p" "p_input p = arith_text ?e @ CHR '')'' # i" "length (arith_text ?e) < n"
  then obtain m where m: "n = Suc m" "length (arith_text e) + 1 < m"
    by (cases n) auto
  obtain c j where c: "assign_str op = c # j" "\<not> is_name_char c"
    by (cases op) (auto simp: is_name_char_def char_simps)
  have front: "p_input p = x @ assign_str op @ CHR ''('' # arith_text e @ CHR '')'' # CHR '')'' # i"
    using p(2) by simp
  have "takeWhile is_name_char (p_input p) = x"
    unfolding front c(1) append_Cons by (rule takeWhile_stop) (use assms(3) c(2) in \<open>auto simp: is_name_def\<close>)
  moreover have "\<not> is_digit (parser_peek_char p)" "x \<noteq> []"
    using assms(3) front by (cases x; simp add: is_name_def parser_peek_char_def peek_at_def)+
  ultimately have name: "peek_name False p = (length x, p)" "length x \<noteq> 0"
    by (simp_all add: peek_name_ready [OF p(1)])
  have find: "find (\<lambda>(str, op). peek_assign_op str (length x) p) assign_ops = Some (assign_str op, op)"
    by (cases op) (simp_all add: assign_ops_def peek_assign_op_def front)
  have "p_input ?p1 = CHR ''('' # arith_text e @ CHR '')'' # CHR '')'' # i"
    using front by simp
  then have "arithm_expr m ?p1 = Some (Some e, skip (length (arith_text e) + 2) ?p1)"
    using p(1) by (intro operand_expr [OF assms(1,2) _ _ m(2)]) auto
  then show "arithm_expr n p = Some (Some ?e, skip (length (arith_text ?e)) p)"
    using name find front m(1) by (simp add: assignment_def Let_def ac_simps)
qed

lemma printable_parses: "printable e \<Longrightarrow> parses e"
proof (induction e)
  case (ArithmLiteral v)
  show ?case
    unfolding parses_def
  proof (intro allI impI)
    fix p :: mrsh_parser and i n
    assume p: "ready p" "p_input p = arith_text (ArithmLiteral v) @ CHR '')'' # i" "length (arith_text (ArithmLiteral v)) < n"
    then obtain m where m: "n = Suc m" by (cases n) auto
    obtain c s where cs: "fmt_d v = c # s"
      using fmt_d_nonempty [of v] by (cases "fmt_d v") auto
    then have "is_digit c"
      using ArithmLiteral show_base_10_digits [of c "nat v"] by (simp add: fmt_d_def)
    then have na: "assignment (arithm_expr m) p = Some (None, p)"
      using cs p(2) by (intro no_assignment [OF p(1)]) auto
    have t: "term_expr (arithm_expr m) p = Some (Some (ArithmLiteral v), skip (length (fmt_d v)) p)"
      using ArithmLiteral p(2) by (intro literal_term) auto
    from p(2) show "arithm_expr n p = Some (Some (ArithmLiteral v), skip (length (arith_text (ArithmLiteral v))) p)"
      unfolding m arith_text.simps
      by (intro expr_of_term [OF na t]) (auto simp: stop_def parser_peek_char_def peek_at_def)
  qed
next
  case (ArithmVariable x)
  show ?case
    unfolding parses_def
  proof (intro allI impI)
    fix p :: mrsh_parser and i n
    assume p: "ready p" "p_input p = arith_text (ArithmVariable x) @ CHR '')'' # i" "length (arith_text (ArithmVariable x)) < n"
    then obtain m where m: "n = Suc m" by (cases n) auto
    have x: "is_name x" using ArithmVariable by simp
    have "takeWhile is_name_char (p_input p) = x"
      unfolding p(2) arith_text.simps
      by (rule takeWhile_stop) (use x in \<open>auto simp: is_name_def is_name_char_def char_simps\<close>)
    then have na: "assignment (arithm_expr m) p = Some (None, p)"
      using p(2) by (auto simp: assignment_def peek_name_ready [OF p(1)] assign_ops_def peek_assign_op_def)
    have t: "term_expr (arithm_expr m) p = Some (Some (ArithmVariable x), skip (length x) p)"
      using x p(1,2) by (intro variable_term) auto
    from p(2) show "arithm_expr n p = Some (Some (ArithmVariable x), skip (length (arith_text (ArithmVariable x))) p)"
      unfolding m arith_text.simps
      by (intro expr_of_term [OF na t]) (auto simp: stop_def parser_peek_char_def peek_at_def)
  qed
qed (simp_all add: parses_unop parses_binop parses_cond parses_assign)

lemma text_cstr: "printable e \<Longrightarrow> NUL \<notin> set (arith_text e)"
proof -
  have "\<not> is_name_char NUL"
    by (simp add: is_name_char_def char_simps)
  then have name: "NUL \<notin> set x" if "is_name x" for x
    using that by (auto simp: is_name_def)
  show "printable e \<Longrightarrow> NUL \<notin> set (arith_text e)"
  proof (induction e)
    case (ArithmLiteral v)
    show ?case using fmt_d_cstr [of v] by (simp add: is_cstr_def)
  next
    case (ArithmUnop op e)
    then show ?case by (cases op) auto
  next
    case (ArithmBinop op l r)
    then show ?case by (cases op) auto
  next
    case (ArithmAssign op x e)
    then show ?case using name by (cases op) auto
  qed (use name in auto)
qed

lemma first_symbol:
  assumes "p_input p = CHR ''('' # i" "\<not> p_has_sym p"
  shows "arithm_expr (Suc n) p = arithm_expr (Suc n) (p\<lparr>p_has_sym := True, p_sym := TOKEN\<rparr>)"
proof -
  let ?q = "p\<lparr>p_has_sym := True, p_sym := TOKEN\<rparr>"
  have "next_symbol p = ?q"
    using assms(1)
    by (subst next_symbol.simps)
      (simp add: Let_def match_operator_def is_operator_start_def parser_peek_char_def peek_at_def char_simps)
  then have "assignment (arithm_expr n) p = Some (None, ?q)"
    using assms
    by (simp add: assignment_def peek_name_def symbol_def get_symbol_def peek_at_def is_name_char_def char_simps)
  moreover have "assignment (arithm_expr n) ?q = Some (None, ?q)"
    using assms(1) by (intro no_assignment [OF _ _ paren_no_name]) (auto simp: ready_def)
  ultimately show ?thesis by simp
qed

text \<open>C4: Reading back the text of an expression, with its operands in parentheses, gives the expression,
  for every operator, and reports no error.\<close>

theorem arith_roundtrip:
  assumes "printable e" "text = ''('' @ arith_text e @ '')''"
  shows "\<exists>p. mrsh_parse_arithm_expr (Suc (length text)) (mrsh_parser_with_data text) = Some (Some e, p) \<and>
    mrsh_parser_error p = None"
proof -
  let ?p = "mrsh_parser_with_data text" let ?q = "?p\<lparr>p_has_sym := True, p_sym := TOKEN\<rparr>"
  let ?r = "skip (length (arith_text e) + 2) ?q"
  have "NUL \<notin> set text"
    using text_cstr [OF assms(1)] assms(2) by auto
  then have "cstr_of text = text"
    unfolding cstr_of_def by (intro takeWhile_all) auto
  then have input: "p_input ?p = CHR ''('' # arith_text e @ CHR '')'' # []"
    using assms(2) by (simp add: mrsh_parser_with_data_def)
  then have ws: "consume_whitespace ?p = ?p"
    by (rule no_whitespace) (simp add: char_simps)
  have "arithm_expr (Suc (length text)) ?p = arithm_expr (Suc (length text)) ?q"
    by (rule first_symbol [OF input]) (simp add: mrsh_parser_with_data_def)
  also have "\<dots> = Some (Some e, ?r)"
    using input assms(2) by (intro operand_expr [OF printable_parses [OF assms(1)] assms(1)]) (auto simp: ready_def)
  finally have "arithm_expr (Suc (length text)) (consume_whitespace ?p) = Some (Some e, ?r)"
    using ws by simp
  moreover have "parser_peek_char ?r = NUL"
    using input by (simp add: parser_peek_char_def peek_at_def)
  moreover have "mrsh_parser_error ?r = None"
    by (simp add: mrsh_parser_error_def mrsh_parser_with_data_def)
  ultimately show ?thesis
    by (simp add: mrsh_parse_arithm_expr_def)
qed

theorem arith_roundtrip_witness:
  "\<exists>p. mrsh_parse_arithm_expr 15 (mrsh_parser_with_data ''((x=(1))&&(y))'') =
      Some (Some (ArithmBinop MRSH_ARITHM_BINOP_DAND
        (ArithmAssign MRSH_ARITHM_ASSIGN_NONE ''x'' (ArithmLiteral 1)) (ArithmVariable ''y'')), p) \<and>
    mrsh_parser_error p = None"
proof -
  let ?e = "ArithmBinop MRSH_ARITHM_BINOP_DAND
    (ArithmAssign MRSH_ARITHM_ASSIGN_NONE ''x'' (ArithmLiteral 1)) (ArithmVariable ''y'')"
  have "fmt_d 1 = ''1''"
    using char_code_digit [of 1] char_code_inj [of "digit_char 1" "CHR ''1''"]
    by (simp add: fmt_d_def show_base_small char_code_def)
  then have "''((x=(1))&&(y))'' = ''('' @ arith_text ?e @ '')''"
    by simp
  moreover have "printable ?e"
    by (simp add: is_name_def is_name_char_def char_simps LONG_MAX_def)
  ultimately show ?thesis
    using arith_roundtrip [of ?e "''((x=(1))&&(y))''"] by (simp add: eval_nat_numeral)
qed

end
