(* ===== verification/Parser_Word.thy ===== *)
theory Parser_Word
  imports Parser_Core
begin

text \<open>
  The parser of words, \<open>parser/word.c\<close>, on the text that is left to read. A function gives its result
  and the parser, or \<open>ParseCrash\<close> for a failed assertion (the character of an assertion, or reading past
  the end of the text), or \<open>ParseFuel\<close>, the model's own. A null pointer is \<open>None\<close>; with an error, the
  message is in the parser. Words contain programs and programs words: the functions take the parser
  for \<open>$\<close> and the parser for programs as arguments \<open>D\<close> and \<open>P\<close>, and \<open>Parser_Program\<close> ties the knot.
\<close>

section \<open>Outcomes\<close>

datatype parse_stop = ParseCrash | ParseNull | ParseFuel

type_synonym 'a parse = "parse_stop + 'a \<times> mrsh_parser"

type_synonym 'a parser = "mrsh_parser \<Rightarrow> 'a parse"

definition bind_parse :: "'a parse \<Rightarrow> ('a \<Rightarrow> 'b parser) \<Rightarrow> 'b parse" where
  "bind_parse r f = (case r of Inl e \<Rightarrow> Inl e | Inr (x, p) \<Rightarrow> f x p)"

text \<open>An assertion on what comes before.\<close>

definition parse_of :: "('a \<times> mrsh_parser) option \<Rightarrow> 'a parse" where
  "parse_of r = (case r of None \<Rightarrow> Inl ParseCrash | Some x \<Rightarrow> Inr x)"

definition read_char :: "char parser" where
  "read_char p = parse_of (parser_read_char p)"

definition read_newline :: "unit parser" where
  "read_newline p = parse_of (map_option (Pair ()) (read_continuation_line p))"

text \<open>\<open>char c = parser_read_char(parser); assert(c == expected)\<close>.\<close>

definition read_expected :: "char \<Rightarrow> unit parser" where
  "read_expected expected p =
     bind_parse (read_char p) (\<lambda>c p. if c = expected then Inr ((), p) else Inl ParseCrash)"

lemma bind_parse_simps [simp]:
  "bind_parse (Inl e) f = Inl e" "bind_parse (Inr (x, p)) f = f x p"
  by (simp_all add: bind_parse_def)

lemma bind_parse_cong [fundef_cong]:
  "r = r' \<Longrightarrow> (\<And>x p. r' = Inr (x, p) \<Longrightarrow> f x p = g x p) \<Longrightarrow> bind_parse r f = bind_parse r' g"
  by (auto simp: bind_parse_def split: sum.splits)

lemma bind_parse_Inr: "bind_parse r f = Inr y \<longleftrightarrow> (\<exists>x p. r = Inr (x, p) \<and> f x p = Inr y)"
  by (auto simp: bind_parse_def split: sum.splits)

text \<open>Reading a character or a newline when there is one.\<close>

definition skip_line :: "mrsh_parser \<Rightarrow> mrsh_parser" where
  "skip_line p = (skip 1 p)\<lparr>p_continuation_line := True\<rparr>"

lemma read_char_eq: "read_char p = (case p_input p of [] \<Rightarrow> Inl ParseCrash | c # cs \<Rightarrow> Inr (c, skip 1 p))"
  by (cases "p_input p") (simp_all add: read_char_def parser_read_char_def parser_read_def parse_of_def)

lemma read_newline_eq:
  "read_newline p = (case p_input p of c # cs \<Rightarrow> if c = NL then Inr ((), skip_line p) else Inl ParseCrash | [] \<Rightarrow> Inl ParseCrash)"
  by (cases "p_input p")
    (simp_all add: read_newline_def read_continuation_line_def parser_read_char_def parser_read_def parse_of_def skip_line_def)

section \<open>Tokens\<close>

text \<open>A character that ends \<open>peek_word\<close>, and one that makes it give up.\<close>

definition is_quoting :: "char \<Rightarrow> bool" where
  "is_quoting c \<longleftrightarrow> c = CHR ''$'' \<or> c = CHR ''`'' \<or> c = SQUOTE \<or> c = DQUOTE \<or> c = BACKSLASH"

definition ends_word :: "char \<Rightarrow> char \<Rightarrow> bool" where
  "ends_word end c \<longleftrightarrow> c = NL \<or> c = CHR '')'' \<or> is_quoting c \<or> is_operator_start c \<or> is_blank c \<or> c = end"

definition peek_word :: "char \<Rightarrow> mrsh_parser \<Rightarrow> nat \<times> mrsh_parser" where
  "peek_word end p =
     (case symbol TOKEN p of
        (False, p) \<Rightarrow> (0, p)
      | (True, p) \<Rightarrow>
          (let i = length (takeWhile (\<lambda>c. \<not> ends_word end c) (p_input p))
           in if is_quoting (peek_at p i) then 0 else i, p))"

definition range_to :: "mrsh_position \<Rightarrow> mrsh_parser \<Rightarrow> mrsh_range" where
  "range_to begin p = \<lparr>rng_begin = begin, rng_end = p_pos p\<rparr>"

text \<open>\<open>token\<close>: the range of the token that was read.\<close>

definition token :: "cstring \<Rightarrow> mrsh_parser \<Rightarrow> mrsh_range option \<times> mrsh_parser" where
  "token str p =
     (case symbol TOKEN p of
        (False, p) \<Rightarrow> (None, p)
      | (True, p) \<Rightarrow>
          (let begin = p_pos p in
           if length str = 1 \<and> \<not> is_alpha (hd str) then
             if parser_peek_char p \<noteq> hd str then (None, p)
             else (let p = skip 1 p in (Some (range_to begin p), consume_symbol p))
           else
             case peek_word NUL p of
               (word_len, p) \<Rightarrow>
                 if length str \<noteq> word_len \<or> take word_len (p_input p) \<noteq> str then (None, p)
                 else (let p = skip (length str) p in (Some (range_to begin p), consume_symbol p))))"

definition expect_token :: "cstring \<Rightarrow> mrsh_parser \<Rightarrow> mrsh_range option \<times> mrsh_parser" where
  "expect_token str p =
     (case token str p of
        (Some r, p) \<Rightarrow> (Some r, p)
      | (None, p) \<Rightarrow> (None, parser_set_error (''expected '' @ [SQUOTE] @ str @ [SQUOTE]) p))"

definition read_token :: "nat \<Rightarrow> (cstring \<times> mrsh_range) option parser" where
  "read_token len p =
     (case symbol TOKEN p of
        (False, p) \<Rightarrow> Inr (None, p)
      | (True, p) \<Rightarrow>
          bind_parse (parse_of (parser_read len p)) (\<lambda>tok q.
            Inr (Some (tok, range_to (p_pos p) q), consume_symbol q)))"

section \<open>Quotes\<close>

text \<open>The text between single quotes, read so far in \<open>buf\<close>; \<open>None\<close> at the end of the text.\<close>

function single_quotes_loop :: "cstring \<Rightarrow> mrsh_parser \<Rightarrow> cstring option \<times> mrsh_parser" where
  "single_quotes_loop buf p =
     (case p_input p of
        [] \<Rightarrow> (None, parser_set_error ''single quotes not terminated'' p)
      | c # _ \<Rightarrow>
          if c = SQUOTE then (Some buf, skip 1 p)
          else single_quotes_loop (buf @ [c]) (if c = NL then skip_line p else skip 1 p))"
  by pat_completeness auto
termination
  by (relation "measure (\<lambda>(buf, p). length (p_input p))") (auto simp: skip_line_def)

declare single_quotes_loop.simps [simp del]

definition single_quotes :: "mrsh_word option parser" where
  "single_quotes p =
     bind_parse (read_expected SQUOTE p) (\<lambda>_ q.
       Inr (case single_quotes_loop [] q of
              (None, q) \<Rightarrow> (None, q)
            | (Some data, q) \<Rightarrow> (Some (WString data True False (range_to (p_pos p) q)), q)))"

text \<open>A backslash before one of \<open>quoted\<close> is read and the character behind it taken.\<close>

definition unescaped :: "cstring \<Rightarrow> mrsh_parser \<Rightarrow> char \<times> mrsh_parser" where
  "unescaped quoted p =
     (if parser_peek_char p = BACKSLASH \<and> p_input p \<noteq> [] \<and> peek_at p 1 \<in> set quoted then (peek_at p 1, skip 1 p)
      else (parser_peek_char p, p))"

function back_quotes_loop :: "cstring \<Rightarrow> mrsh_parser \<Rightarrow> cstring option \<times> mrsh_parser" where
  "back_quotes_loop buf p =
     (if p_input p = [] then (None, parser_set_error ''back quotes not terminated'' p)
      else if parser_peek_char p = CHR ''`'' then (Some buf, skip 1 p)
      else
        case unescaped [CHR ''$'', CHR ''`'', BACKSLASH] p of
          (c, q) \<Rightarrow> back_quotes_loop (buf @ [c]) (if c = NL then skip_line q else skip 1 q))"
  by pat_completeness auto
termination
  by (relation "measure (\<lambda>(buf, p). length (p_input p))")
    (auto simp: skip_line_def unescaped_def split: if_splits)

declare back_quotes_loop.simps [simp del]

text \<open>The text between the quotes is parsed by a parser of its own, with \<open>P\<close>.\<close>

definition back_quotes :: "mrsh_program option parser \<Rightarrow> mrsh_word option parser" where
  "back_quotes P p =
     bind_parse (read_expected (CHR ''`'') p) (\<lambda>_ q.
       case back_quotes_loop [] q of
         (None, q) \<Rightarrow> Inr (None, q)
       | (Some data, q) \<Rightarrow>
           (case P (mrsh_parser_with_data data) of
              Inl e \<Rightarrow> Inl e
            | Inr (prog, sub) \<Rightarrow>
                (case mrsh_parser_error sub of
                   Some msg \<Rightarrow> Inr (None, parser_set_error msg q)
                 | None \<Rightarrow> Inr (Some (WCommand prog True (range_to (p_pos p) q)), q))))"

text \<open>The words and the text of a word that is being read: \<open>push_buffer_word_string\<close> and the end.\<close>

definition push_buffer_word_string ::
    "mrsh_word list \<Rightarrow> cstring \<Rightarrow> mrsh_position \<Rightarrow> mrsh_parser \<Rightarrow> mrsh_word list" where
  "push_buffer_word_string children buf child_begin p =
     (if buf = [] then children else children @ [WString buf False False (range_to child_begin p)])"

definition child_start :: "mrsh_position \<Rightarrow> mrsh_parser \<Rightarrow> mrsh_position" where
  "child_start child_begin p = (if mrsh_position_valid child_begin then child_begin else p_pos p)"

definition finish_children :: "mrsh_word list \<Rightarrow> mrsh_word" where
  "finish_children children = (case children of [w] \<Rightarrow> w | _ \<Rightarrow> mrsh_word_list_create children False)"

fun double_quotes_loop ::
    "nat \<Rightarrow> mrsh_word option parser \<Rightarrow> mrsh_program option parser \<Rightarrow> mrsh_word list \<Rightarrow> cstring \<Rightarrow> mrsh_position \<Rightarrow>
     (mrsh_word list \<times> mrsh_position) option parser" where
  "double_quotes_loop 0 D P children buf child_begin p = Inl ParseFuel"
| "double_quotes_loop (Suc n) D P children buf child_begin p =
     (let child_begin = child_start child_begin p; c = parser_peek_char p in
      if p_input p = [] then Inr (None, parser_set_error ''double quotes not terminated'' p)
      else if c = DQUOTE then Inr (Some (push_buffer_word_string children buf child_begin p, p_pos p), skip 1 p)
      else if c = CHR ''$'' \<or> c = CHR ''`'' then
        let children = push_buffer_word_string children buf child_begin p in
        bind_parse (if c = CHR ''$'' then D p else back_quotes P p) (\<lambda>t p.
          case t of
            None \<Rightarrow> Inr (None, p)
          | Some t \<Rightarrow> double_quotes_loop n D P (children @ [t]) [] position_zero p)
      else if c = BACKSLASH \<and> peek_at p 1 = NL
      then double_quotes_loop n D P children buf child_begin (skip_line (skip 1 p))
      else
        case unescaped [CHR ''$'', CHR ''`'', DQUOTE, BACKSLASH] p of
          (c, p) \<Rightarrow> double_quotes_loop n D P children (buf @ [c]) child_begin (skip 1 p))"

definition double_quotes ::
    "nat \<Rightarrow> mrsh_word option parser \<Rightarrow> mrsh_program option parser \<Rightarrow> mrsh_word option parser" where
  "double_quotes n D P p =
     bind_parse (read_expected DQUOTE p) (\<lambda>_ q.
       bind_parse (double_quotes_loop n D P [] [] position_zero q) (\<lambda>r q.
         Inr (map_option (\<lambda>(children, rquote_pos). WList children True (p_pos p) rquote_pos) r, q)))"

text \<open>The four cases of a word in a word: \<open>$\<close> and the quotes.\<close>

definition quoted_child ::
    "nat \<Rightarrow> mrsh_word option parser \<Rightarrow> mrsh_program option parser \<Rightarrow> mrsh_word option parser" where
  "quoted_child n D P p =
     (let c = parser_peek_char p in
      if c = CHR ''$'' then D p
      else if c = CHR ''`'' then back_quotes P p
      else if c = SQUOTE then single_quotes p
      else double_quotes n D P p)"

section \<open>Words\<close>

definition word_end :: "mrsh_word list \<Rightarrow> cstring \<Rightarrow> mrsh_position \<Rightarrow> mrsh_word option parser" where
  "word_end children buf child_begin p =
     Inr (Some (finish_children (push_buffer_word_string children buf child_begin p)), consume_symbol p)"

fun word_loop ::
    "nat \<Rightarrow> mrsh_word option parser \<Rightarrow> mrsh_program option parser \<Rightarrow> char \<Rightarrow> mrsh_word list \<Rightarrow> cstring \<Rightarrow> mrsh_position \<Rightarrow>
     mrsh_word option parser" where
  "word_loop 0 D P end children buf child_begin p = Inl ParseFuel"
| "word_loop (Suc n) D P end children buf child_begin p =
     (let child_begin = child_start child_begin p; c = parser_peek_char p in
      if p_input p = [] \<or> c = NL \<or> c = CHR '')'' \<or> c = end then word_end children buf child_begin p
      else if is_quoting c \<and> c \<noteq> BACKSLASH then
        let children = push_buffer_word_string children buf child_begin p in
        bind_parse (quoted_child n D P p) (\<lambda>t p.
          case t of
            None \<Rightarrow> Inr (None, p)
          | Some t \<Rightarrow> word_loop n D P end (children @ [t]) [] position_zero p)
      else if c = BACKSLASH then
        let p = skip 1 p; c = parser_peek_char p in
        if c = NL then word_loop n D P end children buf child_begin (skip_line p)
        else bind_parse (read_char p) (\<lambda>_ p. word_loop n D P end children (buf @ [c]) child_begin p)
      else if is_operator_start c \<or> is_blank c then word_end children buf child_begin p
      else word_loop n D P end children (buf @ [c]) child_begin (skip 1 p))"

definition word ::
    "nat \<Rightarrow> mrsh_word option parser \<Rightarrow> mrsh_program option parser \<Rightarrow> char \<Rightarrow> mrsh_word option parser" where
  "word n D P end p =
     (case symbol TOKEN p of
        (False, p) \<Rightarrow> Inr (None, p)
      | (True, p) \<Rightarrow>
          (let c = parser_peek_char p in
           if is_operator_start c \<or> c = CHR '')'' \<or> c = end then Inr (None, p)
           else word_loop n D P end [] [] position_zero p))"

definition closes_arithmetic :: "mrsh_parser \<Rightarrow> bool" where
  "closes_arithmetic p \<longleftrightarrow> take 2 (p_input p) = ''))'' \<and> p_arith_nested_parens p = 0"

text \<open>The nesting of parentheses after a character; \<open>None\<close> for one that closes nothing.\<close>

definition arith_parens :: "char \<Rightarrow> mrsh_parser \<Rightarrow> nat option" where
  "arith_parens c p =
     (let k = p_arith_nested_parens p in
      if c = CHR ''('' then Some (k + 1)
      else if c = CHR '')'' then if k = 0 then None else Some (k - 1)
      else Some k)"

text \<open>The text of the word with one character more, or with two for a shift.\<close>

definition arithmetic_char :: "cstring \<Rightarrow> char \<Rightarrow> cstring \<Rightarrow> cstring option parser" where
  "arithmetic_char next c buf p =
     (let (buf, p) = (if next = ''<<'' \<or> next = ''>>'' then (buf @ [c], skip 1 p) else (buf, p)) in
      case arith_parens c p of
        None \<Rightarrow> Inr (None, parser_set_error ''unmatched closing parenthesis in arithmetic expression'' p)
      | Some k \<Rightarrow>
          bind_parse (read_char (p\<lparr>p_arith_nested_parens := k\<rparr>)) (\<lambda>_ p. Inr (Some (buf @ [c]), p)))"

fun arithmetic_word_loop ::
    "nat \<Rightarrow> mrsh_word option parser \<Rightarrow> mrsh_program option parser \<Rightarrow> mrsh_word list \<Rightarrow> cstring \<Rightarrow> mrsh_position \<Rightarrow>
     mrsh_word option parser" where
  "arithmetic_word_loop 0 D P children buf child_begin p = Inl ParseFuel"
| "arithmetic_word_loop (Suc n) D P children buf child_begin p =
     (let child_begin = child_start child_begin p; next = take 2 (p_input p); c = parser_peek_char p in
      if p_input p = [] \<or> c = NL \<or> c = CHR '';'' \<or> is_blank c \<or> closes_arithmetic p
      then word_end children buf child_begin p
      else if is_quoting c \<and> c \<noteq> BACKSLASH then
        let children = push_buffer_word_string children buf child_begin p in
        bind_parse (quoted_child n D P p) (\<lambda>t p.
          case t of
            None \<Rightarrow> Inr (None, p)
          | Some t \<Rightarrow> arithmetic_word_loop n D P (children @ [t]) [] position_zero p)
      else
        let (c, p) = (if c = BACKSLASH then (parser_peek_char (skip 1 p), skip 1 p) else (c, p)) in
        if next = BACKSLASH # [NL] then arithmetic_word_loop n D P children buf child_begin (skip_line p)
        else
          bind_parse (arithmetic_char next c buf p) (\<lambda>r p.
            case r of
              None \<Rightarrow> Inr (None, p)
            | Some buf \<Rightarrow> arithmetic_word_loop n D P children buf child_begin p))"

definition arithmetic_word ::
    "nat \<Rightarrow> mrsh_word option parser \<Rightarrow> mrsh_program option parser \<Rightarrow> char \<Rightarrow> mrsh_word option parser" where
  "arithmetic_word n D P end p =
     (if closes_arithmetic p then Inr (None, p) else arithmetic_word_loop n D P [] [] position_zero p)"

fun parameter_expansion_word_loop ::
    "nat \<Rightarrow> mrsh_word option parser \<Rightarrow> mrsh_program option parser \<Rightarrow> mrsh_word list \<Rightarrow> cstring \<Rightarrow> mrsh_position \<Rightarrow>
     mrsh_word option parser" where
  "parameter_expansion_word_loop 0 D P children buf child_begin p = Inl ParseFuel"
| "parameter_expansion_word_loop (Suc n) D P children buf child_begin p =
     (let child_begin = child_start child_begin p; c = parser_peek_char p in
      if p_input p = [] then word_end children buf child_begin p
      else if c = CHR ''$'' \<or> c = CHR ''`'' then
        let children = push_buffer_word_string children buf child_begin p in
        bind_parse (quoted_child n D P p) (\<lambda>t p.
          case t of
            None \<Rightarrow> Inr (None, p)
          | Some t \<Rightarrow> parameter_expansion_word_loop n D P (children @ [t]) [] position_zero p)
      else if c = BACKSLASH then
        let p = skip 1 p; c = parser_peek_char p in
        if c = NL then parameter_expansion_word_loop n D P children buf child_begin (skip_line p)
        else bind_parse (read_char p) (\<lambda>_ p. parameter_expansion_word_loop n D P children (buf @ [c]) child_begin p)
      else parameter_expansion_word_loop n D P children (buf @ [c]) child_begin (skip 1 p))"

definition parameter_expansion_word ::
    "nat \<Rightarrow> mrsh_word option parser \<Rightarrow> mrsh_program option parser \<Rightarrow> mrsh_word option parser" where
  "parameter_expansion_word n D P p = parameter_expansion_word_loop n D P [] [] position_zero p"

section \<open>Parameters, command substitution and arithmetic\<close>

text \<open>The children of \<open>word_list\<close>; the words \<open>f\<close> parses are separated by blanks.\<close>

fun word_list_loop ::
    "nat \<Rightarrow> char \<Rightarrow> (char \<Rightarrow> mrsh_word option parser) \<Rightarrow> mrsh_word list \<Rightarrow> mrsh_word list parser" where
  "word_list_loop 0 end f children p = Inl ParseFuel"
| "word_list_loop (Suc n) end f children p =
     (if parser_peek_char p = end then Inr (children, p)
      else
        bind_parse (f end p) (\<lambda>child p.
          case child of
            None \<Rightarrow> Inr (children, p)
          | Some child \<Rightarrow>
              (let begin = p_pos p; blanks = takeWhile is_blank (p_input p); q = skip (length blanks) p in
               if blanks = [] then Inr (children @ [child], p)
               else word_list_loop n end f (children @ [child, WString blanks False False (range_to begin q)]) q)))"

definition word_list :: "nat \<Rightarrow> char \<Rightarrow> (char \<Rightarrow> mrsh_word option parser) \<Rightarrow> mrsh_word option parser" where
  "word_list n end f p =
     bind_parse (word_list_loop n end f [] p) (\<lambda>children p.
       Inr (case children of [] \<Rightarrow> None | _ \<Rightarrow> Some (finish_children children), p))"

definition char_to_parameter_op_val :: "char \<Rightarrow> param_op" where
  "char_to_parameter_op_val c =
     (if c = CHR ''-'' then PARAM_MINUS else if c = CHR ''='' then PARAM_EQUAL
      else if c = CHR ''?'' then PARAM_QMARK else if c = CHR ''+'' then PARAM_PLUS else PARAM_NONE)"

definition expect_parameter_op :: "(param_op \<times> bool) option parser" where
  "expect_parameter_op p =
     bind_parse (read_char p) (\<lambda>c p.
       let colon = (c = CHR '':'') in
       bind_parse (if colon then read_char p else Inr (c, p)) (\<lambda>c p.
         let op = char_to_parameter_op_val c; fail = Inr (None, parser_set_error ''expected a parameter operation'' p) in
         if op \<noteq> PARAM_NONE then Inr (Some (op, colon), p)
         else if colon then fail
         else
           let is_double = (c = parser_peek_char p); p = (if is_double then skip 1 p else p) in
           if c = CHR ''%'' then Inr (Some (if is_double then PARAM_DPERCENT else PARAM_PERCENT, False), p)
           else if c = CHR ''#'' then Inr (Some (if is_double then PARAM_DHASH else PARAM_HASH, False), p)
           else fail))"

text \<open>The end of \<open>${...}\<close>, and the word it makes.\<close>

definition finish_parameter_expression ::
    "mrsh_position \<Rightarrow> mrsh_position \<Rightarrow> cstring \<times> mrsh_range \<Rightarrow> param_op \<Rightarrow> bool \<Rightarrow> mrsh_range \<Rightarrow> mrsh_word option \<Rightarrow>
     mrsh_word option parser" where
  "finish_parameter_expression dollar lbrace name op colon op_rg arg p =
     bind_parse (read_char p) (\<lambda>c q.
       if c \<noteq> CHR ''}'' then Inr (None, parser_set_error ''expected end of parameter'' q)
       else Inr (Some (WParameter (fst name) op colon arg
              \<lparr>dollar_pos = dollar, name_range = snd name, op_range = op_rg, lbrace_pos = lbrace, rbrace_pos = p_pos p\<rparr>), q))"

definition expect_parameter_expression ::
    "nat \<Rightarrow> (char \<Rightarrow> mrsh_word option parser) \<Rightarrow> mrsh_position \<Rightarrow> mrsh_word option parser" where
  "expect_parameter_expression n W dollar p =
     (let lbrace = p_pos p in
      bind_parse (read_expected (CHR ''{'') p) (\<lambda>_ p.
        let hash = (parser_peek_char p = CHR ''#'');
            q = (if hash then skip 1 p else p);
            op_rg = (if hash then range_to (p_pos p) q else range_zero);
            op = (if hash then PARAM_LEADING_HASH else PARAM_NONE);
            (name_len, q) = peek_name True q
        in if name_len = 0 then Inr (None, parser_set_error ''expected a parameter'' q)
           else bind_parse (read_token name_len q) (\<lambda>name p.
             case name of
               None \<Rightarrow> Inr (None, p)
             | Some name \<Rightarrow>
                 if op = PARAM_NONE \<and> parser_peek_char p \<noteq> CHR ''}'' then
                   bind_parse (expect_parameter_op p) (\<lambda>r q.
                     case r of
                       None \<Rightarrow> Inr (None, q)
                     | Some (op, colon) \<Rightarrow>
                         bind_parse (word_list n (CHR ''}'') W q) (\<lambda>arg p'.
                           finish_parameter_expression dollar lbrace name op colon (range_to (p_pos p) q) arg p'))
                 else finish_parameter_expression dollar lbrace name op False op_rg None p)))"

definition expect_word_command :: "mrsh_program option parser \<Rightarrow> mrsh_word option parser" where
  "expect_word_command P p =
     bind_parse (read_expected (CHR ''('') p) (\<lambda>_ p.
       case symbol TOKEN p of
         (False, p) \<Rightarrow> Inl ParseCrash
       | (True, p) \<Rightarrow>
           (let alias = p_alias p in
            bind_parse (P ((consume_symbol p)\<lparr>p_alias := None\<rparr>)) (\<lambda>prog p.
              let p = p\<lparr>p_alias := alias\<rparr> in
              if mrsh_parser_error p \<noteq> None then Inr (None, p)
              else if prog = None then Inr (None, parser_set_error ''expected a program'' p)
              else
                case expect_token '')'' p of
                  (None, p) \<Rightarrow> Inr (None, p)
                | (Some _, p) \<Rightarrow> Inr (Some (mrsh_word_command_create prog False), p))))"

definition expect_word_arithmetic :: "nat \<Rightarrow> (char \<Rightarrow> mrsh_word option parser) \<Rightarrow> mrsh_word option parser" where
  "expect_word_arithmetic n A p =
     bind_parse (read_expected (CHR ''('') p) (\<lambda>_ p.
     bind_parse (read_expected (CHR ''('') p) (\<lambda>_ p.
     bind_parse (word_list n NUL A (p\<lparr>p_arith_nested_parens := 0\<rparr>)) (\<lambda>body p.
       case body of
         None \<Rightarrow> Inr (None, parser_set_error ''expected an arithmetic expression'' p)
       | Some body \<Rightarrow>
           (case expect_token '')'' p of
              (None, p) \<Rightarrow> Inr (None, p)
            | (Some _, p) \<Rightarrow>
                (case expect_token '')'' p of
                   (None, p) \<Rightarrow> Inr (None, p)
                 | (Some _, p) \<Rightarrow> Inr (Some (mrsh_word_arithmetic_create body), p))))))"

definition is_special_parameter :: "char \<Rightarrow> bool" where
  "is_special_parameter c \<longleftrightarrow> c \<in> set ''@*#?-$!'' \<or> is_digit c"

definition expect_dollar ::
    "nat \<Rightarrow> (char \<Rightarrow> mrsh_word option parser) \<Rightarrow> (char \<Rightarrow> mrsh_word option parser) \<Rightarrow> mrsh_program option parser \<Rightarrow>
     mrsh_word option parser" where
  "expect_dollar n W A P p =
     (let dollar = p_pos p in
      bind_parse (read_expected (CHR ''$'') p) (\<lambda>_ p.
        let c = parser_peek_char p in
        if c = CHR ''{'' then expect_parameter_expression n W dollar p
        else if c = CHR ''('' then
          if peek_at p 1 = CHR ''('' then expect_word_arithmetic n A p else expect_word_command P p
        else
          case peek_name False p of
            (name_len, p) \<Rightarrow>
              if name_len = 0 \<and> \<not> is_special_parameter c
              then Inr (None, parser_set_error ''invalid parameter name'' p)
              else bind_parse (read_token (if name_len = 0 then 1 else name_len) p) (\<lambda>name p.
                case name of
                  None \<Rightarrow> Inr (None, p)
                | Some (name, rg) \<Rightarrow>
                    Inr (Some (WParameter name PARAM_NONE False None
                           (param_positions_zero\<lparr>dollar_pos := dollar, name_range := rg\<rparr>)), p))))"

end
