(* ===== verification/Parser_Program.thy ===== *)
theory Parser_Program
  imports Parser_Word Ast_Ops
begin

text \<open>
  The parser of programs, \<open>parser/program.c\<close>, in the order of the C file. The functions take what they
  call back in the record \<open>grammar\<close>: the bound for loops, the parsers for words, for the lines of
  here-documents and for compound commands. \<open>parsers\<close> closes the recursion through words, programs and
  compound commands, on the depth of the nesting. A here-document is filled into its redirection when
  the program is complete (the C code keeps a pointer to the redirection): \<open>fill_program\<close>.
\<close>

record grammar =
  g_fuel :: nat
  g_word :: "char \<Rightarrow> mrsh_word option parser"
  g_line :: "mrsh_word option parser"
  g_compound :: "mrsh_command option parser"

text \<open>Going on with a result that is not null.\<close>

definition bind_some :: "'a option parse \<Rightarrow> ('a \<Rightarrow> 'b option parser) \<Rightarrow> 'b option parse" where
  "bind_some r f = bind_parse r (\<lambda>x p. case x of None \<Rightarrow> Inr (None, p) | Some x \<Rightarrow> f x p)"

definition fail_with :: "cstring \<Rightarrow> 'a option parser" where
  "fail_with msg p = Inr (None, parser_set_error msg p)"

definition read_linebreak :: "unit parser" where
  "read_linebreak p = parse_of (map_option (Pair ()) (linebreak p))"

definition read_newline_list :: "bool parser" where
  "read_newline_list p = parse_of (newline_list p)"

section \<open>Operators and aliases\<close>

definition operator_str :: "symbol_name \<Rightarrow> cstring option" where
  "operator_str name = map_of operators name"

definition operator :: "symbol_name \<Rightarrow> mrsh_range option parser" where
  "operator name p =
     (case symbol name p of
        (False, p) \<Rightarrow> Inr (None, p)
      | (True, p) \<Rightarrow>
          (case operator_str name of
             None \<Rightarrow> Inl ParseCrash
           | Some str \<Rightarrow>
               bind_parse (parse_of (parser_read (length str) p)) (\<lambda>buf q.
                 if buf \<noteq> str then Inl ParseCrash
                 else Inr (Some (range_to (p_pos p) q), consume_symbol q))))"

definition separator_op :: "mrsh_parser \<Rightarrow> char option \<times> mrsh_parser" where
  "separator_op p =
     (case token ''&'' p of
        (Some _, p) \<Rightarrow> (Some (CHR ''&''), p)
      | (None, p) \<Rightarrow>
          (case token '';'' p of
             (Some _, p) \<Rightarrow> (Some (CHR '';''), p)
           | (None, p) \<Rightarrow> (None, p)))"

definition is_alias_char :: "char \<Rightarrow> bool" where
  "is_alias_char c \<longleftrightarrow> c \<in> set ''_!%,@'' \<or> is_alnum c"

definition peek_alias :: "mrsh_parser \<Rightarrow> nat \<times> mrsh_parser" where
  "peek_alias p =
     (case peek_word NUL p of
        (n, p) \<Rightarrow> (if list_all is_alias_char (take n (p_input p)) then n else 0, p))"

text \<open>
  The loop ends at a name without an alias, or at the alias that was applied last: the C code compares
  the pointers to the two values, which are equal for equal names.
\<close>

fun apply_aliases_loop :: "nat \<Rightarrow> (cstring \<Rightarrow> cstring option) \<Rightarrow> cstring option \<Rightarrow> unit parser" where
  "apply_aliases_loop 0 get last_name p = Inl ParseFuel"
| "apply_aliases_loop (Suc n) get last_name p =
     (case symbol TOKEN p of
        (False, p) \<Rightarrow> Inr ((), p)
      | (True, p) \<Rightarrow>
          (case peek_alias p of
             (len, p) \<Rightarrow>
               (let name = take len (p_input p) in
                if len = 0 then Inr ((), p)
                else
                  case get name of
                    None \<Rightarrow> Inr ((), p)
                  | Some repl \<Rightarrow>
                      if last_name = Some name then Inr ((), p)
                      else apply_aliases_loop n get (Some name)
                             (consume_symbol (p\<lparr>p_input := repl @ drop len (p_input p)\<rparr>)))))"

definition apply_aliases :: "grammar \<Rightarrow> unit parser" where
  "apply_aliases e p =
     (case p_alias p of None \<Rightarrow> Inr ((), p) | Some get \<Rightarrow> apply_aliases_loop (g_fuel e) get None p)"

section \<open>Redirections and assignments\<close>

text \<open>The operator, its range and the word.\<close>

definition here_name :: "grammar \<Rightarrow> io_redirect_op \<Rightarrow> mrsh_range \<Rightarrow> (io_redirect_op \<times> mrsh_range \<times> mrsh_word) option parser" where
  "here_name e op r p =
     bind_parse (g_word e NUL p) (\<lambda>name p.
       case name of
         None \<Rightarrow> fail_with ''expected a name after IO here-document redirection operator'' p
       | Some name \<Rightarrow> Inr (Some (op, r, name), p))"

definition io_here :: "grammar \<Rightarrow> (io_redirect_op \<times> mrsh_range \<times> mrsh_word) option parser" where
  "io_here e p =
     bind_parse (operator DLESS p) (\<lambda>r p.
       case r of
         Some r \<Rightarrow> here_name e IO_DLESS r p
       | None \<Rightarrow> bind_some (operator DLESSDASH p) (\<lambda>r p. here_name e IO_DLESSDASH r p))"

definition filename :: "grammar \<Rightarrow> mrsh_word option parser" where
  "filename e p = g_word e NUL p"

text \<open>The first of the operators that is there.\<close>

fun first_operator :: "(symbol_name \<times> io_redirect_op) list \<Rightarrow> (io_redirect_op \<times> mrsh_range) option parser" where
  "first_operator [] p = Inr (None, p)"
| "first_operator ((name, op) # rest) p =
     bind_parse (operator name p) (\<lambda>r p.
       case r of Some r \<Rightarrow> Inr (Some (op, r), p) | None \<Rightarrow> first_operator rest p)"

definition parse_redirect_op :: "(io_redirect_op \<times> mrsh_range) option parser" where
  "parse_redirect_op p =
     (case token ''<'' p of
        (Some r, p) \<Rightarrow> Inr (Some (IO_LESS, r), p)
      | (None, p) \<Rightarrow>
          (case token ''>'' p of
             (Some r, p) \<Rightarrow> Inr (Some (IO_GREAT, r), p)
           | (None, p) \<Rightarrow>
               first_operator [(LESSAND, IO_LESSAND), (GREATAND, IO_GREATAND), (DGREAT, IO_DGREAT),
                 (CLOBBER, IO_CLOBBER), (LESSGREAT, IO_LESSGREAT)] p))"

definition io_file :: "grammar \<Rightarrow> (io_redirect_op \<times> mrsh_range \<times> mrsh_word) option parser" where
  "io_file e p =
     bind_some (parse_redirect_op p) (\<lambda>(op, r) p.
       bind_parse (filename e p) (\<lambda>name p.
         case name of
           None \<Rightarrow> fail_with ''expected a filename after IO file redirection operator'' p
         | Some name \<Rightarrow> Inr (Some (op, r, name), p)))"

text \<open>-1 where there is no number. It has one digit.\<close>

definition io_number :: "int parser" where
  "io_number p =
     (case symbol TOKEN p of
        (False, p) \<Rightarrow> Inr (-1, p)
      | (True, p) \<Rightarrow>
          (let c = parser_peek_char p in
           if \<not> is_digit c \<or> peek_at p 1 \<notin> set ''<>'' then Inr (-1, p)
           else bind_parse (read_char p) (\<lambda>_ p. Inr (int (char_code c) - 48, consume_symbol p))))"

definition io_redirect :: "grammar \<Rightarrow> mrsh_io_redirect option parser" where
  "io_redirect e p =
     (let start = p_pos p in
      bind_parse (io_number p) (\<lambda>num p.
        let num_pos = (if num \<ge> 0 then start else position_zero) in
        bind_parse (io_file e p) (\<lambda>file p.
          case file of
            Some (op, r, name) \<Rightarrow> Inr (Some (IoRedirect num op name [] num_pos r), p)
          | None \<Rightarrow>
              bind_parse (io_here e p) (\<lambda>here p.
                case here of
                  Some (op, r, name) \<Rightarrow>
                    (let pending = \<lparr>hp_key = pos_offset (rng_begin r), hp_op = op, hp_name = name\<rparr>
                     in Inr (Some (IoRedirect num op name [] num_pos r),
                             p\<lparr>p_here_documents := p_here_documents p @ [pending]\<rparr>))
                | None \<Rightarrow>
                    if num \<ge> 0 then fail_with ''expected an IO redirect after IO number'' p
                    else Inr (None, p)))))"

definition assignment_word :: "grammar \<Rightarrow> mrsh_assignment option parser" where
  "assignment_word e p =
     (case symbol TOKEN p of
        (False, p) \<Rightarrow> Inr (None, p)
      | (True, p) \<Rightarrow>
          (case peek_name False p of
             (name_len, p) \<Rightarrow>
               if name_len = 0 \<or> peek_at p name_len \<noteq> CHR ''='' then Inr (None, p)
               else bind_some (read_token name_len p) (\<lambda>(name, r) p.
                 let equal_pos = p_pos p in
                 bind_parse (read_char p) (\<lambda>_ p.
                 bind_parse (g_word e NUL p) (\<lambda>value p.
                   Inr (Some (Assignment name
                     (case value of None \<Rightarrow> mrsh_word_string_create [] False | Some w \<Rightarrow> w) r equal_pos), p))))))"

section \<open>Simple commands\<close>

text \<open>The redirections and assignments before the name.\<close>

fun cmd_prefixes ::
    "nat \<Rightarrow> grammar \<Rightarrow> mrsh_io_redirect list \<Rightarrow> mrsh_assignment list \<Rightarrow>
     (mrsh_io_redirect list \<times> mrsh_assignment list) parser" where
  "cmd_prefixes 0 e redirs assigns p = Inl ParseFuel"
| "cmd_prefixes (Suc n) e redirs assigns p =
     bind_parse (io_redirect e p) (\<lambda>redir p.
       case redir of
         Some redir \<Rightarrow> cmd_prefixes n e (redirs @ [redir]) assigns p
       | None \<Rightarrow>
           bind_parse (assignment_word e p) (\<lambda>assign p.
             case assign of
               Some assign \<Rightarrow> cmd_prefixes n e redirs (assigns @ [assign]) p
             | None \<Rightarrow> Inr ((redirs, assigns), p)))"

definition cmd_name :: "grammar \<Rightarrow> mrsh_word option parser" where
  "cmd_name e p =
     bind_parse (apply_aliases e p) (\<lambda>_ p.
       case peek_word NUL p of
         (word_len, p) \<Rightarrow>
           if word_len = 0 then g_word e NUL p
           else if take word_len (p_input p) \<in> set keyword_names then Inr (None, p)
           else bind_parse (read_token word_len p) (\<lambda>t p.
             case t of
               None \<Rightarrow> Inl ParseCrash
             | Some (str, r) \<Rightarrow> Inr (Some (WString str False False r), p)))"

fun cmd_suffixes ::
    "nat \<Rightarrow> grammar \<Rightarrow> mrsh_io_redirect list \<Rightarrow> mrsh_word list \<Rightarrow> (mrsh_io_redirect list \<times> mrsh_word list) parser" where
  "cmd_suffixes 0 e redirs args p = Inl ParseFuel"
| "cmd_suffixes (Suc n) e redirs args p =
     bind_parse (io_redirect e p) (\<lambda>redir p.
       case redir of
         Some redir \<Rightarrow> cmd_suffixes n e (redirs @ [redir]) args p
       | None \<Rightarrow>
           bind_parse (g_word e NUL p) (\<lambda>arg p.
             case arg of
               Some arg \<Rightarrow> cmd_suffixes n e redirs (args @ [arg]) p
             | None \<Rightarrow> Inr ((redirs, args), p)))"

definition simple_command :: "grammar \<Rightarrow> mrsh_command option parser" where
  "simple_command e p =
     bind_parse (cmd_prefixes (g_fuel e) e [] [] p) (\<lambda>(redirs, assigns) p.
     bind_parse (cmd_name e p) (\<lambda>name p.
       case name of
         None \<Rightarrow>
           Inr (if redirs = [] \<and> assigns = [] then None else Some (SimpleCommand None [] redirs assigns), p)
       | Some name \<Rightarrow>
           bind_parse (cmd_suffixes (g_fuel e) e redirs [] p) (\<lambda>(redirs, args) p.
             Inr (Some (SimpleCommand (Some name) args redirs assigns), p))))"

section \<open>Here-documents\<close>

definition is_here_line_special :: "char \<Rightarrow> bool" where
  "is_here_line_special c \<longleftrightarrow> c = CHR ''$'' \<or> c = CHR ''`''"

text \<open>Text of a here-document carries no range: \<open>push_buffer_word_string\<close> of \<open>program.c\<close>.\<close>

definition push_line_string :: "mrsh_word list \<Rightarrow> cstring \<Rightarrow> mrsh_word list" where
  "push_line_string children buf =
     (if buf = [] then children else children @ [mrsh_word_string_create buf False])"

text \<open>
  A null pointer from \<open>back_quotes\<close> goes into the list of children, one from \<open>expect_dollar\<close> into the
  here-document. The trees here have no null words: such a result is \<open>ParseNull\<close>.
\<close>

fun here_document_line_loop ::
    "nat \<Rightarrow> mrsh_word option parser \<Rightarrow> mrsh_program option parser \<Rightarrow> mrsh_word list \<Rightarrow> cstring \<Rightarrow> mrsh_word option parser" where
  "here_document_line_loop 0 D P children buf p = Inl ParseFuel"
| "here_document_line_loop (Suc n) D P children buf p =
     (let c = parser_peek_char p in
      if p_input p = [] then Inr (Some (finish_children (push_line_string children buf)), p)
      else if is_here_line_special c then
        let children = push_line_string children buf in
        if c = CHR ''$'' then bind_some (D p) (\<lambda>t p. here_document_line_loop n D P (children @ [t]) [] p)
        else bind_parse (back_quotes P p) (\<lambda>t p.
               case t of
                 None \<Rightarrow> Inl ParseNull
               | Some t \<Rightarrow> here_document_line_loop n D P (children @ [t]) [] p)
      else
        case unescaped [CHR ''$'', CHR ''`'', BACKSLASH] p of
          (c, p) \<Rightarrow> here_document_line_loop n D P children (buf @ [c]) (skip 1 p))"

definition here_document_line ::
    "nat \<Rightarrow> mrsh_word option parser \<Rightarrow> mrsh_program option parser \<Rightarrow> mrsh_word option parser" where
  "here_document_line n D P p = here_document_line_loop n D P [] [] p"

text \<open>\<open>None\<close> is the \<open>abort()\<close> on a word that is neither a string nor a list, unless a quoted word comes first.\<close>

primrec is_word_quoted :: "mrsh_word \<Rightarrow> bool option" where
  "is_word_quoted (WString str single_quoted sf r) = Some single_quoted"
| "is_word_quoted (WParameter name op colon arg ps) = None"
| "is_word_quoted (WCommand prog bq r) = None"
| "is_word_quoted (WArithmetic body) = None"
| "is_word_quoted (WList children double_quoted l r) =
     (if double_quoted then Some True
      else foldr (\<lambda>q acc. case q of None \<Rightarrow> None | Some True \<Rightarrow> Some True | Some False \<Rightarrow> acc)
             (map is_word_quoted children) (Some False))"

text \<open>One line of a here-document that is not its end.\<close>

definition parse_here_line :: "grammar \<Rightarrow> bool \<Rightarrow> cstring \<Rightarrow> mrsh_word parser" where
  "parse_here_line e expand line p =
     (if expand then
        case g_line e (mrsh_parser_with_data line) of
          Inl x \<Rightarrow> Inl x
        | Inr (None, _) \<Rightarrow> Inl ParseNull
        | Inr (Some w, _) \<Rightarrow> Inr (w, p)
      else Inr (mrsh_word_string_create line True, p))"

fun parse_here_document_lines ::
    "nat \<Rightarrow> grammar \<Rightarrow> bool \<Rightarrow> bool \<Rightarrow> cstring \<Rightarrow> mrsh_word list \<Rightarrow> mrsh_word list option parser" where
  "parse_here_document_lines 0 e trim expand delim acc p = Inl ParseFuel"
| "parse_here_document_lines (Suc n) e trim expand delim acc p =
     (let text = takeWhile (\<lambda>c. c \<noteq> NL) (p_input p);
          line = (if trim then dropWhile (\<lambda>c. c = TAB) text else text);
          p = skip (length text) p in
      if line = delim then Inr (Some acc, if parser_peek_char p = NL then skip 1 p else p)
      else if p_input p = [] then fail_with ''unterminated here-document'' p
      else
        bind_parse (read_newline p) (\<lambda>_ p.
        bind_parse (parse_here_line e expand line p) (\<lambda>w p.
          parse_here_document_lines n e trim expand delim (acc @ [w]) p)))"

text \<open>With \<open>mrsh_word_str\<close> on the word, which comes first.\<close>

definition expect_here_document :: "grammar \<Rightarrow> here_pending \<Rightarrow> bool parser" where
  "expect_here_document e redir p =
     (case (mrsh_word_str (hp_name redir), is_word_quoted (hp_name redir)) of
        (Some delim, Some quoted) \<Rightarrow>
          bind_parse (parse_here_document_lines (g_fuel e) e (hp_op redir = IO_DLESSDASH) (\<not> quoted) delim []
              (p\<lparr>p_continuation_line := True\<rparr>)) (\<lambda>r p.
            case r of
              None \<Rightarrow> Inr (False, p)
            | Some lines \<Rightarrow>
                Inr (True, consume_symbol (p\<lparr>p_docs := (p_docs p)(hp_key redir \<mapsto> lines)\<rparr>)))
      | _ \<Rightarrow> Inl ParseCrash)"

text \<open>All that are pending; \<open>first\<close> is what comes before each of them.\<close>

fun expect_here_documents :: "grammar \<Rightarrow> bool parser \<Rightarrow> here_pending list \<Rightarrow> bool parser" where
  "expect_here_documents e first [] p = Inr (True, p\<lparr>p_here_documents := []\<rparr>)"
| "expect_here_documents e first (redir # rest) p =
     bind_parse (first p) (\<lambda>ok p.
       if \<not> ok then Inr (False, p)
       else bind_parse (expect_here_document e redir p) (\<lambda>ok p.
         if ok then expect_here_documents e first rest p else Inr (False, p)))"

section \<open>Pipelines and lists\<close>

text \<open>After an error nothing is tried any more.\<close>

definition orelse_parse :: "'a option parse \<Rightarrow> 'a option parser \<Rightarrow> 'a option parse" where
  "orelse_parse r f =
     bind_parse r (\<lambda>x p. if x \<noteq> None \<or> mrsh_parser_error p \<noteq> None then Inr (x, p) else f p)"

definition command :: "grammar \<Rightarrow> mrsh_command option parser" where
  "command e p =
     bind_parse (apply_aliases e p) (\<lambda>_ p. orelse_parse (g_compound e p) (simple_command e))"

fun parse_pipeline_loop :: "nat \<Rightarrow> grammar \<Rightarrow> mrsh_command list \<Rightarrow> mrsh_command list option parser" where
  "parse_pipeline_loop 0 e cmds p = Inl ParseFuel"
| "parse_pipeline_loop (Suc n) e cmds p =
     (case token ''|'' p of
        (None, p) \<Rightarrow> Inr (Some cmds, p)
      | (Some _, p) \<Rightarrow>
          bind_parse (read_linebreak p) (\<lambda>_ p.
          bind_parse (command e p) (\<lambda>cmd p.
            case cmd of
              None \<Rightarrow> fail_with ''expected a command'' p
            | Some cmd \<Rightarrow> parse_pipeline_loop n e (cmds @ [cmd]) p)))"

definition pipeline :: "grammar \<Rightarrow> mrsh_and_or_list option parser" where
  "pipeline e p =
     (case token ''!'' p of
        (bang, p) \<Rightarrow>
          bind_some (command e p) (\<lambda>cmd p.
          bind_some (parse_pipeline_loop (g_fuel e) e [cmd] p) (\<lambda>cmds p.
            Inr (Some (Pipeline cmds (bang \<noteq> None)
              (case bang of None \<Rightarrow> position_zero | Some r \<Rightarrow> rng_begin r)), p))))"

definition binop_operator :: "(binop_type \<times> mrsh_range) option parser" where
  "binop_operator p =
     bind_parse (operator AND_IF p) (\<lambda>r p.
       case r of
         Some r \<Rightarrow> Inr (Some (BINOP_AND, r), p)
       | None \<Rightarrow> bind_parse (operator OR_IF p) (\<lambda>r p. Inr (map_option (Pair BINOP_OR) r, p)))"

text \<open>The right operand is the whole rest of the list.\<close>

fun and_or_loop :: "nat \<Rightarrow> grammar \<Rightarrow> mrsh_and_or_list option parser" where
  "and_or_loop 0 e p = Inl ParseFuel"
| "and_or_loop (Suc n) e p =
     bind_some (pipeline e p) (\<lambda>pl p.
     bind_parse (binop_operator p) (\<lambda>t p.
       case t of
         None \<Rightarrow> Inr (Some pl, p)
       | Some (t, r) \<Rightarrow>
           bind_parse (read_linebreak p) (\<lambda>_ p.
           bind_parse (and_or_loop n e p) (\<lambda>rest p.
             case rest of
               None \<Rightarrow> fail_with ''expected an AND-OR list'' p
             | Some rest \<Rightarrow> Inr (Some (Binop t pl rest r), p)))))"

definition and_or :: "grammar \<Rightarrow> mrsh_and_or_list option parser" where
  "and_or e p = and_or_loop (g_fuel e) e p"

definition separator :: "char option parser" where
  "separator p =
     (case separator_op p of
        (Some sep, p) \<Rightarrow> bind_parse (read_linebreak p) (\<lambda>_ p. Inr (Some sep, p))
      | (None, p) \<Rightarrow> bind_parse (read_newline_list p) (\<lambda>nl p. Inr (if nl then Some NL else None, p)))"

definition separated :: "mrsh_and_or_list \<Rightarrow> mrsh_position \<Rightarrow> char option \<Rightarrow> mrsh_command_list" where
  "separated l pos sep = CommandList l (sep = Some (CHR ''&'')) (if sep = None then position_zero else pos)"

definition parse_term :: "grammar \<Rightarrow> mrsh_command_list option parser" where
  "parse_term e p =
     bind_some (and_or e p) (\<lambda>l p.
     let pos = p_pos p in
     bind_parse (separator p) (\<lambda>sep p.
     bind_parse
       (if sep = Some NL then expect_here_documents e (\<lambda>p. Inr (True, p)) (p_here_documents p) p else Inr (True, p))
       (\<lambda>ok p. Inr (if ok then Some (separated l pos sep) else None, p))))"

text \<open>The terms up to the first that is not there.\<close>

fun terms :: "nat \<Rightarrow> grammar \<Rightarrow> mrsh_command_list list \<Rightarrow> mrsh_command_list list parser" where
  "terms 0 e cmds p = Inl ParseFuel"
| "terms (Suc n) e cmds p =
     bind_parse (parse_term e p) (\<lambda>l p. case l of None \<Rightarrow> Inr (cmds, p) | Some l \<Rightarrow> terms n e (cmds @ [l]) p)"

text \<open>The array that the caller passes is empty; it stays empty where the C function returns false.\<close>

definition compound_list :: "grammar \<Rightarrow> mrsh_command_list list parser" where
  "compound_list e p = bind_parse (read_linebreak p) (\<lambda>_ p. terms (g_fuel e) e [] p)"

definition expect_compound_list :: "grammar \<Rightarrow> mrsh_command_list list option parser" where
  "expect_compound_list e p =
     bind_parse (compound_list e p) (\<lambda>cmds p.
       if cmds = [] then fail_with ''expected a compound list'' p else Inr (Some cmds, p))"

section \<open>Compound commands\<close>

text \<open>A list between two tokens.\<close>

definition between ::
    "cstring \<Rightarrow> cstring \<Rightarrow> (mrsh_command_list list \<Rightarrow> mrsh_position \<Rightarrow> mrsh_position \<Rightarrow> mrsh_command) \<Rightarrow>
     grammar \<Rightarrow> mrsh_command option parser" where
  "between opening closing build e p =
     (let left = p_pos p in
      case token opening p of
        (None, p) \<Rightarrow> Inr (None, p)
      | (Some _, p) \<Rightarrow>
          bind_some (expect_compound_list e p) (\<lambda>body p.
            let right = p_pos p in
            case expect_token closing p of
              (None, p) \<Rightarrow> Inr (None, p)
            | (Some _, p) \<Rightarrow> Inr (Some (build body left right), p)))"

definition brace_group :: "grammar \<Rightarrow> mrsh_command option parser" where
  "brace_group e p = between ''{'' ''}'' BraceGroup e p"

definition subshell :: "grammar \<Rightarrow> mrsh_command option parser" where
  "subshell e p = between ''('' '')'' Subshell e p"

text \<open>The condition, \<open>then\<close> and the body: what \<open>if\<close> and \<open>elif\<close> share.\<close>

definition if_parts ::
    "grammar \<Rightarrow> (mrsh_command_list list \<times> mrsh_range \<times> mrsh_command_list list) option parser" where
  "if_parts e p =
     bind_some (expect_compound_list e p) (\<lambda>cond p.
       case expect_token ''then'' p of
         (None, p) \<Rightarrow> Inr (None, p)
       | (Some then_range, p) \<Rightarrow>
           bind_some (expect_compound_list e p) (\<lambda>body p. Inr (Some (cond, then_range, body), p)))"

fun else_part :: "nat \<Rightarrow> grammar \<Rightarrow> mrsh_command option parser" where
  "else_part 0 e p = Inl ParseFuel"
| "else_part (Suc n) e p =
     (case token ''elif'' p of
        (Some if_range, p) \<Rightarrow>
          bind_some (if_parts e p) (\<lambda>(cond, then_range, body) p.
          bind_parse (else_part n e p) (\<lambda>ep p.
            Inr (Some (IfClause cond body ep if_range then_range range_zero range_zero), p)))
      | (None, p) \<Rightarrow>
          (case token ''else'' p of
             (None, p) \<Rightarrow> Inr (None, p)
           | (Some _, p) \<Rightarrow>
               bind_some (expect_compound_list e p) (\<lambda>body p.
                 Inr (Some (BraceGroup body position_zero position_zero), p))))"

definition if_clause :: "grammar \<Rightarrow> mrsh_command option parser" where
  "if_clause e p =
     (case token ''if'' p of
        (None, p) \<Rightarrow> Inr (None, p)
      | (Some if_range, p) \<Rightarrow>
          bind_some (if_parts e p) (\<lambda>(cond, then_range, body) p.
          bind_parse (else_part (g_fuel e) e p) (\<lambda>ep p.
            case expect_token ''fi'' p of
              (None, p) \<Rightarrow> Inr (None, p)
            | (Some fi_range, p) \<Rightarrow>
                Inr (Some (IfClause cond body ep if_range then_range fi_range range_zero), p))))"

definition sequential_sep :: "bool parser" where
  "sequential_sep p =
     (case token '';'' p of
        (Some _, p) \<Rightarrow> bind_parse (read_linebreak p) (\<lambda>_ p. Inr (True, p))
      | (None, p) \<Rightarrow> read_newline_list p)"

fun wordlist :: "nat \<Rightarrow> grammar \<Rightarrow> mrsh_word list \<Rightarrow> mrsh_word list parser" where
  "wordlist 0 e ws p = Inl ParseFuel"
| "wordlist (Suc n) e ws p =
     bind_parse (g_word e NUL p) (\<lambda>w p. case w of None \<Rightarrow> Inr (ws, p) | Some w \<Rightarrow> wordlist n e (ws @ [w]) p)"

definition expect_do_group :: "grammar \<Rightarrow> (mrsh_command_list list \<times> mrsh_range \<times> mrsh_range) option parser" where
  "expect_do_group e p =
     (case token ''do'' p of
        (None, p) \<Rightarrow> fail_with (''expected '' @ [SQUOTE] @ ''do'' @ [SQUOTE]) p
      | (Some do_range, p) \<Rightarrow>
          bind_some (expect_compound_list e p) (\<lambda>body p.
            case token ''done'' p of
              (None, p) \<Rightarrow> fail_with (''expected '' @ [SQUOTE] @ ''done'' @ [SQUOTE]) p
            | (Some done_range, p) \<Rightarrow> Inr (Some (body, do_range, done_range), p)))"

definition for_clause :: "grammar \<Rightarrow> mrsh_command option parser" where
  "for_clause e p =
     (case token ''for'' p of
        (None, p) \<Rightarrow> Inr (None, p)
      | (Some for_range, p) \<Rightarrow>
          (case peek_name False p of
             (name_len, p) \<Rightarrow>
               if name_len = 0 then fail_with ''expected name'' p
               else bind_some (read_token name_len p) (\<lambda>(name, name_range) p.
                 bind_parse (read_linebreak p) (\<lambda>_ p.
                   case token ''in'' p of
                     (inn, p) \<Rightarrow>
                       bind_parse (if inn = None then Inr ([], p) else wordlist (g_fuel e) e [] p) (\<lambda>words p.
                       bind_parse (sequential_sep p) (\<lambda>sep p.
                         if inn \<noteq> None \<and> \<not> sep then fail_with ''expected sequential separator'' p
                         else bind_some (expect_do_group e p) (\<lambda>(body, do_range, done_range) p.
                           Inr (Some (ForClause name (inn \<noteq> None) words body for_range name_range do_range done_range
                             (case inn of None \<Rightarrow> range_zero | Some r \<Rightarrow> r)), p))))))))"

definition loop_token :: "mrsh_parser \<Rightarrow> (loop_type \<times> mrsh_range) option \<times> mrsh_parser" where
  "loop_token p =
     (case token ''while'' p of
        (Some r, p) \<Rightarrow> (Some (LOOP_WHILE, r), p)
      | (None, p) \<Rightarrow> (case token ''until'' p of (r, p) \<Rightarrow> (map_option (Pair LOOP_UNTIL) r, p)))"

definition loop_clause :: "grammar \<Rightarrow> mrsh_command option parser" where
  "loop_clause e p =
     (case loop_token p of
        (None, p) \<Rightarrow> Inr (None, p)
      | (Some (type, wu_range), p) \<Rightarrow>
          bind_some (expect_compound_list e p) (\<lambda>condition p.
          bind_some (expect_do_group e p) (\<lambda>(body, do_range, done_range) p.
            Inr (Some (LoopClause type condition body wu_range do_range done_range), p))))"

section \<open>case\<close>

fun more_patterns :: "nat \<Rightarrow> grammar \<Rightarrow> mrsh_word list \<Rightarrow> mrsh_word list option parser" where
  "more_patterns 0 e ws p = Inl ParseFuel"
| "more_patterns (Suc n) e ws p =
     (case token ''|'' p of
        (None, p) \<Rightarrow> Inr (Some ws, p)
      | (Some _, p) \<Rightarrow>
          bind_parse (g_word e NUL p) (\<lambda>w p.
            case w of None \<Rightarrow> fail_with ''expected a word'' p | Some w \<Rightarrow> more_patterns n e (ws @ [w]) p))"

text \<open>The item, and whether \<open>;;\<close> ends it.\<close>

definition expect_case_item :: "grammar \<Rightarrow> (mrsh_case_item \<times> bool) option parser" where
  "expect_case_item e p =
     (let start = p_pos p in
      case token ''('' p of
        (lparen, p) \<Rightarrow>
          bind_parse (g_word e NUL p) (\<lambda>w p.
            case w of
              None \<Rightarrow> fail_with ''expected a word'' p
            | Some w \<Rightarrow>
                bind_some (more_patterns (g_fuel e) e [w] p) (\<lambda>patterns p.
                  let rparen_pos = p_pos p in
                  case expect_token '')'' p of
                    (None, p) \<Rightarrow> Inr (None, p)
                  | (Some _, p) \<Rightarrow>
                      bind_parse (compound_list e p) (\<lambda>body p.
                        if mrsh_parser_error p \<noteq> None then Inr (None, p)
                        else bind_parse (operator DSEMI p) (\<lambda>dsemi p.
                          bind_parse (if dsemi = None then Inr ((), p) else read_linebreak p) (\<lambda>_ p.
                            Inr (Some (CaseItem patterns body (if lparen = None then position_zero else start) rparen_pos
                              (case dsemi of None \<Rightarrow> range_zero | Some r \<Rightarrow> r), dsemi \<noteq> None), p)))))))"

fun parse_case_items :: "nat \<Rightarrow> grammar \<Rightarrow> mrsh_case_item list \<Rightarrow> (mrsh_case_item list \<times> mrsh_range) option parser" where
  "parse_case_items 0 e items p = Inl ParseFuel"
| "parse_case_items (Suc n) e items p =
     (case token ''esac'' p of
        (Some r, p) \<Rightarrow> Inr (Some (items, r), p)
      | (None, p) \<Rightarrow>
          bind_some (expect_case_item e p) (\<lambda>(item, dsemi) p.
            if dsemi then parse_case_items n e (items @ [item]) p
            else
              case expect_token ''esac'' p of
                (None, p) \<Rightarrow> Inr (None, p)
              | (Some r, p) \<Rightarrow> Inr (Some (items @ [item], r), p)))"

definition case_clause :: "grammar \<Rightarrow> mrsh_command option parser" where
  "case_clause e p =
     (case token ''case'' p of
        (None, p) \<Rightarrow> Inr (None, p)
      | (Some case_range, p) \<Rightarrow>
          bind_parse (g_word e NUL p) (\<lambda>w p.
            case w of
              None \<Rightarrow> fail_with ''expected a word'' p
            | Some w \<Rightarrow>
                bind_parse (read_linebreak p) (\<lambda>_ p.
                  case expect_token ''in'' p of
                    (None, p) \<Rightarrow> Inr (None, p)
                  | (Some in_range, p) \<Rightarrow>
                      bind_parse (read_linebreak p) (\<lambda>_ p.
                      bind_some (parse_case_items (g_fuel e) e [] p) (\<lambda>(items, esac_range) p.
                        Inr (Some (CaseClause w items case_range in_range esac_range), p))))))"

section \<open>Functions and compound commands\<close>

text \<open>A name, blanks and an opening parenthesis.\<close>

definition before_paren :: "nat \<Rightarrow> mrsh_parser \<Rightarrow> bool" where
  "before_paren name_len p \<longleftrightarrow> take 1 (dropWhile is_blank (drop name_len (p_input p))) = ''(''"

fun io_redirects :: "nat \<Rightarrow> grammar \<Rightarrow> mrsh_io_redirect list \<Rightarrow> mrsh_io_redirect list parser" where
  "io_redirects 0 e redirs p = Inl ParseFuel"
| "io_redirects (Suc n) e redirs p =
     bind_parse (io_redirect e p) (\<lambda>redir p.
       case redir of None \<Rightarrow> Inr (redirs, p) | Some redir \<Rightarrow> io_redirects n e (redirs @ [redir]) p)"

definition function_definition :: "grammar \<Rightarrow> mrsh_command option parser" where
  "function_definition e p =
     (case peek_name False p of
        (name_len, p) \<Rightarrow>
          if name_len = 0 \<or> \<not> before_paren name_len p then Inr (None, p)
          else bind_some (read_token name_len p) (\<lambda>(name, name_range) p.
            let lparen_pos = p_pos p in
            case expect_token ''('' p of
              (None, p) \<Rightarrow> Inr (None, p)
            | (Some _, p) \<Rightarrow>
                (let rparen_pos = p_pos p in
                 case expect_token '')'' p of
                   (None, p) \<Rightarrow> Inr (None, p)
                 | (Some _, p) \<Rightarrow>
                     bind_parse (read_linebreak p) (\<lambda>_ p.
                     bind_parse (g_compound e p) (\<lambda>cmd p.
                       case cmd of
                         None \<Rightarrow> fail_with ''expected a compound command'' p
                       | Some cmd \<Rightarrow>
                           bind_parse (io_redirects (g_fuel e) e [] p) (\<lambda>redirs p.
                             Inr (Some (FunctionDefinition name cmd redirs name_range lparen_pos rparen_pos), p)))))))"

definition reserved_words :: "cstring list" where
  "reserved_words = [''[['', '']]'', ''function'', ''select'']"

text \<open>The error is set when the answer is yes.\<close>

definition unspecified_word :: "mrsh_parser \<Rightarrow> bool \<times> mrsh_parser" where
  "unspecified_word p =
     (case peek_word NUL p of
        (word_len, p) \<Rightarrow>
          (let w = take word_len (p_input p) in
           if word_len = 0 then (False, p)
           else if w \<in> set reserved_words
           then (True, parser_set_error (''keyword is reserved and causes unspecified results: '' @ w) p)
           else
             case peek_name False p of
               (name_len, p) \<Rightarrow>
                 if name_len \<noteq> 0 \<and> peek_at p name_len = CHR '':''
                 then (True, parser_set_error
                        ''words that are the concatenation of a name and a colon produce unspecified results'' p)
                 else (False, p)))"

definition compound_command :: "grammar \<Rightarrow> mrsh_command option parser" where
  "compound_command e p =
     orelse_parse (orelse_parse (orelse_parse (orelse_parse (orelse_parse (orelse_parse
       (brace_group e p) (subshell e)) (if_clause e)) (for_clause e)) (loop_clause e)) (case_clause e))
       (\<lambda>p. case unspecified_word p of
          (True, p) \<Rightarrow> Inr (None, p)
        | (False, p) \<Rightarrow> function_definition e p)"

section \<open>Programs\<close>

definition parse_list :: "grammar \<Rightarrow> mrsh_command_list option parser" where
  "parse_list e p =
     bind_some (and_or e p) (\<lambda>l p.
       let pos = p_pos p in
       case separator_op p of (sep, p) \<Rightarrow> Inr (Some (separated l pos sep), p))"

fun parse_lists :: "nat \<Rightarrow> grammar \<Rightarrow> mrsh_command_list list \<Rightarrow> mrsh_command_list list parser" where
  "parse_lists 0 e cmds p = Inl ParseFuel"
| "parse_lists (Suc n) e cmds p =
     bind_parse (parse_list e p) (\<lambda>l p. case l of None \<Rightarrow> Inr (cmds, p) | Some l \<Rightarrow> parse_lists n e (cmds @ [l]) p)"

definition newline_before_here_document :: "bool parser" where
  "newline_before_here_document p =
     bind_parse (parse_of (newline p)) (\<lambda>nl p.
       Inr (nl, if nl then p else parser_set_error ''expected a newline followed by a here-document'' p))"

text \<open>Whether the command is complete, and the lists that were read, which the caller adds in any case.\<close>

definition complete_command :: "grammar \<Rightarrow> (bool \<times> mrsh_command_list list) parser" where
  "complete_command e p =
     bind_parse (parse_lists (g_fuel e) e [] p) (\<lambda>cmds p.
       if cmds = [] then Inr ((False, []), p)
       else bind_parse (expect_here_documents e newline_before_here_document (p_here_documents p) p) (\<lambda>ok p.
         Inr ((ok, cmds), p)))"

definition expect_complete_command :: "grammar \<Rightarrow> mrsh_command_list list option parser" where
  "expect_complete_command e p =
     bind_parse (complete_command e p) (\<lambda>(ok, cmds) p.
       if ok then Inr (Some cmds, p) else fail_with ''expected a complete command'' p)"

fun program_loop :: "nat \<Rightarrow> grammar \<Rightarrow> mrsh_command_list list \<Rightarrow> mrsh_program option parser" where
  "program_loop 0 e body p = Inl ParseFuel"
| "program_loop (Suc n) e body p =
     bind_parse (read_newline_list p) (\<lambda>nl p.
       let stop = (\<lambda>body p. bind_parse (read_linebreak p) (\<lambda>_ p. Inr (Some (Program body), p))) in
       if \<not> nl then stop body p
       else
         case eof p of
           (True, p) \<Rightarrow> Inr (Some (Program body), p)
         | (False, p) \<Rightarrow>
             bind_parse (complete_command e p) (\<lambda>(ok, cmds) p.
               if ok then program_loop n e (body @ cmds) p else stop (body @ cmds) p))"

definition program :: "grammar \<Rightarrow> mrsh_program option parser" where
  "program e p =
     bind_parse (read_linebreak p) (\<lambda>_ p.
       case eof p of
         (True, p) \<Rightarrow> Inr (Some (Program []), p)
       | (False, p) \<Rightarrow> bind_some (expect_complete_command e p) (\<lambda>cmds p. program_loop (g_fuel e) e cmds p))"

text \<open>The here-documents, by the offsets of their operators. Programs inside words are complete before.\<close>

primrec fill_redirect :: "(nat \<Rightarrow> mrsh_word list option) \<Rightarrow> mrsh_io_redirect \<Rightarrow> mrsh_io_redirect" where
  "fill_redirect docs (IoRedirect io op name here num_pos r) =
     IoRedirect io op name (case docs (pos_offset (rng_begin r)) of None \<Rightarrow> here | Some ls \<Rightarrow> ls) num_pos r"

primrec fill_command :: "(nat \<Rightarrow> mrsh_word list option) \<Rightarrow> mrsh_command \<Rightarrow> mrsh_command"
  and fill_case_item :: "(nat \<Rightarrow> mrsh_word list option) \<Rightarrow> mrsh_case_item \<Rightarrow> mrsh_case_item"
  and fill_and_or_list :: "(nat \<Rightarrow> mrsh_word list option) \<Rightarrow> mrsh_and_or_list \<Rightarrow> mrsh_and_or_list"
  and fill_command_list :: "(nat \<Rightarrow> mrsh_word list option) \<Rightarrow> mrsh_command_list \<Rightarrow> mrsh_command_list" where
  "fill_command docs (SimpleCommand name args redirs assigns) =
     SimpleCommand name args (map (fill_redirect docs) redirs) assigns"
| "fill_command docs (BraceGroup body l r) = BraceGroup (map (fill_command_list docs) body) l r"
| "fill_command docs (Subshell body l r) = Subshell (map (fill_command_list docs) body) l r"
| "fill_command docs (IfClause cond body els if_r then_r fi_r else_r) =
     IfClause (map (fill_command_list docs) cond) (map (fill_command_list docs) body)
       (map_option (fill_command docs) els) if_r then_r fi_r else_r"
| "fill_command docs (ForClause name inn words body for_r name_r do_r done_r in_r) =
     ForClause name inn words (map (fill_command_list docs) body) for_r name_r do_r done_r in_r"
| "fill_command docs (LoopClause t cond body wu_r do_r done_r) =
     LoopClause t (map (fill_command_list docs) cond) (map (fill_command_list docs) body) wu_r do_r done_r"
| "fill_command docs (CaseClause w items case_r in_r esac_r) =
     CaseClause w (map (fill_case_item docs) items) case_r in_r esac_r"
| "fill_command docs (FunctionDefinition name body redirs name_r lp rp) =
     FunctionDefinition name (fill_command docs body) (map (fill_redirect docs) redirs) name_r lp rp"
| "fill_case_item docs (CaseItem patterns body lp rp dsemi_r) =
     CaseItem patterns (map (fill_command_list docs) body) lp rp dsemi_r"
| "fill_and_or_list docs (Pipeline cmds bang bang_pos) = Pipeline (map (fill_command docs) cmds) bang bang_pos"
| "fill_and_or_list docs (Binop t l r op_r) = Binop t (fill_and_or_list docs l) (fill_and_or_list docs r) op_r"
| "fill_command_list docs (CommandList l ampersand pos) = CommandList (fill_and_or_list docs l) ampersand pos"

primrec fill_program :: "(nat \<Rightarrow> mrsh_word list option) \<Rightarrow> mrsh_program \<Rightarrow> mrsh_program" where
  "fill_program docs (Program body) = Program (map (fill_command_list docs) body)"

definition filled :: "mrsh_program option parse \<Rightarrow> mrsh_program option parse" where
  "filled r = bind_parse r (\<lambda>prog p. Inr (map_option (fill_program (p_docs p)) prog, p))"

definition parse_program :: "grammar \<Rightarrow> mrsh_program option parser" where
  "parse_program e p = filled (program e (parser_begin p))"

text \<open>After an error the whole line is consumed.\<close>

definition consume_line :: "mrsh_parser \<Rightarrow> mrsh_parser" where
  "consume_line p =
     (let rest = dropWhile (\<lambda>c. c \<noteq> NL) (p_input p); n = length (p_input p) - length rest
      in (skip (if rest = [] then n else Suc n) p)\<lparr>p_has_sym := False\<rparr>)"

definition parse_line :: "grammar \<Rightarrow> mrsh_program option parser" where
  "parse_line e p =
     (case eof (parser_begin p) of
        (True, p) \<Rightarrow> Inr (None, p)
      | (False, p) \<Rightarrow>
          bind_parse (parse_of (newline p)) (\<lambda>nl p.
            if nl then Inr (Some (Program []), p)
            else bind_parse (expect_complete_command e p) (\<lambda>cmds p.
              case cmds of
                None \<Rightarrow> Inr (None, consume_line p)
              | Some cmds \<Rightarrow>
                  (case eof p of
                     (True, p) \<Rightarrow> filled (Inr (Some (Program cmds), p))
                   | (False, p) \<Rightarrow>
                       bind_parse (parse_of (newline p)) (\<lambda>nl p.
                         if nl then filled (Inr (Some (Program cmds), p))
                         else Inr (None, consume_line (parser_set_error ''expected a newline'' p)))))))"

section \<open>The knot\<close>

text \<open>
  The parsers for \<open>$\<close>, programs and compound commands, for \<open>n\<close> levels of nesting; loops are bounded by the
  same number. A level takes at least one character.
\<close>

type_synonym knot = "mrsh_word option parser \<times> mrsh_program option parser \<times> mrsh_command option parser"

definition grammar_of ::
    "nat \<Rightarrow> mrsh_word option parser \<Rightarrow> mrsh_program option parser \<Rightarrow> mrsh_command option parser \<Rightarrow> grammar" where
  "grammar_of n D P K =
     \<lparr>g_fuel = n, g_word = word n D P, g_line = here_document_line n D P, g_compound = K\<rparr>"

primrec parsers :: "nat \<Rightarrow> knot" where
  "parsers 0 = (\<lambda>_. Inl ParseFuel, \<lambda>_. Inl ParseFuel, \<lambda>_. Inl ParseFuel)"
| "parsers (Suc n) =
     (let (D, P, K) = parsers n;
          D' = expect_dollar n (word n D P) (arithmetic_word n D P) P;
          K' = compound_command (grammar_of n D' P K)
      in (D', parse_program (grammar_of n D' P K'), K'))"

definition mrsh_parse_program :: "nat \<Rightarrow> mrsh_program option parser" where
  "mrsh_parse_program n = (case parsers n of (D, P, K) \<Rightarrow> P)"

definition mrsh_parse_line :: "nat \<Rightarrow> mrsh_program option parser" where
  "mrsh_parse_line n = (case parsers n of (D, P, K) \<Rightarrow> parse_line (grammar_of n D P K))"

text \<open>A number of levels that is enough for a text: a level takes a character, and a symbol may be in the way.\<close>

definition parse_fuel :: "string \<Rightarrow> nat" where
  "parse_fuel text = 2 * length text + 2"

definition mrsh_parse_word :: "nat \<Rightarrow> mrsh_word option parser" where
  "mrsh_parse_word n = (case parsers n of (D, P, K) \<Rightarrow> parameter_expansion_word n D P)"

end
