(* ===== verification/Parser_Eval.thy ===== *)
theory Parser_Eval
  imports Parser_Program
begin

text \<open>
  Running the parser by rewriting. The parts of the knot are named, so that a level of the grammar is
  opened only where it is called, and the combinators rewrite their first argument only; \<open>parse_eval\<close>
  collects the definitions. With \<open>simp add: parse_eval cong: parse_congs\<close> a text that is known far enough is
  parsed, whatever else is in the parser.
\<close>

section \<open>Levels of the grammar\<close>

definition dollar_at :: "nat \<Rightarrow> mrsh_word option parser" where
  "dollar_at n = fst (parsers n)"

definition program_at :: "nat \<Rightarrow> mrsh_program option parser" where
  "program_at n = fst (snd (parsers n))"

definition compound_at :: "nat \<Rightarrow> mrsh_command option parser" where
  "compound_at n = snd (snd (parsers n))"

definition grammar_at :: "nat \<Rightarrow> grammar" where
  "grammar_at n = grammar_of n (dollar_at n) (program_at n) (compound_at n)"

text \<open>The grammar of the programs at level \<open>Suc n\<close>.\<close>

definition inner_grammar :: "nat \<Rightarrow> grammar" where
  "inner_grammar n = grammar_of n (dollar_at (Suc n)) (program_at n) (compound_at (Suc n))"

definition compound_grammar :: "nat \<Rightarrow> grammar" where
  "compound_grammar n = grammar_of n (dollar_at (Suc n)) (program_at n) (compound_at n)"

lemma level_simps:
  "dollar_at (Suc n) p =
     expect_dollar n (word n (dollar_at n) (program_at n)) (arithmetic_word n (dollar_at n) (program_at n)) (program_at n) p"
  "program_at (Suc n) p = parse_program (inner_grammar n) p"
  "compound_at (Suc n) p = compound_command (compound_grammar n) p"
  by (simp_all add: dollar_at_def program_at_def compound_at_def inner_grammar_def compound_grammar_def Let_def
      split: prod.split)

lemma entry_simps:
  "mrsh_parse_program n p = program_at n p"
  "mrsh_parse_line n p = parse_line (grammar_at n) p"
  "mrsh_parse_word n p = parameter_expansion_word n (dollar_at n) (program_at n) p"
  by (simp_all add: mrsh_parse_program_def mrsh_parse_line_def mrsh_parse_word_def dollar_at_def program_at_def
      compound_at_def grammar_at_def split: prod.split)

lemma grammar_simps:
  "g_fuel (grammar_at n) = n" "g_fuel (inner_grammar n) = n" "g_fuel (compound_grammar n) = n"
  "g_word (grammar_at n) = word n (dollar_at n) (program_at n)"
  "g_word (inner_grammar n) = word n (dollar_at (Suc n)) (program_at n)"
  "g_word (compound_grammar n) = word n (dollar_at (Suc n)) (program_at n)"
  "g_line (grammar_at n) = here_document_line n (dollar_at n) (program_at n)"
  "g_line (inner_grammar n) = here_document_line n (dollar_at (Suc n)) (program_at n)"
  "g_line (compound_grammar n) = here_document_line n (dollar_at (Suc n)) (program_at n)"
  "g_compound (grammar_at n) = compound_at n"
  "g_compound (inner_grammar n) = compound_at (Suc n)"
  "g_compound (compound_grammar n) = compound_at n"
  by (simp_all add: grammar_at_def inner_grammar_def compound_grammar_def grammar_of_def)

section \<open>Combinators\<close>

lemma bind_some_simps:
  "bind_some (Inl e) f = Inl e" "bind_some (Inr (None, p)) f = Inr (None, p)" "bind_some (Inr (Some x, p)) f = f x p"
  by (simp_all add: bind_some_def)

lemma orelse_simps:
  "orelse_parse (Inl e) f = Inl e" "orelse_parse (Inr (Some x, p)) f = Inr (Some x, p)"
  "orelse_parse (Inr (None, p)) f = (if p_error p \<noteq> None then Inr (None, p) else f p)"
  by (simp_all add: orelse_parse_def mrsh_parser_error_def)

lemma bind_parse_weak: "r = r' \<Longrightarrow> bind_parse r f = bind_parse r' f"
  by simp

lemma bind_some_weak: "r = r' \<Longrightarrow> bind_some r f = bind_some r' f"
  by simp

lemma orelse_weak: "r = r' \<Longrightarrow> orelse_parse r f = orelse_parse r' f"
  by simp

lemmas parse_congs = bind_parse_weak bind_some_weak orelse_weak let_weak_cong

section \<open>Definitions\<close>

lemmas input_eval =
  cstr_of_def mrsh_parser_with_data_def peek_at_def parser_peek_char_def char_at_def pos_after_def skip_def parser_read_def
  parser_read_char_def parser_set_error_def parser_clear_error_def mrsh_parser_error_def parser_begin_def
  is_operator_start_def match_operator_def operators_def skip_comment_def next_symbol.simps get_symbol_def
  consume_symbol_def symbol_def eof_def newline_def linebreak_def newline_list_def is_name_char_def peek_name_def
  mrsh_position_valid_def position_zero_def char_classes

lemmas word_eval =
  parse_of_def read_char_eq read_newline_eq read_expected_def skip_line_def is_quoting_def ends_word_def peek_word_def range_to_def
  token_def expect_token_def read_token_def single_quotes_loop.simps single_quotes_def unescaped_def back_quotes_loop.simps
  back_quotes_def push_buffer_word_string_def child_start_def finish_children_def double_quotes_def quoted_child_def
  word_end_def word_def closes_arithmetic_def arith_parens_def arithmetic_char_def arithmetic_word_def
  parameter_expansion_word_def word_list_def char_to_parameter_op_val_def expect_parameter_op_def
  finish_parameter_expression_def expect_parameter_expression_def expect_word_command_def expect_word_arithmetic_def
  is_special_parameter_def expect_dollar_def

lemmas redirect_eval =
  fail_with_def read_linebreak_def read_newline_list_def operator_str_def operator_def separator_op_def apply_aliases_def
  here_name_def io_here_def filename_def parse_redirect_op_def io_file_def io_number_def io_redirect_def
  assignment_word_def keyword_names_def cmd_name_def simple_command_def is_here_line_special_def push_line_string_def
  here_document_line_def parse_here_line_def expect_here_document_def

lemmas command_eval =
  command_def pipeline_def binop_operator_def and_or_def separator_def separated_def parse_term_def compound_list_def
  expect_compound_list_def between_def brace_group_def subshell_def if_parts_def if_clause_def sequential_sep_def
  expect_do_group_def for_clause_def loop_token_def loop_clause_def expect_case_item_def case_clause_def before_paren_def
  function_definition_def reserved_words_def unspecified_word_def compound_command_def parse_list_def
  newline_before_here_document_def complete_command_def expect_complete_command_def program_def filled_def
  parse_program_def consume_line_def parse_line_def

lemmas parse_eval =
  Let_def level_simps entry_simps grammar_simps bind_some_simps orelse_simps input_eval word_eval redirect_eval command_eval

section \<open>Examples\<close>

text \<open>The trees of the following texts. Levels are counted with \<open>Suc\<close>, which is what the loops look at.\<close>

abbreviation six_levels :: nat where
  "six_levels \<equiv> Suc (Suc (Suc (Suc (Suc (Suc 0)))))"

abbreviation plain_word :: "cstring \<Rightarrow> nat \<Rightarrow> mrsh_word" where
  "plain_word str column \<equiv> WString str False False
     \<lparr>rng_begin = \<lparr>pos_offset = column, pos_line = 1, pos_column = int column + 1\<rparr>,
      rng_end = \<lparr>pos_offset = column + length str, pos_line = 1, pos_column = int (column + length str) + 1\<rparr>\<rparr>"

lemma parse_and_list:
  "\<exists>q r. mrsh_parse_program six_levels (mrsh_parser_with_data ''a b&&c'') =
     Inr (Some (Program [CommandList (Binop BINOP_AND
         (Pipeline [SimpleCommand (Some (plain_word ''a'' 0)) [plain_word ''b'' 2] [] []] False position_zero)
         (Pipeline [SimpleCommand (Some (plain_word ''c'' 5)) [] [] []] False position_zero) r) False position_zero]), q)"
  by (simp add: parse_eval cong: parse_congs)

end
