(* ===== verification/Builtin_Table.thy ===== *)
theory Builtin_Table
  imports Shell_State "HOL-Library.List_Lexorder" "HOL-Library.Char_ord"
begin

text \<open>
  \<open>builtin/builtin.c\<close>: the table of builtins and its binary search, the quoting of printed values
  and the sorted collection of variables. \<open>strcmp\<close> is the lexicographic order of the byte strings.
\<close>

section \<open>The table\<close>

datatype builtin_func =
    BuiltinDot | BuiltinColon | BuiltinAlias | BuiltinBg | BuiltinBreak | BuiltinCd
  | BuiltinCommand | BuiltinEval | BuiltinExec | BuiltinExit | BuiltinExport | BuiltinFalse
  | BuiltinFg | BuiltinGetopts | BuiltinHash | BuiltinJobs | BuiltinPwd | BuiltinRead
  | BuiltinReturn | BuiltinSet | BuiltinShift | BuiltinTimes | BuiltinTrap | BuiltinTrue
  | BuiltinType | BuiltinUlimit | BuiltinUmask | BuiltinUnalias | BuiltinUnset | BuiltinWait
  | BuiltinUnspecified

type_synonym builtin = "cstring \<times> builtin_func \<times> bool"

definition builtins :: "builtin list" where
  "builtins = [
     (''.'', BuiltinDot, True),
     ('':'', BuiltinColon, True),
     (''alias'', BuiltinAlias, False),
     (''bg'', BuiltinBg, False),
     (''break'', BuiltinBreak, True),
     (''cd'', BuiltinCd, False),
     (''command'', BuiltinCommand, False),
     (''continue'', BuiltinBreak, True),
     (''eval'', BuiltinEval, True),
     (''exec'', BuiltinExec, True),
     (''exit'', BuiltinExit, True),
     (''export'', BuiltinExport, True),
     (''false'', BuiltinFalse, False),
     (''fg'', BuiltinFg, False),
     (''getopts'', BuiltinGetopts, False),
     (''hash'', BuiltinHash, False),
     (''jobs'', BuiltinJobs, False),
     (''pwd'', BuiltinPwd, False),
     (''read'', BuiltinRead, False),
     (''readonly'', BuiltinExport, True),
     (''return'', BuiltinReturn, True),
     (''set'', BuiltinSet, True),
     (''shift'', BuiltinShift, True),
     (''times'', BuiltinTimes, True),
     (''trap'', BuiltinTrap, True),
     (''true'', BuiltinTrue, False),
     (''type'', BuiltinType, False),
     (''ulimit'', BuiltinUlimit, False),
     (''umask'', BuiltinUmask, False),
     (''unalias'', BuiltinUnalias, False),
     (''unset'', BuiltinUnset, True),
     (''wait'', BuiltinWait, False)]"

definition unspecified_names :: "cstring list" where
  "unspecified_names = [
     ''alloc'', ''autoload'', ''bind'', ''bindkey'', ''builtin'', ''bye'', ''caller'', ''cap'',
     ''chdir'', ''clone'', ''comparguments'', ''compcall'', ''compctl'', ''compdescribe'',
     ''compfiles'', ''compgen'', ''compgroups'', ''complete'', ''compquote'', ''comptags'',
     ''comptry'', ''compvalues'', ''declare'', ''dirs'', ''disable'', ''disown'', ''dosh'',
     ''echotc'', ''echoti'', ''help'', ''history'', ''hist'', ''let'', ''local'', ''login'',
     ''logout'', ''map'', ''mapfile'', ''popd'', ''print'', ''pushd'', ''readarray'', ''repeat'',
     ''savehistory'', ''source'', ''shopt'', ''stop'', ''suspend'', ''typeset'', ''whence'']"

definition unspecified :: builtin where
  "unspecified = (''unspecified'', BuiltinUnspecified, False)"

text \<open>\<open>bsearch\<close> of the C library, on the elements \<open>lo .. hi - 1\<close>: the middle element is compared
  first, then one half is searched.\<close>

function bsearch :: "('a \<Rightarrow> cstring) \<Rightarrow> cstring \<Rightarrow> 'a list \<Rightarrow> nat \<Rightarrow> nat \<Rightarrow> 'a option" where
  "bsearch f key xs lo hi =
     (if lo < hi then
        let mid = (lo + hi) div 2; x = xs ! mid in
        if key = f x then Some x
        else if key < f x then bsearch f key xs lo mid
        else bsearch f key xs (mid + 1) hi
      else None)"
  by pat_completeness auto
termination
  by (relation "measure (\<lambda>(f, key, xs, lo, hi). hi - lo)") (auto simp: Let_def)

declare bsearch.simps [simp del]

definition get_builtin :: "cstring \<Rightarrow> builtin option" where
  "get_builtin name =
     (if bsearch id name unspecified_names 0 (length unspecified_names) \<noteq> None then Some unspecified
      else bsearch fst name builtins 0 (length builtins))"

definition mrsh_has_builtin :: "cstring \<Rightarrow> bool" where
  "mrsh_has_builtin name \<longleftrightarrow> get_builtin name \<noteq> None"

definition mrsh_has_special_builtin :: "cstring \<Rightarrow> bool" where
  "mrsh_has_special_builtin name =
     (case get_builtin name of None \<Rightarrow> False | Some (_, _, special) \<Rightarrow> special)"

section \<open>Printing values\<close>

definition safe_chars :: cstring where
  "safe_chars = ''@%+=:,./-''"

definition is_safe :: "char \<Rightarrow> bool" where
  "is_safe c \<longleftrightarrow> is_alnum c \<or> strchr safe_chars c \<noteq> None"

fun escape_quoted :: "cstring \<Rightarrow> cstring" where
  "escape_quoted [] = []"
| "escape_quoted (c # cs) =
     (if c = SQUOTE then [SQUOTE, DQUOTE, SQUOTE, DQUOTE, SQUOTE] else [c]) @ escape_quoted cs"

definition print_escaped :: "cstring \<Rightarrow> cstring" where
  "print_escaped value =
     (if list_all is_safe value \<and> value \<noteq> [] then value
      else SQUOTE # escape_quoted value @ [SQUOTE])"

section \<open>Collecting variables\<close>

definition collect_wanted :: "u32 \<Rightarrow> mrsh_variable \<Rightarrow> bool" where
  "collect_wanted attribs var \<longleftrightarrow>
     attribs = MRSH_VAR_ATTRIB_NONE \<or> has_attrib (var_attribs var) attribs"

definition collect_vars_iterator ::
    "u32 \<Rightarrow> cstring \<Rightarrow> mrsh_variable \<Rightarrow> (cstring \<times> cstring) list \<Rightarrow> (cstring \<times> cstring) list" where
  "collect_vars_iterator attribs key var values =
     (if \<not> collect_wanted attribs var then values else values @ [(key, var_value var)])"

definition collect_vars :: "mrsh_state \<Rightarrow> u32 \<Rightarrow> (cstring \<times> cstring) list" where
  "collect_vars s attribs =
     sort_key fst (mrsh_hashtable_for_each (st_variables s) (collect_vars_iterator attribs) [])"

section \<open>Properties\<close>

lemma bsearch_find:
  assumes "sorted_wrt (<) (map f xs)" "hi \<le> length xs"
    "\<forall>i < length xs. f (xs ! i) = key \<longrightarrow> lo \<le> i \<and> i < hi"
  shows "bsearch f key xs lo hi = find (\<lambda>x. f x = key) xs"
  using assms
proof (induction f key xs lo hi rule: bsearch.induct)
  case (1 f key xs lo hi)
  have mono: "f (xs ! i) < f (xs ! j)" if "i < j" "j < length xs" for i j
    using "1.prems"(1) that by (simp add: sorted_wrt_iff_nth_less)
  show ?case
  proof (cases "lo < hi")
    case False
    then have "\<forall>x \<in> set xs. f x \<noteq> key"
      using "1.prems"(3) by (metis in_set_conv_nth le_less_trans)
    with False show ?thesis
      by (subst bsearch.simps) (simp add: find_None_iff [THEN iffD2])
  next
    case True
    let ?mid = "(lo + hi) div 2"
    have mid: "lo \<le> ?mid" "?mid < hi" "?mid < length xs"
      using True "1.prems"(2) by auto
    consider "key = f (xs ! ?mid)" | "key < f (xs ! ?mid)" | "f (xs ! ?mid) < key"
      by force
    then show ?thesis
    proof cases
      case 1
      have "distinct (map f xs)"
        using "1.prems"(1) by (simp only: strict_sorted_iff)
      then have "find (\<lambda>x. f x = key) xs = Some (xs ! ?mid)"
        using find_distinct_key [of f xs "xs ! ?mid"] mid(3) 1 by simp
      with True 1 show ?thesis
        by (subst bsearch.simps) (simp add: Let_def)
    next
      case 2
      have range: "lo \<le> i \<and> i < ?mid" if "i < length xs" "f (xs ! i) = key" for i
      proof -
        have "\<not> ?mid \<le> i"
          using mono [of ?mid i] 2 that by (cases "i = ?mid") auto
        then show ?thesis using "1.prems"(3) that by auto
      qed
      then have "bsearch f key xs lo ?mid = find (\<lambda>x. f x = key) xs"
        using "1.IH"(1) [OF True refl refl] 2 mid "1.prems"(1) by auto
      with True 2 show ?thesis
        by (subst bsearch.simps) (auto simp: Let_def)
    next
      case 3
      have range: "?mid + 1 \<le> i \<and> i < hi" if "i < length xs" "f (xs ! i) = key" for i
      proof -
        have "\<not> i \<le> ?mid"
          using mono [of i ?mid] 3 that mid(3) by (cases "i = ?mid") auto
        then show ?thesis using "1.prems"(3) that by auto
      qed
      have "bsearch f key xs (?mid + 1) hi = find (\<lambda>x. f x = key) xs"
        using "1.IH"(2) [OF True refl refl] 3 range "1.prems"(1,2) by auto
      with True 3 show ?thesis
        by (subst bsearch.simps) (auto simp: Let_def)
    qed
  qed
qed


lemma builtins_sorted: "sorted_wrt (<) (map fst builtins)"
  by code_simp

lemma get_builtin_spec:
  "bsearch fst name builtins 0 (length builtins) = find (\<lambda>b. fst b = name) builtins"
  by (rule bsearch_find) (use builtins_sorted in auto)

text \<open>Looking a builtin up finds it exactly when it is in the table (whose order the search
  relies on), unless its name is one of the unspecified ones.\<close>

theorem get_builtin_table:
  assumes "name \<notin> set unspecified_names"
  shows "get_builtin name = find (\<lambda>b. fst b = name) builtins"
proof -
  have miss: "bsearch id name xs lo hi = None" if "name \<notin> set xs" "hi \<le> length xs" for xs lo hi
    using that
  proof (induction "id :: cstring \<Rightarrow> cstring" name xs lo hi rule: bsearch.induct)
    case (1 key xs lo hi)
    then show ?case
    proof (cases "lo < hi")
      case False
      then show ?thesis by (subst bsearch.simps) simp
    next
      case True
      let ?mid = "(lo + hi) div 2"
      have mid: "?mid < hi" "?mid < length xs"
        using True 1(4) by auto
      then have "key \<noteq> xs ! ?mid"
        using 1(3) by force
      with True 1 mid show ?thesis
        by (subst bsearch.simps) (simp add: Let_def)
    qed
  qed
  from miss [OF assms] show ?thesis
    by (simp add: get_builtin_def get_builtin_spec)
qed

theorem get_builtin_table_witness:
  "get_builtin ''shift'' = Some (''shift'', BuiltinShift, True)"
  using get_builtin_table [of "''shift''"] by (simp add: unspecified_names_def builtins_def)

text \<open>The other array the code searches is out of order, so the search misses two of its names.\<close>

lemma unspecified_unsorted:
  "filter (\<lambda>n. \<not> mrsh_has_builtin n) unspecified_names = [''history'', ''shopt'']"
  by code_simp

text \<open>How a shell reads quoted text: \<open>None\<close> where an expansion would start or a quote stays open.\<close>

datatype quote_mode = QPlain | QSingle | QDouble

fun unquote :: "quote_mode \<Rightarrow> cstring \<Rightarrow> cstring option" where
  "unquote m [] = (if m = QPlain then Some [] else None)"
| "unquote QPlain (c # cs) =
     (if c = SQUOTE then unquote QSingle cs
      else if c = DQUOTE then unquote QDouble cs
      else if is_safe c then map_option (Cons c) (unquote QPlain cs)
      else None)"
| "unquote QSingle (c # cs) =
     (if c = SQUOTE then unquote QPlain cs else map_option (Cons c) (unquote QSingle cs))"
| "unquote QDouble (c # cs) =
     (if c = DQUOTE then unquote QPlain cs
      else if c \<in> {CHR ''$'', BACKQUOTE, BACKSLASH} then None
      else map_option (Cons c) (unquote QDouble cs))"

lemma not_safe_quotes: "\<not> is_safe SQUOTE" "\<not> is_safe DQUOTE"
  by (simp_all add: is_safe_def safe_chars_def char_simps)

lemma unquote_safe: "list_all is_safe v \<Longrightarrow> unquote QPlain v = Some v"
  by (induction v) (auto simp: not_safe_quotes)

lemma unquote_escape_quoted: "unquote QSingle (escape_quoted v @ [SQUOTE]) = Some v"
  by (induction v) auto

text \<open>What \<open>print_escaped\<close> writes is read back by a shell as the value itself, so that the output
  of \<open>set\<close>, \<open>alias\<close>, \<open>export -p\<close> and \<open>trap\<close> can be used as input.\<close>

theorem print_escaped_roundtrip: "unquote QPlain (print_escaped v) = Some v"
  by (simp add: print_escaped_def unquote_safe unquote_escape_quoted)

lemma for_each_collect:
  "fold (\<lambda>(k, v). collect_vars_iterator a k v) es acc =
    acc @ map (\<lambda>(k, v). (k, var_value v)) (filter (\<lambda>(k, v). collect_wanted a v) es)"
  by (induction es arbitrary: acc) (auto simp: collect_vars_iterator_def)

definition collected :: "u32 \<Rightarrow> (cstring \<times> mrsh_variable) list \<Rightarrow> (cstring \<times> cstring) list" where
  "collected a es = map (\<lambda>(k, v). (k, var_value v)) (filter (\<lambda>(k, v). collect_wanted a v) es)"

lemma collected_keys: "distinct (map fst es) \<Longrightarrow> distinct (map fst (collected a es))"
  by (induction es) (auto simp: collected_def image_iff)

lemma collected_map_of:
  "distinct (map fst es) \<Longrightarrow> map_of (collected a es) k =
    (case map_of es k of None \<Rightarrow> None
     | Some var \<Rightarrow> if collect_wanted a var then Some (var_value var) else None)"
proof (induction es)
  case Nil
  then show ?case by (simp add: collected_def)
next
  case (Cons e es)
  have "k \<notin> fst ` set es \<Longrightarrow> map_of es k = None"
    by (simp add: map_of_eq_None_iff)
  with Cons show ?case
    by (cases e) (auto simp: collected_def)
qed

lemma map_of_sort_key: "distinct (map fst xs) \<Longrightarrow> map_of (sort_key fst xs) = map_of xs"
  by (subst map_of_inject_set) (simp_all add: distinct_map)

text \<open>\<open>collect_vars\<close> yields every variable with the wanted attribute exactly once, with its value,
  in strictly increasing order of the names.\<close>

theorem collect_vars_spec:
  assumes "env_inv s"
  shows "sorted_wrt (<) (map fst (collect_vars s a)) \<and>
    map_of (collect_vars s a) =
      (\<lambda>k. case mrsh_hashtable_get (st_variables s) k of
             None \<Rightarrow> None
           | Some var \<Rightarrow> if collect_wanted a var then Some (var_value var) else None)"
proof -
  have inv: "hashtable_inv (st_variables s)"
    using assms by (simp add: env_inv_def)
  let ?es = "hashtable_entries (st_variables s)"
  have d: "distinct (map fst (collected a ?es))"
    by (rule collected_keys [OF ht.entries_distinct [OF inv]])
  have cv: "collect_vars s a = sort_key fst (collected a ?es)"
    by (simp add: collect_vars_def mrsh_hashtable_for_each_def for_each_collect collected_def)
  have "distinct (map fst (collect_vars s a))"
    unfolding cv using d by (simp add: distinct_map)
  then have "sorted_wrt (<) (map fst (collect_vars s a))"
    by (simp add: strict_sorted_iff cv)
  moreover have "map_of (collect_vars s a) k = (case mrsh_hashtable_get (st_variables s) k of
      None \<Rightarrow> None
    | Some var \<Rightarrow> if collect_wanted a var then Some (var_value var) else None)" for k
    unfolding cv map_of_sort_key [OF d] collected_map_of [OF ht.entries_distinct [OF inv]]
    by (simp add: ht.entries_get [OF inv])
  ultimately show ?thesis
    by blast
qed

theorem collect_vars_spec_witness:
  "sorted_wrt (<) (map fst (collect_vars (mrsh_env_set ''B'' ''2'' 1 (mrsh_env_set ''A'' ''1'' 1
      (mrsh_state_create (\<lambda>_. SIG_DFL) 18 []))) 0))"
proof -
  have "env_inv (mrsh_state_create (\<lambda>_. SIG_DFL) 18 [])"
    by (simp add: env_inv_def mrsh_state_create_def ht.inv_empty)
  then show ?thesis
    using collect_vars_spec [of "mrsh_env_set ''B'' ''2'' 1 (mrsh_env_set ''A'' ''1'' 1
      (mrsh_state_create (\<lambda>_. SIG_DFL) 18 []))" 0] by simp
qed

end
