(* ===== verification/Parser_Facts.thy ===== *)
theory Parser_Facts
  imports Parser_Eval Ast_Ops Builtin_Table
begin

text \<open>
  What the parser makes of the text of simple commands. The shell prints values with \<open>print_escaped\<close>, so
  that its output can be used as input: the parser reads such an argument as one word with the value as
  its text, and a line of them as a simple command. A parser in front of a text is written as a record,
  \<open>fresh_parser\<close> and \<open>token_parser\<close>, so that the definitions of the grammar are run by rewriting.
\<close>

section \<open>Parsers in front of a text\<close>

abbreviation parser_at :: "cstring \<Rightarrow> mrsh_position \<Rightarrow> bool \<Rightarrow> bool \<Rightarrow> symbol_name \<Rightarrow> mrsh_parser" where
  "parser_at inp pos cl sym_read s \<equiv>
     \<lparr>p_input = inp, p_pos = pos, p_error = None, p_has_sym = sym_read, p_sym = s, p_here_documents = [],
      p_continuation_line = cl, p_alias = None, p_arith_nested_parens = 0, p_docs = (\<lambda>_. None)\<rparr>"

abbreviation fresh_parser :: "cstring \<Rightarrow> mrsh_position \<Rightarrow> bool \<Rightarrow> symbol_name \<Rightarrow> mrsh_parser" where
  "fresh_parser inp pos cl s \<equiv> parser_at inp pos cl False s"

abbreviation token_parser :: "cstring \<Rightarrow> mrsh_position \<Rightarrow> bool \<Rightarrow> mrsh_parser" where
  "token_parser inp pos cl \<equiv> parser_at inp pos cl True TOKEN"

abbreviation newline_parser :: "cstring \<Rightarrow> mrsh_position \<Rightarrow> bool \<Rightarrow> mrsh_parser" where
  "newline_parser inp pos cl \<equiv> parser_at (NL # inp) pos cl True NEWLINE"

text \<open>A character that starts a token.\<close>

definition starts_token :: "char \<Rightarrow> bool" where
  "starts_token c \<longleftrightarrow> c \<noteq> NL \<and> c \<noteq> CHR ''#'' \<and> \<not> is_blank c \<and> \<not> is_operator_start c"

lemma symbol_token [simp]: "symbol name (token_parser inp pos cl) = (TOKEN = name, token_parser inp pos cl)"
  by (simp add: symbol_def get_symbol_def)

lemma next_symbol_token:
  assumes "p_input p = c # inp" "starts_token c"
  shows "next_symbol p = p\<lparr>p_has_sym := True, p_sym := TOKEN\<rparr>"
  using assms
  by (simp add: next_symbol.simps [of p] Let_def starts_token_def parser_peek_char_def peek_at_def char_at_def
      match_operator_def)

lemma next_symbol_space:
  "p_input p = SPACE # inp \<Longrightarrow> next_symbol p = next_symbol (skip 1 (p\<lparr>p_has_sym := True\<rparr>))"
  by (simp add: next_symbol.simps [of p] Let_def parser_peek_char_def peek_at_def char_at_def match_operator_def
      is_operator_start_def is_blank_def)

lemma symbol_fresh:
  assumes "starts_token c"
  shows "symbol name (fresh_parser (c # inp) pos cl s) = (TOKEN = name, token_parser (c # inp) pos cl)"
  using assms by (simp add: symbol_def get_symbol_def next_symbol_token)

lemma symbol_blank:
  assumes "starts_token c"
  shows "symbol name (fresh_parser (SPACE # c # inp) pos cl s) =
    (TOKEN = name, token_parser (c # inp) (pos_after SPACE pos) False)"
  using assms by (simp add: symbol_def get_symbol_def next_symbol_space skip_def next_symbol_token)

text \<open>The line ends: the symbol that is asked for is not there.\<close>

lemma symbol_newline [simp]:
  "symbol name (newline_parser inp pos cl) = (NEWLINE = name, newline_parser inp pos cl)"
  "symbol name (fresh_parser (NL # inp) pos cl s) = (NEWLINE = name, newline_parser inp pos cl)"
  by (simp_all add: symbol_def get_symbol_def next_symbol.simps [of "fresh_parser (NL # inp) pos cl s"] Let_def
      parser_peek_char_def peek_at_def char_at_def)

section \<open>Arguments\<close>

text \<open>Tokens of one character.\<close>

lemma not_alpha_tokens [simp]:
  "\<not> is_alpha (CHR ''<'')" "\<not> is_alpha (CHR ''>'')" "\<not> is_alpha (CHR ''|'')" "\<not> is_alpha (CHR ''!'')"
  "\<not> is_alpha (CHR ''{'')" "\<not> is_alpha (CHR ''('')" "\<not> is_alpha (CHR ''&'')" "\<not> is_alpha (CHR '';'')"
  by (simp_all add: char_classes)

lemma token_single:
  assumes "\<not> is_alpha d" "c \<noteq> d"
  shows "token [d] (token_parser (c # inp) pos cl) = (None, token_parser (c # inp) pos cl)"
  using assms by (simp add: token_def Let_def parser_peek_char_def peek_at_def char_at_def)

lemma token_newline: "token str (newline_parser inp pos cl) = (None, newline_parser inp pos cl)"
  by (simp add: token_def)

lemma operator_none:
  "symbol name p = (False, q) \<Longrightarrow> operator name p = Inr (None, q)"
  by (simp add: operator_def)

text \<open>No redirection in front of a word or at the end of the line.\<close>

lemma io_number_none:
  assumes "\<not> (is_digit c \<and> peek_at (token_parser (c # inp) pos cl) 1 \<in> set ''<>'')"
  shows "io_number (token_parser (c # inp) pos cl) = Inr (-1, token_parser (c # inp) pos cl)"
  using assms by (auto simp: io_number_def Let_def parser_peek_char_def peek_at_def char_at_def)

lemma io_redirect_none:
  assumes "starts_token c" "\<not> (is_digit c \<and> peek_at (token_parser (c # inp) pos cl) 1 \<in> set ''<>'')"
  shows "io_redirect e (token_parser (c # inp) pos cl) = Inr (None, token_parser (c # inp) pos cl)"
  using assms(1)
  by (simp add: io_redirect_def io_number_none [OF assms(2)] Let_def io_file_def parse_redirect_op_def token_single
      starts_token_def is_operator_start_def operator_none io_here_def bind_some_simps cong: parse_congs)

lemma io_redirect_newline:
  "io_redirect e (newline_parser inp pos cl) = Inr (None, newline_parser inp pos cl)"
  by (simp add: io_redirect_def io_number_def Let_def io_file_def parse_redirect_op_def token_newline operator_none
      io_here_def bind_some_simps cong: parse_congs)


section \<open>Words of printed values\<close>

text \<open>The characters that need no quotes, and \<open>_\<close> of names.\<close>

definition is_arg_char :: "char \<Rightarrow> bool" where
  "is_arg_char c \<longleftrightarrow> is_safe c \<or> c = CHR ''_''"

text \<open>The pieces of a printed word: unquoted text of such characters, quoted text, and the quote in quotes.\<close>

fun quoted_leaf :: "mrsh_word \<Rightarrow> bool" where
  "quoted_leaf (WString str q sf r) \<longleftrightarrow> \<not> sf \<and> (q \<or> list_all is_arg_char str)"
| "quoted_leaf (WList [WString str q sf r] dq lp rp) \<longleftrightarrow> dq \<and> \<not> sf"
| "quoted_leaf w \<longleftrightarrow> False"

definition printed_word :: "mrsh_word \<Rightarrow> bool" where
  "printed_word w \<longleftrightarrow> quoted_leaf w \<or> (\<exists>cs l r. w = WList cs False l r \<and> cs \<noteq> [] \<and> list_all quoted_leaf cs)"

text \<open>The pieces spell a text.\<close>

definition spells :: "mrsh_word list \<Rightarrow> cstring \<Rightarrow> bool" where
  "spells ws t \<longleftrightarrow> list_all quoted_leaf ws \<and> (\<exists>ts. map mrsh_word_str ws = map Some ts \<and> concat ts = t)"

lemma spells_Nil [simp]: "spells [] t \<longleftrightarrow> t = []"
  by (auto simp: spells_def)

lemma spells_snoc: "spells ws t \<Longrightarrow> quoted_leaf w \<Longrightarrow> mrsh_word_str w = Some u \<Longrightarrow> spells (ws @ [w]) (t @ u)"
  unfolding spells_def by (elim exE conjE, rule conjI, simp, rule_tac x = "ts @ [u]" in exI, simp)

lemma those_Somes: "those (map Some ts) = Some ts"
  by (induction ts) simp_all

lemma spells_list: "spells ws t \<Longrightarrow> mrsh_word_str (mrsh_word_list_create ws dq) = Some t"
  by (auto simp: spells_def mrsh_word_str_def [abs_def] mrsh_word_list_create_def those_Somes)

lemma spells_finish: "spells ws t \<Longrightarrow> mrsh_word_str (finish_children ws) = Some t"
  using spells_list [of ws t] by (auto simp: finish_children_def spells_def split: list.split)

lemma printed_finish: "spells ws t \<Longrightarrow> ws \<noteq> [] \<Longrightarrow> printed_word (finish_children ws)"
  by (auto simp: spells_def printed_word_def finish_children_def mrsh_word_list_create_def split: list.split)

lemma spells_push:
  "spells ws t \<Longrightarrow> list_all is_arg_char buf \<Longrightarrow> spells (push_buffer_word_string ws buf cb p) (t @ buf)"
  by (auto simp: push_buffer_word_string_def mrsh_word_str_def intro: spells_snoc)

lemma push_not_empty: "ws \<noteq> [] \<or> buf \<noteq> [] \<Longrightarrow> push_buffer_word_string ws buf cb p \<noteq> []"
  by (auto simp: push_buffer_word_string_def)

lemma not_arg_chars:
  "list_all (\<lambda>c. \<not> is_arg_char c)
     ([NUL, NL, SPACE, TAB, SQUOTE, DQUOTE, BACKSLASH] @ ''#&|;<>()$`{}!'')"
  by (simp add: is_arg_char_def is_safe_def safe_chars_def char_classes)

lemma arg_char_plain:
  assumes "is_arg_char c"
  shows "starts_token c" "\<not> ends_word NUL c" "\<not> is_quoting c" "c \<noteq> NL" "c \<noteq> CHR '')''" "c \<noteq> CHR ''(''" "c \<noteq> NUL"
    "\<not> is_operator_start c" "\<not> is_blank c" "c \<noteq> BACKSLASH"
  using not_arg_chars assms
  by (auto simp: starts_token_def ends_word_def is_quoting_def is_operator_start_def is_blank_def)

lemma skip_one: "skip 1 (parser_at (c # inp) pos cl b s) = parser_at inp (pos_after c pos) False b s"
  by (simp add: skip_def)

lemma word_loop_plain:
  assumes "list_all is_arg_char s" "k + length s \<le> n"
  shows "\<exists>n' cb' pos' cl'. k \<le> n' \<and>
    word_loop n D P NUL ch buf cb (token_parser (s @ rest) pos cl) =
    word_loop n' D P NUL ch (buf @ s) cb' (token_parser rest pos' cl')"
  using assms
proof (induction s arbitrary: n buf cb pos cl)
  case Nil
  then show ?case by auto
next
  case (Cons c s)
  then obtain m where n: "n = Suc m" "k + length s \<le> m"
    by (cases n) auto
  from Cons.prems(1) have c: "is_arg_char c" "list_all is_arg_char s"
    by simp_all
  have "word_loop n D P NUL ch buf cb (token_parser ((c # s) @ rest) pos cl) =
    word_loop m D P NUL ch (buf @ [c]) (child_start cb (token_parser ((c # s) @ rest) pos cl))
      (token_parser (s @ rest) (pos_after c pos) False)"
    using arg_char_plain [OF c(1)] skip_one [of c "s @ rest" pos True TOKEN cl]
    by (simp add: n Let_def parser_peek_char_def peek_at_def char_at_def)
  with Cons.IH [OF c(2) n(2), of "buf @ [c]"] show ?case
    by (metis append.assoc append_Cons append_Nil)
qed

lemma single_quotes_text:
  assumes "SQUOTE \<notin> set v"
  shows "\<exists>pos' cl'. single_quotes_loop buf (parser_at (v @ SQUOTE # rest) pos cl b s) =
    (Some (buf @ v), parser_at rest pos' cl' b s)"
  using assms
proof (induction v arbitrary: buf pos cl)
  case Nil
  then show ?case by (auto simp: single_quotes_loop.simps skip_def)
next
  case (Cons c v)
  from Cons.prems have "c \<noteq> SQUOTE" "SQUOTE \<notin> set v"
    by auto
  then have "single_quotes_loop buf (parser_at ((c # v) @ SQUOTE # rest) pos cl b s) =
      single_quotes_loop (buf @ [c]) (parser_at (v @ SQUOTE # rest) (pos_after c pos) (c = NL) b s)"
    by (simp add: single_quotes_loop.simps [of buf] skip_line_def skip_def)
  with Cons.IH [of "buf @ [c]" "pos_after c pos" "c = NL"] \<open>SQUOTE \<notin> set v\<close> show ?case
    by simp
qed

lemma single_quotes_word:
  assumes "SQUOTE \<notin> set v"
  obtains r pos' cl' where
    "single_quotes (parser_at (SQUOTE # v @ SQUOTE # rest) pos cl b s) =
       Inr (Some (WString v True False r), parser_at rest pos' cl' b s)"
  using single_quotes_text [OF assms, of "[]" rest "pos_after SQUOTE pos" b s False]
  by (auto simp: single_quotes_def read_expected_def read_char_eq skip_def)

lemma quote_read:
  "\<exists>w pos' cl'. mrsh_word_str w = Some [SQUOTE] \<and> quoted_leaf w \<and>
     double_quotes (Suc (Suc n)) D P (parser_at (DQUOTE # SQUOTE # DQUOTE # rest) pos cl b s) =
       Inr (Some w, parser_at rest pos' cl' b s)"
  by (auto simp: double_quotes_def read_expected_def read_char_eq skip_def Let_def parser_peek_char_def peek_at_def
      char_at_def unescaped_def push_buffer_word_string_def mrsh_word_str_def)

lemma double_quoted_quote:
  obtains w pos' cl' where "mrsh_word_str w = Some [SQUOTE]" "quoted_leaf w"
    and "double_quotes (Suc (Suc n)) D P (parser_at (DQUOTE # SQUOTE # DQUOTE # rest) pos cl b s) =
      Inr (Some w, parser_at rest pos' cl' b s)"
  using quote_read [of n D P rest pos b s cl] by (elim exE conjE) (rule that)

lemma word_loop_single_quoted:
  assumes "single_quotes (token_parser (SQUOTE # inp) pos cl) = Inr (Some w, q)"
  shows "word_loop (Suc n) D P NUL ch [] cb (token_parser (SQUOTE # inp) pos cl) = word_loop n D P NUL (ch @ [w]) [] position_zero q"
  using assms
  by (simp add: Let_def parser_peek_char_def peek_at_def char_at_def is_quoting_def push_buffer_word_string_def quoted_child_def)

lemma word_loop_double_quoted:
  assumes "double_quotes n D P (token_parser (DQUOTE # inp) pos cl) = Inr (Some w, q)"
  shows "word_loop (Suc n) D P NUL ch [] cb (token_parser (DQUOTE # inp) pos cl) = word_loop n D P NUL (ch @ [w]) [] position_zero q"
  using assms
  by (simp add: Let_def parser_peek_char_def peek_at_def char_at_def is_quoting_def push_buffer_word_string_def quoted_child_def)

text \<open>A quoted value, from its first quote, where \<open>u\<close> has been read behind that.\<close>

lemma word_loop_quoted:
  assumes "SQUOTE \<notin> set u" "k + 2 * length v + 3 \<le> n" "spells ch t"
  shows "\<exists>n' ch' cb' pos' cl'. k \<le> n' \<and> spells ch' (t @ u @ v) \<and> ch' \<noteq> [] \<and>
    word_loop n D P NUL ch [] cb (token_parser (SQUOTE # u @ escape_quoted v @ SQUOTE # rest) pos cl) =
    word_loop n' D P NUL ch' [] cb' (token_parser rest pos' cl')"
  using assms
proof (induction v arbitrary: u n ch t cb pos cl)
  case Nil
  from Nil.prems(2) obtain m where n: "n = Suc m" "k \<le> m"
    by (cases n) auto
  obtain r pos' cl' where q: "single_quotes (token_parser (SQUOTE # u @ SQUOTE # rest) pos cl) =
      Inr (Some (WString u True False r), token_parser rest pos' cl')"
    using single_quotes_word [OF Nil.prems(1)] by metis
  have "word_loop n D P NUL ch [] cb (token_parser (SQUOTE # u @ SQUOTE # rest) pos cl) =
      word_loop m D P NUL (ch @ [WString u True False r]) [] position_zero (token_parser rest pos' cl')"
    unfolding n(1) using q by (rule word_loop_single_quoted)
  moreover have "spells (ch @ [WString u True False r]) (t @ u)"
    using Nil.prems(3) by (rule spells_snoc) (simp_all add: mrsh_word_str_def)
  ultimately show ?case
    using n(2) by (intro exI conjI) auto
next
  case (Cons c v)
  show ?case
  proof (cases "c = SQUOTE")
    case False
    with Cons.IH [of "u @ [c]" n ch t] Cons.prems show ?thesis by simp
  next
    case True
    define rest' where "rest' = DQUOTE # SQUOTE # DQUOTE # SQUOTE # escape_quoted v @ SQUOTE # rest"
    from Cons.prems(2) obtain j where n: "n = Suc (Suc (Suc (Suc j)))" "k + 2 * length v + 3 \<le> Suc (Suc j)"
      by (intro that [of "n - 4"]) auto
    obtain r pos1 cl1 where q: "single_quotes (token_parser (SQUOTE # u @ SQUOTE # rest') pos cl) =
        Inr (Some (WString u True False r), token_parser rest' pos1 cl1)"
      using single_quotes_word [OF Cons.prems(1)] by metis
    obtain w pos2 cl2 where d: "mrsh_word_str w = Some [SQUOTE]" "quoted_leaf w"
        "double_quotes (Suc (Suc j)) D P (token_parser rest' pos1 cl1) =
          Inr (Some w, token_parser (SQUOTE # escape_quoted v @ SQUOTE # rest) pos2 cl2)"
      unfolding rest'_def by (rule double_quoted_quote)
    have "word_loop n D P NUL ch [] cb (token_parser (SQUOTE # u @ SQUOTE # rest') pos cl) =
        word_loop (Suc (Suc j)) D P NUL (ch @ [WString u True False r, w]) [] position_zero
          (token_parser (SQUOTE # [] @ escape_quoted v @ SQUOTE # rest) pos2 cl2)"
      using word_loop_single_quoted [OF q, of "Suc (Suc (Suc j))"] word_loop_double_quoted [OF d(3) [unfolded rest'_def]]
      by (simp only: n(1) rest'_def append_Nil append.assoc append_Cons)
    moreover have "spells (ch @ [WString u True False r, w]) (t @ u @ [SQUOTE])"
      using spells_snoc [OF spells_snoc [OF Cons.prems(3), of "WString u True False r" u] d(2,1)]
      by (simp add: mrsh_word_str_def)
    ultimately show ?thesis
      using Cons.IH [of "[]" "Suc (Suc j)" "ch @ [WString u True False r, w]" "t @ u @ [SQUOTE]"] n(2) True
      by (simp add: rest'_def)
  qed
qed


text \<open>An argument: unquoted text, which may be empty, and a value.\<close>

definition printed_arg :: "cstring \<times> cstring \<Rightarrow> cstring" where
  "printed_arg a = fst a @ print_escaped (snd a)"

definition arg_text :: "cstring \<times> cstring \<Rightarrow> cstring" where
  "arg_text a = fst a @ snd a"

definition ends_arg :: "cstring \<Rightarrow> bool" where
  "ends_arg rest \<longleftrightarrow> (\<exists>c cs. rest = c # cs \<and> (c = SPACE \<or> c = NL))"

lemma word_loop_end:
  assumes "ends_arg rest" "0 < n" "spells ch t" "list_all is_arg_char buf" "ch \<noteq> [] \<or> buf \<noteq> []"
  shows "\<exists>w. word_loop n D P NUL ch buf cb (token_parser rest pos cl) = Inr (Some w, fresh_parser rest pos cl TOKEN) \<and>
    mrsh_word_str w = Some (t @ buf) \<and> printed_word w"
proof -
  let ?p = "token_parser rest pos cl"
  have "word_loop n D P NUL ch buf cb ?p = word_end ch buf (child_start cb ?p) ?p"
    using assms(1,2)
    by (cases n) (auto simp: ends_arg_def Let_def parser_peek_char_def peek_at_def char_at_def is_quoting_def
        is_operator_start_def is_blank_def)
  then show ?thesis
    using spells_push [OF assms(3,4)]
    by (simp add: word_end_def consume_symbol_def spells_finish printed_finish [OF spells_push [OF assms(3,4)] push_not_empty [OF assms(5)]])
qed

lemma word_loop_push:
  assumes "0 < n"
  shows "word_loop n D P NUL ch buf cb (token_parser (SQUOTE # inp) pos cl) =
    word_loop n D P NUL (push_buffer_word_string ch buf (child_start cb (token_parser (SQUOTE # inp) pos cl))
      (token_parser (SQUOTE # inp) pos cl)) [] cb (token_parser (SQUOTE # inp) pos cl)"
  using assms
  by (cases n) (simp_all add: Let_def parser_peek_char_def peek_at_def char_at_def is_quoting_def
      push_buffer_word_string_def [of _ "[]"])

lemma arg_chars_safe: "list_all is_safe v \<Longrightarrow> list_all is_arg_char v"
  by (auto simp: list_all_iff is_arg_char_def)

lemma word_loop_printed:
  assumes "list_all is_arg_char pre" "length pre + 2 * length v + 4 \<le> n" "ends_arg rest"
  shows "\<exists>w pos' cl'. word_loop n D P NUL [] [] cb (token_parser (pre @ print_escaped v @ rest) pos cl) =
      Inr (Some w, fresh_parser rest pos' cl' TOKEN) \<and> mrsh_word_str w = Some (pre @ v) \<and> printed_word w"
proof (cases "list_all is_safe v \<and> v \<noteq> []")
  case True
  then have plain: "list_all is_arg_char (pre @ v)" "1 + length (pre @ v) \<le> n"
    using assms arg_chars_safe by auto
  from word_loop_plain [OF plain, of D P "[]" "[]" cb rest pos cl]
  obtain n' cb' pos' cl' where w: "1 \<le> n'" "word_loop n D P NUL [] [] cb (token_parser ((pre @ v) @ rest) pos cl) =
      word_loop n' D P NUL [] (pre @ v) cb' (token_parser rest pos' cl')"
    by auto
  with word_loop_end [OF assms(3), of n' "[]" "[]" "pre @ v" D P cb' pos' cl'] plain True show ?thesis
    by (auto simp: print_escaped_def)
next
  case False
  define inp where "inp = escape_quoted v @ SQUOTE # rest"
  have front: "print_escaped v @ rest = SQUOTE # inp"
    using False by (auto simp: print_escaped_def inp_def)
  have "2 * length v + 4 + length pre \<le> n"
    using assms(2) by simp
  from word_loop_plain [OF assms(1) this, of D P "[]" "[]" cb "SQUOTE # inp" pos cl]
  obtain n1 cb1 pos1 cl1 where w1: "2 * length v + 4 \<le> n1"
      "word_loop n D P NUL [] [] cb (token_parser (pre @ SQUOTE # inp) pos cl) =
       word_loop n1 D P NUL [] pre cb1 (token_parser (SQUOTE # inp) pos1 cl1)"
    by auto
  define ch where "ch = push_buffer_word_string [] pre (child_start cb1 (token_parser (SQUOTE # inp) pos1 cl1))
      (token_parser (SQUOTE # inp) pos1 cl1)"
  have "0 < n1"
    using w1(1) by simp
  note w2 = word_loop_push [OF this, of D P "[]" pre cb1 inp pos1 cl1, folded ch_def]
  have "spells ch pre"
    using spells_push [of "[]" "[]"] assms(1) by (simp add: ch_def)
  with w1(1) obtain n2 ch2 cb2 pos2 cl2 where w3: "1 \<le> n2" "spells ch2 (pre @ v)" "ch2 \<noteq> []"
      "word_loop n1 D P NUL ch [] cb1 (token_parser (SQUOTE # inp) pos1 cl1) =
       word_loop n2 D P NUL ch2 [] cb2 (token_parser rest pos2 cl2)"
    using word_loop_quoted [of "[]" 1 v n1 ch pre D P cb1 rest pos1 cl1] by (auto simp: inp_def)
  with word_loop_end [OF assms(3) _ w3(2), of n2 "[]" D P cb2 pos2 cl2] w1(2) w2 show ?thesis
    by (auto simp: front)
qed

text \<open>The first characters of an argument: not those of an operator or a redirection.\<close>

lemma print_escaped_front:
  obtains c cs where "print_escaped v = c # cs" "is_arg_char c \<or> c = SQUOTE"
proof (cases "list_all is_safe v \<and> v \<noteq> []")
  case True
  then show ?thesis
    by (cases v) (auto intro: that simp: print_escaped_def is_arg_char_def)
next
  case False
  then show ?thesis
    by (intro that [of SQUOTE "escape_quoted v @ [SQUOTE]"]) (auto simp: print_escaped_def)
qed

lemma printed_arg_front:
  assumes "list_all is_arg_char (fst a)"
  obtains c cs where "printed_arg a = c # cs" "starts_token c" "c \<noteq> CHR '')''" "c \<noteq> CHR ''(''" "c \<noteq> NUL"
    and "is_digit c \<Longrightarrow> ends_arg rest \<Longrightarrow> char_at (cs @ rest) 0 \<notin> {CHR ''<'', CHR ''>''}"
proof -
  obtain d ds where d: "print_escaped (snd a) = d # ds" "is_arg_char d \<or> d = SQUOTE"
    by (rule print_escaped_front)
  have quote: "starts_token SQUOTE" "\<not> is_digit SQUOTE"
    by (simp_all add: starts_token_def is_blank_def is_operator_start_def char_classes)
  have plain: "\<not> is_arg_char (CHR ''<'')" "\<not> is_arg_char (CHR ''>'')"
    using not_arg_chars by simp_all
  show thesis
  proof (cases "fst a")
    case Nil
    have "is_digit d \<Longrightarrow> list_all is_arg_char ds"
      using d quote arg_chars_safe [of "snd a"] by (auto simp: print_escaped_def split: if_splits)
    then have "is_digit d \<Longrightarrow> ends_arg rest \<Longrightarrow> char_at (ds @ rest) 0 \<notin> {CHR ''<'', CHR ''>''}"
      using plain by (cases ds) (auto simp: char_at_def ends_arg_def)
    with Nil d quote arg_char_plain [of d] show ?thesis
      by (intro that [of d ds]) (auto simp: printed_arg_def)
  next
    case (Cons c cs)
    then have "char_at ((cs @ print_escaped (snd a)) @ rest) 0 \<notin> {CHR ''<'', CHR ''>''}"
      using d assms plain by (cases cs) (auto simp: char_at_def)
    with Cons assms arg_char_plain [of c] show ?thesis
      by (intro that [of c "cs @ print_escaped (snd a)"]) (auto simp: printed_arg_def)
  qed
qed


section \<open>Simple commands\<close>

lemma length_print_escaped: "length v \<le> length (print_escaped v)"
proof -
  have "length v \<le> length (escape_quoted v)"
    by (induction v) auto
  then show ?thesis
    by (simp add: print_escaped_def)
qed

lemma word_printed:
  assumes "list_all is_arg_char (fst a)" "2 * length (printed_arg a) + 4 \<le> n" "ends_arg rest"
  shows "\<exists>w pos' cl'. word n D P NUL (token_parser (printed_arg a @ rest) pos cl) =
      Inr (Some w, fresh_parser rest pos' cl' TOKEN) \<and> mrsh_word_str w = Some (arg_text a) \<and> printed_word w"
proof -
  obtain c cs where c: "printed_arg a = c # cs" "starts_token c" "c \<noteq> CHR '')''" "c \<noteq> NUL"
    by (rule printed_arg_front [OF assms(1)]) blast
  have "word n D P NUL (token_parser (printed_arg a @ rest) pos cl) =
      word_loop n D P NUL [] [] position_zero (token_parser (printed_arg a @ rest) pos cl)"
    using c by (simp add: word_def Let_def parser_peek_char_def peek_at_def char_at_def starts_token_def)
  moreover have "length (fst a) + 2 * length (snd a) + 4 \<le> n"
    using assms(2) length_print_escaped [of "snd a"] by (simp add: printed_arg_def)
  ultimately show ?thesis
    using word_loop_printed [OF assms(1) _ assms(3), of "snd a" n D P position_zero pos cl]
    by (simp add: printed_arg_def arg_text_def)
qed

text \<open>The symbol in front of the input is looked for first, which skips the blanks.\<close>

lemma io_redirect_blank:
  assumes "starts_token c" "is_digit c \<Longrightarrow> char_at inp 0 \<notin> {CHR ''<'', CHR ''>''}"
  shows "io_redirect e (fresh_parser (SPACE # c # inp) pos cl s) =
    Inr (None, token_parser (c # inp) (pos_after SPACE pos) False)"
proof -
  let ?q = "token_parser (c # inp) (pos_after SPACE pos) False"
  have safe: "\<not> (is_digit c \<and> peek_at ?q 1 \<in> set ''<>'')"
    using assms(2) by (auto simp: peek_at_def char_at_def split: if_splits)
  have number: "io_number (fresh_parser (SPACE # c # inp) pos cl s) = Inr (-1, ?q)"
    using safe assms(1) by (auto simp: io_number_def symbol_blank Let_def parser_peek_char_def peek_at_def char_at_def)
  have "io_redirect e (fresh_parser (SPACE # c # inp) pos cl s) = io_redirect e ?q"
    by (simp add: io_redirect_def Let_def number io_number_none [OF safe])
  with io_redirect_none [OF assms(1) safe] show ?thesis
    by simp
qed

lemma io_redirect_line_end:
  "io_redirect e (fresh_parser (NL # inp) pos cl s) = Inr (None, newline_parser inp pos cl)"
  by (simp add: io_redirect_def io_number_def Let_def io_file_def parse_redirect_op_def token_newline operator_none
      io_here_def bind_some_simps cong: parse_congs)

lemma word_newline: "word n D P end (newline_parser inp pos cl) = Inr (None, newline_parser inp pos cl)"
  by (simp add: word_def)

fun printed_args :: "(cstring \<times> cstring) list \<Rightarrow> cstring" where
  "printed_args [] = []"
| "printed_args (a # as) = SPACE # printed_arg a @ printed_args as"

lemma ends_arg_args: "ends_arg (printed_args as @ NL # rest)"
  by (cases as) (simp_all add: ends_arg_def)


lemma length_printed_args: "a \<in> set as \<Longrightarrow> length (printed_arg a) < length (printed_args as)"
  by (induction as) auto

text \<open>The arguments of a line.\<close>

lemma cmd_suffixes_printed:
  assumes "\<forall>a \<in> set as. list_all is_arg_char (fst a)" "\<forall>a \<in> set as. 2 * length (printed_arg a) + 4 \<le> g_fuel e"
    and "g_word e = word (g_fuel e) D P" "length as < k"
  shows "\<exists>ws' pos' cl'. cmd_suffixes k e [] ws (fresh_parser (printed_args as @ NL # rest) pos cl TOKEN) =
      Inr (([], ws @ ws'), newline_parser rest pos' cl') \<and> map mrsh_word_str ws' = map (Some \<circ> arg_text) as \<and>
      list_all printed_word ws'"
  using assms
proof (induction as arbitrary: k ws pos cl)
  case Nil
  then show ?case
    by (cases k) (auto simp: io_redirect_line_end word_newline)
next
  case (Cons a as)
  then obtain j where k: "k = Suc j" "length as < j"
    by (cases k) auto
  let ?rest = "printed_args as @ NL # rest"
  obtain c cs where c: "printed_arg a = c # cs" "starts_token c"
      "is_digit c \<Longrightarrow> char_at (cs @ ?rest) 0 \<notin> {CHR ''<'', CHR ''>''}"
    using printed_arg_front [of a ?rest] Cons.prems(1) ends_arg_args [of as rest] by (metis list.set_intros(1))
  let ?q = "token_parser (printed_arg a @ ?rest) (pos_after SPACE pos) False"
  have redirect: "io_redirect e (fresh_parser (SPACE # printed_arg a @ ?rest) pos cl TOKEN) = Inr (None, ?q)"
    using io_redirect_blank [OF c(2,3), of e pos TOKEN cl] c(1) by simp
  obtain w pos1 cl1 where w: "word (g_fuel e) D P NUL ?q = Inr (Some w, fresh_parser ?rest pos1 cl1 TOKEN)"
      "mrsh_word_str w = Some (arg_text a)" "printed_word w"
    using word_printed [of a "g_fuel e" ?rest D P "pos_after SPACE pos" False] Cons.prems ends_arg_args [of as rest]
    by auto
  have step: "cmd_suffixes k e [] ws (fresh_parser (printed_args (a # as) @ NL # rest) pos cl TOKEN) =
      cmd_suffixes j e [] (ws @ [w]) (fresh_parser ?rest pos1 cl1 TOKEN)"
    using redirect w(1) Cons.prems(3) by (simp add: k(1))
  obtain ws' pos' cl' where rec: "cmd_suffixes j e [] (ws @ [w]) (fresh_parser ?rest pos1 cl1 TOKEN) =
      Inr (([], (ws @ [w]) @ ws'), newline_parser rest pos' cl')" "map mrsh_word_str ws' = map (Some \<circ> arg_text) as"
      "list_all printed_word ws'"
    using Cons.IH [of j "ws @ [w]" pos1 cl1] Cons.prems k(2) by auto
  show ?case
    unfolding step rec(1) using w(2,3) rec(2,3) by (intro exI [of _ "w # ws'"]) auto
qed


text \<open>The name of a command: letters and digits, and no reserved word.\<close>

definition is_command_name :: "cstring \<Rightarrow> bool" where
  "is_command_name s \<longleftrightarrow> s \<noteq> [] \<and> list_all is_alnum s \<and> s \<notin> set keyword_names \<and> s \<notin> set reserved_words"

lemma alnum_plain:
  assumes "is_alnum c"
  shows "is_arg_char c" "is_name_char c" "\<not> ends_word NUL c" "c \<notin> set ''!{(''" "starts_token c"
proof -
  show arg: "is_arg_char c"
    using assms by (simp add: is_arg_char_def is_safe_def)
  show "is_name_char c"
    using assms by (simp add: is_name_char_def)
  show "\<not> ends_word NUL c" "c \<notin> set ''!{(''" "starts_token c"
    using arg_char_plain [OF arg] arg not_arg_chars by auto
qed

lemma takeWhile_front:
  "list_all P s \<Longrightarrow> \<not> P d \<Longrightarrow> takeWhile P (s @ d # rest) = s"
  by (induction s) auto

lemma ends_arg_chars: "c = SPACE \<or> c = NL \<Longrightarrow> ends_word NUL c \<and> \<not> is_quoting c \<and> \<not> is_name_char c \<and>
    c \<noteq> CHR '':'' \<and> c \<noteq> CHR ''='' \<and> c \<noteq> CHR ''<'' \<and> c \<noteq> CHR ''>''"
  by (auto simp: ends_word_def is_blank_def is_quoting_def is_name_char_def char_classes)

lemma peek_at_end:
  assumes "ends_arg rest"
  obtains d where "peek_at (token_parser (s @ rest) pos cl) (length s) = d" "d = SPACE \<or> d = NL"
  using assms that by (auto simp: ends_arg_def peek_at_def char_at_def nth_append)

lemma peek_word_name:
  assumes "list_all is_alnum s" "ends_arg rest"
  shows "peek_word NUL (token_parser (s @ rest) pos cl) = (length s, token_parser (s @ rest) pos cl)"
proof -
  obtain d rest' where d: "rest = d # rest'" "d = SPACE \<or> d = NL"
    using assms(2) by (auto simp: ends_arg_def)
  have "takeWhile (\<lambda>c. \<not> ends_word NUL c) (s @ d # rest') = s"
    using assms(1) ends_arg_chars [OF d(2)] alnum_plain(3) by (intro takeWhile_front) (auto simp: list_all_iff)
  with ends_arg_chars [OF d(2)] show ?thesis
    by (simp add: peek_word_def Let_def d(1) peek_at_def char_at_def)
qed

lemma peek_name_name:
  assumes "list_all is_alnum s" "ends_arg rest"
  shows "\<exists>k. (k = 0 \<or> k = length s) \<and>
    peek_name False (token_parser (s @ rest) pos cl) = (k, token_parser (s @ rest) pos cl)"
proof -
  obtain d rest' where d: "rest = d # rest'" "d = SPACE \<or> d = NL"
    using assms(2) by (auto simp: ends_arg_def)
  have "takeWhile is_name_char (s @ d # rest') = s"
    using assms(1) ends_arg_chars [OF d(2)] alnum_plain(2) by (intro takeWhile_front) (auto simp: list_all_iff)
  then show ?thesis
    by (simp add: peek_name_def d(1))
qed

lemma token_name:
  assumes "list_all is_alnum s" "ends_arg rest" "length str \<noteq> 1 \<or> is_alpha (hd str)" "s \<noteq> str"
  shows "token str (token_parser (s @ rest) pos cl) = (None, token_parser (s @ rest) pos cl)"
  using assms peek_word_name [OF assms(1,2), of pos cl] by (auto simp: token_def Let_def)

lemma token_not_name:
  assumes "list_all is_alnum s" "s \<noteq> []" "d \<in> set ''!{(''"
  shows "token [d] (token_parser (s @ rest) pos cl) = (None, token_parser (s @ rest) pos cl)"
proof -
  obtain c cs where s: "s = c # cs"
    using assms(2) by (cases s) auto
  with assms alnum_plain(4) [of c] have "c \<noteq> d"
    by auto
  with assms(3) show ?thesis
    unfolding s by (auto intro!: token_single)
qed

lemma unspecified_word_name:
  assumes "is_command_name s" "ends_arg rest"
  shows "unspecified_word (token_parser (s @ rest) pos cl) = (False, token_parser (s @ rest) pos cl)"
proof -
  have s: "list_all is_alnum s" "s \<notin> set reserved_words"
    using assms(1) by (simp_all add: is_command_name_def)
  obtain k where k: "k = 0 \<or> k = length s"
      "peek_name False (token_parser (s @ rest) pos cl) = (k, token_parser (s @ rest) pos cl)"
    using peek_name_name [OF s(1) assms(2)] by blast
  obtain d where d: "peek_at (token_parser (s @ rest) pos cl) (length s) = d" "d = SPACE \<or> d = NL"
    using peek_at_end [OF assms(2)] by blast
  show ?thesis
    using k(1) ends_arg_chars [OF d(2)] s(2)
    by (auto simp: unspecified_word_def peek_word_name [OF s(1) assms(2)] k(2) d(1) Let_def)
qed

lemma function_definition_name:
  assumes "list_all is_alnum s" "ends_arg rest" "take 1 (dropWhile is_blank rest) \<noteq> ''(''"
  shows "function_definition e (token_parser (s @ rest) pos cl) = Inr (None, token_parser (s @ rest) pos cl)"
proof -
  obtain k where k: "k = 0 \<or> k = length s"
      "peek_name False (token_parser (s @ rest) pos cl) = (k, token_parser (s @ rest) pos cl)"
    using peek_name_name [OF assms(1,2)] by blast
  then show ?thesis
    using assms(3) by (auto simp: function_definition_def before_paren_def)
qed

lemma compound_command_name:
  assumes "is_command_name s" "ends_arg rest" "take 1 (dropWhile is_blank rest) \<noteq> ''(''"
  shows "compound_command e (token_parser (s @ rest) pos cl) = Inr (None, token_parser (s @ rest) pos cl)"
proof -
  have s: "list_all is_alnum s" "s \<noteq> []" "s \<notin> set keyword_names"
    using assms(1) by (simp_all add: is_command_name_def)
  note one = token_not_name [OF s(1,2), of _ rest pos cl]
  note many = token_name [OF s(1) assms(2), of _ pos cl]
  have alpha: "is_alpha (CHR ''i'')" "is_alpha (CHR ''f'')" "is_alpha (CHR ''w'')" "is_alpha (CHR ''u'')" "is_alpha (CHR ''c'')"
    by (simp_all add: char_classes)
  show ?thesis
    using s(3)
    by (simp add: compound_command_def brace_group_def subshell_def between_def if_clause_def for_clause_def
        loop_clause_def loop_token_def case_clause_def one many keyword_names_def Let_def orelse_simps
        unspecified_word_name [OF assms(1,2)] function_definition_name [OF s(1) assms(2,3)] cong: parse_congs)
qed

text \<open>At the end of the line there is no command.\<close>

lemma compound_command_newline:
  "compound_command e (newline_parser inp pos cl) = Inr (None, newline_parser inp pos cl)"
  by (simp add: compound_command_def brace_group_def subshell_def between_def if_clause_def for_clause_def
      loop_clause_def loop_token_def case_clause_def token_newline Let_def orelse_simps unspecified_word_def
      peek_word_def function_definition_def peek_name_def cong: parse_congs)

lemma simple_command_newline:
  assumes "g_word e = word n D P" "0 < g_fuel e"
  shows "simple_command e (newline_parser inp pos cl) = Inr (None, newline_parser inp pos cl)"
  using assms by (cases "g_fuel e") (simp_all add: simple_command_def io_redirect_newline assignment_word_def cmd_name_def
      apply_aliases_def peek_word_def word_newline cong: parse_congs)

lemma assignment_word_name:
  assumes "list_all is_alnum s" "ends_arg rest"
  shows "assignment_word e (token_parser (s @ rest) pos cl) = Inr (None, token_parser (s @ rest) pos cl)"
proof -
  obtain k where k: "k = 0 \<or> k = length s"
      "peek_name False (token_parser (s @ rest) pos cl) = (k, token_parser (s @ rest) pos cl)"
    using peek_name_name [OF assms] by blast
  obtain d where d: "peek_at (token_parser (s @ rest) pos cl) (length s) = d" "d = SPACE \<or> d = NL"
    using peek_at_end [OF assms(2)] by blast
  show ?thesis
    using k(1) ends_arg_chars [OF d(2)] by (auto simp: assignment_word_def k(2) d(1))
qed

lemma io_redirect_name:
  assumes "list_all is_alnum s" "s \<noteq> []" "ends_arg rest"
  shows "io_redirect e (token_parser (s @ rest) pos cl) = Inr (None, token_parser (s @ rest) pos cl)"
proof -
  obtain c cs where s: "s = c # cs" "is_alnum c" "list_all is_alnum cs"
    using assms(1,2) by (cases s) auto
  have plain: "\<not> is_alnum (CHR ''<'')" "\<not> is_alnum (CHR ''>'')"
    by (simp_all add: char_classes)
  have "peek_at (token_parser (c # cs @ rest) pos cl) 1 \<noteq> CHR ''<'' \<and>
      peek_at (token_parser (c # cs @ rest) pos cl) 1 \<noteq> CHR ''>''"
  proof (cases cs)
    case Nil
    with assms(3) show ?thesis
      by (auto simp: peek_at_def char_at_def ends_arg_def)
  next
    case (Cons d ds)
    with s(3) plain show ?thesis
      by (auto simp: peek_at_def char_at_def)
  qed
  then show ?thesis
    using io_redirect_none [OF alnum_plain(5) [OF s(2)], of "cs @ rest" pos cl e] by (simp add: s(1))
qed

text \<open>The command of a line.\<close>

definition spells_command :: "mrsh_word \<Rightarrow> mrsh_word list \<Rightarrow> cstring \<Rightarrow> (cstring \<times> cstring) list \<Rightarrow> bool" where
  "spells_command nw ws s as \<longleftrightarrow> mrsh_word_str nw = Some s \<and> map mrsh_word_str ws = map (Some \<circ> arg_text) as \<and>
     list_all printed_word (nw # ws)"

lemma simple_command_printed:
  assumes "is_command_name s" "\<forall>a \<in> set as. list_all is_arg_char (fst a)"
    and "\<forall>a \<in> set as. 2 * length (printed_arg a) + 4 \<le> g_fuel e" "length as < g_fuel e" "g_word e = word (g_fuel e) D P"
  shows "\<exists>nw ws pos' cl'. simple_command e (token_parser (s @ printed_args as @ NL # rest) pos cl) =
      Inr (Some (SimpleCommand (Some nw) ws [] []), newline_parser rest pos' cl') \<and>
    spells_command nw ws s as"
proof -
  let ?rest = "printed_args as @ NL # rest"
  let ?p = "token_parser (s @ ?rest) pos cl"
  have s: "list_all is_alnum s" "s \<noteq> []" "s \<notin> set keyword_names"
    using assms(1) by (simp_all add: is_command_name_def)
  have rest: "ends_arg ?rest"
    by (rule ends_arg_args)
  obtain f where f: "g_fuel e = Suc f"
    using assms(4) by (cases "g_fuel e") auto
  have prefixes: "cmd_prefixes (g_fuel e) e [] [] ?p = Inr (([], []), ?p)"
    by (simp add: f io_redirect_name [OF s(1,2) rest] assignment_word_name [OF s(1) rest])
  have name: "cmd_name e ?p = Inr (Some (WString s False False (range_to pos (skip (length s) ?p))),
      fresh_parser ?rest (p_pos (skip (length s) ?p)) False TOKEN)"
    using s(2,3) by (simp add: cmd_name_def apply_aliases_def peek_word_name [OF s(1) rest] read_token_def parser_read_def
        parse_of_def consume_symbol_def) (simp add: skip_def)
  obtain ws pos' cl' where ws: "cmd_suffixes (g_fuel e) e [] []
        (fresh_parser ?rest (p_pos (skip (length s) ?p)) False TOKEN) = Inr (([], [] @ ws), newline_parser rest pos' cl')"
      "map mrsh_word_str ws = map (Some \<circ> arg_text) as" "list_all printed_word ws"
    using cmd_suffixes_printed [OF assms(2,3,5,4)] by blast
  show ?thesis
    using ws s(1) alnum_plain(1)
    by (simp add: simple_command_def prefixes name mrsh_word_str_def spells_command_def printed_word_def list_all_iff)
qed

lemma no_paren_behind:
  assumes "\<forall>a \<in> set as. list_all is_arg_char (fst a)"
  shows "take 1 (dropWhile is_blank (printed_args as @ NL # rest)) \<noteq> ''(''"
proof (cases as)
  case Nil
  then show ?thesis by (simp add: is_blank_def)
next
  case (Cons a bs)
  obtain c cs where "printed_arg a = c # cs" "starts_token c" "c \<noteq> CHR ''(''"
    using printed_arg_front [of a "[]"] assms Cons by (metis list.set_intros(1))
  then show ?thesis
    by (simp add: Cons is_blank_def starts_token_def)
qed

lemma pipeline_printed:
  assumes "is_command_name s" "\<forall>a \<in> set as. list_all is_arg_char (fst a)"
    and "\<forall>a \<in> set as. 2 * length (printed_arg a) + 4 \<le> Suc m" "length as < Suc m"
  shows "\<exists>nw ws pos' cl'. and_or (grammar_at (Suc m)) (token_parser (s @ printed_args as @ NL # rest) pos cl) =
      Inr (Some (Pipeline [SimpleCommand (Some nw) ws [] []] False position_zero), newline_parser rest pos' cl') \<and>
    spells_command nw ws s as"
proof -
  let ?e = "grammar_at (Suc m)"
  let ?p = "token_parser (s @ printed_args as @ NL # rest) pos cl"
  have s: "list_all is_alnum s" "s \<noteq> []"
    using assms(1) by (simp_all add: is_command_name_def)
  have "\<exists>nw ws pos' cl'. simple_command ?e ?p = Inr (Some (SimpleCommand (Some nw) ws [] []), newline_parser rest pos' cl') \<and>
      spells_command nw ws s as"
    by (rule simple_command_printed [where D = "dollar_at (Suc m)" and P = "program_at (Suc m)"])
      (use assms in \<open>auto simp: grammar_simps\<close>)
  then obtain nw ws pos' cl' where ws: "simple_command ?e ?p = Inr (Some (SimpleCommand (Some nw) ws [] []), newline_parser rest pos' cl')"
      "spells_command nw ws s as"
    by blast
  have command: "command ?e ?p = Inr (Some (SimpleCommand (Some nw) ws [] []), newline_parser rest pos' cl')"
    by (simp add: command_def apply_aliases_def grammar_simps level_simps orelse_simps ws(1)
        compound_command_name [OF assms(1) ends_arg_args no_paren_behind [OF assms(2)]])
  have "and_or ?e ?p = Inr (Some (Pipeline [SimpleCommand (Some nw) ws [] []] False position_zero), newline_parser rest pos' cl')"
    by (simp add: and_or_def grammar_simps bind_some_simps pipeline_def token_not_name [OF s] command token_newline
        binop_operator_def operator_none cong: parse_congs)
  with ws(2) show ?thesis
    by blast
qed

lemma list_at_newline: "parse_list (grammar_at (Suc m)) (newline_parser rest pos cl) = Inr (None, newline_parser rest pos cl)"
  by (simp add: parse_list_def and_or_def grammar_simps bind_some_simps pipeline_def token_newline command_def
      apply_aliases_def level_simps orelse_simps compound_command_newline simple_command_newline
      [where D = "dollar_at (Suc m)" and P = "program_at (Suc m)" and n = "Suc m"] cong: parse_congs)

lemma lists_printed:
  assumes "is_command_name s" "\<forall>a \<in> set as. list_all is_arg_char (fst a)"
    and "\<forall>a \<in> set as. 2 * length (printed_arg a) + 4 \<le> Suc (Suc m)" "length as < Suc (Suc m)"
  shows "\<exists>nw ws pos' cl'. complete_command (grammar_at (Suc (Suc m))) (token_parser (s @ printed_args as @ NL # rest) pos cl) =
      Inr ((True, [CommandList (Pipeline [SimpleCommand (Some nw) ws [] []] False position_zero) False position_zero]),
        newline_parser rest pos' cl') \<and>
    spells_command nw ws s as"
  using pipeline_printed [OF assms, of rest pos cl]
  by (elim exE conjE)
    (simp add: complete_command_def grammar_simps parse_list_def [of _ "token_parser _ _ _"] separator_op_def token_newline
      list_at_newline separated_def bind_some_simps cong: parse_congs)

lemma printed_no_nul:
  assumes "list_all is_arg_char (fst a)" "is_cstr (snd a)"
  shows "NUL \<notin> set (printed_arg a)"
proof -
  have "NUL \<notin> set (escape_quoted v)" if "NUL \<notin> set v" for v
    using that by (induction v) auto
  moreover have "NUL \<notin> set (fst a)"
    using assms(1) not_arg_chars by (auto simp: list_all_iff)
  ultimately show ?thesis
    using assms(2) by (auto simp: printed_arg_def print_escaped_def is_cstr_def)
qed

lemma printed_args_no_nul:
  "\<forall>a \<in> set as. list_all is_arg_char (fst a) \<and> is_cstr (snd a) \<Longrightarrow> NUL \<notin> set (printed_args as)"
  by (induction as) (auto simp: printed_no_nul)

text \<open>The line as a whole.\<close>

definition printed_line :: "cstring \<Rightarrow> (cstring \<times> cstring) list \<Rightarrow> cstring" where
  "printed_line s as = s @ printed_args as @ [NL]"

definition one_command :: "mrsh_command \<Rightarrow> mrsh_program" where
  "one_command c = Program [CommandList (Pipeline [c] False position_zero) False position_zero]"

lemma printed_line_parsed:
  assumes "is_command_name s" "\<forall>a \<in> set as. list_all is_arg_char (fst a) \<and> is_cstr (snd a)"
  shows "\<exists>nw ws q. mrsh_parse_line (parse_fuel (printed_line s as)) (mrsh_parser_with_data (printed_line s as)) =
      Inr (Some (one_command (SimpleCommand (Some nw) ws [] [])), q) \<and> spells_command nw ws s as \<and> p_input q = []"
proof -
  define line where "line = printed_line s as"
  note assms = assms line_def [unfolded printed_line_def]
  obtain c cs where s: "s = c # cs" "starts_token c" "list_all is_alnum s"
    using assms(1) alnum_plain(5) by (cases s) (auto simp: is_command_name_def)
  define m where "m = 2 * length line"
  have fuel: "parse_fuel line = Suc (Suc m)"
    by (simp add: parse_fuel_def m_def)
  have long: "2 * length (printed_arg a) + 4 \<le> Suc (Suc m)" if "a \<in> set as" for a
    using length_printed_args [OF that] by (simp add: m_def assms(3))
  have "length as \<le> length (printed_args as)"
    by (induction as) auto
  then have many: "length as < Suc (Suc m)"
    by (simp add: m_def assms(3))
  have "NUL \<notin> set s"
    using s(3) alnum_plain(1) not_arg_chars by (auto simp: list_all_iff)
  with printed_args_no_nul [OF assms(2)] have "cstr_of line = line"
    unfolding cstr_of_def by (intro takeWhile_eq_all_conv [THEN iffD2]) (auto simp: assms(3))
  then have start: "eof (parser_begin (mrsh_parser_with_data line)) =
      (False, token_parser (s @ printed_args as @ [NL]) \<lparr>pos_offset = 0, pos_line = 1, pos_column = 1\<rparr> False)"
    using symbol_fresh [OF s(2)]
    by (simp add: mrsh_parser_with_data_def parser_begin_def parser_clear_error_def eof_def assms(3) s(1))
  obtain nw ws pos' cl' where ws: "complete_command (grammar_at (Suc (Suc m)))
        (token_parser (s @ printed_args as @ [NL]) \<lparr>pos_offset = 0, pos_line = 1, pos_column = 1\<rparr> False) =
      Inr ((True, [CommandList (Pipeline [SimpleCommand (Some nw) ws [] []] False position_zero) False position_zero]),
        newline_parser [] pos' cl')"
      "spells_command nw ws s as"
    using lists_printed [OF assms(1) _ _ many, of "[]"] assms(2) long by blast
  show ?thesis
    unfolding line_def [symmetric] using ws(2)
    by (simp add: one_command_def entry_simps fuel parse_line_def start [unfolded eof_def] newline_def parse_of_def expect_complete_command_def ws(1)
        eof_def parser_read_char_def parser_read_def skip_def consume_symbol_def filled_def)
qed

section \<open>Properties\<close>

text \<open>C13: What the shell prints for use as input is read back by its own parser: a line of a name and of
  arguments printed with \<open>print_escaped\<close>, each behind unquoted text such as \<open>NAME=\<close>, is one simple command, with
  one word for each argument, whose text is the value, whatever characters the values hold. This is the output
  of \<open>export -p\<close>, \<open>readonly -p\<close> and \<open>trap\<close>.\<close>

theorem printed_line_read_back:
  assumes "is_command_name s" "\<forall>a \<in> set as. list_all is_arg_char (fst a) \<and> is_cstr (snd a)"
  shows "\<exists>nw ws q. mrsh_parse_line (parse_fuel (printed_line s as)) (mrsh_parser_with_data (printed_line s as)) =
      Inr (Some (one_command (SimpleCommand (Some nw) ws [] [])), q) \<and>
    mrsh_word_str nw = Some s \<and> map mrsh_word_str ws = map (Some \<circ> arg_text) as \<and> p_input q = []"
  using printed_line_parsed [OF assms] unfolding spells_command_def by blast

text \<open>At a value that holds a quote and a blank.\<close>

theorem printed_line_read_back_witness:
  "\<exists>nw ws q. mrsh_parse_line (parse_fuel (printed_line ''export'' [(''A='', ''it'' @ [SQUOTE] @ ''s 1'')]))
      (mrsh_parser_with_data (printed_line ''export'' [(''A='', ''it'' @ [SQUOTE] @ ''s 1'')])) =
      Inr (Some (one_command (SimpleCommand (Some nw) ws [] [])), q) \<and>
    mrsh_word_str nw = Some ''export'' \<and> map mrsh_word_str ws = [Some (''A=it'' @ [SQUOTE] @ ''s 1'')] \<and> p_input q = []"
  using printed_line_read_back [of "''export''" "[(''A='', ''it'' @ [SQUOTE] @ ''s 1'')]"]
  by (simp add: is_command_name_def char_classes keyword_names_def reserved_words_def is_arg_char_def is_safe_def safe_chars_def
      is_cstr_def arg_text_def)

section \<open>Texts the parser fails on\<close>

lemma dollar_plain: "\<not> is_name_char (CHR ''$'')" "\<not> is_name_char (CHR ''{'')" "\<not> is_name_char (CHR ''#'')"
  "\<not> is_name_char (CHR ''}'')" "\<not> is_name_char NUL" "\<not> is_digit (CHR ''$'')"
  by (simp_all add: is_name_char_def char_classes)

text \<open>C40: An unterminated parameter ends the shell: the text \<open>${\<close> and a name, without a closing brace, fails
  the assertion of \<open>parser_read\<close> that the end of the text is not read, in place of a syntax error.\<close>

theorem unterminated_parameter_aborts:
  assumes "list_all is_name_char name" "name \<noteq> []"
  shows "mrsh_parse_program (parse_fuel (''${'' @ name)) (mrsh_parser_with_data (''${'' @ name)) = Inl ParseCrash"
proof -
  obtain c cs where name: "name = c # cs" "is_name_char c" "list_all is_name_char cs"
    using assms by (cases name) auto
  have cstr: "cstr_of (''${'' @ name) = ''${'' @ name"
    using assms(1) dollar_plain(5) unfolding cstr_of_def by (intro takeWhile_eq_all_conv [THEN iffD2]) (auto simp: list_all_iff)
  have c: "c \<noteq> CHR ''#''" "takeWhile is_name_char cs = cs"
    using name(2,3) dollar_plain(3) by (auto simp: list_all_iff)
  obtain m where m: "parse_fuel (''${'' @ name) = Suc (Suc (Suc m))"
    by (simp add: parse_fuel_def name(1))
  have "program_at (Suc (Suc (Suc m))) (mrsh_parser_with_data (''${'' @ name)) = Inl ParseCrash"
    unfolding mrsh_parser_with_data_def cstr
    by (simp add: name(1,2) c dollar_plain parse_eval cong: parse_congs del: is_name_char_def mrsh_parser_with_data_def cstr_of_def)
  then show ?thesis
    by (simp only: m entry_simps)
qed

theorem unterminated_parameter_aborts_witness:
  "mrsh_parse_program (parse_fuel ''${x'') (mrsh_parser_with_data ''${x'') = Inl ParseCrash"
  using unterminated_parameter_aborts [of "''x''"] by (simp add: is_name_char_def char_classes)

text \<open>Blanks are skipped before the value of an assignment: \<open>A= b\<close> assigns \<open>b\<close> and runs nothing.\<close>

lemma parse_empty_assignment:
  "\<exists>q w rg pos. mrsh_parse_program six_levels (mrsh_parser_with_data ''A= b'') =
     Inr (Some (one_command (SimpleCommand None [] [] [Assignment ''A'' w rg pos])), q) \<and> mrsh_word_str w = Some ''b''"
  by (simp add: one_command_def mrsh_word_str_def parse_eval cong: parse_congs)

text \<open>What does not belong to the program is dropped without a message: here \<open>)b\<close>.\<close>

lemma parse_trailing_text:
  "\<exists>q. mrsh_parse_program six_levels (mrsh_parser_with_data ''a)b'') =
     Inr (Some (one_command (SimpleCommand (Some (plain_word ''a'' 0)) [] [] [])), q) \<and> mrsh_parser_error q = None \<and> p_input q = '')b''"
  by (simp add: one_command_def parse_eval cong: parse_congs)

text \<open>The command behind a here-document is dropped by \<open>mrsh_parse_program\<close>, and \<open>mrsh_parse_line\<close> refuses the line.\<close>

lemma parse_behind_here_document:
  "\<exists>q c. mrsh_parse_program six_levels (mrsh_parser_with_data (''a<<E'' @ [NL] @ ''E'' @ [NL] @ ''b'')) =
     Inr (Some (one_command c), q) \<and> mrsh_parser_error q = None \<and> p_input q = ''b''"
  by (simp add: one_command_def mrsh_word_str_def parse_eval cong: parse_congs)

lemma parse_line_here_document:
  "\<exists>q. mrsh_parse_line six_levels (mrsh_parser_with_data (''a<<E'' @ [NL] @ ''E'' @ [NL] @ ''b'')) = Inr (None, q) \<and>
     mrsh_parser_error q = Some ''expected a newline''"
  by (simp add: mrsh_word_str_def parse_eval cong: parse_congs)

text \<open>Braces and the bang need no blank behind them, and a name with a colon is refused.\<close>

lemma parse_braces:
  "\<exists>q body l r. mrsh_parse_program six_levels (mrsh_parser_with_data ''{a;}'') =
     Inr (Some (one_command (BraceGroup body l r)), q)"
  by (simp add: one_command_def parse_eval cong: parse_congs)

lemma parse_name_colon:
  "\<exists>q. mrsh_parse_program six_levels (mrsh_parser_with_data ''a:b'') = Inr (None, q)"
  by (simp add: parse_eval cong: parse_congs)

end
