(* ===== verification/Parser_Fuel.thy ===== *)
theory Parser_Fuel
  imports Parser_Program
begin

text \<open>
  The bound on the nesting does not influence what the parser makes of a text: a result reached with
  some bound is the result with every larger one. \<open>le_parse r r'\<close> says that \<open>r\<close> ran out of fuel or is
  \<open>r'\<close>; the parsers are monotone for it, which the rules of \<open>parse_mono\<close> collect.
\<close>

named_theorems parse_mono

definition le_parse :: "'a parse \<Rightarrow> 'a parse \<Rightarrow> bool" where
  "le_parse r r' \<longleftrightarrow> r = Inl ParseFuel \<or> r = r'"

definition le_parser :: "'a parser \<Rightarrow> 'a parser \<Rightarrow> bool" where
  "le_parser f g \<longleftrightarrow> (\<forall>p. le_parse (f p) (g p))"

lemma le_parserD: "le_parser f g \<Longrightarrow> le_parse (f p) (g p)"
  by (simp add: le_parser_def)

lemma le_parserI: "(\<And>p. le_parse (f p) (g p)) \<Longrightarrow> le_parser f g"
  by (simp add: le_parser_def)

lemma le_parse_refl [parse_mono, simp]: "le_parse r r"
  by (simp add: le_parse_def)

lemma le_parse_fuel [parse_mono, simp]: "le_parse (Inl ParseFuel) r"
  by (simp add: le_parse_def)

lemma le_bind_parse [parse_mono]:
  "le_parse r r' \<Longrightarrow> (\<And>x p. le_parse (f x p) (g x p)) \<Longrightarrow> le_parse (bind_parse r f) (bind_parse r' g)"
  by (auto simp: le_parse_def bind_parse_def split: sum.splits)

lemma le_parse_if [parse_mono]:
  "(b \<Longrightarrow> le_parse x x') \<Longrightarrow> (\<not> b \<Longrightarrow> le_parse y y') \<Longrightarrow> le_parse (if b then x else y) (if b then x' else y')"
  by simp

lemma le_parse_prod [parse_mono]:
  "(\<And>a b. le_parse (f a b) (g a b)) \<Longrightarrow> le_parse (case p of (a, b) \<Rightarrow> f a b) (case p of (a, b) \<Rightarrow> g a b)"
  by (cases p) simp

lemma le_parse_prod_state [parse_mono]:
  "(\<And>a b. le_parse (f a b s) (g a b s)) \<Longrightarrow>
    le_parse ((case p of (a, b) \<Rightarrow> f a b) s) ((case p of (a, b) \<Rightarrow> g a b) s)"
  by (cases p) simp

lemma le_parse_option [parse_mono]:
  "le_parse x x' \<Longrightarrow> (\<And>v. le_parse (f v) (g v)) \<Longrightarrow>
    le_parse (case opt of None \<Rightarrow> x | Some v \<Rightarrow> f v) (case opt of None \<Rightarrow> x' | Some v \<Rightarrow> g v)"
  by (cases opt) simp_all

lemma le_parse_bool [parse_mono]:
  "le_parse x x' \<Longrightarrow> le_parse y y' \<Longrightarrow> le_parse (case b of True \<Rightarrow> x | False \<Rightarrow> y) (case b of True \<Rightarrow> x' | False \<Rightarrow> y')"
  by (cases b) simp_all

lemma le_parse_let [parse_mono]:
  "(\<And>v. le_parse (f v) (g v)) \<Longrightarrow> le_parse (let v = x in f v) (let v = x in g v)"
  by simp

lemma le_bind_some [parse_mono]:
  "le_parse r r' \<Longrightarrow> (\<And>x p. le_parse (f x p) (g x p)) \<Longrightarrow> le_parse (bind_some r f) (bind_some r' g)"
  unfolding bind_some_def by (intro parse_mono)

lemma le_orelse [parse_mono]:
  "le_parse r r' \<Longrightarrow> (\<And>p. le_parse (f p) (g p)) \<Longrightarrow> le_parse (orelse_parse r f) (orelse_parse r' g)"
  unfolding orelse_parse_def by (intro parse_mono)

text \<open>A bound that grows.\<close>

lemma Suc_bound:
  assumes "Suc n \<le> m"
  obtains m' where "m = Suc m'" "n \<le> m'"
  using assms by (cases m) auto

section \<open>Words\<close>

lemma le_back_quotes [parse_mono]:
  assumes "le_parser P P'"
  shows "le_parse (back_quotes P p) (back_quotes P' p)"
proof -
  have sub: "le_parse (case r of Inl e \<Rightarrow> Inl e | Inr (prog, q) \<Rightarrow> f prog q)
      (case r' of Inl e \<Rightarrow> Inl e | Inr (prog, q) \<Rightarrow> f prog q)"
    if "le_parse r r'" for r r' :: "mrsh_program option parse" and f
    using that by (auto simp: le_parse_def split: sum.splits)
  show ?thesis
    unfolding back_quotes_def by (intro parse_mono sub le_parserD [OF assms])
qed

lemma le_double_quotes_loop:
  "n \<le> m \<Longrightarrow> le_parser D D' \<Longrightarrow> le_parser P P' \<Longrightarrow>
    le_parse (double_quotes_loop n D P cs buf b p) (double_quotes_loop m D' P' cs buf b p)"
proof (induction n arbitrary: m cs buf b p)
  case (Suc n)
  from Suc.prems(1) obtain m' where m: "m = Suc m'" "n \<le> m'"
    by (rule Suc_bound)
  show ?case
    unfolding m(1) double_quotes_loop.simps
    by (intro parse_mono Suc.IH [OF m(2)] Suc.prems le_parserD [OF Suc.prems(2)])
qed simp

lemma le_double_quotes [parse_mono]:
  "n \<le> m \<Longrightarrow> le_parser D D' \<Longrightarrow> le_parser P P' \<Longrightarrow> le_parse (double_quotes n D P p) (double_quotes m D' P' p)"
  unfolding double_quotes_def by (intro parse_mono le_double_quotes_loop)

lemma le_quoted_child [parse_mono]:
  "n \<le> m \<Longrightarrow> le_parser D D' \<Longrightarrow> le_parser P P' \<Longrightarrow> le_parse (quoted_child n D P p) (quoted_child m D' P' p)"
  unfolding quoted_child_def by (intro parse_mono) (simp_all add: le_parserD)

lemma le_word_loop:
  "n \<le> m \<Longrightarrow> le_parser D D' \<Longrightarrow> le_parser P P' \<Longrightarrow>
    le_parse (word_loop n D P end cs buf b p) (word_loop m D' P' end cs buf b p)"
proof (induction n arbitrary: m cs buf b p)
  case (Suc n)
  from Suc.prems(1) obtain m' where m: "m = Suc m'" "n \<le> m'"
    by (rule Suc_bound)
  show ?case
    unfolding m(1) word_loop.simps
    by (intro parse_mono Suc.IH [OF m(2)] Suc.prems m(2))
qed simp

lemma le_word [parse_mono]:
  "n \<le> m \<Longrightarrow> le_parser D D' \<Longrightarrow> le_parser P P' \<Longrightarrow> le_parse (word n D P end p) (word m D' P' end p)"
  unfolding word_def by (intro parse_mono le_word_loop)

lemma le_arithmetic_word_loop:
  "n \<le> m \<Longrightarrow> le_parser D D' \<Longrightarrow> le_parser P P' \<Longrightarrow>
    le_parse (arithmetic_word_loop n D P cs buf b p) (arithmetic_word_loop m D' P' cs buf b p)"
proof (induction n arbitrary: m cs buf b p)
  case (Suc n)
  from Suc.prems(1) obtain m' where m: "m = Suc m'" "n \<le> m'"
    by (rule Suc_bound)
  show ?case
    unfolding m(1) arithmetic_word_loop.simps
    by (intro parse_mono Suc.IH [OF m(2)] Suc.prems m(2))
qed simp

lemma le_arithmetic_word [parse_mono]:
  "n \<le> m \<Longrightarrow> le_parser D D' \<Longrightarrow> le_parser P P' \<Longrightarrow> le_parse (arithmetic_word n D P end p) (arithmetic_word m D' P' end p)"
  unfolding arithmetic_word_def by (intro parse_mono le_arithmetic_word_loop)

lemma le_parameter_expansion_word_loop:
  "n \<le> m \<Longrightarrow> le_parser D D' \<Longrightarrow> le_parser P P' \<Longrightarrow>
    le_parse (parameter_expansion_word_loop n D P cs buf b p) (parameter_expansion_word_loop m D' P' cs buf b p)"
proof (induction n arbitrary: m cs buf b p)
  case (Suc n)
  from Suc.prems(1) obtain m' where m: "m = Suc m'" "n \<le> m'"
    by (rule Suc_bound)
  show ?case
    unfolding m(1) parameter_expansion_word_loop.simps
    by (intro parse_mono Suc.IH [OF m(2)] Suc.prems m(2))
qed simp

lemma le_parameter_expansion_word [parse_mono]:
  "n \<le> m \<Longrightarrow> le_parser D D' \<Longrightarrow> le_parser P P' \<Longrightarrow>
    le_parse (parameter_expansion_word n D P p) (parameter_expansion_word m D' P' p)"
  unfolding parameter_expansion_word_def by (intro le_parameter_expansion_word_loop)

definition le_words_of :: "(char \<Rightarrow> mrsh_word option parser) \<Rightarrow> (char \<Rightarrow> mrsh_word option parser) \<Rightarrow> bool" where
  "le_words_of W W' \<longleftrightarrow> (\<forall>end. le_parser (W end) (W' end))"

lemma le_words_ofD: "le_words_of W W' \<Longrightarrow> le_parse (W end p) (W' end p)"
  by (simp add: le_words_of_def le_parserD)

lemma le_word_list_loop:
  "n \<le> m \<Longrightarrow> le_words_of W W' \<Longrightarrow> le_parse (word_list_loop n end W cs p) (word_list_loop m end W' cs p)"
proof (induction n arbitrary: m cs p)
  case (Suc n)
  from Suc.prems(1) obtain m' where m: "m = Suc m'" "n \<le> m'"
    by (rule Suc_bound)
  show ?case
    unfolding m(1) word_list_loop.simps
    by (intro parse_mono Suc.IH [OF m(2)] Suc.prems le_words_ofD)
qed simp

lemma le_word_list [parse_mono]:
  "n \<le> m \<Longrightarrow> le_words_of W W' \<Longrightarrow> le_parse (word_list n end W p) (word_list m end W' p)"
  unfolding word_list_def by (intro parse_mono le_word_list_loop)

lemma le_expect_parameter_expression [parse_mono]:
  "n \<le> m \<Longrightarrow> le_words_of W W' \<Longrightarrow>
    le_parse (expect_parameter_expression n W dollar p) (expect_parameter_expression m W' dollar p)"
  unfolding expect_parameter_expression_def by (intro parse_mono)

lemma le_expect_word_command [parse_mono]:
  "le_parser P P' \<Longrightarrow> le_parse (expect_word_command P p) (expect_word_command P' p)"
  unfolding expect_word_command_def by (intro parse_mono le_parserD)

lemma le_expect_word_arithmetic [parse_mono]:
  "n \<le> m \<Longrightarrow> le_words_of W W' \<Longrightarrow> le_parse (expect_word_arithmetic n W p) (expect_word_arithmetic m W' p)"
  unfolding expect_word_arithmetic_def by (intro parse_mono)

lemma le_expect_dollar [parse_mono]:
  "n \<le> m \<Longrightarrow> le_words_of W W' \<Longrightarrow> le_words_of A A' \<Longrightarrow> le_parser P P' \<Longrightarrow>
    le_parse (expect_dollar n W A P p) (expect_dollar m W' A' P' p)"
  unfolding expect_dollar_def by (intro parse_mono)

section \<open>Programs\<close>

definition le_grammar :: "grammar \<Rightarrow> grammar \<Rightarrow> bool" where
  "le_grammar e e' \<longleftrightarrow> g_fuel e \<le> g_fuel e' \<and> le_words_of (g_word e) (g_word e') \<and>
     le_parser (g_line e) (g_line e') \<and> le_parser (g_compound e) (g_compound e')"

lemma le_grammarD:
  assumes "le_grammar e e'"
  shows "g_fuel e \<le> g_fuel e'" "le_parse (g_word e end p) (g_word e' end p)"
    "le_parse (g_line e p) (g_line e' p)" "le_parse (g_compound e p) (g_compound e' p)"
  using assms by (simp_all add: le_grammar_def le_words_ofD le_parserD)

lemma le_apply_aliases_loop:
  "n \<le> m \<Longrightarrow> le_parse (apply_aliases_loop n get l p) (apply_aliases_loop m get l p)"
proof (induction n arbitrary: m l p)
  case (Suc n)
  from Suc.prems(1) obtain m' where m: "m = Suc m'" "n \<le> m'"
    by (rule Suc_bound)
  show ?case
    unfolding m(1) apply_aliases_loop.simps by (intro parse_mono Suc.IH [OF m(2)])
qed simp

lemma le_apply_aliases [parse_mono]:
  "le_grammar e e' \<Longrightarrow> le_parse (apply_aliases e p) (apply_aliases e' p)"
  unfolding apply_aliases_def by (intro parse_mono le_apply_aliases_loop le_grammarD)

lemma le_here_name [parse_mono]:
  "le_grammar e e' \<Longrightarrow> le_parse (here_name e op r p) (here_name e' op r p)"
  unfolding here_name_def by (intro parse_mono le_grammarD)

lemma le_io_here [parse_mono]:
  "le_grammar e e' \<Longrightarrow> le_parse (io_here e p) (io_here e' p)"
  unfolding io_here_def by (intro parse_mono le_grammarD)

lemma le_filename [parse_mono]:
  "le_grammar e e' \<Longrightarrow> le_parse (filename e p) (filename e' p)"
  unfolding filename_def by (intro parse_mono le_grammarD)

lemma le_io_file [parse_mono]:
  "le_grammar e e' \<Longrightarrow> le_parse (io_file e p) (io_file e' p)"
  unfolding io_file_def by (intro parse_mono le_grammarD)

lemma le_io_redirect [parse_mono]:
  "le_grammar e e' \<Longrightarrow> le_parse (io_redirect e p) (io_redirect e' p)"
  unfolding io_redirect_def by (intro parse_mono le_grammarD)

lemma le_assignment_word [parse_mono]:
  "le_grammar e e' \<Longrightarrow> le_parse (assignment_word e p) (assignment_word e' p)"
  unfolding assignment_word_def by (intro parse_mono le_grammarD)

lemma le_cmd_prefixes [parse_mono]:
  "n \<le> m \<Longrightarrow> le_grammar e e' \<Longrightarrow> le_parse (cmd_prefixes n e rs xs p) (cmd_prefixes m e' rs xs p)"
proof (induction n arbitrary: m rs xs p)
  case (Suc n)
  from Suc.prems(1) obtain m' where m: "m = Suc m'" "n \<le> m'"
    by (rule Suc_bound)
  show ?case
    unfolding m(1) cmd_prefixes.simps by (intro parse_mono le_grammarD Suc.IH [OF m(2)] Suc.prems(2))
qed simp

lemma le_cmd_name [parse_mono]:
  "le_grammar e e' \<Longrightarrow> le_parse (cmd_name e p) (cmd_name e' p)"
  unfolding cmd_name_def by (intro parse_mono le_grammarD)

lemma le_cmd_suffixes [parse_mono]:
  "n \<le> m \<Longrightarrow> le_grammar e e' \<Longrightarrow> le_parse (cmd_suffixes n e rs xs p) (cmd_suffixes m e' rs xs p)"
proof (induction n arbitrary: m rs xs p)
  case (Suc n)
  from Suc.prems(1) obtain m' where m: "m = Suc m'" "n \<le> m'"
    by (rule Suc_bound)
  show ?case
    unfolding m(1) cmd_suffixes.simps by (intro parse_mono le_grammarD Suc.IH [OF m(2)] Suc.prems(2))
qed simp

lemma le_parse_simple_command [parse_mono]:
  "le_grammar e e' \<Longrightarrow> le_parse (simple_command e p) (simple_command e' p)"
  unfolding simple_command_def by (intro parse_mono le_grammarD)

lemma le_parse_here_line [parse_mono]:
  assumes "le_grammar e e'"
  shows "le_parse (parse_here_line e expand line p) (parse_here_line e' expand line p)"
  using le_grammarD(3) [OF assms, of "mrsh_parser_with_data line"]
  by (auto simp: le_parse_def parse_here_line_def)

lemma le_parse_here_document_lines [parse_mono]:
  "n \<le> m \<Longrightarrow> le_grammar e e' \<Longrightarrow> le_parse (parse_here_document_lines n e trim expand delim acc p) (parse_here_document_lines m e' trim expand delim acc p)"
proof (induction n arbitrary: m trim expand delim acc p)
  case (Suc n)
  from Suc.prems(1) obtain m' where m: "m = Suc m'" "n \<le> m'"
    by (rule Suc_bound)
  show ?case
    unfolding m(1) parse_here_document_lines.simps by (intro parse_mono le_grammarD Suc.IH [OF m(2)] Suc.prems(2))
qed simp

lemma le_expect_here_document [parse_mono]:
  "le_grammar e e' \<Longrightarrow> le_parse (expect_here_document e r p) (expect_here_document e' r p)"
  unfolding expect_here_document_def by (intro parse_mono le_grammarD)

lemma le_expect_here_documents [parse_mono]:
  "le_grammar e e' \<Longrightarrow> le_parse (expect_here_documents e first rs p) (expect_here_documents e' first rs p)"
  by (induction rs arbitrary: p) (simp_all, intro parse_mono)

lemma le_command [parse_mono]:
  "le_grammar e e' \<Longrightarrow> le_parse (command e p) (command e' p)"
  unfolding command_def by (intro parse_mono le_grammarD)

lemma le_parse_pipeline_loop [parse_mono]:
  "n \<le> m \<Longrightarrow> le_grammar e e' \<Longrightarrow> le_parse (parse_pipeline_loop n e cs p) (parse_pipeline_loop m e' cs p)"
proof (induction n arbitrary: m cs p)
  case (Suc n)
  from Suc.prems(1) obtain m' where m: "m = Suc m'" "n \<le> m'"
    by (rule Suc_bound)
  show ?case
    unfolding m(1) parse_pipeline_loop.simps by (intro parse_mono le_grammarD Suc.IH [OF m(2)] Suc.prems(2))
qed simp

lemma le_pipeline [parse_mono]:
  "le_grammar e e' \<Longrightarrow> le_parse (pipeline e p) (pipeline e' p)"
  unfolding pipeline_def by (intro parse_mono le_grammarD)

lemma le_and_or_loop [parse_mono]:
  "n \<le> m \<Longrightarrow> le_grammar e e' \<Longrightarrow> le_parse (and_or_loop n e  p) (and_or_loop m e'  p)"
proof (induction n arbitrary: m  p)
  case (Suc n)
  from Suc.prems(1) obtain m' where m: "m = Suc m'" "n \<le> m'"
    by (rule Suc_bound)
  show ?case
    unfolding m(1) and_or_loop.simps by (intro parse_mono le_grammarD Suc.IH [OF m(2)] Suc.prems(2))
qed simp

lemma le_and_or [parse_mono]:
  "le_grammar e e' \<Longrightarrow> le_parse (and_or e p) (and_or e' p)"
  unfolding and_or_def by (intro parse_mono le_grammarD)

lemma le_parse_term [parse_mono]:
  "le_grammar e e' \<Longrightarrow> le_parse (parse_term e p) (parse_term e' p)"
  unfolding parse_term_def by (intro parse_mono le_grammarD)

lemma le_terms [parse_mono]:
  "n \<le> m \<Longrightarrow> le_grammar e e' \<Longrightarrow> le_parse (terms n e cs p) (terms m e' cs p)"
proof (induction n arbitrary: m cs p)
  case (Suc n)
  from Suc.prems(1) obtain m' where m: "m = Suc m'" "n \<le> m'"
    by (rule Suc_bound)
  show ?case
    unfolding m(1) terms.simps by (intro parse_mono le_grammarD Suc.IH [OF m(2)] Suc.prems(2))
qed simp

lemma le_compound_list [parse_mono]:
  "le_grammar e e' \<Longrightarrow> le_parse (compound_list e p) (compound_list e' p)"
  unfolding compound_list_def by (intro parse_mono le_grammarD)

lemma le_expect_compound_list [parse_mono]:
  "le_grammar e e' \<Longrightarrow> le_parse (expect_compound_list e p) (expect_compound_list e' p)"
  unfolding expect_compound_list_def by (intro parse_mono le_grammarD)

lemma le_between [parse_mono]:
  "le_grammar e e' \<Longrightarrow> le_parse (between x y build e p) (between x y build e' p)"
  unfolding between_def by (intro parse_mono)

lemma le_brace_group [parse_mono]:
  "le_grammar e e' \<Longrightarrow> le_parse (brace_group e p) (brace_group e' p)"
  unfolding brace_group_def by (intro parse_mono le_grammarD)

lemma le_subshell [parse_mono]:
  "le_grammar e e' \<Longrightarrow> le_parse (subshell e p) (subshell e' p)"
  unfolding subshell_def by (intro parse_mono le_grammarD)

lemma le_if_parts [parse_mono]:
  "le_grammar e e' \<Longrightarrow> le_parse (if_parts e p) (if_parts e' p)"
  unfolding if_parts_def by (intro parse_mono le_grammarD)

lemma le_else_part [parse_mono]:
  "n \<le> m \<Longrightarrow> le_grammar e e' \<Longrightarrow> le_parse (else_part n e  p) (else_part m e'  p)"
proof (induction n arbitrary: m  p)
  case (Suc n)
  from Suc.prems(1) obtain m' where m: "m = Suc m'" "n \<le> m'"
    by (rule Suc_bound)
  show ?case
    unfolding m(1) else_part.simps by (intro parse_mono le_grammarD Suc.IH [OF m(2)] Suc.prems(2))
qed simp

lemma le_if_clause [parse_mono]:
  "le_grammar e e' \<Longrightarrow> le_parse (if_clause e p) (if_clause e' p)"
  unfolding if_clause_def by (intro parse_mono le_grammarD)

lemma le_wordlist [parse_mono]:
  "n \<le> m \<Longrightarrow> le_grammar e e' \<Longrightarrow> le_parse (wordlist n e ws p) (wordlist m e' ws p)"
proof (induction n arbitrary: m ws p)
  case (Suc n)
  from Suc.prems(1) obtain m' where m: "m = Suc m'" "n \<le> m'"
    by (rule Suc_bound)
  show ?case
    unfolding m(1) wordlist.simps by (intro parse_mono le_grammarD Suc.IH [OF m(2)] Suc.prems(2))
qed simp

lemma le_expect_do_group [parse_mono]:
  "le_grammar e e' \<Longrightarrow> le_parse (expect_do_group e p) (expect_do_group e' p)"
  unfolding expect_do_group_def by (intro parse_mono le_grammarD)

lemma le_for_clause [parse_mono]:
  "le_grammar e e' \<Longrightarrow> le_parse (for_clause e p) (for_clause e' p)"
  unfolding for_clause_def by (intro parse_mono le_grammarD)

lemma le_loop_clause [parse_mono]:
  "le_grammar e e' \<Longrightarrow> le_parse (loop_clause e p) (loop_clause e' p)"
  unfolding loop_clause_def by (intro parse_mono le_grammarD)

lemma le_more_patterns [parse_mono]:
  "n \<le> m \<Longrightarrow> le_grammar e e' \<Longrightarrow> le_parse (more_patterns n e ws p) (more_patterns m e' ws p)"
proof (induction n arbitrary: m ws p)
  case (Suc n)
  from Suc.prems(1) obtain m' where m: "m = Suc m'" "n \<le> m'"
    by (rule Suc_bound)
  show ?case
    unfolding m(1) more_patterns.simps by (intro parse_mono le_grammarD Suc.IH [OF m(2)] Suc.prems(2))
qed simp

lemma le_expect_case_item [parse_mono]:
  "le_grammar e e' \<Longrightarrow> le_parse (expect_case_item e p) (expect_case_item e' p)"
  unfolding expect_case_item_def by (intro parse_mono le_grammarD)

lemma le_parse_case_items [parse_mono]:
  "n \<le> m \<Longrightarrow> le_grammar e e' \<Longrightarrow> le_parse (parse_case_items n e xs p) (parse_case_items m e' xs p)"
proof (induction n arbitrary: m xs p)
  case (Suc n)
  from Suc.prems(1) obtain m' where m: "m = Suc m'" "n \<le> m'"
    by (rule Suc_bound)
  show ?case
    unfolding m(1) parse_case_items.simps by (intro parse_mono le_grammarD Suc.IH [OF m(2)] Suc.prems(2))
qed simp

lemma le_case_clause [parse_mono]:
  "le_grammar e e' \<Longrightarrow> le_parse (case_clause e p) (case_clause e' p)"
  unfolding case_clause_def by (intro parse_mono le_grammarD)

lemma le_io_redirects [parse_mono]:
  "n \<le> m \<Longrightarrow> le_grammar e e' \<Longrightarrow> le_parse (io_redirects n e rs p) (io_redirects m e' rs p)"
proof (induction n arbitrary: m rs p)
  case (Suc n)
  from Suc.prems(1) obtain m' where m: "m = Suc m'" "n \<le> m'"
    by (rule Suc_bound)
  show ?case
    unfolding m(1) io_redirects.simps by (intro parse_mono le_grammarD Suc.IH [OF m(2)] Suc.prems(2))
qed simp

lemma le_function_definition [parse_mono]:
  "le_grammar e e' \<Longrightarrow> le_parse (function_definition e p) (function_definition e' p)"
  unfolding function_definition_def by (intro parse_mono le_grammarD)

lemma le_compound_command [parse_mono]:
  "le_grammar e e' \<Longrightarrow> le_parse (compound_command e p) (compound_command e' p)"
  unfolding compound_command_def by (intro parse_mono le_grammarD)

lemma le_parse_list [parse_mono]:
  "le_grammar e e' \<Longrightarrow> le_parse (parse_list e p) (parse_list e' p)"
  unfolding parse_list_def by (intro parse_mono le_grammarD)

lemma le_parse_lists [parse_mono]:
  "n \<le> m \<Longrightarrow> le_grammar e e' \<Longrightarrow> le_parse (parse_lists n e cs p) (parse_lists m e' cs p)"
proof (induction n arbitrary: m cs p)
  case (Suc n)
  from Suc.prems(1) obtain m' where m: "m = Suc m'" "n \<le> m'"
    by (rule Suc_bound)
  show ?case
    unfolding m(1) parse_lists.simps by (intro parse_mono le_grammarD Suc.IH [OF m(2)] Suc.prems(2))
qed simp

lemma le_complete_command [parse_mono]:
  "le_grammar e e' \<Longrightarrow> le_parse (complete_command e p) (complete_command e' p)"
  unfolding complete_command_def by (intro parse_mono le_grammarD)

lemma le_expect_complete_command [parse_mono]:
  "le_grammar e e' \<Longrightarrow> le_parse (expect_complete_command e p) (expect_complete_command e' p)"
  unfolding expect_complete_command_def by (intro parse_mono le_grammarD)

lemma le_program_loop [parse_mono]:
  "n \<le> m \<Longrightarrow> le_grammar e e' \<Longrightarrow> le_parse (program_loop n e body p) (program_loop m e' body p)"
proof (induction n arbitrary: m body p)
  case (Suc n)
  from Suc.prems(1) obtain m' where m: "m = Suc m'" "n \<le> m'"
    by (rule Suc_bound)
  show ?case
    unfolding m(1) program_loop.simps by (intro parse_mono le_grammarD Suc.IH [OF m(2)] Suc.prems(2))
qed simp

lemma le_program [parse_mono]:
  "le_grammar e e' \<Longrightarrow> le_parse (program e p) (program e' p)"
  unfolding program_def by (intro parse_mono le_grammarD)

lemma le_filled [parse_mono]: "le_parse r r' \<Longrightarrow> le_parse (filled r) (filled r')"
  unfolding filled_def by (intro parse_mono)

lemma le_parse_program [parse_mono]:
  "le_grammar e e' \<Longrightarrow> le_parse (parse_program e p) (parse_program e' p)"
  unfolding parse_program_def by (intro parse_mono le_grammarD)

lemma le_parse_line [parse_mono]:
  "le_grammar e e' \<Longrightarrow> le_parse (parse_line e p) (parse_line e' p)"
  unfolding parse_line_def by (intro parse_mono le_grammarD)

lemma le_here_document_line_loop:
  "n \<le> m \<Longrightarrow> le_parser D D' \<Longrightarrow> le_parser P P' \<Longrightarrow>
    le_parse (here_document_line_loop n D P cs buf p) (here_document_line_loop m D' P' cs buf p)"
proof (induction n arbitrary: m cs buf p)
  case (Suc n)
  from Suc.prems(1) obtain m' where m: "m = Suc m'" "n \<le> m'"
    by (rule Suc_bound)
  show ?case
    unfolding m(1) here_document_line_loop.simps
    by (intro parse_mono Suc.IH [OF m(2)] Suc.prems le_parserD [OF Suc.prems(2)])
qed simp

section \<open>The knot\<close>

lemma le_grammar_of:
  assumes "n \<le> m" "le_parser D D'" "le_parser P P'" "le_parser K K'"
  shows "le_grammar (grammar_of n D P K) (grammar_of m D' P' K')"
  using assms
  by (simp add: le_grammar_def grammar_of_def le_words_of_def here_document_line_def le_parser_def
      le_word le_here_document_line_loop)

lemma le_parsers:
  assumes "n \<le> m" "parsers n = (D, P, K)" "parsers m = (D', P', K')"
  shows "le_parser D D' \<and> le_parser P P' \<and> le_parser K K'"
  using assms
proof (induction n arbitrary: m D P K D' P' K')
  case 0
  then show ?case by (auto intro: le_parserI)
next
  case (Suc n)
  from Suc.prems(1) obtain m' where m: "m = Suc m'" "n \<le> m'"
    by (rule Suc_bound)
  obtain d p k d' p' k' where l: "parsers n = (d, p, k)" "parsers m' = (d', p', k')"
    by (metis prod_cases3)
  note IH = Suc.IH [OF m(2) l]
  have words: "le_words_of (word n d p) (word m' d' p')" "le_words_of (arithmetic_word n d p) (arithmetic_word m' d' p')"
    using IH m(2) by (auto simp: le_words_of_def intro!: le_parserI le_word le_arithmetic_word)
  have D: "le_parser D D'"
    using Suc.prems(2,3) IH words m l by (auto simp: Let_def intro!: le_parserI le_expect_dollar)
  have K: "le_parser K K'"
    using Suc.prems(2,3) IH D m l by (auto simp: Let_def intro!: le_parserI le_compound_command le_grammar_of)
  have "le_parser P P'"
    using Suc.prems(2,3) IH D K m l by (auto simp: Let_def intro!: le_parserI le_parse_program le_grammar_of)
  with D K show ?case by simp
qed

lemma le_mrsh_parse_program: "n \<le> m \<Longrightarrow> le_parse (mrsh_parse_program n p) (mrsh_parse_program m p)"
  using le_parsers [of n m]
  by (auto simp: mrsh_parse_program_def le_parserD split: prod.split)

lemma le_mrsh_parse_line: "n \<le> m \<Longrightarrow> le_parse (mrsh_parse_line n p) (mrsh_parse_line m p)"
  using le_parsers [of n m]
  by (auto simp: mrsh_parse_line_def split: prod.split intro!: le_parse_line le_grammar_of)

lemma le_mrsh_parse_word: "n \<le> m \<Longrightarrow> le_parse (mrsh_parse_word n p) (mrsh_parse_word m p)"
  using le_parsers [of n m]
  by (auto simp: mrsh_parse_word_def split: prod.split intro!: le_parameter_expansion_word)

end
