(* ===== verification/Parser_Total.thy ===== *)
theory Parser_Total
  imports Parser_Fuel Parser_Eval
begin

text \<open>
  What the parser promises: it ends, on every text, when no name has an alias; the trees it makes are well
  formed; and a null result comes with an error. The measure is the number of characters left, twice,
  and one more while a recognised symbol is not the one in front of the input: \<open>todo\<close>. \<open>yields r Q\<close> says
  that a result did not run out of fuel and satisfies \<open>Q\<close> if it is one; each function has a rule that
  gives \<open>yields\<close> of it from what \<open>Q\<close> needs.
\<close>

section \<open>Well-formed trees\<close>

definition is_identifier :: "cstring \<Rightarrow> bool" where
  "is_identifier s \<longleftrightarrow> s \<noteq> [] \<and> \<not> is_digit (hd s) \<and> list_all is_name_char s"

definition is_parameter :: "cstring \<Rightarrow> bool" where
  "is_parameter s \<longleftrightarrow> s \<noteq> [] \<and> (length s = 1 \<or> list_all is_name_char s)"

primrec is_pipeline :: "mrsh_and_or_list \<Rightarrow> bool" where
  "is_pipeline (Pipeline cmds bang pos) = True"
| "is_pipeline (Binop t l r rg) = False"

primrec is_simple :: "mrsh_command \<Rightarrow> bool" where
  "is_simple (SimpleCommand name args redirs assigns) = True"
| "is_simple (BraceGroup body l r) = False"
| "is_simple (Subshell body l r) = False"
| "is_simple (IfClause cond body els if_r then_r fi_r else_r) = False"
| "is_simple (ForClause name inn words body for_r name_r do_r done_r in_r) = False"
| "is_simple (LoopClause t cond body wu_r do_r done_r) = False"
| "is_simple (CaseClause w items case_r in_r esac_r) = False"
| "is_simple (FunctionDefinition name body redirs name_r lp rp) = False"

primrec wf_word :: "mrsh_word \<Rightarrow> bool"
  and wf_redirect :: "mrsh_io_redirect \<Rightarrow> bool"
  and wf_assignment :: "mrsh_assignment \<Rightarrow> bool"
  and wf_command :: "mrsh_command \<Rightarrow> bool"
  and wf_case_item :: "mrsh_case_item \<Rightarrow> bool"
  and wf_and_or_list :: "mrsh_and_or_list \<Rightarrow> bool"
  and wf_command_list :: "mrsh_command_list \<Rightarrow> bool"
  and wf_program :: "mrsh_program \<Rightarrow> bool" where
  "wf_word (WString str q sf r) = (\<not> sf)"
| "wf_word (WParameter name op colon arg ps) =
     (is_parameter name \<and> map_option wf_word arg \<noteq> Some False \<and>
      (op = PARAM_NONE \<or> op = PARAM_LEADING_HASH \<longrightarrow> arg = None \<and> \<not> colon))"
| "wf_word (WCommand prog bq r) = (map_option wf_program prog = Some True)"
| "wf_word (WArithmetic body) = wf_word body"
| "wf_word (WList children dq l r) = list_all id (map wf_word children)"
| "wf_redirect (IoRedirect io op name here num_pos r) =
     (-1 \<le> io \<and> io \<le> 9 \<and> wf_word name \<and> list_all id (map wf_word here))"
| "wf_assignment (Assignment name value name_r equal_pos) = (is_identifier name \<and> wf_word value)"
| "wf_command (SimpleCommand name args redirs assigns) =
     (map_option wf_word name \<noteq> Some False \<and> list_all id (map wf_word args) \<and>
      list_all id (map wf_redirect redirs) \<and> list_all id (map wf_assignment assigns) \<and>
      (name = None \<longrightarrow> args = [] \<and> (redirs \<noteq> [] \<or> assigns \<noteq> [])))"
| "wf_command (BraceGroup body l r) = (body \<noteq> [] \<and> list_all id (map wf_command_list body))"
| "wf_command (Subshell body l r) = (body \<noteq> [] \<and> list_all id (map wf_command_list body))"
| "wf_command (IfClause cond body els if_r then_r fi_r else_r) =
     (cond \<noteq> [] \<and> list_all id (map wf_command_list cond) \<and> body \<noteq> [] \<and> list_all id (map wf_command_list body) \<and>
      map_option wf_command els \<noteq> Some False \<and> map_option is_simple els \<noteq> Some True)"
| "wf_command (ForClause name inn words body for_r name_r do_r done_r in_r) =
     (is_identifier name \<and> (\<not> inn \<longrightarrow> words = []) \<and> list_all id (map wf_word words) \<and>
      body \<noteq> [] \<and> list_all id (map wf_command_list body))"
| "wf_command (LoopClause t cond body wu_r do_r done_r) =
     (cond \<noteq> [] \<and> list_all id (map wf_command_list cond) \<and> body \<noteq> [] \<and> list_all id (map wf_command_list body))"
| "wf_command (CaseClause w items case_r in_r esac_r) = (wf_word w \<and> list_all id (map wf_case_item items))"
| "wf_command (FunctionDefinition name body redirs name_r lp rp) =
     (is_identifier name \<and> wf_command body \<and> \<not> is_simple body \<and> list_all id (map wf_redirect redirs))"
| "wf_case_item (CaseItem patterns body lp rp dsemi_r) =
     (patterns \<noteq> [] \<and> list_all id (map wf_word patterns) \<and> list_all id (map wf_command_list body))"
| "wf_and_or_list (Pipeline cmds bang bang_pos) = (cmds \<noteq> [] \<and> list_all id (map wf_command cmds))"
| "wf_and_or_list (Binop t l r op_r) = (is_pipeline l \<and> wf_and_or_list l \<and> wf_and_or_list r)"
| "wf_command_list (CommandList l ampersand pos) = wf_and_or_list l"
| "wf_program (Program body) = list_all id (map wf_command_list body)"

lemma list_all_id_map [simp]: "list_all id (map f xs) \<longleftrightarrow> list_all f xs"
  by (simp add: list_all_length)

section \<open>Progress\<close>

text \<open>The symbol in front of the input, unless blanks or a comment come first.\<close>

definition symbol_here :: "mrsh_parser \<Rightarrow> symbol_name option" where
  "symbol_here p =
     (if p_input p = [] then Some EOF_TOKEN
      else if parser_peek_char p = NL then Some NEWLINE
      else
        case match_operator p of
          Some name \<Rightarrow> Some name
        | None \<Rightarrow> if is_blank (parser_peek_char p) \<or> parser_peek_char p = CHR ''#'' then None else Some TOKEN)"

definition fresh :: "mrsh_parser \<Rightarrow> bool" where
  "fresh p \<longleftrightarrow> symbol_here p = Some (p_sym p)"

definition stale :: "mrsh_parser \<Rightarrow> bool" where
  "stale p \<longleftrightarrow> p_has_sym p \<and> \<not> fresh p"

definition todo :: "mrsh_parser \<Rightarrow> nat" where
  "todo p = 2 * length (p_input p) + (if stale p then 1 else 0)"

text \<open>Nobody to ask for an alias, or nothing that has one, and well-formed here-documents.\<close>

definition no_aliases :: "mrsh_parser \<Rightarrow> bool" where
  "no_aliases p \<longleftrightarrow> (\<forall>get. p_alias p = Some get \<longrightarrow> get = (\<lambda>_. None))"

definition ready_parser :: "mrsh_parser \<Rightarrow> bool" where
  "ready_parser p \<longleftrightarrow> no_aliases p \<and> (\<forall>k ls. p_docs p k = Some ls \<longrightarrow> list_all wf_word ls)"

definition moved :: "mrsh_parser \<Rightarrow> mrsh_parser \<Rightarrow> bool" where
  "moved p q \<longleftrightarrow> ready_parser q \<and> todo q \<le> todo p"

definition moved_on :: "mrsh_parser \<Rightarrow> mrsh_parser \<Rightarrow> bool" where
  "moved_on p q \<longleftrightarrow> ready_parser q \<and> todo q < todo p"

lemma moved_refl: "ready_parser p \<Longrightarrow> moved p p"
  by (simp add: moved_def)

lemma moved_on_moved: "moved_on p q \<Longrightarrow> moved p q"
  by (simp add: moved_on_def moved_def)

lemma moved_ready: "moved p q \<Longrightarrow> ready_parser q" "moved_on p q \<Longrightarrow> ready_parser q"
  by (simp_all add: moved_on_def moved_def)

lemma moved_todo: "moved p q \<Longrightarrow> todo q \<le> todo p" "moved_on p q \<Longrightarrow> todo q < todo p"
  by (simp_all add: moved_on_def moved_def)

lemma moved_trans [trans]:
  "moved p q \<Longrightarrow> moved q r \<Longrightarrow> moved p r" "moved_on p q \<Longrightarrow> moved q r \<Longrightarrow> moved_on p r"
  "moved p q \<Longrightarrow> moved_on q r \<Longrightarrow> moved_on p r" "moved_on p q \<Longrightarrow> moved_on q r \<Longrightarrow> moved_on p r"
  by (auto simp: moved_on_def moved_def)

lemma symbol_here_upd [simp]:
  "symbol_here (p\<lparr>p_has_sym := b\<rparr>) = symbol_here p" "symbol_here (p\<lparr>p_sym := s\<rparr>) = symbol_here p"
  "symbol_here (p\<lparr>p_error := er\<rparr>) = symbol_here p" "symbol_here (p\<lparr>p_here_documents := hs\<rparr>) = symbol_here p"
  "symbol_here (p\<lparr>p_continuation_line := b\<rparr>) = symbol_here p" "symbol_here (p\<lparr>p_alias := a\<rparr>) = symbol_here p"
  "symbol_here (p\<lparr>p_arith_nested_parens := n\<rparr>) = symbol_here p" "symbol_here (p\<lparr>p_docs := d\<rparr>) = symbol_here p"
  by (simp_all add: symbol_here_def match_operator_def parser_peek_char_def peek_at_def)

lemma todo_upd [simp]:
  "todo (p\<lparr>p_error := er\<rparr>) = todo p" "todo (p\<lparr>p_here_documents := hs\<rparr>) = todo p"
  "todo (p\<lparr>p_continuation_line := b\<rparr>) = todo p" "todo (p\<lparr>p_alias := a\<rparr>) = todo p"
  "todo (p\<lparr>p_arith_nested_parens := n\<rparr>) = todo p" "todo (p\<lparr>p_docs := d\<rparr>) = todo p"
  by (simp_all add: todo_def stale_def fresh_def)

lemma ready_parser_upd [simp]:
  "ready_parser (p\<lparr>p_error := er\<rparr>) = ready_parser p" "ready_parser (p\<lparr>p_here_documents := hs\<rparr>) = ready_parser p"
  "ready_parser (p\<lparr>p_continuation_line := b\<rparr>) = ready_parser p" "ready_parser (p\<lparr>p_has_sym := b\<rparr>) = ready_parser p"
  "ready_parser (p\<lparr>p_arith_nested_parens := n\<rparr>) = ready_parser p" "ready_parser (p\<lparr>p_sym := s\<rparr>) = ready_parser p"
  by (simp_all add: ready_parser_def no_aliases_def)

lemma ready_parser_skip [simp]: "ready_parser (skip n p) = ready_parser p" "ready_parser (skip_line p) = ready_parser p"
  by (simp_all add: ready_parser_def no_aliases_def skip_def skip_line_def)

lemma todo_skip: "p_input p \<noteq> [] \<Longrightarrow> 0 < n \<Longrightarrow> todo (skip n p) < todo p"
  by (cases "p_input p") (auto simp: todo_def)

lemma moved_on_skip: "ready_parser p \<Longrightarrow> p_input p \<noteq> [] \<Longrightarrow> 0 < n \<Longrightarrow> moved_on p (skip n p)"
  by (simp add: moved_on_def todo_skip)

lemma symbol_here_skip_empty: "p_input p = [] \<Longrightarrow> symbol_here (skip n p) = symbol_here p"
  by (simp add: symbol_here_def)

lemma moved_skip: "ready_parser p \<Longrightarrow> moved p (skip n p)"
proof (cases "p_input p = [] \<or> n = 0")
  case True
  moreover assume "ready_parser p"
  ultimately show ?thesis
    by (auto simp: moved_def todo_def stale_def fresh_def symbol_here_skip_empty) (simp_all add: skip_def split: if_splits)
next
  case False
  moreover assume "ready_parser p"
  ultimately show ?thesis
    by (intro moved_on_moved moved_on_skip) auto
qed

lemma moved_on_skip_line: "ready_parser p \<Longrightarrow> p_input p \<noteq> [] \<Longrightarrow> moved_on p (skip_line p)"
  using moved_on_skip [of p 1] by (simp add: skip_line_def moved_on_def)

lemma moved_consume: "ready_parser p \<Longrightarrow> moved p (consume_symbol p)"
  by (simp add: moved_def consume_symbol_def todo_def stale_def fresh_def)

lemma moved_set_error: "ready_parser p \<Longrightarrow> moved p (parser_set_error msg p)"
  by (simp add: moved_def parser_set_error_def)

lemma match_operator_upd [simp]: "match_operator (p\<lparr>p_has_sym := b\<rparr>) = match_operator p"
  by (simp add: match_operator_def parser_peek_char_def peek_at_def)

lemma peek_char_upd [simp]: "parser_peek_char (p\<lparr>p_has_sym := b\<rparr>) = parser_peek_char p"
  by (simp add: parser_peek_char_def peek_at_def)

lemma next_symbol_cases:
  obtains (here) s where "symbol_here p = Some s" "next_symbol p = p\<lparr>p_has_sym := True, p_sym := s\<rparr>"
  | (blank) "p_input p \<noteq> []" "next_symbol p = next_symbol (skip 1 (p\<lparr>p_has_sym := True\<rparr>))"
  | (comment) "p_input p \<noteq> []" "parser_peek_char p = CHR ''#''"
      "next_symbol p = next_symbol (skip_comment (p\<lparr>p_has_sym := True\<rparr>))"
proof -
  consider "p_input p = []" | "p_input p \<noteq> []" "parser_peek_char p = NL"
    | s where "p_input p \<noteq> []" "parser_peek_char p \<noteq> NL" "match_operator p = Some s"
    | "p_input p \<noteq> []" "parser_peek_char p \<noteq> NL" "match_operator p = None"
    by (cases "match_operator p") auto
  then show thesis
    using here blank comment next_symbol.simps [of p]
    by cases (auto simp: Let_def symbol_here_def split: if_splits)
qed

lemma next_symbol_keeps:
  assumes "\<And>n q. P q \<Longrightarrow> P (skip n q)" "\<And>q b. P q \<Longrightarrow> P (q\<lparr>p_has_sym := b\<rparr>)" "\<And>q s. P q \<Longrightarrow> P (q\<lparr>p_sym := s\<rparr>)"
    and "P p"
  shows "P (next_symbol p)"
  using \<open>P p\<close>
proof (induction p rule: measure_induct_rule [where f = "\<lambda>p. length (p_input p)"])
  case (less p)
  show ?case
  proof (cases rule: next_symbol_cases [of p])
    case (here s)
    with less.prems show ?thesis by (simp add: assms)
  next
    case blank
    with less.prems show ?thesis by (auto intro!: less.IH assms)
  next
    case comment
    from less.prems have "P (skip_comment (p\<lparr>p_has_sym := True\<rparr>))"
      by (simp add: skip_comment_def assms)
    with comment show ?thesis by (auto intro!: less.IH skip_comment_shorter)
  qed
qed

lemma next_symbol_ready: "ready_parser p \<Longrightarrow> ready_parser (next_symbol p)"
  by (rule next_symbol_keeps [where P = ready_parser]) simp_all

lemma next_symbol_fresh: "fresh (next_symbol p)"
proof (induction p rule: measure_induct_rule [where f = "\<lambda>p. length (p_input p)"])
  case (less p)
  show ?case
    by (cases rule: next_symbol_cases [of p])
      (auto simp: fresh_def [of "p\<lparr>p_has_sym := True, p_sym := s\<rparr>" for s] intro!: less.IH skip_comment_shorter)
qed

lemma symbol_moved:
  assumes "symbol name p = (b, q)" "ready_parser p"
  shows "moved p q" "p_has_sym q" "b \<longleftrightarrow> p_sym q = name"
  using assms next_symbol_length [of p] next_symbol_fresh [of p]
  by (auto simp: symbol_def get_symbol_def moved_def todo_def stale_def next_symbol_ready next_symbol_has_sym
      Let_def split: if_splits)

section \<open>Rules\<close>

definition yields :: "'a parse \<Rightarrow> ('a \<Rightarrow> mrsh_parser \<Rightarrow> bool) \<Rightarrow> bool" where
  "yields r Q \<longleftrightarrow> (case r of Inl e \<Rightarrow> e \<noteq> ParseFuel | Inr (x, q) \<Rightarrow> Q x q)"

lemma yields_simps [simp]:
  "yields (Inl e) Q \<longleftrightarrow> e \<noteq> ParseFuel" "yields (Inr (x, q)) Q \<longleftrightarrow> Q x q"
  by (simp_all add: yields_def)

lemma yields_bind [simp]: "yields (bind_parse r f) Q \<longleftrightarrow> yields r (\<lambda>x q. yields (f x q) Q)"
  by (auto simp: yields_def bind_parse_def split: sum.split)

lemma yields_bind_some [simp]:
  "yields (bind_some r f) Q \<longleftrightarrow> yields r (\<lambda>x q. case x of None \<Rightarrow> Q None q | Some v \<Rightarrow> yields (f v q) Q)"
  by (auto simp: bind_some_def yields_def bind_parse_def split: sum.splits option.splits)

lemma yields_mono: "yields r Q \<Longrightarrow> (\<And>x q. Q x q \<Longrightarrow> Q' x q) \<Longrightarrow> yields r Q'"
  by (auto simp: yields_def split: sum.splits)

lemma ready_set_error [simp]: "ready_parser (parser_set_error msg p) = ready_parser p"
  by (simp add: parser_set_error_def)

lemma todo_set_error [simp]: "todo (parser_set_error msg p) = todo p"
  by (simp add: parser_set_error_def)

lemma error_set_error [simp]: "p_error (parser_set_error msg p) \<noteq> None"
  by (simp add: parser_set_error_def)

lemma error_set_error_Some [simp]: "\<exists>m pos. p_error (parser_set_error msg p) = Some (m, pos)"
  by (cases "p_error p") (auto simp: parser_set_error_def)

lemma yields_option:
  "(r = None \<Longrightarrow> yields x Q) \<Longrightarrow> (\<And>v. r = Some v \<Longrightarrow> yields (f v) Q) \<Longrightarrow>
    yields (case r of None \<Rightarrow> x | Some v \<Rightarrow> f v) Q"
  by (cases r) auto

lemma yields_fail [simp]: "yields (fail_with msg p) Q \<longleftrightarrow> Q None (parser_set_error msg p)"
  by (simp add: fail_with_def)

lemma ready_consume [simp]: "ready_parser (consume_symbol p) = ready_parser p"
  by (simp add: consume_symbol_def)

lemma todo_consume: "todo (consume_symbol p) \<le> todo p"
  by (simp add: consume_symbol_def todo_def stale_def)

text \<open>A parser that takes something when it has a result, for inputs below a bound.\<close>

definition takes :: "nat \<Rightarrow> 'a option parser \<Rightarrow> ('a \<Rightarrow> bool) \<Rightarrow> bool" where
  "takes k f A \<longleftrightarrow>
     (\<forall>p. ready_parser p \<longrightarrow> todo p < k \<longrightarrow>
        yields (f p) (\<lambda>x q. ready_parser q \<and> todo q \<le> todo p \<and> (\<forall>v. x = Some v \<longrightarrow> A v \<and> todo q < todo p)))"

lemma takesI:
  "(\<And>p. ready_parser p \<Longrightarrow> todo p < k \<Longrightarrow>
      yields (f p) (\<lambda>x q. ready_parser q \<and> todo q \<le> todo p \<and> (\<forall>v. x = Some v \<longrightarrow> A v \<and> todo q < todo p))) \<Longrightarrow>
    takes k f A"
  by (simp add: takes_def)

lemma takesD:
  assumes "takes k f A" "ready_parser p" "todo p < k"
    and "\<And>x q. ready_parser q \<Longrightarrow> todo q \<le> todo p \<Longrightarrow> (\<And>v. x = Some v \<Longrightarrow> A v \<and> todo q < todo p) \<Longrightarrow> Q x q"
  shows "yields (f p) Q"
proof -
  have "yields (f p) (\<lambda>x q. ready_parser q \<and> todo q \<le> todo p \<and> (\<forall>v. x = Some v \<longrightarrow> A v \<and> todo q < todo p))"
    using assms(1-3) by (simp add: takes_def)
  then show ?thesis
    by (rule yields_mono) (auto intro: assms(4))
qed

lemma takes_less: "takes k f A \<Longrightarrow> j \<le> k \<Longrightarrow> takes j f A"
  by (simp add: takes_def)

named_theorems parse_rules

lemma yields_parse_of:
  "(\<And>x q. r = Some (x, q) \<Longrightarrow> Q x q) \<Longrightarrow> yields (parse_of r) Q"
  by (cases r) (auto simp: parse_of_def)

lemma read_char_rule [parse_rules]:
  assumes "ready_parser p"
    and "\<And>c q. ready_parser q \<Longrightarrow> todo q < todo p \<Longrightarrow> q = skip 1 p \<Longrightarrow> p_input p \<noteq> [] \<Longrightarrow> c = hd (p_input p) \<Longrightarrow> Q c q"
  shows "yields (read_char p) Q"
  using assms by (cases "p_input p") (auto simp: read_char_eq todo_skip)

lemma read_newline_rule [parse_rules]:
  assumes "ready_parser p"
    and "\<And>q. ready_parser q \<Longrightarrow> todo q < todo p \<Longrightarrow> length (p_input q) < length (p_input p) \<Longrightarrow> Q () q"
  shows "yields (read_newline p) Q"
  using assms moved_on_skip_line [of p]
  by (cases "p_input p") (auto simp: read_newline_eq moved_on_def skip_line_def)

lemma read_expected_rule [parse_rules]:
  assumes "ready_parser p"
    and "\<And>q. ready_parser q \<Longrightarrow> todo q < todo p \<Longrightarrow> length (p_input q) < length (p_input p) \<Longrightarrow> p_input q = tl (p_input p) \<Longrightarrow> Q () q"
  shows "yields (read_expected c p) Q"
  unfolding read_expected_def yields_bind
  by (rule read_char_rule [OF assms(1)]) (auto simp: drop_Suc intro!: assms(2))

lemma symbol_rule [parse_rules]:
  assumes "ready_parser p"
    and "\<And>b q. ready_parser q \<Longrightarrow> todo q \<le> todo p \<Longrightarrow> p_has_sym q \<Longrightarrow> (b \<longleftrightarrow> p_sym q = name) \<Longrightarrow> yields (f b q) Q"
  shows "yields (case symbol name p of (b, q) \<Rightarrow> f b q) Q"
  using assms symbol_moved [of name p] by (cases "symbol name p") (auto simp: moved_def)

lemma read_token_rule [parse_rules]:
  assumes "ready_parser p" "0 < len"
    and "\<And>r q. ready_parser q \<Longrightarrow> todo q \<le> todo p \<Longrightarrow>
      (\<And>v. r = Some v \<Longrightarrow> todo q < todo p \<and> length (fst v) = len \<and> (p_has_sym p \<longrightarrow> fst v = take len (p_input p))) \<Longrightarrow> Q r q"
  shows "yields (read_token len p) Q"
proof -
  have *: "yields (parse_of (parser_read len q)) (\<lambda>x r. Q (Some (x, range_to (p_pos q) r)) (consume_symbol r))"
    if q: "ready_parser q" "todo q \<le> todo p" "p_has_sym p \<longrightarrow> q = p" for q
  proof (rule yields_parse_of)
    fix x r
    assume r: "parser_read len q = Some (x, r)"
    moreover from this assms(2) have "p_input q \<noteq> []"
      by (auto simp: parser_read_def split: if_splits)
    ultimately have "todo r < todo q" "ready_parser r" "length x = len" "x = take len (p_input q)"
      using q assms(2) todo_skip [of q len] by (auto simp: parser_read_def split: if_splits)
    with q show "Q (Some (x, range_to (p_pos q) r)) (consume_symbol r)"
      using todo_consume [of r] by (intro assms(3)) auto
  qed
  have sym: "p_has_sym p \<longrightarrow> q = p" if "symbol TOKEN p = (b, q)" for b q
    using that by (auto simp: symbol_def get_symbol_def)
  show ?thesis
    unfolding read_token_def
    using symbol_moved [of TOKEN p] assms(1,3) sym *
    by (cases "symbol TOKEN p") (auto simp: moved_def split: bool.split)
qed

lemma peek_name_rule [parse_rules]:
  assumes "ready_parser p"
    and "\<And>n q. ready_parser q \<Longrightarrow> todo q \<le> todo p \<Longrightarrow> p_has_sym q \<Longrightarrow>
      (0 < n \<Longrightarrow> list_all is_name_char (take n (p_input q)) \<and> take n (p_input q) \<noteq> [] \<and>
        (\<not> in_braces \<longrightarrow> \<not> is_digit (hd (p_input q)))) \<Longrightarrow> yields (f n q) Q"
  shows "yields (case peek_name in_braces p of (n, q) \<Rightarrow> f n q) Q"
proof -
  obtain b q where s: "symbol TOKEN p = (b, q)"
    by (cases "symbol TOKEN p")
  have "list_all is_name_char (take (length (takeWhile is_name_char cs)) cs)" for cs
    by (metis list_all_iff set_takeWhileD takeWhile_eq_take)
  moreover have "takeWhile is_name_char cs \<noteq> [] \<Longrightarrow> cs \<noteq> []" for cs
    by auto
  ultimately show ?thesis
    using symbol_moved [OF s assms(1)] s
    by (auto simp: peek_name_def moved_def peek_at_def hd_conv_nth char_at_def
        split: bool.split intro!: assms(2))
qed

lemma peek_word_rule [parse_rules]:
  assumes "ready_parser p"
    and "\<And>n q. ready_parser q \<Longrightarrow> todo q \<le> todo p \<Longrightarrow> p_has_sym q \<Longrightarrow> yields (f n q) Q"
  shows "yields (case peek_word end p of (n, q) \<Rightarrow> f n q) Q"
  using symbol_moved [of TOKEN p] assms
  by (cases "symbol TOKEN p") (auto simp: peek_word_def moved_def Let_def split: bool.split)

lemma token_moved:
  assumes "token str p = (r, q)" "ready_parser p"
  shows "ready_parser q" "todo q \<le> todo p" "r \<noteq> None \<Longrightarrow> str \<noteq> [] \<Longrightarrow> str \<noteq> [NUL] \<Longrightarrow> todo q < todo p"
proof -
  obtain b p' where s: "symbol TOKEN p = (b, p')"
    by (cases "symbol TOKEN p")
  note p' = symbol_moved [OF s assms(2)]
  have word: "ready_parser q' \<and> todo q' \<le> todo p'" if "peek_word NUL p' = (n, q')" for n q'
    using that p' symbol_moved [of TOKEN p'] by (auto simp: peek_word_def moved_def split: prod.splits bool.splits)
  have skip: "todo (consume_symbol (skip n x)) < todo x" if "p_input x \<noteq> []" "0 < n" for n x
    using todo_skip [OF that] todo_consume [of "skip n x"] by linarith
  have le: "todo (consume_symbol (skip n x)) \<le> todo x" if "ready_parser x" for n x
    using moved_skip [OF that, of n] todo_consume [of "skip n x"] by (simp add: moved_def)
  note d = assms(1) [unfolded token_def s]
  have "\<exists>x. ready_parser x \<and> todo x \<le> todo p' \<and> (q = x \<or> (\<exists>n. q = consume_symbol (skip n x)))"
    using d p' word by (auto simp: Let_def moved_def split: bool.splits if_splits prod.splits)
  then obtain x where x: "ready_parser x" "todo x \<le> todo p'" "q = x \<or> (\<exists>n. q = consume_symbol (skip n x))"
    by blast
  show "ready_parser q"
    using x by auto
  show "todo q \<le> todo p"
    using x le [OF x(1)] p' by (auto simp: moved_def intro: order_trans)
  show "todo q < todo p" if "r \<noteq> None" "str \<noteq> []" "str \<noteq> [NUL]"
  proof (cases "length str = 1 \<and> \<not> is_alpha (hd str)")
    case True
    with d that p' have "q = consume_symbol (skip 1 p')" "parser_peek_char p' = hd str" "b"
      by (auto simp: Let_def split: bool.splits if_splits)
    moreover from this True that have "p_input p' \<noteq> []"
      by (cases str) (auto simp: parser_peek_char_def peek_at_def char_at_def)
    ultimately show ?thesis
      using skip [of p' 1] p' by (simp add: moved_def)
  next
    case False
    with d that p' obtain n q' where w: "peek_word NUL p' = (n, q')" "q = consume_symbol (skip (length str) q')"
      "take n (p_input q') = str"
      by (auto simp: Let_def split: bool.splits if_splits prod.splits)
    with that have "p_input q' \<noteq> []" by auto
    with skip [of q' "length str"] that w word [OF w(1)] p' show ?thesis
      by (auto simp: moved_def)
  qed
qed

lemma token_rule [parse_rules]:
  assumes "ready_parser p"
    and "\<And>r q. ready_parser q \<Longrightarrow> todo q \<le> todo p \<Longrightarrow>
      (\<And>v. r = Some v \<Longrightarrow> str \<noteq> [] \<Longrightarrow> str \<noteq> [NUL] \<Longrightarrow> todo q < todo p) \<Longrightarrow> yields (f r q) Q"
  shows "yields (case token str p of (r, q) \<Rightarrow> f r q) Q"
  using token_moved [of str p] assms by (cases "token str p") auto

lemma expect_token_rule [parse_rules]:
  assumes "ready_parser p"
    and "\<And>r q. ready_parser q \<Longrightarrow> todo q \<le> todo p \<Longrightarrow>
      (\<And>v. r = Some v \<Longrightarrow> str \<noteq> [] \<Longrightarrow> str \<noteq> [NUL] \<Longrightarrow> todo q < todo p) \<Longrightarrow>
      (r = None \<Longrightarrow> p_error q \<noteq> None) \<Longrightarrow> yields (f r q) Q"
  shows "yields (case expect_token str p of (r, q) \<Rightarrow> f r q) Q"
  using token_moved [of str p] assms(1)
  by (cases "token str p") (auto simp: expect_token_def split: option.split intro!: assms(2))

section \<open>Words\<close>

text \<open>A program comes with a well-formed tree or an error.\<close>

definition prog_ok :: "nat \<Rightarrow> mrsh_program option parser \<Rightarrow> bool" where
  "prog_ok k P \<longleftrightarrow>
     (\<forall>p. ready_parser p \<longrightarrow> todo p < k \<longrightarrow>
        yields (P p) (\<lambda>x q. ready_parser q \<and> todo q \<le> todo p \<and>
          (case x of None \<Rightarrow> p_error q \<noteq> None | Some prog \<Rightarrow> wf_program prog)))"

lemma prog_okD:
  assumes "prog_ok k P" "ready_parser p" "todo p < k"
    and "\<And>x q. ready_parser q \<Longrightarrow> todo q \<le> todo p \<Longrightarrow> (x = None \<Longrightarrow> p_error q \<noteq> None) \<Longrightarrow>
      (\<And>prog. x = Some prog \<Longrightarrow> wf_program prog) \<Longrightarrow> Q x q"
  shows "yields (P p) Q"
proof -
  have "yields (P p) (\<lambda>x q. ready_parser q \<and> todo q \<le> todo p \<and>
      (case x of None \<Rightarrow> p_error q \<noteq> None | Some prog \<Rightarrow> wf_program prog))"
    using assms(1-3) by (simp add: prog_ok_def)
  then show ?thesis
    by (rule yields_mono) (auto intro: assms(4))
qed

lemma single_quotes_loop_moved:
  "single_quotes_loop buf p = (r, q) \<Longrightarrow> ready_parser p \<Longrightarrow> ready_parser q \<and> todo q \<le> todo p"
proof (induction buf p rule: single_quotes_loop.induct)
  case (1 buf p)
  note d = "1.prems"(1) [unfolded single_quotes_loop.simps [of buf p]]
  have s: "moved p (skip 1 p)" "p_input p \<noteq> [] \<Longrightarrow> moved p (skip_line p)"
    using "1.prems"(2) by (simp_all add: moved_skip moved_on_skip_line moved_on_moved)
  show ?case
  proof (cases "p_input p")
    case Nil
    with d "1.prems"(2) show ?thesis by auto
  next
    case (Cons c cs)
    with d s 1 show ?thesis
      by (cases "c = SQUOTE"; cases "c = NL") (fastforce simp: moved_def)+
  qed
qed

lemma single_quotes_rule [parse_rules]:
  assumes "ready_parser p"
    and "\<And>x q. ready_parser q \<Longrightarrow> todo q \<le> todo p \<Longrightarrow> (\<And>w. x = Some w \<Longrightarrow> wf_word w \<and> todo q < todo p) \<Longrightarrow> Q x q"
  shows "yields (single_quotes p) Q"
  using assms(1)
  by (auto simp: single_quotes_def split: prod.split option.split dest!: single_quotes_loop_moved
      intro!: read_expected_rule assms(2))

lemma unescaped_moved:
  assumes "unescaped quoted p = (c, q)" "ready_parser p" "p_input p \<noteq> []" "NUL \<notin> set quoted"
  shows "ready_parser q" "todo q \<le> todo p" "p_input q \<noteq> []" "length (p_input q) \<le> length (p_input p)"
proof -
  have "p_input (skip 1 p) \<noteq> []" if "peek_at p 1 \<in> set quoted"
    using that assms(4) by (auto simp: peek_at_def char_at_def split: if_splits)
  then show "ready_parser q" "todo q \<le> todo p" "p_input q \<noteq> []" "length (p_input q) \<le> length (p_input p)"
    using assms(1-3) moved_skip [of p 1] by (auto simp: unescaped_def moved_def split: if_splits)
qed

lemma back_quotes_loop_moved:
  "back_quotes_loop buf p = (r, q) \<Longrightarrow> ready_parser p \<Longrightarrow>
    ready_parser q \<and> todo q \<le> todo p \<and> (\<forall>data. r = Some data \<longrightarrow> length data + length (p_input q) \<le> length buf + length (p_input p))"
proof (induction buf p rule: back_quotes_loop.induct)
  case (1 buf p)
  note d = "1.prems"(1) [unfolded back_quotes_loop.simps [of buf p]]
  consider "p_input p = []" | "p_input p \<noteq> []" "parser_peek_char p = CHR ''`''"
    | "p_input p \<noteq> []" "parser_peek_char p \<noteq> CHR ''`''"
    by blast
  then show ?case
  proof cases
    case 1
    with d \<open>ready_parser p\<close> show ?thesis by auto
  next
    case 2
    with d \<open>ready_parser p\<close> moved_skip [of p 1] show ?thesis by (auto simp: moved_def)
  next
    case 3
    obtain c p' where u: "unescaped [CHR ''$'', CHR ''`'', BACKSLASH] p = (c, p')"
      by (cases "unescaped [CHR ''$'', CHR ''`'', BACKSLASH] p")
    note p' = unescaped_moved [OF u \<open>ready_parser p\<close> 3(1), simplified]
    have step: "ready_parser (if c = NL then skip_line p' else skip 1 p')"
      "todo (if c = NL then skip_line p' else skip 1 p') \<le> todo p"
      "Suc (length (p_input (if c = NL then skip_line p' else skip 1 p'))) \<le> length (p_input p)"
      using p' moved_on_skip_line [of p'] moved_on_skip [of p' 1]
      by (auto simp: moved_on_def skip_line_def Suc_le_eq) (cases "p_input p'", auto)+
    from d 3 u have "back_quotes_loop (buf @ [c]) (if c = NL then skip_line p' else skip 1 p') = (r, q)"
      by simp
    from "1.IH" [OF 3(1,2) u [symmetric] this step(1)] step(2,3) show ?thesis
      by fastforce
  qed
qed

lemma todo_with_data [simp]: "todo (mrsh_parser_with_data data) = 2 * length (cstr_of data)"
  by (simp add: todo_def stale_def mrsh_parser_with_data_def)

lemma ready_with_data [simp]: "ready_parser (mrsh_parser_with_data data)"
  by (simp add: ready_parser_def no_aliases_def mrsh_parser_with_data_def)

lemma length_cstr_of: "length (cstr_of s) \<le> length s"
  by (simp add: cstr_of_def length_takeWhile_le)

lemma yields_sub:
  "yields r (\<lambda>x q. yields (f x q) Q) \<Longrightarrow> yields (case r of Inl e \<Rightarrow> Inl e | Inr (x, q) \<Rightarrow> f x q) Q"
  by (cases r) (auto simp: yields_def)

lemma back_quotes_rule [parse_rules]:
  assumes "prog_ok k P" "ready_parser p" "todo p \<le> k"
    and "\<And>x q. ready_parser q \<Longrightarrow> todo q \<le> todo p \<Longrightarrow> (\<And>w. x = Some w \<Longrightarrow> wf_word w \<and> todo q < todo p) \<Longrightarrow> Q x q"
  shows "yields (back_quotes P p) Q"
proof -
  have sub: "ready_parser q' \<and> todo q' < todo p \<and> (\<forall>data. r = Some data \<longrightarrow> todo (mrsh_parser_with_data data) < k)"
    if "back_quotes_loop [] q = (r, q')" "ready_parser q" "todo q < todo p" "length (p_input q) < length (p_input p)"
    for r q q'
  proof -
    have "2 * length (cstr_of data) < k" if "r = Some data" for data
      using that back_quotes_loop_moved [OF \<open>back_quotes_loop [] q = (r, q')\<close> \<open>ready_parser q\<close>]
        \<open>length (p_input q) < length (p_input p)\<close> assms(3) length_cstr_of [of data] by (auto simp: todo_def [of p])
    with back_quotes_loop_moved [OF that(1,2)] that(3) show ?thesis
      by auto
  qed
  show ?thesis
    unfolding back_quotes_def yields_bind
    by (rule read_expected_rule [OF assms(2)])
      (auto split: prod.split option.split dest!: sub simp: mrsh_parser_error_def
        simp del: todo_with_data intro!: assms(4) yields_sub prog_okD [OF assms(1)])
qed

lemma wf_push_buffer [simp]:
  "list_all wf_word (push_buffer_word_string children buf pos p) \<longleftrightarrow> list_all wf_word children"
  by (simp add: push_buffer_word_string_def)

lemma wf_finish_children [simp]: "wf_word (finish_children children) \<longleftrightarrow> list_all wf_word children"
  by (auto simp: finish_children_def mrsh_word_list_create_def split: list.split)

text \<open>What words are made of: \<open>$\<close> and programs in back quotes.\<close>

definition parts_ok :: "nat \<Rightarrow> mrsh_word option parser \<Rightarrow> mrsh_program option parser \<Rightarrow> bool" where
  "parts_ok k D P \<longleftrightarrow> takes k D wf_word \<and> prog_ok (k - 1) P"

lemma parts_okD:
  assumes "parts_ok k D P"
  shows "takes k D wf_word" "prog_ok (k - 1) P"
  using assms by (simp_all add: parts_ok_def)

lemma parts_ok_less: "parts_ok k D P \<Longrightarrow> j \<le> k \<Longrightarrow> parts_ok j D P"
  by (auto simp: parts_ok_def prog_ok_def intro: takes_less)

lemma back_quotes_part [parse_rules]:
  assumes "parts_ok k D P" "ready_parser p" "todo p < k"
    and "\<And>x q. ready_parser q \<Longrightarrow> todo q \<le> todo p \<Longrightarrow> (\<And>w. x = Some w \<Longrightarrow> wf_word w \<and> todo q < todo p) \<Longrightarrow> Q x q"
  shows "yields (back_quotes P p) Q"
  using back_quotes_rule [OF parts_okD(2) [OF assms(1)] assms(2) _ assms(4)] assms(3) by simp

lemma skip_rules:
  assumes "ready_parser p" "p_input p \<noteq> []"
  shows "ready_parser (skip 1 p)" "todo (skip 1 p) < todo p" "ready_parser (skip_line p)" "todo (skip_line p) < todo p"
  using moved_on_skip [of p 1] moved_on_skip_line [of p] assms by (auto simp: moved_on_def)

lemma skip_two:
  assumes "ready_parser p" "p_input p \<noteq> []"
  shows "ready_parser (skip_line (skip (Suc 0) p))" "todo (skip_line (skip (Suc 0) p)) < todo p"
    "ready_parser (skip n (skip (Suc 0) p))" "todo (skip n (skip (Suc 0) p)) < todo p"
    "ready_parser (skip (Suc 0) p)" "todo (skip (Suc 0) p) < todo p" "ready_parser (skip_line p)" "todo (skip_line p) < todo p"
  using skip_rules [OF assms] moved_skip [of "skip 1 p" 1] moved_skip [of "skip 1 p" n] assms(1)
  by (auto simp: skip_line_def moved_def)

lemma unescaped_skip:
  assumes "unescaped quoted p = (c, q)" "ready_parser p" "p_input p \<noteq> []" "NUL \<notin> set quoted"
  shows "ready_parser (skip (Suc 0) q) \<and> todo (skip (Suc 0) q) < todo p"
  using unescaped_moved [OF assms] skip_rules [of q] by auto

lemma double_quotes_loop_ok:
  assumes "parts_ok k D P"
  shows "ready_parser p \<Longrightarrow> todo p < k \<Longrightarrow> todo p < n \<Longrightarrow> list_all wf_word children \<Longrightarrow>
    yields (double_quotes_loop n D P children buf b p)
      (\<lambda>x q. ready_parser q \<and> todo q \<le> todo p \<and> (\<forall>cs pos. x = Some (cs, pos) \<longrightarrow> list_all wf_word cs))"
proof (induction n arbitrary: children buf b p)
  case (Suc n)
  note IH = yields_mono [OF Suc.IH]
  show ?case
  proof (cases "p_input p = []")
    case True
    with Suc.prems show ?thesis by (simp add: Let_def)
  next
    case False
    with skip_two [OF Suc.prems(1) False] Suc.prems show ?thesis
      by (auto simp: Let_def split: option.split prod.split dest!: unescaped_skip
          intro!: back_quotes_part [OF assms] takesD [OF parts_okD(1) [OF assms]] IH)
  qed
qed simp

lemma double_quotes_rule [parse_rules]:
  assumes "parts_ok k D P" "todo p \<le> n" "ready_parser p" "todo p < k"
    and "\<And>x q. ready_parser q \<Longrightarrow> todo q \<le> todo p \<Longrightarrow> (\<And>w. x = Some w \<Longrightarrow> wf_word w \<and> todo q < todo p) \<Longrightarrow> Q x q"
  shows "yields (double_quotes n D P p) Q"
  using assms(2-4) unfolding double_quotes_def
  by (auto intro!: read_expected_rule yields_mono [OF double_quotes_loop_ok [OF assms(1)]] assms(5))

lemma quoted_child_rule [parse_rules]:
  assumes "parts_ok k D P" "todo p \<le> n" "ready_parser p" "todo p < k"
    and "\<And>x q. ready_parser q \<Longrightarrow> todo q \<le> todo p \<Longrightarrow> (\<And>w. x = Some w \<Longrightarrow> wf_word w \<and> todo q < todo p) \<Longrightarrow> Q x q"
  shows "yields (quoted_child n D P p) Q"
  using assms(2-4) unfolding quoted_child_def
  by (auto simp: Let_def intro!: back_quotes_part [OF assms(1)] single_quotes_rule double_quotes_rule [OF assms(1)]
      takesD [OF parts_okD(1) [OF assms(1)]] assms(5))

lemma word_end_yields [simp]:
  "yields (word_end children buf b p) Q \<longleftrightarrow>
    Q (Some (finish_children (push_buffer_word_string children buf b p))) (consume_symbol p)"
  by (simp add: word_end_def)

definition stops_word :: "char \<Rightarrow> mrsh_parser \<Rightarrow> bool" where
  "stops_word end p \<longleftrightarrow>
     (let c = parser_peek_char p in
      p_input p = [] \<or> c = NL \<or> c = CHR '')'' \<or> c = end \<or> is_operator_start c \<or> is_blank c)"

lemma word_loop_ok:
  assumes "parts_ok k D P"
  shows "ready_parser p \<Longrightarrow> todo p < k \<Longrightarrow> todo p < n \<Longrightarrow> list_all wf_word children \<Longrightarrow>
    yields (word_loop n D P end children buf b p)
      (\<lambda>x q. ready_parser q \<and> todo q \<le> todo p \<and> (\<forall>w. x = Some w \<longrightarrow> wf_word w \<and> (stops_word end p \<or> todo q < todo p)))"
proof (induction n arbitrary: children buf b p)
  case (Suc n)
  note IH = yields_mono [OF Suc.IH]
  show ?case
  proof (cases "p_input p = []")
    case True
    with Suc.prems todo_consume [of p] show ?thesis by (simp add: Let_def stops_word_def)
  next
    case False
    from False skip_two [OF Suc.prems(1) False] Suc.prems todo_consume [of p] show ?thesis
      by (auto simp: Let_def stops_word_def split: option.split intro!: quoted_child_rule [OF assms] IH read_char_rule)
  qed
qed simp

lemma word_loop_stops:
  assumes "stops_word end p"
  shows "word_loop (Suc n) D P end children buf b p = word_end children buf (child_start b p) p"
proof -
  have "parser_peek_char p = NUL" if "p_input p = []"
    using that by (simp add: parser_peek_char_def peek_at_def char_at_def)
  moreover have "\<not> is_quoting c" if "is_operator_start c \<or> is_blank c" for c
    using that by (auto simp: is_operator_start_def is_blank_def is_quoting_def)
  ultimately show ?thesis
    using assms by (auto simp: stops_word_def Let_def is_quoting_def)
qed

lemma stale_at_stop:
  assumes "p_has_sym p" "p_sym p = TOKEN" "stops_word end p" "\<not> is_operator_start (parser_peek_char p)"
    "parser_peek_char p \<noteq> CHR '')''" "parser_peek_char p \<noteq> end"
  shows "todo (consume_symbol p) < todo p"
proof -
  have "match_operator p = None"
    using assms(4) by (simp add: match_operator_def)
  with assms have "stale p"
    by (auto simp: stale_def fresh_def symbol_here_def stops_word_def Let_def)
  then show ?thesis
    by (simp add: todo_def consume_symbol_def stale_def)
qed

lemma word_takes:
  assumes "parts_ok k D P" "k \<le> n"
  shows "takes k (word n D P end) wf_word"
proof (rule takesI)
  fix p
  assume p: "ready_parser p" "todo p < k"
  have loop: "yields (word_loop n D P end [] [] position_zero q)
      (\<lambda>x r. ready_parser r \<and> todo r \<le> todo p \<and> (\<forall>v. x = Some v \<longrightarrow> wf_word v \<and> todo r < todo p))"
    if q: "ready_parser q" "todo q \<le> todo p" "p_has_sym q" "p_sym q = TOKEN"
      "\<not> is_operator_start (parser_peek_char q)" "parser_peek_char q \<noteq> CHR '')''" "parser_peek_char q \<noteq> end" for q
  proof (cases "stops_word end q")
    case True
    obtain m where "n = Suc m"
      using p assms(2) by (cases n) auto
    with True q stale_at_stop [of q "end"] todo_consume [of q] show ?thesis
      by (simp add: word_loop_stops del: word_loop.simps)
  next
    case False
    with q p assms(2) show ?thesis
      by (auto intro!: yields_mono [OF word_loop_ok [OF assms(1)]])
  qed
  show "yields (word n D P end p)
      (\<lambda>x q. ready_parser q \<and> todo q \<le> todo p \<and> (\<forall>v. x = Some v \<longrightarrow> wf_word v \<and> todo q < todo p))"
    unfolding word_def by (rule symbol_rule [OF p(1)]) (auto simp: Let_def loop split: bool.split)
qed

text \<open>A parser that may also take nothing.\<close>

definition keeps :: "nat \<Rightarrow> 'a option parser \<Rightarrow> ('a \<Rightarrow> bool) \<Rightarrow> bool" where
  "keeps k f A \<longleftrightarrow>
     (\<forall>p. ready_parser p \<longrightarrow> todo p < k \<longrightarrow>
        yields (f p) (\<lambda>x q. ready_parser q \<and> todo q \<le> todo p \<and> (\<forall>v. x = Some v \<longrightarrow> A v)))"

lemma keepsD:
  assumes "keeps k f A" "ready_parser p" "todo p < k"
    and "\<And>x q. ready_parser q \<Longrightarrow> todo q \<le> todo p \<Longrightarrow> (\<And>v. x = Some v \<Longrightarrow> A v) \<Longrightarrow> Q x q"
  shows "yields (f p) Q"
proof -
  have "yields (f p) (\<lambda>x q. ready_parser q \<and> todo q \<le> todo p \<and> (\<forall>v. x = Some v \<longrightarrow> A v))"
    using assms(1-3) by (simp add: keeps_def)
  then show ?thesis
    by (rule yields_mono) (auto intro: assms(4))
qed

lemma takes_keeps: "takes k f A \<Longrightarrow> keeps k f A"
  by (auto simp: takes_def keeps_def elim!: yields_mono)

lemma arithmetic_char_rule:
  assumes "ready_parser p"
    and "\<And>x q. ready_parser q \<Longrightarrow> todo q \<le> todo p \<Longrightarrow> (\<And>buf. x = Some buf \<Longrightarrow> todo q < todo p) \<Longrightarrow> Q x q"
  shows "yields (arithmetic_char nxt c buf p) Q"
  using moved_skip [OF assms(1), of 1] assms(1)
  by (auto simp: arithmetic_char_def moved_def split: option.split intro!: read_char_rule assms(2))

lemma arithmetic_word_loop_ok:
  assumes "parts_ok k D P"
  shows "ready_parser p \<Longrightarrow> todo p < k \<Longrightarrow> todo p < n \<Longrightarrow> list_all wf_word children \<Longrightarrow>
    yields (arithmetic_word_loop n D P children buf b p)
      (\<lambda>x q. ready_parser q \<and> todo q \<le> todo p \<and> (\<forall>w. x = Some w \<longrightarrow> wf_word w))"
proof (induction n arbitrary: children buf b p)
  case (Suc n)
  note IH = yields_mono [OF Suc.IH]
  show ?case
  proof (cases "p_input p = []")
    case True
    with Suc.prems todo_consume [of p] show ?thesis by (simp add: Let_def)
  next
    case False
    from False skip_two [OF Suc.prems(1) False] Suc.prems todo_consume [of p] show ?thesis
      by (auto simp: Let_def split: option.split intro!: quoted_child_rule [OF assms] arithmetic_char_rule IH)
  qed
qed simp

lemma parameter_expansion_word_loop_ok:
  assumes "parts_ok k D P"
  shows "ready_parser p \<Longrightarrow> todo p < k \<Longrightarrow> todo p < n \<Longrightarrow> list_all wf_word children \<Longrightarrow>
    yields (parameter_expansion_word_loop n D P children buf b p)
      (\<lambda>x q. ready_parser q \<and> todo q \<le> todo p \<and> (\<forall>w. x = Some w \<longrightarrow> wf_word w))"
proof (induction n arbitrary: children buf b p)
  case (Suc n)
  note IH = yields_mono [OF Suc.IH]
  show ?case
  proof (cases "p_input p = []")
    case True
    with Suc.prems todo_consume [of p] show ?thesis by (simp add: Let_def)
  next
    case False
    from False skip_two [OF Suc.prems(1) False] Suc.prems todo_consume [of p] show ?thesis
      by (auto simp: Let_def split: option.split intro!: quoted_child_rule [OF assms] IH read_char_rule)
  qed
qed simp

lemma arithmetic_word_keeps:
  assumes "parts_ok k D P" "k \<le> n"
  shows "keeps k (arithmetic_word n D P end) wf_word"
  using assms(2)
  by (auto simp: keeps_def arithmetic_word_def intro!: yields_mono [OF arithmetic_word_loop_ok [OF assms(1)]])

lemma parameter_expansion_word_keeps:
  assumes "parts_ok k D P" "k \<le> n"
  shows "keeps k (parameter_expansion_word n D P) wf_word"
  using assms(2)
  by (auto simp: keeps_def parameter_expansion_word_def intro!: yields_mono [OF parameter_expansion_word_loop_ok [OF assms(1)]])

lemma word_list_loop_ok:
  assumes "\<And>end. keeps k (W end) wf_word"
  shows "ready_parser p \<Longrightarrow> todo p < k \<Longrightarrow> todo p < n \<Longrightarrow> list_all wf_word children \<Longrightarrow>
    yields (word_list_loop n end W children p) (\<lambda>cs q. ready_parser q \<and> todo q \<le> todo p \<and> list_all wf_word cs)"
proof (induction n arbitrary: children p)
  case (Suc n)
  have blanks: "ready_parser (skip m q) \<and> todo (skip m q) < todo q"
    if "m = length (takeWhile is_blank (p_input q))" "takeWhile is_blank (p_input q) \<noteq> []" "ready_parser q" for m q
    using that todo_skip [of q m] by (cases "p_input q") auto
  show ?case
    using Suc.prems blanks
    by (fastforce simp: Let_def split: option.split intro!: keepsD [OF assms] yields_mono [OF Suc.IH])
qed simp

lemma word_list_rule [parse_rules]:
  assumes "\<And>end. keeps k (W end) wf_word" "ready_parser p" "todo p < k" "k \<le> n"
    and "\<And>x q. ready_parser q \<Longrightarrow> todo q \<le> todo p \<Longrightarrow> (\<And>w. x = Some w \<Longrightarrow> wf_word w) \<Longrightarrow> Q x q"
  shows "yields (word_list n end W p) Q"
  using assms(2-4)
  by (auto simp: word_list_def split: list.splits intro!: yields_mono [OF word_list_loop_ok [OF assms(1)]] assms(5))

lemma char_to_op [simp]: "char_to_parameter_op_val c \<noteq> PARAM_LEADING_HASH"
  by (simp add: char_to_parameter_op_val_def)

lemma expect_parameter_op_rule [parse_rules]:
  assumes "ready_parser p"
    and "\<And>x q. ready_parser q \<Longrightarrow> todo q < todo p \<Longrightarrow>
      (\<And>op colon. x = Some (op, colon) \<Longrightarrow> op \<noteq> PARAM_NONE \<and> op \<noteq> PARAM_LEADING_HASH) \<Longrightarrow> Q x q"
  shows "yields (expect_parameter_op p) Q"
proof -
  have next_char: "yields (if colon then read_char q else Inr (c, q)) R"
    if "ready_parser q" "todo q < todo p" "\<And>c r. ready_parser r \<Longrightarrow> todo r < todo p \<Longrightarrow> R c r" for colon c q R
    using that by (auto intro!: read_char_rule)
  show ?thesis
    unfolding expect_parameter_op_def Let_def yields_bind
    by (rule read_char_rule [OF assms(1)], rule next_char, assumption, assumption)
      (auto simp: moved_def dest: moved_skip [where n = 1] intro!: assms(2))
qed

lemma finish_parameter_expression_rule [parse_rules]:
  assumes "ready_parser p"
    and "is_parameter (fst name)" "\<And>w. arg = Some w \<Longrightarrow> wf_word w"
    and "op = PARAM_NONE \<or> op = PARAM_LEADING_HASH \<Longrightarrow> arg = None \<and> \<not> colon"
    and "\<And>x q. ready_parser q \<Longrightarrow> todo q \<le> todo p \<Longrightarrow> (\<And>w. x = Some w \<Longrightarrow> wf_word w) \<Longrightarrow> Q x q"
  shows "yields (finish_parameter_expression dollar lbrace name op colon rg arg p) Q"
  using assms(1-4)
  by (auto simp: finish_parameter_expression_def intro!: read_char_rule assms(5))

lemma name_chars_parameter:
  "list_all is_name_char s \<Longrightarrow> s \<noteq> [] \<Longrightarrow> is_parameter s"
  by (simp add: is_parameter_def)

lemma expect_parameter_expression_rule [parse_rules]:
  assumes "\<And>end. keeps k (W end) wf_word" "k \<le> n" "ready_parser p" "todo p \<le> k"
    and "\<And>x q. ready_parser q \<Longrightarrow> todo q \<le> todo p \<Longrightarrow> (\<And>w. x = Some w \<Longrightarrow> wf_word w) \<Longrightarrow> Q x q"
  shows "yields (expect_parameter_expression n W dollar p) Q"
proof -
  have hash: "ready_parser (if b then skip 1 q else q) \<and> todo (if b then skip 1 q else q) \<le> todo q"
    if "ready_parser q" for b q
    using that moved_skip [of q 1] by (auto simp: moved_def)
  have rest: "yields
      (if op = PARAM_NONE \<and> parser_peek_char r \<noteq> CHR ''}''
       then bind_parse (expect_parameter_op r) (\<lambda>t q.
         case t of
           None \<Rightarrow> Inr (None, q)
         | Some (op, colon) \<Rightarrow>
             bind_parse (word_list n (CHR ''}'') W q) (\<lambda>arg p'.
               finish_parameter_expression dollar lbrace name op colon (range_to (p_pos r) q) arg p'))
       else finish_parameter_expression dollar lbrace name op False rg None r) Q"
    if "ready_parser r" "todo r < todo p" "is_parameter (fst name)" for r name op rg lbrace
    using that assms(2,4)
    by (auto split: option.split intro!: expect_parameter_op_rule word_list_rule [OF assms(1)]
        finish_parameter_expression_rule assms(5))
  have name: "yields (if len = 0 then Inr (None, parser_set_error msg q) else bind_parse (read_token len q) f) Q"
    if "ready_parser q" "todo q < todo p" "p_has_sym q"
      and "0 < len \<Longrightarrow> list_all is_name_char (take len (p_input q)) \<and> take len (p_input q) \<noteq> []"
      and "\<And>r q. ready_parser q \<Longrightarrow> todo q < todo p \<Longrightarrow> (\<And>v. r = Some v \<Longrightarrow> is_parameter (fst v)) \<Longrightarrow> yields (f r q) Q"
    for q len msg f
  proof (cases "len = 0")
    case True
    with that(1,2) show ?thesis by (auto intro!: assms(5))
  next
    case False
    with that(2-4) show ?thesis
      by (simp, intro read_token_rule [OF that(1)] that(5)) (auto simp: name_chars_parameter)
  qed
  show ?thesis
    unfolding expect_parameter_expression_def Let_def yields_bind
    by (rule read_expected_rule [OF assms(3)], rule peek_name_rule, simp add: hash, rule name, assumption,
        meson hash le_less_trans, assumption, blast, rule yields_option,
        rule yields_simps(2) [THEN iffD2], rule assms(5), assumption, rule less_imp_le, assumption, simp, rule rest)
      auto
qed

lemma expect_word_command_rule [parse_rules]:
  assumes "prog_ok k P" "ready_parser p" "todo p \<le> k"
    and "\<And>x q. ready_parser q \<Longrightarrow> todo q \<le> todo p \<Longrightarrow> (\<And>w. x = Some w \<Longrightarrow> wf_word w) \<Longrightarrow> Q x q"
  shows "yields (expect_word_command P p) Q"
proof -
  have prog: "yields (P ((consume_symbol q)\<lparr>p_alias := None\<rparr>)) R"
    if "ready_parser q" "todo q < k"
      and "\<And>x r. ready_parser r \<Longrightarrow> todo r \<le> todo q \<Longrightarrow> (x = None \<Longrightarrow> p_error r \<noteq> None) \<Longrightarrow>
        (\<And>prog. x = Some prog \<Longrightarrow> wf_program prog) \<Longrightarrow> R x r" for q R
    using that(1,2) todo_consume [of q]
    by (intro prog_okD [OF assms(1)] that(3)) (auto simp: ready_parser_def no_aliases_def consume_symbol_def)
  have no_alias: "ready_parser (q\<lparr>p_alias := p_alias r\<rparr>)" if "ready_parser q" "ready_parser r" for q r
    using that by (simp add: ready_parser_def no_aliases_def)
  show ?thesis
    unfolding expect_word_command_def yields_bind
    by (rule read_expected_rule [OF assms(2)], rule symbol_rule, assumption)
      (use assms(3) in \<open>auto simp: Let_def mrsh_parser_error_def no_alias mrsh_word_command_create_def
        split: bool.split option.split intro!: prog expect_token_rule assms(4)\<close>)
qed

lemma expect_word_arithmetic_rule [parse_rules]:
  assumes "\<And>end. keeps k (A end) wf_word" "k \<le> n" "ready_parser p" "todo p \<le> k"
    and "\<And>x q. ready_parser q \<Longrightarrow> todo q \<le> todo p \<Longrightarrow> (\<And>w. x = Some w \<Longrightarrow> wf_word w) \<Longrightarrow> Q x q"
  shows "yields (expect_word_arithmetic n A p) Q"
  using assms(2-4)
  by (auto simp: expect_word_arithmetic_def mrsh_word_arithmetic_create_def split: option.split
      intro!: read_expected_rule word_list_rule [OF assms(1)] expect_token_rule assms(5))

lemma expect_dollar_takes:
  assumes "\<And>end. keeps k (W end) wf_word" "\<And>end. keeps k (A end) wf_word" "prog_ok (k - 1) P" "k \<le> n"
  shows "takes (Suc k) (expect_dollar n W A P) wf_word"
proof (rule takesI)
  fix p
  assume p: "ready_parser p" "todo p < Suc k"
  let ?Q = "\<lambda>x q. ready_parser q \<and> todo q \<le> todo p \<and> (\<forall>v. x = Some v \<longrightarrow> wf_word v \<and> todo q < todo p)"
  have name: "yields
      (if len = 0 \<and> \<not> is_special_parameter c then Inr (None, parser_set_error msg r)
       else bind_parse (read_token (if len = 0 then 1 else len) r) (\<lambda>name p.
         case name of
           None \<Rightarrow> Inr (None, p)
         | Some (name, rg) \<Rightarrow>
             Inr (Some (WParameter name PARAM_NONE False None
                    (param_positions_zero\<lparr>dollar_pos := dollar, name_range := rg\<rparr>)), p))) ?Q"
    if "ready_parser r" "todo r < todo p" "p_has_sym r"
      and "0 < len \<Longrightarrow> list_all is_name_char (take len (p_input r)) \<and> take len (p_input r) \<noteq> []" for r c len msg dollar
    using that
    by (auto split: option.split simp: is_parameter_def intro!: read_token_rule)
  have rest: "yields
      (case peek_name False q of
         (len, r) \<Rightarrow>
           if len = 0 \<and> \<not> is_special_parameter c then Inr (None, parser_set_error msg r)
           else bind_parse (read_token (if len = 0 then 1 else len) r) (\<lambda>name p.
             case name of
               None \<Rightarrow> Inr (None, p)
             | Some (name, rg) \<Rightarrow>
                 Inr (Some (WParameter name PARAM_NONE False None
                        (param_positions_zero\<lparr>dollar_pos := dollar, name_range := rg\<rparr>)), p))) ?Q"
    if "ready_parser q" "todo q < todo p" for q c msg dollar
    using that by (intro peek_name_rule name) auto
  show "yields (expect_dollar n W A P p) ?Q"
    unfolding expect_dollar_def Let_def yields_bind
    by (rule read_expected_rule [OF p(1)])
      (use p assms(4) in \<open>auto intro!: expect_parameter_expression_rule [OF assms(1)] expect_word_arithmetic_rule [OF assms(2)]
        expect_word_command_rule [OF assms(3)] rest\<close>)
qed

section \<open>Simple commands\<close>

text \<open>What the functions of \<open>program.c\<close> call back, for inputs below \<open>k\<close>, and below \<open>m\<close> inside a compound
  command.\<close>

definition grammar_ok :: "nat \<Rightarrow> nat \<Rightarrow> grammar \<Rightarrow> bool" where
  "grammar_ok k m e \<longleftrightarrow>
     k \<le> g_fuel e \<and> m \<le> k \<and> k \<le> Suc m \<and> (\<forall>end. takes k (g_word e end) wf_word) \<and>
     (\<forall>line. 2 * length line < k \<longrightarrow>
        yields (g_line e (mrsh_parser_with_data line)) (\<lambda>x q. \<forall>w. x = Some w \<longrightarrow> wf_word w)) \<and>
     takes m (g_compound e) (\<lambda>cmd. wf_command cmd \<and> \<not> is_simple cmd)"

lemma grammar_okD:
  assumes "grammar_ok k m e"
  shows "k \<le> g_fuel e" "m \<le> k" "k \<le> Suc m" "takes k (g_word e end) wf_word"
    "takes m (g_compound e) (\<lambda>cmd. wf_command cmd \<and> \<not> is_simple cmd)"
    "2 * length line < k \<Longrightarrow>
      yields (g_line e (mrsh_parser_with_data line)) (\<lambda>x q. \<forall>w. x = Some w \<longrightarrow> wf_word w)"
  using assms by (simp_all add: grammar_ok_def)

lemmas word_rule = takesD [OF grammar_okD(4)]
lemmas compound_rule = takesD [OF grammar_okD(5)]

lemma newline_moved:
  assumes "newline p = Some (b, q)" "ready_parser p"
  shows "ready_parser q" "todo q \<le> todo p" "length (p_input q) + of_bool b \<le> length (p_input p)" "b \<Longrightarrow> todo q < todo p"
proof -
  obtain b' p' where s: "symbol NEWLINE p = (b', p')"
    by (cases "symbol NEWLINE p")
  have len: "length (p_input p') \<le> length (p_input p)"
    using s next_symbol_length [of p] by (auto simp: symbol_def get_symbol_def Let_def split: if_splits)
  note p' = symbol_moved [OF s assms(2)]
  show "ready_parser q" "todo q \<le> todo p" "length (p_input q) + of_bool b \<le> length (p_input p)" "b \<Longrightarrow> todo q < todo p"
    using assms(1) s p' len todo_skip [of p' 1] todo_consume [of "skip 1 p'"]
    by (cases "p_input p'"; force simp: newline_def parser_read_char_def parser_read_def moved_def consume_symbol_def
        split: bool.splits if_splits)+
qed

lemma linebreak_loop_moved:
  "linebreak_loop n p = Some q \<Longrightarrow> ready_parser p \<Longrightarrow> ready_parser q \<and> todo q \<le> todo p"
proof (induction n arbitrary: p)
  case (Suc n)
  obtain b r where r: "newline p = Some (b, r)"
    using Suc.prems(1) by (auto split: option.splits)
  with Suc.IH [of r] Suc.prems newline_moved [OF r Suc.prems(2)] show ?case
    by (cases b) auto
qed simp

text \<open>The bound of \<open>linebreak\<close> is enough.\<close>

lemma linebreak_loop_enough:
  "ready_parser p \<Longrightarrow> length (p_input p) < n \<Longrightarrow> n \<le> m \<Longrightarrow> linebreak_loop m p = linebreak_loop n p"
proof (induction n arbitrary: m p)
  case (Suc n)
  from Suc.prems(3) obtain m' where m: "m = Suc m'" "n \<le> m'"
    by (rule Suc_bound)
  show ?case
  proof (cases "newline p")
    case (Some br)
    then obtain b r where r: "newline p = Some (b, r)"
      by (cases br) auto
    with Suc.IH [OF newline_moved(1) [OF r] _ m(2)] Suc.prems(1,2) newline_moved(3) [OF r] m(1) show ?thesis
      by (cases b) auto
  qed (simp add: m(1))
qed simp

lemma read_linebreak_rule [parse_rules]:
  assumes "ready_parser p"
    and "\<And>q. ready_parser q \<Longrightarrow> todo q \<le> todo p \<Longrightarrow> Q () q"
  shows "yields (read_linebreak p) Q"
  unfolding read_linebreak_def
  by (rule yields_parse_of) (use assms in \<open>auto simp: linebreak_def simp del: linebreak_loop.simps dest!: linebreak_loop_moved\<close>)

lemma newline_rule [parse_rules]:
  assumes "ready_parser p"
    and "\<And>b q. ready_parser q \<Longrightarrow> todo q \<le> todo p \<Longrightarrow> (b \<Longrightarrow> todo q < todo p) \<Longrightarrow> Q b q"
  shows "yields (parse_of (newline p)) Q"
  by (rule yields_parse_of) (auto dest: newline_moved [OF _ assms(1)] intro: assms(2))

lemma read_newline_list_rule [parse_rules]:
  assumes "ready_parser p"
    and "\<And>b q. ready_parser q \<Longrightarrow> todo q \<le> todo p \<Longrightarrow> (b \<Longrightarrow> todo q < todo p) \<Longrightarrow> Q b q"
  shows "yields (read_newline_list p) Q"
  unfolding read_newline_list_def
proof (rule yields_parse_of)
  fix b q
  assume "newline_list p = Some (b, q)"
  then consider "newline p = Some (False, q)" "\<not> b"
    | r n where "newline p = Some (True, r)" "linebreak_loop n r = Some q"
    by (auto simp: newline_list_def linebreak_def simp del: linebreak_loop.simps split: option.splits bool.splits)
  then show "Q b q"
  proof cases
    case 1
    from 1(2) newline_moved [OF 1(1) assms(1)] show ?thesis by (auto intro: assms(2))
  next
    case 2
    from newline_moved [OF 2(1) assms(1)] linebreak_loop_moved [OF 2(2)] show ?thesis
      by (auto intro!: assms(2))
  qed
qed

lemma operator_rule [parse_rules]:
  assumes "ready_parser p"
    and "\<And>r q. ready_parser q \<Longrightarrow> todo q \<le> todo p \<Longrightarrow> (\<And>v. r = Some v \<Longrightarrow> todo q < todo p) \<Longrightarrow> Q r q"
  shows "yields (operator name p) Q"
proof -
  have read: "yields (parse_of (parser_read (length str) q)) (\<lambda>buf r. buf = str \<longrightarrow> Q (Some (f r)) (consume_symbol r))"
    if "operator_str name = Some str" "ready_parser q" "todo q \<le> todo p" for str q f
  proof (rule yields_parse_of, rule impI)
    fix buf r
    assume r: "parser_read (length str) q = Some (buf, r)" "buf = str"
    have "str \<noteq> []"
      using that(1) by (auto simp: operator_str_def operators_def split: if_splits)
    with r that have "todo r < todo p" "ready_parser r"
      using todo_skip [of q "length str"] by (cases "p_input q"; auto simp: parser_read_def split: if_splits)+
    then show "Q (Some (f r)) (consume_symbol r)"
      using todo_consume [of r] by (intro assms(2)) auto
  qed
  show ?thesis
    unfolding operator_def
    by (rule symbol_rule [OF assms(1)])
      (auto split: bool.split option.split intro!: assms(2) read)
qed

lemma separator_op_rule [parse_rules]:
  assumes "ready_parser p"
    and "\<And>r q. ready_parser q \<Longrightarrow> todo q \<le> todo p \<Longrightarrow> (\<And>c. r = Some c \<Longrightarrow> todo q < todo p) \<Longrightarrow> yields (f r q) Q"
  shows "yields (case separator_op p of (r, q) \<Rightarrow> f r q) Q"
proof -
  obtain r q r' q' where t: "token ''&'' p = (r, q)" "token '';'' q = (r', q')"
    by (metis surj_pair)
  note q = token_moved [OF t(1) assms(1)]
  from q token_moved [OF t(2) q(1)] t show ?thesis
    by (cases r; cases r') (auto simp: separator_op_def intro!: assms(2))
qed

lemma first_operator_rule [parse_rules]:
  assumes "ready_parser p"
    and "\<And>r q. ready_parser q \<Longrightarrow> todo q \<le> todo p \<Longrightarrow> (\<And>v. r = Some v \<Longrightarrow> todo q < todo p) \<Longrightarrow> Q r q"
  shows "yields (first_operator ops p) Q"
  using assms
proof (induction ops arbitrary: p)
  case (Cons opn ops)
  from Cons.prems(1) show ?case
    by (cases opn) (auto split: option.split intro!: operator_rule Cons.IH Cons.prems(2))
qed auto

lemma redirect_op_takes: "takes k parse_redirect_op (\<lambda>_. True)"
  by (rule takesI) (auto simp: parse_redirect_op_def simp del: first_operator.simps split: option.split intro!: token_rule first_operator_rule)

lemma apply_aliases_rule:
  assumes g: "grammar_ok k m e" and p: "ready_parser p" "todo p < k"
    and Q: "\<And>q. ready_parser q \<Longrightarrow> todo q \<le> todo p \<Longrightarrow> Q () q"
  shows "yields (apply_aliases e p) Q"
proof (cases "p_alias p")
  case None
  with p Q show ?thesis by (simp add: apply_aliases_def)
next
  case (Some get)
  with p(1) have none: "get = (\<lambda>_. None)"
    by (simp add: ready_parser_def no_aliases_def)
  obtain n where "g_fuel e = Suc n"
    using p(2) grammar_okD(1) [OF g] by (cases "g_fuel e") auto
  with Some none have "apply_aliases e p =
      (case symbol TOKEN p of (b, q) \<Rightarrow>
        if b then (case peek_word NUL q of (_, r) \<Rightarrow> Inr ((), r)) else Inr ((), q))"
    by (simp add: apply_aliases_def peek_alias_def Let_def split: bool.split prod.split)
  then show ?thesis
    using p(1) by (simp only:) (auto intro!: symbol_rule peek_word_rule Q)
qed

lemma io_here_takes:
  assumes g: "grammar_ok k m e"
  shows "takes k (io_here e) (\<lambda>(op, r, w). wf_word w)"
  by (rule takesI)
    (auto simp: io_here_def here_name_def split: option.split intro!: operator_rule word_rule [OF g])

lemma io_file_takes:
  assumes g: "grammar_ok k m e"
  shows "takes k (io_file e) (\<lambda>(op, r, w). wf_word w)"
  by (rule takesI)
    (auto simp: io_file_def filename_def split: option.split intro!: takesD [OF redirect_op_takes] word_rule [OF g])

lemma io_number_rule [parse_rules]:
  assumes "ready_parser p"
    and "\<And>num q. ready_parser q \<Longrightarrow> todo q \<le> todo p \<Longrightarrow> -1 \<le> num \<Longrightarrow> num \<le> 9 \<Longrightarrow> Q num q"
  shows "yields (io_number p) Q"
proof -
  have digit: "-1 \<le> int (char_code c) - 48 \<and> int (char_code c) - 48 \<le> 9" if "is_digit c" for c
    using that by (auto simp: is_digit_def)
  show ?thesis
    unfolding io_number_def
    by (rule symbol_rule [OF assms(1)])
      (use digit todo_consume [THEN order_trans] in \<open>auto simp: Let_def split: bool.split intro!: read_char_rule assms(2)\<close>)
qed

lemma io_redirect_takes:
  assumes g: "grammar_ok k m e"
  shows "takes k (io_redirect e) wf_redirect"
  by (rule takesI)
    (auto simp: io_redirect_def Let_def split: option.split
      intro!: io_number_rule takesD [OF io_file_takes [OF g]] takesD [OF io_here_takes [OF g]])

lemma assignment_word_takes:
  assumes g: "grammar_ok k m e"
  shows "takes k (assignment_word e) wf_assignment"
proof (rule takesI)
  fix p
  assume p: "ready_parser p" "todo p < k"
  let ?Q = "\<lambda>x q. ready_parser q \<and> todo q \<le> todo p \<and> (\<forall>v. x = Some v \<longrightarrow> wf_assignment v \<and> todo q < todo p)"
  have ident: "is_identifier (take len cs)"
    if "list_all is_name_char (take len cs)" "take len cs \<noteq> []" "\<not> is_digit (hd cs)" for len cs
    using that by (cases cs; cases len) (auto simp: is_identifier_def)
  have rest: "yields (case peek_name False q of
      (len, r) \<Rightarrow>
        if len = 0 \<or> peek_at r len \<noteq> CHR ''='' then Inr (None, r)
        else bind_some (read_token len r) (\<lambda>(name, rg) p.
          bind_parse (read_char p) (\<lambda>_ q.
          bind_parse (g_word e NUL q) (\<lambda>value q.
            Inr (Some (Assignment name (case value of None \<Rightarrow> mrsh_word_string_create [] False | Some w \<Rightarrow> w) rg (p_pos p)), q)))))
    ?Q" if "ready_parser q" "todo q \<le> todo p" for q
    by (rule peek_name_rule [OF that(1)])
      (use p that ident in \<open>auto simp: mrsh_word_string_create_def split: option.split
        intro!: read_token_rule read_char_rule word_rule [OF g]\<close>)
  show "yields (assignment_word e p) ?Q"
    unfolding assignment_word_def Let_def
    by (rule symbol_rule [OF p(1)]) (auto split: bool.split intro: rest)
qed

lemma cmd_prefixes_ok:
  assumes g: "grammar_ok k m e"
  shows "ready_parser p \<Longrightarrow> todo p < k \<Longrightarrow> todo p < n \<Longrightarrow> list_all wf_redirect redirs \<Longrightarrow> list_all wf_assignment assigns \<Longrightarrow>
    yields (cmd_prefixes n e redirs assigns p)
      (\<lambda>(rs, xs) q. ready_parser q \<and> todo q \<le> todo p \<and> list_all wf_redirect rs \<and> list_all wf_assignment xs \<and>
        ((rs, xs) = (redirs, assigns) \<or> todo q < todo p))"
proof (induction n arbitrary: redirs assigns p)
  case (Suc n)
  from Suc.prems show ?case
    by (auto split: option.split intro!: takesD [OF io_redirect_takes [OF g]] takesD [OF assignment_word_takes [OF g]]
        yields_mono [OF Suc.IH])
qed simp

lemma cmd_name_takes:
  assumes g: "grammar_ok k m e"
  shows "takes k (cmd_name e) wf_word"
  by (rule takesI)
    (auto simp: cmd_name_def split: option.split intro!: apply_aliases_rule [OF g] peek_word_rule read_token_rule word_rule [OF g])

lemma cmd_suffixes_ok:
  assumes g: "grammar_ok k m e"
  shows "ready_parser p \<Longrightarrow> todo p < k \<Longrightarrow> todo p < n \<Longrightarrow> list_all wf_redirect redirs \<Longrightarrow> list_all wf_word args \<Longrightarrow>
    yields (cmd_suffixes n e redirs args p)
      (\<lambda>(rs, ws) q. ready_parser q \<and> todo q \<le> todo p \<and> list_all wf_redirect rs \<and> list_all wf_word ws)"
proof (induction n arbitrary: redirs args p)
  case (Suc n)
  from Suc.prems show ?case
    by (auto split: option.split intro!: takesD [OF io_redirect_takes [OF g]] word_rule [OF g] yields_mono [OF Suc.IH])
qed simp

lemma simple_command_takes:
  assumes g: "grammar_ok k m e"
  shows "takes k (simple_command e) wf_command"
proof (rule takesI)
  fix p
  assume p: "ready_parser p" "todo p < k"
  show "yields (simple_command e p)
      (\<lambda>x q. ready_parser q \<and> todo q \<le> todo p \<and> (\<forall>v. x = Some v \<longrightarrow> wf_command v \<and> todo q < todo p))"
    unfolding simple_command_def yields_bind
    by (rule yields_mono [OF cmd_prefixes_ok [OF g p]])
      (use p grammar_okD(1) [OF g] in \<open>auto split: option.split intro!: takesD [OF cmd_name_takes [OF g]]
        yields_mono [OF cmd_suffixes_ok [OF g]]\<close>)
qed

section \<open>Here-documents\<close>

lemma parse_here_line_rule:
  assumes "grammar_ok k m e" "2 * length line < k" "\<And>w. wf_word w \<Longrightarrow> Q w p"
  shows "yields (parse_here_line e expand line p) Q"
proof (cases "expand")
  case True
  have "yields (case r of Inl x \<Rightarrow> Inl x | Inr (None, _) \<Rightarrow> Inl ParseNull | Inr (Some w, _) \<Rightarrow> Inr (w, p)) Q"
    if "yields r (\<lambda>x q. \<forall>w. x = Some w \<longrightarrow> wf_word w)" for r
    using that assms(3) by (auto simp: yields_def split: sum.splits option.splits)
  with grammar_okD(6) [OF assms(1,2)] True show ?thesis
    by (simp add: parse_here_line_def)
qed (simp add: parse_here_line_def mrsh_word_string_create_def assms(3))

lemma here_document_lines_ok:
  assumes g: "grammar_ok k m e"
  shows "ready_parser p \<Longrightarrow> todo p < k \<Longrightarrow> todo p < n \<Longrightarrow> list_all wf_word acc \<Longrightarrow>
    yields (parse_here_document_lines n e trim expand delim acc p)
      (\<lambda>x q. ready_parser q \<and> todo q \<le> todo p \<and> (\<forall>ls. x = Some ls \<longrightarrow> list_all wf_word ls))"
proof (induction n arbitrary: acc p)
  case (Suc n)
  let ?text = "takeWhile (\<lambda>c. c \<noteq> NL) (p_input p)"
  let ?line = "if trim then dropWhile (\<lambda>c. c = TAB) ?text else ?text"
  let ?p = "skip (length ?text) p"
  let ?Q = "\<lambda>x q. ready_parser q \<and> todo q \<le> todo p \<and> (\<forall>ls. x = Some ls \<longrightarrow> list_all wf_word ls)"
  have p: "ready_parser ?p" "todo ?p \<le> todo p" "ready_parser (skip 1 ?p)" "todo (skip 1 ?p) \<le> todo p"
    using moved_skip [OF Suc.prems(1), of "length ?text"] moved_skip [of ?p 1] Suc.prems(1) by (auto simp: moved_def)
  have line: "2 * length ?line < k" if "p_input ?p \<noteq> []"
  proof -
    have "length ?line \<le> length ?text"
      by (simp add: length_dropWhile_le)
    moreover have "length ?text < length (p_input p)"
      using that by auto
    ultimately show ?thesis
      using Suc.prems(2) unfolding todo_def by linarith
  qed
  obtain l q where lq: "l = ?line" "q = ?p"
    by blast
  have eq: "parse_here_document_lines (Suc n) e trim expand delim acc p =
    (if l = delim then Inr (Some acc, if parser_peek_char q = NL then skip 1 q else q)
     else if p_input q = [] then fail_with ''unterminated here-document'' q
     else bind_parse (read_newline q) (\<lambda>_ r.
       bind_parse (parse_here_line e expand l r) (\<lambda>w r. parse_here_document_lines n e trim expand delim (acc @ [w]) r)))"
    unfolding lq by (simp only: parse_here_document_lines.simps Let_def)
  have "ready_parser q" "todo q \<le> todo p" "ready_parser (skip (Suc 0) q)" "todo (skip (Suc 0) q) \<le> todo p"
    "p_input q \<noteq> [] \<Longrightarrow> 2 * length l < k"
    using p line unfolding lq One_nat_def by blast+
  then show ?case
    unfolding eq using Suc.prems
    by (auto intro!: read_newline_rule parse_here_line_rule [OF g] yields_mono [OF Suc.IH])
qed simp

lemma expect_here_document_rule:
  assumes g: "grammar_ok k m e" and p: "ready_parser p" "todo p < k"
    and "\<And>ok q. ready_parser q \<Longrightarrow> todo q \<le> todo p \<Longrightarrow> Q ok q"
  shows "yields (expect_here_document e redir p) Q"
proof -
  have stored: "ready_parser (consume_symbol (q\<lparr>p_docs := (p_docs q)(key \<mapsto> ls)\<rparr>))" if "ready_parser q" "list_all wf_word ls"
    for q ls key
    using that by (simp add: ready_parser_def no_aliases_def consume_symbol_def)
  have len: "todo (consume_symbol (q\<lparr>p_docs := d\<rparr>)) \<le> todo p" if "todo q \<le> todo p" for q d
    using that todo_consume [of "q\<lparr>p_docs := d\<rparr>"] by simp
  show ?thesis
    unfolding expect_here_document_def
    using p grammar_okD(1) [OF g]
    by (auto split: option.split prod.split intro!: yields_mono [OF here_document_lines_ok [OF g]] assms(4) stored len)
qed

lemma expect_here_documents_rule:
  assumes g: "grammar_ok k m e"
    and first: "\<And>q R. ready_parser q \<Longrightarrow> todo q < k \<Longrightarrow>
      (\<And>ok r. ready_parser r \<Longrightarrow> todo r \<le> todo q \<Longrightarrow> R ok r) \<Longrightarrow> yields (first q) R"
  shows "ready_parser p \<Longrightarrow> todo p < k \<Longrightarrow> (\<And>ok q. ready_parser q \<Longrightarrow> todo q \<le> todo p \<Longrightarrow> Q ok q) \<Longrightarrow>
    yields (expect_here_documents e first rs p) Q"
proof (induction rs arbitrary: p)
  case (Cons r rs)
  from Cons.prems(1,2) show ?case
    by (auto intro!: first expect_here_document_rule [OF g] Cons.IH Cons.prems(3))
qed simp

section \<open>Lists\<close>

lemma yields_orelse [simp]:
  "yields (orelse_parse r f) Q \<longleftrightarrow>
    yields r (\<lambda>x q. if x \<noteq> None \<or> mrsh_parser_error q \<noteq> None then Q x q else yields (f q) Q)"
  by (auto simp: orelse_parse_def yields_def bind_parse_def split: sum.split)

lemma command_takes:
  assumes g: "grammar_ok k m e"
  shows "takes m (command e) wf_command"
  using grammar_okD(2) [OF g]
  by (intro takesI)
    (auto simp: command_def intro!: apply_aliases_rule [OF g] compound_rule [OF g] takesD [OF simple_command_takes [OF g]])

lemma pipeline_loop_ok:
  assumes g: "grammar_ok k m e"
  shows "ready_parser p \<Longrightarrow> todo p < m \<Longrightarrow> todo p < n \<Longrightarrow> list_all wf_command cmds \<Longrightarrow> cmds \<noteq> [] \<Longrightarrow>
    yields (parse_pipeline_loop n e cmds p)
      (\<lambda>x q. ready_parser q \<and> todo q \<le> todo p \<and> (\<forall>cs. x = Some cs \<longrightarrow> list_all wf_command cs \<and> cs \<noteq> []))"
proof (induction n arbitrary: cmds p)
  case (Suc n)
  from Suc.prems show ?case
    by (auto split: option.split intro!: token_rule read_linebreak_rule takesD [OF command_takes [OF g]] yields_mono [OF Suc.IH])
qed simp

lemma pipeline_takes:
  assumes g: "grammar_ok k m e"
  shows "takes m (pipeline e) (\<lambda>l. wf_and_or_list l \<and> is_pipeline l)"
  using grammar_okD(1,2) [OF g]
  by (intro takesI)
    (auto simp: pipeline_def split: option.split intro!: token_rule takesD [OF command_takes [OF g]]
      yields_mono [OF pipeline_loop_ok [OF g]])

lemma binop_operator_rule [parse_rules]:
  assumes "ready_parser p"
    and "\<And>r q. ready_parser q \<Longrightarrow> todo q \<le> todo p \<Longrightarrow> (\<And>v. r = Some v \<Longrightarrow> todo q < todo p) \<Longrightarrow> Q r q"
  shows "yields (binop_operator p) Q"
  using assms(1)
  by (auto simp: binop_operator_def split: option.split intro!: operator_rule assms(2))

lemma and_or_loop_ok:
  assumes g: "grammar_ok k m e"
  shows "ready_parser p \<Longrightarrow> todo p < m \<Longrightarrow> todo p < n \<Longrightarrow>
    yields (and_or_loop n e p)
      (\<lambda>x q. ready_parser q \<and> todo q \<le> todo p \<and> (\<forall>l. x = Some l \<longrightarrow> wf_and_or_list l \<and> todo q < todo p))"
proof (induction n arbitrary: p)
  case (Suc n)
  from Suc.prems show ?case
    by (auto split: option.split intro!: binop_operator_rule read_linebreak_rule takesD [OF pipeline_takes [OF g]]
        yields_mono [OF Suc.IH])
qed simp

lemma and_or_takes:
  assumes g: "grammar_ok k m e"
  shows "takes m (and_or e) wf_and_or_list"
  using grammar_okD(1,2) [OF g]
  by (intro takesI) (auto simp: and_or_def intro!: yields_mono [OF and_or_loop_ok [OF g]])

lemma separator_rule [parse_rules]:
  assumes "ready_parser p"
    and "\<And>r q. ready_parser q \<Longrightarrow> todo q \<le> todo p \<Longrightarrow> Q r q"
  shows "yields (separator p) Q"
  using assms(1) unfolding separator_def
  by (auto split: option.split intro!: separator_op_rule read_linebreak_rule read_newline_list_rule assms(2))

lemma wf_separated [simp]: "wf_command_list (separated l pos sep) \<longleftrightarrow> wf_and_or_list l"
  by (simp add: separated_def)

lemma parse_term_takes:
  assumes g: "grammar_ok k m e"
  shows "takes m (parse_term e) wf_command_list"
  using grammar_okD(2) [OF g]
  by (intro takesI)
    (auto simp: parse_term_def Let_def split: option.split if_splits
      intro!: takesD [OF and_or_takes [OF g]] separator_rule expect_here_documents_rule [OF g])

lemma terms_ok:
  assumes g: "grammar_ok k m e"
  shows "ready_parser p \<Longrightarrow> todo p < m \<Longrightarrow> todo p < n \<Longrightarrow> list_all wf_command_list cmds \<Longrightarrow>
    yields (terms n e cmds p) (\<lambda>cs q. ready_parser q \<and> todo q \<le> todo p \<and> list_all wf_command_list cs)"
proof (induction n arbitrary: cmds p)
  case (Suc n)
  from Suc.prems show ?case
    by (auto split: option.split intro!: takesD [OF parse_term_takes [OF g]] yields_mono [OF Suc.IH])
qed simp

lemma compound_list_rule:
  assumes g: "grammar_ok k m e" and "ready_parser p" "todo p < m"
    and "\<And>cs q. ready_parser q \<Longrightarrow> todo q \<le> todo p \<Longrightarrow> list_all wf_command_list cs \<Longrightarrow> Q cs q"
  shows "yields (compound_list e p) Q"
  using assms(2,3) grammar_okD(1,2) [OF g]
  by (auto simp: compound_list_def intro!: read_linebreak_rule yields_mono [OF terms_ok [OF g]] assms(4))

text \<open>The lists inside compound commands, behind at least one token.\<close>

lemma expect_compound_list_rule:
  assumes g: "grammar_ok k m e" and "ready_parser p" "todo p < m"
    and "\<And>x q. ready_parser q \<Longrightarrow> todo q \<le> todo p \<Longrightarrow>
      (\<And>cs. x = Some cs \<Longrightarrow> list_all wf_command_list cs \<and> cs \<noteq> []) \<Longrightarrow> Q x q"
  shows "yields (expect_compound_list e p) Q"
  using assms(2,3)
  by (auto simp: expect_compound_list_def intro!: compound_list_rule [OF g] assms(4))

section \<open>Compound commands\<close>

abbreviation is_compound :: "mrsh_command \<Rightarrow> bool" where
  "is_compound cmd \<equiv> wf_command cmd \<and> \<not> is_simple cmd"

lemma between_takes:
  assumes g: "grammar_ok k m e" and "opening \<noteq> []" "opening \<noteq> [NUL]"
    and "\<And>body l r. list_all wf_command_list body \<Longrightarrow> body \<noteq> [] \<Longrightarrow> is_compound (build body l r)"
  shows "takes k (between opening closing build e) is_compound"
  using grammar_okD(3) [OF g] assms(2,3)
  by (intro takesI)
    (auto simp: between_def Let_def assms(4) split: option.split
      intro!: token_rule expect_token_rule expect_compound_list_rule [OF g])

lemma brace_group_takes: "grammar_ok k m e \<Longrightarrow> takes k (brace_group e) is_compound"
  unfolding brace_group_def by (rule between_takes) auto

lemma subshell_takes: "grammar_ok k m e \<Longrightarrow> takes k (subshell e) is_compound"
  unfolding subshell_def by (rule between_takes) auto

lemma if_parts_rule:
  assumes g: "grammar_ok k m e" and "ready_parser p" "todo p < m"
    and "\<And>x q. ready_parser q \<Longrightarrow> todo q \<le> todo p \<Longrightarrow>
      (\<And>c t b. x = Some (c, t, b) \<Longrightarrow> list_all wf_command_list c \<and> c \<noteq> [] \<and> list_all wf_command_list b \<and> b \<noteq> []) \<Longrightarrow> Q x q"
  shows "yields (if_parts e p) Q"
  using assms(2,3)
  by (auto simp: if_parts_def split: option.split intro!: expect_token_rule expect_compound_list_rule [OF g] assms(4))

lemma else_part_ok:
  assumes g: "grammar_ok k m e"
  shows "ready_parser p \<Longrightarrow> todo p < k \<Longrightarrow> todo p < n \<Longrightarrow>
    yields (else_part n e p) (\<lambda>x q. ready_parser q \<and> todo q \<le> todo p \<and> (\<forall>cmd. x = Some cmd \<longrightarrow> is_compound cmd))"
proof (induction n arbitrary: p)
  case (Suc n)
  have "map_option wf_command x \<noteq> Some False \<and> map_option is_simple x \<noteq> Some True"
    if "\<forall>cmd. x = Some cmd \<longrightarrow> is_compound cmd" for x
    using that by (cases x) auto
  with Suc.prems grammar_okD(3) [OF g] show ?case
    by (auto split: option.split intro!: token_rule if_parts_rule [OF g] expect_compound_list_rule [OF g] yields_mono [OF Suc.IH])
qed simp

lemma if_clause_takes:
  assumes g: "grammar_ok k m e"
  shows "takes k (if_clause e) is_compound"
proof (rule takesI)
  fix p
  assume p: "ready_parser p" "todo p < k"
  have "map_option wf_command x \<noteq> Some False \<and> map_option is_simple x \<noteq> Some True"
    if "\<forall>cmd. x = Some cmd \<longrightarrow> is_compound cmd" for x
    using that by (cases x) auto
  with p grammar_okD(1,3) [OF g]
  show "yields (if_clause e p)
      (\<lambda>x q. ready_parser q \<and> todo q \<le> todo p \<and> (\<forall>v. x = Some v \<longrightarrow> is_compound v \<and> todo q < todo p))"
    by (auto simp: if_clause_def split: option.split intro!: token_rule expect_token_rule if_parts_rule [OF g]
        yields_mono [OF else_part_ok [OF g]])
qed

lemma sequential_sep_rule [parse_rules]:
  assumes "ready_parser p"
    and "\<And>b q. ready_parser q \<Longrightarrow> todo q \<le> todo p \<Longrightarrow> Q b q"
  shows "yields (sequential_sep p) Q"
  using assms(1) unfolding sequential_sep_def
  by (auto split: option.split intro!: token_rule read_linebreak_rule read_newline_list_rule assms(2))

lemma wordlist_ok:
  assumes g: "grammar_ok k m e"
  shows "ready_parser p \<Longrightarrow> todo p < k \<Longrightarrow> todo p < n \<Longrightarrow> list_all wf_word ws \<Longrightarrow>
    yields (wordlist n e ws p) (\<lambda>ws q. ready_parser q \<and> todo q \<le> todo p \<and> list_all wf_word ws)"
proof (induction n arbitrary: ws p)
  case (Suc n)
  from Suc.prems show ?case
    by (auto split: option.split intro!: word_rule [OF g] yields_mono [OF Suc.IH])
qed simp

lemma expect_do_group_rule:
  assumes g: "grammar_ok k m e" and "ready_parser p" "todo p < k"
    and "\<And>x q. ready_parser q \<Longrightarrow> todo q \<le> todo p \<Longrightarrow>
      (\<And>body d d'. x = Some (body, d, d') \<Longrightarrow> list_all wf_command_list body \<and> body \<noteq> []) \<Longrightarrow> Q x q"
  shows "yields (expect_do_group e p) Q"
  using assms(2,3) grammar_okD(3) [OF g]
  by (auto simp: expect_do_group_def split: option.split intro!: token_rule expect_compound_list_rule [OF g] assms(4))

lemma take_identifier:
  assumes "list_all is_name_char (take len cs)" "take len cs \<noteq> []" "\<not> is_digit (hd cs)"
  shows "is_identifier (take len cs)"
  using assms by (cases cs; cases len) (auto simp: is_identifier_def)

lemma for_clause_takes:
  assumes g: "grammar_ok k m e"
  shows "takes k (for_clause e) is_compound"
proof (rule takesI)
  fix p
  assume p: "ready_parser p" "todo p < k"
  let ?Q = "\<lambda>x q. ready_parser q \<and> todo q \<le> todo p \<and> (\<forall>v. x = Some v \<longrightarrow> wf_command v \<and> \<not> is_simple v \<and> todo q < todo p)"
  have words: "yields (if b then Inr ([], q) else wordlist (g_fuel e) e [] q) R"
    if "ready_parser q" "todo q < todo p"
      and "\<And>ws r. ready_parser r \<Longrightarrow> todo r < todo p \<Longrightarrow> list_all wf_word ws \<Longrightarrow> (b \<Longrightarrow> ws = []) \<Longrightarrow> R ws r" for b q R
    using that p grammar_okD(1) [OF g] by (auto intro!: yields_mono [OF wordlist_ok [OF g]])
  have rest: "yields (case token ''in'' q of
      (inn, p) \<Rightarrow>
        bind_parse (if inn = None then Inr ([], p) else wordlist (g_fuel e) e [] p) (\<lambda>words p.
        bind_parse (sequential_sep p) (\<lambda>sep p.
          if inn \<noteq> None \<and> \<not> sep then fail_with msg p
          else bind_some (expect_do_group e p) (\<lambda>(body, do_range, done_range) p.
            Inr (Some (ForClause name (inn \<noteq> None) words body for_range name_range do_range done_range
              (case inn of None \<Rightarrow> range_zero | Some r \<Rightarrow> r)), p))))) ?Q"
    if "ready_parser q" "todo q < todo p" "is_identifier name" for q msg name for_range name_range
    by (rule token_rule [OF that(1)], unfold yields_bind, rule words)
      (use that p in \<open>auto split: option.split intro!: sequential_sep_rule expect_do_group_rule [OF g]\<close>)
  have "yields (for_clause e p) ?Q"
    unfolding for_clause_def
    by (rule token_rule [OF p(1)])
      (auto split: option.split intro!: peek_name_rule read_token_rule read_linebreak_rule rest simp: p take_identifier simp del: not_None_eq)
  then show "yields (for_clause e p)
      (\<lambda>x q. ready_parser q \<and> todo q \<le> todo p \<and> (\<forall>v. x = Some v \<longrightarrow> is_compound v \<and> todo q < todo p))"
    by simp
qed

lemma loop_clause_takes:
  assumes g: "grammar_ok k m e"
  shows "takes k (loop_clause e) is_compound"
proof (rule takesI)
  fix p
  assume p: "ready_parser p" "todo p < k"
  have tok: "yields (case loop_token p of (r, q) \<Rightarrow> f r q) R"
    if "\<And>r q. ready_parser q \<Longrightarrow> todo q \<le> todo p \<Longrightarrow> (\<And>v. r = Some v \<Longrightarrow> todo q < todo p) \<Longrightarrow> yields (f r q) R" for f R
  proof -
    obtain r q r' q' where t: "token ''while'' p = (r, q)" "token ''until'' q = (r', q')"
      by (metis surj_pair)
    note q = token_moved [OF t(1) p(1)]
    from q token_moved [OF t(2) q(1)] t show ?thesis
      by (cases r; cases r') (auto simp: loop_token_def intro!: that)
  qed
  show "yields (loop_clause e p)
      (\<lambda>x q. ready_parser q \<and> todo q \<le> todo p \<and> (\<forall>v. x = Some v \<longrightarrow> is_compound v \<and> todo q < todo p))"
    unfolding loop_clause_def
    by (rule tok)
      (use p grammar_okD(3) [OF g] in \<open>auto split: option.split intro!: expect_compound_list_rule [OF g] expect_do_group_rule [OF g]\<close>)
qed

lemma more_patterns_ok:
  assumes g: "grammar_ok k m e"
  shows "ready_parser p \<Longrightarrow> todo p < k \<Longrightarrow> todo p < n \<Longrightarrow> list_all wf_word ws \<Longrightarrow> ws \<noteq> [] \<Longrightarrow>
    yields (more_patterns n e ws p)
      (\<lambda>x q. ready_parser q \<and> todo q \<le> todo p \<and> (\<forall>ws. x = Some ws \<longrightarrow> list_all wf_word ws \<and> ws \<noteq> []))"
proof (induction n arbitrary: ws p)
  case (Suc n)
  from Suc.prems show ?case
    by (auto split: option.split intro!: token_rule word_rule [OF g] yields_mono [OF Suc.IH])
qed simp

lemma expect_case_item_takes:
  assumes g: "grammar_ok k m e"
  shows "takes k (expect_case_item e) (\<lambda>(item, dsemi). wf_case_item item)"
  using grammar_okD(1,3) [OF g]
  by (intro takesI)
    (auto simp: expect_case_item_def Let_def split: option.split
      intro!: token_rule word_rule [OF g] yields_mono [OF more_patterns_ok [OF g]] expect_token_rule
        compound_list_rule [OF g] operator_rule read_linebreak_rule)

lemma case_items_ok:
  assumes g: "grammar_ok k m e"
  shows "ready_parser p \<Longrightarrow> todo p < k \<Longrightarrow> todo p < n \<Longrightarrow> list_all wf_case_item items \<Longrightarrow>
    yields (parse_case_items n e items p)
      (\<lambda>x q. ready_parser q \<and> todo q \<le> todo p \<and> (\<forall>is r. x = Some (is, r) \<longrightarrow> list_all wf_case_item is))"
proof (induction n arbitrary: items p)
  case (Suc n)
  from Suc.prems show ?case
    by (auto split: option.split intro!: token_rule expect_token_rule takesD [OF expect_case_item_takes [OF g]]
        yields_mono [OF Suc.IH])
qed simp

lemma case_clause_takes:
  assumes g: "grammar_ok k m e"
  shows "takes k (case_clause e) is_compound"
  using grammar_okD(1) [OF g]
  by (intro takesI)
    (auto simp: case_clause_def split: option.split
      intro!: token_rule expect_token_rule word_rule [OF g] read_linebreak_rule yields_mono [OF case_items_ok [OF g]])

lemma io_redirects_ok:
  assumes g: "grammar_ok k m e"
  shows "ready_parser p \<Longrightarrow> todo p < k \<Longrightarrow> todo p < n \<Longrightarrow> list_all wf_redirect redirs \<Longrightarrow>
    yields (io_redirects n e redirs p) (\<lambda>rs q. ready_parser q \<and> todo q \<le> todo p \<and> list_all wf_redirect rs)"
proof (induction n arbitrary: redirs p)
  case (Suc n)
  from Suc.prems show ?case
    by (auto split: option.split intro!: takesD [OF io_redirect_takes [OF g]] yields_mono [OF Suc.IH])
qed simp

lemma function_definition_takes:
  assumes g: "grammar_ok k m e"
  shows "takes k (function_definition e) is_compound"
  using grammar_okD(1,3) [OF g]
  by (intro takesI)
    (auto simp: function_definition_def Let_def take_identifier split: option.split
      intro!: peek_name_rule read_token_rule expect_token_rule read_linebreak_rule compound_rule [OF g]
        yields_mono [OF io_redirects_ok [OF g]])

lemma unspecified_word_rule [parse_rules]:
  assumes "ready_parser p"
    and "\<And>b q. ready_parser q \<Longrightarrow> todo q \<le> todo p \<Longrightarrow> yields (f b q) Q"
  shows "yields (case unspecified_word p of (b, q) \<Rightarrow> f b q) Q"
proof -
  obtain n q n' q' where t: "peek_word NUL p = (n, q)" "peek_name False q = (n', q')"
    by (metis surj_pair)
  have "ready_parser q \<and> todo q \<le> todo p"
    using t(1) symbol_moved [OF _ assms(1), of TOKEN]
    by (cases "symbol TOKEN p") (auto simp: peek_word_def moved_def Let_def split: bool.splits)
  moreover from this have "ready_parser q' \<and> todo q' \<le> todo q"
    using t(2) symbol_moved [of TOKEN q]
    by (cases "symbol TOKEN q") (auto simp: peek_name_def moved_def Let_def split: bool.splits)
  ultimately show ?thesis
    using t by (auto simp: unspecified_word_def Let_def intro!: assms(2))
qed

lemma compound_command_takes:
  assumes g: "grammar_ok k m e"
  shows "takes k (compound_command e) is_compound"
proof (rule takesI)
  fix p
  assume p: "ready_parser p" "todo p < k"
  show "yields (compound_command e p)
      (\<lambda>x q. ready_parser q \<and> todo q \<le> todo p \<and> (\<forall>v. x = Some v \<longrightarrow> is_compound v \<and> todo q < todo p))"
    unfolding compound_command_def
    using p
    by (auto split: bool.split intro!: takesD [OF brace_group_takes [OF g]] takesD [OF subshell_takes [OF g]]
        takesD [OF if_clause_takes [OF g]] takesD [OF for_clause_takes [OF g]] takesD [OF loop_clause_takes [OF g]]
        takesD [OF case_clause_takes [OF g]] takesD [OF function_definition_takes [OF g]] unspecified_word_rule)
qed

section \<open>Programs\<close>

lemma parse_list_takes:
  assumes g: "grammar_ok k m e"
  shows "takes m (parse_list e) wf_command_list"
  by (rule takesI)
    (auto simp: parse_list_def Let_def split: option.split intro!: takesD [OF and_or_takes [OF g]] separator_op_rule)

lemma parse_lists_ok:
  assumes g: "grammar_ok k m e"
  shows "ready_parser p \<Longrightarrow> todo p < m \<Longrightarrow> todo p < n \<Longrightarrow> list_all wf_command_list cmds \<Longrightarrow>
    yields (parse_lists n e cmds p)
      (\<lambda>cs q. ready_parser q \<and> todo q \<le> todo p \<and> list_all wf_command_list cs \<and> (cs = cmds \<or> todo q < todo p))"
proof (induction n arbitrary: cmds p)
  case (Suc n)
  from Suc.prems show ?case
    by (auto split: option.split intro!: takesD [OF parse_list_takes [OF g]] yields_mono [OF Suc.IH])
qed simp

lemma newline_before_here_document_rule:
  assumes "ready_parser p"
    and "\<And>ok q. ready_parser q \<Longrightarrow> todo q \<le> todo p \<Longrightarrow> Q ok q"
  shows "yields (newline_before_here_document p) Q"
  using assms(1) by (auto simp: newline_before_here_document_def intro!: newline_rule assms(2))

lemma complete_command_rule:
  assumes g: "grammar_ok k m e" and p: "ready_parser p" "todo p < m"
    and "\<And>ok cs q. ready_parser q \<Longrightarrow> todo q \<le> todo p \<Longrightarrow> list_all wf_command_list cs \<Longrightarrow>
      (ok \<Longrightarrow> todo q < todo p) \<Longrightarrow> Q (ok, cs) q"
  shows "yields (complete_command e p) Q"
  unfolding complete_command_def yields_bind
  by (rule yields_mono [OF parse_lists_ok [OF g p]])
    (use p grammar_okD(1,2) [OF g] in \<open>auto intro!: expect_here_documents_rule [OF g] newline_before_here_document_rule assms(4)\<close>)

lemma expect_complete_command_rule:
  assumes g: "grammar_ok k m e" and p: "ready_parser p" "todo p < m"
    and "\<And>x q. ready_parser q \<Longrightarrow> todo q \<le> todo p \<Longrightarrow> (x = None \<Longrightarrow> p_error q \<noteq> None) \<Longrightarrow>
      (\<And>cs. x = Some cs \<Longrightarrow> list_all wf_command_list cs \<and> todo q < todo p) \<Longrightarrow> Q x q"
  shows "yields (expect_complete_command e p) Q"
  using p by (auto simp: expect_complete_command_def intro!: complete_command_rule [OF g] assms(4))

lemma eof_rule [parse_rules]:
  assumes "ready_parser p"
    and "\<And>b q. ready_parser q \<Longrightarrow> todo q \<le> todo p \<Longrightarrow> yields (f b q) Q"
  shows "yields (case eof p of (b, q) \<Rightarrow> f b q) Q"
  unfolding eof_def by (rule symbol_rule [OF assms(1)]) (rule assms(2))

lemma program_loop_ok:
  assumes g: "grammar_ok k m e"
  shows "ready_parser p \<Longrightarrow> todo p < m \<Longrightarrow> todo p < n \<Longrightarrow> list_all wf_command_list body \<Longrightarrow>
    yields (program_loop n e body p)
      (\<lambda>x q. ready_parser q \<and> todo q \<le> todo p \<and> (\<exists>prog. x = Some prog \<and> wf_program prog))"
proof (induction n arbitrary: body p)
  case (Suc n)
  from Suc.prems show ?case
    by (auto simp: Let_def split: bool.split intro!: read_newline_list_rule read_linebreak_rule eof_rule
        complete_command_rule [OF g] yields_mono [OF Suc.IH])
qed simp

definition docs_ok :: "(nat \<Rightarrow> mrsh_word list option) \<Rightarrow> bool" where
  "docs_ok docs \<longleftrightarrow> (\<forall>k ls. docs k = Some ls \<longrightarrow> list_all wf_word ls)"

lemma wf_fill_redirect: "docs_ok docs \<Longrightarrow> wf_redirect rd \<Longrightarrow> wf_redirect (fill_redirect docs rd)"
  by (cases rd) (auto simp: docs_ok_def split: option.split)

lemma is_simple_fill [simp]: "is_simple (fill_command docs c) = is_simple c"
  by (cases c) simp_all

lemma is_pipeline_fill [simp]: "is_pipeline (fill_and_or_list docs l) = is_pipeline l"
  by (cases l) simp_all

lemma wf_fill:
  fixes w :: mrsh_word and rd :: mrsh_io_redirect and asg :: mrsh_assignment and c :: mrsh_command
    and ci :: mrsh_case_item and ao :: mrsh_and_or_list and cl :: mrsh_command_list and p :: mrsh_program
  assumes "docs_ok docs"
  shows "True" and "True" and "True"
    and "wf_command c \<longrightarrow> wf_command (fill_command docs c)"
    and "wf_case_item ci \<longrightarrow> wf_case_item (fill_case_item docs ci)"
    and "wf_and_or_list ao \<longrightarrow> wf_and_or_list (fill_and_or_list docs ao)"
    and "wf_command_list cl \<longrightarrow> wf_command_list (fill_command_list docs cl)"
    and "wf_program p \<longrightarrow> wf_program (fill_program docs p)"
proof (induction w and rd and asg and c and ci and ao and cl and p rule: ast_induct)
  case (IfClause cond body els if_r then_r fi_r else_r)
  then show ?case
    by (cases els) (auto simp: list_all_iff)
qed (auto simp: list_all_iff wf_fill_redirect [OF assms])

lemma parse_program_ok:
  assumes g: "grammar_ok k k e"
  shows "prog_ok k (parse_program e)"
proof -
  have docs: "ready_parser q \<Longrightarrow> wf_program prog \<Longrightarrow> wf_program (fill_program (p_docs q) prog)" for q prog
    using wf_fill(8) [of "p_docs q" prog] by (simp add: ready_parser_def no_aliases_def docs_ok_def)
  have start: "ready_parser (parser_begin p) = ready_parser p" "todo (parser_begin p) = todo p" for p
    by (simp_all add: parser_begin_def parser_clear_error_def)
  have program: "yields (program e p) (\<lambda>x q. ready_parser q \<and> todo q \<le> todo p \<and>
      (case x of None \<Rightarrow> p_error q \<noteq> None | Some prog \<Rightarrow> wf_program prog))"
    if "ready_parser p" "todo p < k" for p
    using that grammar_okD(1) [OF g] unfolding program_def
    by (auto split: bool.split option.split intro!: read_linebreak_rule eof_rule expect_complete_command_rule [OF g]
        yields_mono [OF program_loop_ok [OF g]])
  show ?thesis
    unfolding prog_ok_def parse_program_def filled_def yields_bind
    by (intro allI impI, rule yields_mono [OF program]) (auto simp: start docs split: option.splits)
qed

lemma here_document_line_loop_ok:
  assumes "parts_ok k D P"
  shows "ready_parser p \<Longrightarrow> todo p < k \<Longrightarrow> todo p < n \<Longrightarrow> list_all wf_word children \<Longrightarrow>
    yields (here_document_line_loop n D P children buf p) (\<lambda>x q. \<forall>w. x = Some w \<longrightarrow> wf_word w)"
proof (induction n arbitrary: children buf p)
  case (Suc n)
  have push: "list_all wf_word (push_line_string cs b) \<longleftrightarrow> list_all wf_word cs" for cs b
    by (simp add: push_line_string_def mrsh_word_string_create_def)
  show ?case
  proof (cases "p_input p = []")
    case True
    with Suc.prems show ?thesis by (simp add: Let_def push)
  next
    case False
    with Suc.prems show ?thesis
      by (auto simp: Let_def push split: option.split prod.split dest!: unescaped_skip
          intro!: back_quotes_part [OF assms] takesD [OF parts_okD(1) [OF assms]] yields_mono [OF Suc.IH])
  qed
qed simp

section \<open>The recursion\<close>

lemma grammar_of_ok:
  assumes "parts_ok k D P" "k \<le> n" "m \<le> k" "k \<le> Suc m" "takes m K is_compound"
  shows "grammar_ok k m (grammar_of n D P K)"
proof -
  have line: "yields (here_document_line n D P (mrsh_parser_with_data line)) (\<lambda>x q. \<forall>w. x = Some w \<longrightarrow> wf_word w)"
    if "2 * length line < k" for line
  proof -
    have "todo (mrsh_parser_with_data line) < k"
      using that length_cstr_of [of line] by simp
    with assms(2) show ?thesis
      unfolding here_document_line_def by (intro here_document_line_loop_ok [OF assms(1)]) auto
  qed
  show ?thesis
    using assms(2-5) line word_takes [OF assms(1,2)] by (simp add: grammar_ok_def grammar_of_def)
qed

lemma parsers_ok:
  assumes "parsers n = (D, P, K)"
  shows "takes n D wf_word \<and> prog_ok (n - 1) P \<and> takes (n - 1) K is_compound"
  using assms
proof (induction n arbitrary: D P K)
  case 0
  then show ?case by (simp add: takes_def prog_ok_def)
next
  case (Suc n)
  obtain d p k where l: "parsers n = (d, p, k)"
    by (metis prod_cases3)
  note IH = Suc.IH [OF l]
  have eqs: "D = expect_dollar n (word n d p) (arithmetic_word n d p) p"
    "K = compound_command (grammar_of n D p k)" "P = parse_program (grammar_of n D p K)"
    using Suc.prems l by (auto simp: Let_def)
  have parts: "parts_ok n d p"
    using IH by (simp add: parts_ok_def)
  have D: "takes (Suc n) D wf_word"
    unfolding eqs(1) using IH
    by (auto intro!: expect_dollar_takes takes_keeps [OF word_takes [OF parts]] arithmetic_word_keeps [OF parts])
  have parts': "parts_ok n D p"
    using IH takes_less [OF D, of n] by (simp add: parts_ok_def)
  have K: "takes n K is_compound"
    unfolding eqs(2) using IH
    by (intro compound_command_takes [where m = "n - 1"] grammar_of_ok [OF parts']) auto
  have "prog_ok n P"
    unfolding eqs(3) using K
    by (intro parse_program_ok grammar_of_ok [OF parts']) auto
  with D K show ?case by simp
qed

lemma parse_program_yields:
  assumes "ready_parser p" "todo p + 2 \<le> n"
  shows "yields (mrsh_parse_program n p) (\<lambda>x q. case x of None \<Rightarrow> p_error q \<noteq> None | Some prog \<Rightarrow> wf_program prog)"
proof -
  obtain D P K where l: "parsers n = (D, P, K)"
    by (metis prod_cases3)
  have "prog_ok (n - 1) P"
    using parsers_ok [OF l] by simp
  with assms show ?thesis
    unfolding mrsh_parse_program_def l prod.case
    by (intro prog_okD [of "n - 1"]) (auto split: option.split)
qed

lemma parse_line_yields:
  assumes "ready_parser p" "todo p + 2 \<le> n"
  shows "yields (mrsh_parse_line n p) (\<lambda>x q. ready_parser q \<and>
    (case x of None \<Rightarrow> p_error q \<noteq> None \<or> mrsh_parser_eof q | Some prog \<Rightarrow> wf_program prog \<and> todo q < todo p))"
proof -
  obtain D P K where l: "parsers n = (D, P, K)"
    by (metis prod_cases3)
  have "parts_ok n D P"
    using parsers_ok [OF l] by (simp add: parts_ok_def)
  then have g: "grammar_ok n (n - 1) (grammar_of n D P K)"
    using parsers_ok [OF l] by (intro grammar_of_ok) auto
  have docs: "ready_parser q \<Longrightarrow> list_all wf_command_list cs \<Longrightarrow> wf_program (fill_program (p_docs q) (Program cs))" for q cs
    using wf_fill(8) [of "p_docs q" "Program cs"] by (simp add: ready_parser_def no_aliases_def docs_ok_def)
  have line: "p_error (consume_line q) = p_error q" "ready_parser (consume_line q) = ready_parser q" for q
    by (simp_all add: consume_line_def Let_def) (simp add: skip_def)
  obtain b q where q: "eof (parser_begin p) = (b, q)"
    by (cases "eof (parser_begin p)")
  have start: "ready_parser (parser_begin p)" "todo (parser_begin p) = todo p"
    using assms(1) by (simp_all add: parser_begin_def parser_clear_error_def)
  note sym = symbol_moved [OF q [unfolded eof_def] start(1)]
  show ?thesis
  proof (cases b)
    case True
    with q sym show ?thesis
      by (simp add: mrsh_parse_line_def l parse_line_def mrsh_parser_eof_def moved_def)
  next
    case False
    with sym start(2) assms(2) show ?thesis
      unfolding mrsh_parse_line_def l prod.case parse_line_def q
      by (auto simp: moved_def filled_def docs line simp del: fill_program.simps split: option.split bool.split
          intro!: newline_rule expect_complete_command_rule [OF g] eof_rule)
  qed
qed

lemma parse_word_yields:
  assumes "ready_parser p" "todo p < n"
  shows "yields (mrsh_parse_word n p) (\<lambda>x q. \<forall>w. x = Some w \<longrightarrow> wf_word w)"
proof -
  obtain D P K where l: "parsers n = (D, P, K)"
    by (metis prod_cases3)
  have parts: "parts_ok n D P"
    using parsers_ok [OF l] by (simp add: parts_ok_def)
  show ?thesis
    unfolding mrsh_parse_word_def l prod.case
    by (rule keepsD [OF parameter_expansion_word_keeps [OF parts order_refl] assms]) simp
qed

lemma todo_below: "todo (mrsh_parser_with_data text) + 2 \<le> parse_fuel text"
  using length_cstr_of [of "text"] by (simp add: parse_fuel_def)

text \<open>A result that was reached at all is the one with enough levels.\<close>

lemma enough_levels:
  fixes f :: "nat \<Rightarrow> 'a parse"
  assumes "\<And>n m. n \<le> m \<Longrightarrow> le_parse (f n) (f m)" "f n = Inr x" "\<And>m. b \<le> m \<Longrightarrow> yields (f m) Q"
  shows "case x of (y, q) \<Rightarrow> Q y q"
proof -
  have "le_parse (f n) (f (max n b))"
    by (rule assms(1)) simp
  moreover have "yields (f (max n b)) Q"
    by (rule assms(3)) simp
  moreover have "f (max n b) = Inr x"
    using calculation(1) assms(2) by (simp add: le_parse_def)
  ultimately show ?thesis
    by (cases x) (simp add: yields_def)
qed

section \<open>Properties\<close>





text \<open>At a line that is not complete.\<close>

lemma parse_open_list:
  "\<exists>q. mrsh_parse_line six_levels (mrsh_parser_with_data ''a&&'') = Inr (None, q)"
  by (simp add: parse_eval cong: parse_congs)


end
