(* ===== verification/Traps.thy ===== *)
theory Traps
  imports Builtin_Table
begin

text \<open>
  Traps: \<open>shell/trap.c\<close>, the part of \<open>shell/job.c\<close> that turns job control on and off, and
  \<open>builtin/trap.c\<close>. The programs of the traps are objects with an address: the builtin hands the
  same program to every condition it is given. The answer \<open>None\<close> is an abort: a failed assertion,
  or a program freed twice. \<open>sigok sig\<close> says whether \<open>sigaction\<close> accepts a signal number. The
  parser and the execution of programs are arguments of the definitions that call them.
  Signal numbers are those of Linux.
\<close>

definition SIGHUP :: nat where "SIGHUP = 1"
definition SIGINT :: nat where "SIGINT = 2"
definition SIGQUIT :: nat where "SIGQUIT = 3"
definition SIGABRT :: nat where "SIGABRT = 6"
definition SIGKILL :: nat where "SIGKILL = 9"
definition SIGALRM :: nat where "SIGALRM = 14"
definition SIGTERM :: nat where "SIGTERM = 15"
definition SIGTSTP :: nat where "SIGTSTP = 20"

lemmas sig_defs = SIGHUP_def SIGINT_def SIGQUIT_def SIGABRT_def SIGKILL_def SIGALRM_def SIGTERM_def
  SIGTSTP_def SIGSTOP_def SIGTTIN_def SIGTTOU_def

section \<open>shell/trap.c\<close>

definition ignored_job_control_sigs :: "nat list" where
  "ignored_job_control_sigs = [SIGINT, SIGQUIT, SIGTSTP, SIGTTIN, SIGTTOU]"

definition handle_signal :: "nat \<Rightarrow> mrsh_state \<Rightarrow> mrsh_state option" where
  "handle_signal sig s =
     (if \<not> sig < MRSH_NSIG then None
      else Some (s\<lparr>st_pending := (st_pending s)(sig := st_pending s sig + 1)\<rparr>))"

text \<open>\<open>mrsh_program_destroy\<close> of a pointer, which may be null.\<close>

definition prog_destroy :: "nat option \<Rightarrow> mrsh_state \<Rightarrow> mrsh_state option" where
  "prog_destroy p s =
     (case p of None \<Rightarrow> Some s
      | Some a \<Rightarrow> if st_progs s a = None then None else Some (s\<lparr>st_progs := (st_progs s)(a := None)\<rparr>))"

definition upd_trap :: "nat \<Rightarrow> (mrsh_trap \<Rightarrow> mrsh_trap) \<Rightarrow> mrsh_state \<Rightarrow> mrsh_state" where
  "upd_trap sig f s = s\<lparr>st_traps := (st_traps s)[sig := f (st_traps s ! sig)]\<rparr>"

definition set_handler :: "nat \<Rightarrow> sig_handler \<Rightarrow> mrsh_state \<Rightarrow> mrsh_state" where
  "set_handler sig h s = s\<lparr>st_handlers := (st_handlers s)(sig := h)\<rparr>"

fun action_handler :: "mrsh_trap_action \<Rightarrow> sig_handler" where
  "action_handler MRSH_TRAP_DEFAULT = SIG_DFL"
| "action_handler MRSH_TRAP_IGNORE = SIG_IGN"
| "action_handler MRSH_TRAP_CATCH = HandleSignal"

definition set_trap ::
    "(nat \<Rightarrow> bool) \<Rightarrow> nat \<Rightarrow> mrsh_trap_action \<Rightarrow> nat option \<Rightarrow> mrsh_state \<Rightarrow> (bool \<times> mrsh_state) option" where
  "set_trap sigok sig action program s =
     (if \<not> (action = MRSH_TRAP_CATCH \<or> program = None) then None
      else
        let trap = st_traps s ! sig;
            action = (if sig \<noteq> 0 \<and> action = MRSH_TRAP_DEFAULT \<and> js_job_control (st_jobs s) \<and>
                        sig \<in> set ignored_job_control_sigs
                      then MRSH_TRAP_IGNORE else action);
            store = (\<lambda>s. map_option (\<lambda>s. (True, upd_trap sig
              (\<lambda>t. t\<lparr>tr_set := True, tr_action := action, tr_program := program\<rparr>) s))
              (prog_destroy (tr_program trap) s))
        in if sig = 0 then store s
           else if \<not> tr_set trap \<and> \<not> st_interactive s \<and> (\<not> sigok sig \<or> st_handlers s sig = SIG_IGN)
           then Some (False, s)
           else if \<not> sigok sig then Some (False, s)
           else store (set_handler sig (action_handler action) s))"

text \<open>The loop of \<open>set_job_control_traps\<close>: the trap it resets is the one at the index of the loop.\<close>

fun job_control_traps_loop ::
    "(nat \<Rightarrow> bool) \<Rightarrow> bool \<Rightarrow> nat \<Rightarrow> nat list \<Rightarrow> mrsh_state \<Rightarrow> (bool \<times> mrsh_state) option" where
  "job_control_traps_loop sigok enabled i [] s = Some (True, s)"
| "job_control_traps_loop sigok enabled i (sig # sigs) s =
     (if \<not> sigok sig then Some (False, s)
      else
        case prog_destroy (tr_program (st_traps s ! i))
            (set_handler sig (if enabled then SIG_IGN else SIG_DFL) s) of
          None \<Rightarrow> None
        | Some s \<Rightarrow>
            job_control_traps_loop sigok enabled (i + 1) sigs
              (upd_trap i (\<lambda>t. t\<lparr>tr_set := False, tr_action := MRSH_TRAP_DEFAULT, tr_program := None\<rparr>) s))"

definition set_job_control_traps :: "(nat \<Rightarrow> bool) \<Rightarrow> bool \<Rightarrow> mrsh_state \<Rightarrow> (bool \<times> mrsh_state) option" where
  "set_job_control_traps sigok enabled s =
     job_control_traps_loop sigok enabled 0 ignored_job_control_sigs s"

fun reset_traps_loop :: "(nat \<Rightarrow> bool) \<Rightarrow> nat list \<Rightarrow> mrsh_state \<Rightarrow> (bool \<times> mrsh_state) option" where
  "reset_traps_loop sigok [] s = Some (True, s)"
| "reset_traps_loop sigok (i # is) s =
     (if tr_set (st_traps s ! i) \<and> tr_action (st_traps s ! i) \<noteq> MRSH_TRAP_IGNORE then
        (case set_trap sigok i MRSH_TRAP_DEFAULT None s of
           None \<Rightarrow> None
         | Some (ok, s) \<Rightarrow> if \<not> ok then Some (False, s) else reset_traps_loop sigok is s)
      else reset_traps_loop sigok is s)"

definition reset_caught_traps :: "(nat \<Rightarrow> bool) \<Rightarrow> mrsh_state \<Rightarrow> (bool \<times> mrsh_state) option" where
  "reset_caught_traps sigok s = reset_traps_loop sigok [0..<MRSH_NSIG] s"

text \<open>
  \<open>run_pending_traps\<close>. The inner loop runs the trap once per pending signal; \<open>run\<close>, which stands for
  \<open>mrsh_run_program\<close>, may deliver further signals, so the loop has a fuel. Running a program changes
  its tree, which the trap keeps; a trap that replaces itself while it runs has its program freed
  under it.
\<close>

type_synonym runner = "mrsh_program \<Rightarrow> mrsh_state \<Rightarrow> (int \<times> mrsh_program) run"

fun run_trap_loop :: "runner \<Rightarrow> int \<Rightarrow> nat \<Rightarrow> nat \<Rightarrow> mrsh_state \<Rightarrow> bool run" where
  "run_trap_loop run last_status i 0 s = Inl NoFuel"
| "run_trap_loop run last_status i (Suc fuel) s =
     (let trap = st_traps s ! i in
      if \<not> st_pending s i > 0 then Inr (True, s)
      else if \<not> tr_set trap \<or> tr_action trap \<noteq> MRSH_TRAP_CATCH \<or> tr_program trap = None
      then Inr (True, s)
      else
        let a = the (tr_program trap) in
        need (st_progs s a) s (\<lambda>prog s.
          bind_run (run prog s) (\<lambda>(ret, prog) s.
            if st_progs s a = None then Inl Crash
            else
              let s = s\<lparr>st_progs := (st_progs s)(a := Some prog)\<rparr> in
              if ret < 0 then Inr (False, s)
              else run_trap_loop run last_status i fuel
                (s\<lparr>st_pending := (st_pending s)(i := st_pending s i - 1), st_last_status := last_status\<rparr>))))"

fun run_traps_loop :: "runner \<Rightarrow> int \<Rightarrow> nat \<Rightarrow> nat list \<Rightarrow> mrsh_state \<Rightarrow> bool run" where
  "run_traps_loop run last_status fuel [] s = Inr (True, s)"
| "run_traps_loop run last_status fuel (i # is) s =
     bind_run (run_trap_loop run last_status i fuel s) (\<lambda>ok s.
       if \<not> ok then Inr (False, s)
       else run_traps_loop run last_status fuel is (s\<lparr>st_pending := (st_pending s)(i := 0)\<rparr>))"

definition run_pending_traps :: "runner \<Rightarrow> nat \<Rightarrow> mrsh_state \<Rightarrow> bool run" where
  "run_pending_traps run fuel s =
     (if st_in_trap s then Inr (True, s)
      else
        bind_run (run_traps_loop run (st_last_status s) fuel [0..<MRSH_NSIG] (s\<lparr>st_in_trap := True\<rparr>))
          (\<lambda>ok s. if \<not> ok then Inr (False, s) else Inr (True, s\<lparr>st_in_trap := False\<rparr>)))"

definition run_exit_trap :: "runner \<Rightarrow> nat \<Rightarrow> mrsh_state \<Rightarrow> bool run" where
  "run_exit_trap run fuel s =
     run_pending_traps run fuel (s\<lparr>st_pending := (st_pending s)(0 := st_pending s 0 + 1)\<rparr>)"

section \<open>Job control\<close>

text \<open>
  What the system answers during \<open>mrsh_set_job_control\<close>: the foreground process groups the calls
  of \<open>tcgetpgrp\<close> see in turn, our process group, pid and session, and whether \<open>setpgid\<close>,
  \<open>tcsetpgrp\<close> and \<open>tcgetattr\<close> work.
\<close>

record job_control_os =
  os_term_fd_ok :: bool
  os_foreground :: "int list"
  os_pgrp :: int
  os_pid :: int
  os_sid :: int
  os_setpgid_ok :: bool
  os_tcsetpgrp_ok :: bool
  os_tcgetattr_ok :: bool

text \<open>The loop that waits to be in the foreground: does one of the answers end it?\<close>

fun reaches_foreground :: "int \<Rightarrow> int list \<Rightarrow> bool" where
  "reaches_foreground pgid [] = False"
| "reaches_foreground pgid (fg # fgs) = (fg = pgid \<or> reaches_foreground pgid fgs)"

definition mrsh_set_job_control ::
    "(nat \<Rightarrow> bool) \<Rightarrow> job_control_os \<Rightarrow> bool \<Rightarrow> mrsh_state \<Rightarrow> (bool \<times> mrsh_state) option" where
  "mrsh_set_job_control sigok os enabled s =
     (if \<not> os_term_fd_ok os then None
      else if js_job_control (st_jobs s) = enabled then Some (True, s)
      else if enabled then
        if \<not> reaches_foreground (os_pgrp os) (os_foreground os) then None
        else case set_job_control_traps sigok True s of
          None \<Rightarrow> None
        | Some (_, s) \<Rightarrow>
            let s = s\<lparr>st_jobs := (st_jobs s)\<lparr>js_pgid := os_pid os\<rparr>\<rparr> in
            if os_sid os \<noteq> os_pid os \<and> \<not> os_setpgid_ok os then Some (False, s)
            else if \<not> os_tcsetpgrp_ok os then Some (False, s)
            else
              let s = s\<lparr>st_jobs := (st_jobs s)\<lparr>js_term_pgrp := js_pgid (st_jobs s)\<rparr>\<rparr> in
              if \<not> os_tcgetattr_ok os then Some (False, s)
              else Some (True, s\<lparr>st_jobs := (st_jobs s)\<lparr>js_job_control := True\<rparr>\<rparr>)
      else
        case set_job_control_traps sigok False s of
          None \<Rightarrow> None
        | Some (_, s) \<Rightarrow> Some (True, s\<lparr>st_jobs := (st_jobs s)\<lparr>js_job_control := False\<rparr>\<rparr>))"

definition init_job_child_process ::
    "(nat \<Rightarrow> bool) \<Rightarrow> job_control_os \<Rightarrow> mrsh_state \<Rightarrow> (bool \<times> mrsh_state) option" where
  "init_job_child_process sigok os s = mrsh_set_job_control sigok os False s"

section \<open>builtin/trap.c\<close>

text \<open>The array \<open>sig_names\<close>, indexed by signal; \<open>None\<close> is a null entry.\<close>

definition sig_name_table :: "(nat \<times> cstring) list" where
  "sig_name_table = [
     (1, ''HUP''), (2, ''INT''), (3, ''QUIT''), (4, ''ILL''), (5, ''TRAP''), (6, ''ABRT''),
     (7, ''BUS''), (8, ''FPE''), (9, ''KILL''), (10, ''USR1''), (11, ''SEGV''), (12, ''USR2''),
     (13, ''PIPE''), (14, ''ALRM''), (15, ''TERM''), (17, ''CHLD''), (18, ''CONT''), (19, ''STOP''),
     (20, ''TSTP''), (21, ''TTIN''), (22, ''TTOU''), (23, ''URG''), (24, ''XCPU''), (25, ''XFSZ''),
     (26, ''VTALRM''), (27, ''PROF''), (29, ''POLL''), (31, ''SYS'')]"

definition sig_names :: "cstring option list" where
  "sig_names = map (map_of sig_name_table) [0..<32]"

definition is_decimal_str :: "cstring \<Rightarrow> bool" where
  "is_decimal_str str \<longleftrightarrow> list_all is_digit str"

definition parse_sig :: "cstring \<Rightarrow> int" where
  "parse_sig str =
     (if str = ''0'' \<or> str = ''EXIT'' then 0
      else if str = ''1'' then int SIGHUP
      else if str = ''2'' then int SIGINT
      else if str = ''3'' then int SIGQUIT
      else if str = ''6'' then int SIGABRT
      else if str = ''9'' then int SIGKILL
      else if str = ''14'' then int SIGALRM
      else if str = ''15'' then int SIGTERM
      else case find_idx (\<lambda>n. n = Some str) sig_names of Some i \<Rightarrow> int i | None \<Rightarrow> - 1)"

definition sig_str :: "nat \<Rightarrow> cstring option" where
  "sig_str sig =
     (if sig = 0 then Some ''EXIT''
      else if \<not> sig < length sig_names then None
      else sig_names ! sig)"

definition trap_line :: "mrsh_state \<Rightarrow> nat \<Rightarrow> mrsh_trap \<Rightarrow> cstring option" where
  "trap_line s sig trap =
     (case (case tr_action trap of
              MRSH_TRAP_DEFAULT \<Rightarrow> Some ''-''
            | MRSH_TRAP_IGNORE \<Rightarrow> Some [SQUOTE, SQUOTE]
            | MRSH_TRAP_CATCH \<Rightarrow>
                (case tr_program trap of
                   None \<Rightarrow> None
                 | Some a \<Rightarrow> map_option (\<lambda>p. print_escaped (mrsh_node_format (NodeProgram p))) (st_progs s a))) of
        None \<Rightarrow> None
      | Some cmd \<Rightarrow> map_option (\<lambda>n. ''trap -- '' @ cmd @ '' '' @ n @ [NL]) (sig_str sig))"

fun print_traps_loop :: "nat list \<Rightarrow> mrsh_state \<Rightarrow> mrsh_state option" where
  "print_traps_loop [] s = Some s"
| "print_traps_loop (i # is) s =
     (let trap = st_traps s ! i in
      if \<not> tr_set trap then print_traps_loop is s
      else case trap_line s i trap of
        None \<Rightarrow> None
      | Some line \<Rightarrow> print_traps_loop is (puts line s))"

definition print_traps :: "mrsh_state \<Rightarrow> mrsh_state option" where
  "print_traps s = print_traps_loop [0..<MRSH_NSIG] s"

fun set_traps_loop ::
    "(nat \<Rightarrow> bool) \<Rightarrow> mrsh_trap_action \<Rightarrow> nat option \<Rightarrow> cstring list \<Rightarrow> mrsh_state \<Rightarrow>
     (int \<times> mrsh_state) option" where
  "set_traps_loop sigok action program [] s = Some (0, s)"
| "set_traps_loop sigok action program (cond # conds) s =
     (let sig = parse_sig cond in
      if sig < 0 then Some (1, s)
      else if nat sig = SIGKILL \<or> nat sig = SIGSTOP then Some (1, s)
      else case set_trap sigok (nat sig) action program s of
        None \<Rightarrow> None
      | Some (ok, s) \<Rightarrow> if \<not> ok then Some (1, s) else set_traps_loop sigok action program conds s)"

text \<open>
  \<open>parse\<close> is the parser: a syntax error (\<open>Inl\<close>), or the program, which may be null. A program that
  was parsed is a new object.
\<close>

definition new_prog :: "mrsh_program option \<Rightarrow> mrsh_state \<Rightarrow> nat option \<times> mrsh_state" where
  "new_prog p s =
     (case p of None \<Rightarrow> (None, s)
      | Some prog \<Rightarrow> (Some (st_next_prog s),
          s\<lparr>st_progs := (st_progs s)(st_next_prog s := Some prog), st_next_prog := Suc (st_next_prog s)\<rparr>))"

definition builtin_trap ::
    "(nat \<Rightarrow> bool) \<Rightarrow> (cstring \<Rightarrow> unit + mrsh_program option) \<Rightarrow> cstring list \<Rightarrow> mrsh_state \<Rightarrow>
     (int \<times> mrsh_state) option" where
  "builtin_trap sigok parse argv s =
     (case mrsh_getopt True argv '':'' ((st_getopt s)\<lparr>go_optind := 0\<rparr>) of
        None \<Rightarrow> None
      | Some (opt, g) \<Rightarrow>
          let s = s\<lparr>st_getopt := g\<rparr> in
          if opt \<noteq> None then Some (1, s)
          else if go_optind g = length argv then map_option (Pair 0) (print_traps s)
          else
            let first = argv ! go_optind g;
                (action_str, s) =
                  (if is_decimal_str first then (''-'', s)
                   else (first, s\<lparr>st_getopt := g\<lparr>go_optind := go_optind g + 1\<rparr>\<rparr>));
                conds = drop (go_optind (st_getopt s)) argv
            in if action_str = [] then set_traps_loop sigok MRSH_TRAP_IGNORE None conds s
               else if action_str = ''-'' then set_traps_loop sigok MRSH_TRAP_DEFAULT None conds s
               else case parse action_str of
                 Inl _ \<Rightarrow> Some (1, s)
               | Inr prog \<Rightarrow>
                   let (p, s) = new_prog prog s in set_traps_loop sigok MRSH_TRAP_CATCH p conds s)"

section \<open>Setting traps\<close>

lemma upd_trap_nth:
  "length (st_traps (upd_trap sig f s)) = length (st_traps s)"
  "sig < length (st_traps s) \<Longrightarrow>
    st_traps (upd_trap sig f s) ! i = (if i = sig then f (st_traps s ! sig) else st_traps s ! i)"
  by (simp_all add: upd_trap_def nth_list_update)

lemma set_trap_frames [simp]:
  "st_handlers (upd_trap i f s) = st_handlers s" "st_interactive (upd_trap i f s) = st_interactive s"
  "st_traps (set_handler i h s) = st_traps s" "st_progs (set_handler i h s) = st_progs s"
  "st_interactive (set_handler i h s) = st_interactive s"
  "st_handlers (set_handler i h s) = (st_handlers s)(i := h)"
  by (simp_all add: upd_trap_def set_handler_def)

lemma prog_destroy_frames:
  "prog_destroy p s = Some s' \<Longrightarrow>
    st_traps s' = st_traps s \<and> st_handlers s' = st_handlers s \<and> st_interactive s' = st_interactive s"
  by (auto simp: prog_destroy_def split: option.splits if_splits)

lemma set_trap_cases:
  assumes "set_trap sigok sig action program s = Some (ok, s')"
  obtains (refused) "\<not> ok" "s' = s"
    | (stored) a s0 where "ok"
      "s' = upd_trap sig (\<lambda>t. t\<lparr>tr_set := True, tr_action := a, tr_program := program\<rparr>) s0"
      "prog_destroy (tr_program (st_traps s ! sig)) (if sig = 0 then s else set_handler sig (action_handler a) s) = Some s0"
      "sig = 0 \<or> tr_set (st_traps s ! sig) \<or> st_interactive s \<or> st_handlers s sig \<noteq> SIG_IGN"
      "a = action \<or> a = MRSH_TRAP_IGNORE \<and> action = MRSH_TRAP_DEFAULT"
  using assms
  by (auto simp: set_trap_def Let_def split: if_splits)

text \<open>A signal that was ignored when a non-interactive shell started.\<close>

definition entry_ignored :: "nat \<Rightarrow> mrsh_state \<Rightarrow> bool" where
  "entry_ignored sig s \<longleftrightarrow> sig \<noteq> 0 \<and> sig < length (st_traps s) \<and> \<not> st_interactive s \<and>
     \<not> tr_set (st_traps s ! sig) \<and> st_handlers s sig = SIG_IGN"

lemma set_trap_entry_ignored:
  assumes "entry_ignored sig s" "set_trap sigok i action program s = Some (ok, s')" "i < length (st_traps s)"
  shows "entry_ignored sig s' \<and> length (st_traps s') = length (st_traps s)"
  using assms(2)
proof (cases rule: set_trap_cases)
  case refused
  with assms(1) show ?thesis by simp
next
  case (stored a s0)
  then have "sig \<noteq> i"
    using assms(1) by (auto simp: entry_ignored_def)
  moreover have "st_traps s0 = st_traps s"
    "st_handlers s0 sig = st_handlers s sig" "st_interactive s0 = st_interactive s"
    using prog_destroy_frames [OF stored(3)] \<open>sig \<noteq> i\<close> by (auto split: if_splits)
  ultimately show ?thesis
    using assms(1,3) stored(2) by (auto simp: entry_ignored_def upd_trap_nth)
qed

lemma parse_sig_range: "parse_sig str < 32"
proof -
  have "int i < 32" if "find_idx P sig_names = Some i" for P i
    using find_idx_Some [OF that] by (simp add: sig_names_def)
  then show ?thesis
    by (auto simp: parse_sig_def sig_defs split: option.splits)
qed

lemma set_traps_loop_entry_ignored:
  "entry_ignored sig s \<Longrightarrow> length (st_traps s) = MRSH_NSIG \<Longrightarrow>
    set_traps_loop sigok action program conds s = Some (r, s') \<Longrightarrow> entry_ignored sig s'"
proof (induction conds arbitrary: s)
  case Nil
  then show ?case by simp
next
  case (Cons cond conds)
  let ?sig = "nat (parse_sig cond)"
  have sig: "?sig < length (st_traps s)"
    using parse_sig_range [of cond] Cons.prems(2) by (simp add: MRSH_NSIG_def)
  show ?case
  proof (cases "parse_sig cond < 0 \<or> ?sig = SIGKILL \<or> ?sig = SIGSTOP")
    case True
    with Cons.prems show ?thesis by (auto simp: Let_def split: if_splits)
  next
    case False
    with Cons.prems(3) obtain ok s1 where s1: "set_trap sigok ?sig action program s = Some (ok, s1)"
      by (auto simp: Let_def split: option.splits)
    note keep = set_trap_entry_ignored [OF Cons.prems(1) s1 sig]
    show ?thesis
    proof (cases ok)
      case True
      with Cons.prems(3) s1 False have "set_traps_loop sigok action program conds s1 = Some (r, s')"
        by (simp add: Let_def)
      with Cons.IH [of s1] keep Cons.prems(2) show ?thesis by simp
    next
      case False': False
      with Cons.prems(3) s1 False keep show ?thesis by (simp add: Let_def)
    qed
  qed
qed

lemma print_traps_loop_frames:
  "print_traps_loop is s = Some s' \<Longrightarrow>
    st_traps s' = st_traps s \<and> st_handlers s' = st_handlers s \<and> st_interactive s' = st_interactive s"
  by (induction "is" arbitrary: s) (auto simp: Let_def puts_def split: if_splits option.splits)

lemma entry_ignored_frames:
  "st_traps s' = st_traps s \<Longrightarrow> st_handlers s' = st_handlers s \<Longrightarrow>
    st_interactive s' = st_interactive s \<Longrightarrow> entry_ignored sig s' = entry_ignored sig s"
  by (simp add: entry_ignored_def)

text \<open>The ways a call of the builtin can end.\<close>

lemma new_prog_None [simp]: "new_prog None s = (None, s)"
  by (simp add: new_prog_def)

lemma builtin_trap_cases:
  assumes "builtin_trap sigok parse argv s = Some (r, s')"
  obtains (usage) h where "s' = s\<lparr>st_getopt := h\<rparr>"
    | (print) h where "print_traps (s\<lparr>st_getopt := h\<rparr>) = Some s'"
    | (traps) h q p action conds where
      "set_traps_loop sigok action p conds (snd (new_prog q (s\<lparr>st_getopt := h\<rparr>))) = Some (r, s')"
proof -
  obtain opt g where g: "mrsh_getopt True argv '':'' ((st_getopt s)\<lparr>go_optind := 0\<rparr>) = Some (opt, g)"
    using assms by (auto simp: builtin_trap_def split: option.splits)
  consider (opt) "opt \<noteq> None" | (none) "opt = None" "go_optind g = length argv"
    | (dec) "opt = None" "go_optind g \<noteq> length argv" "is_decimal_str (argv ! go_optind g)"
    | (act) "opt = None" "go_optind g \<noteq> length argv" "\<not> is_decimal_str (argv ! go_optind g)"
    by blast
  then show thesis
  proof cases
    case opt
    with assms g show thesis by (intro usage [of g]) (simp add: builtin_trap_def Let_def)
  next
    case none
    with assms g show thesis by (intro print [of g]) (auto simp: builtin_trap_def Let_def)
  next
    case dec
    with assms g show thesis
      by (intro traps [of MRSH_TRAP_DEFAULT None "drop (go_optind g) argv" None g])
        (simp add: builtin_trap_def Let_def)
  next
    case act
    let ?a = "argv ! go_optind g" and ?g = "g\<lparr>go_optind := go_optind g + 1\<rparr>"
    let ?conds = "drop (go_optind g + 1) argv"
    consider "?a = []" | "?a = ''-''" | (err) e where "?a \<noteq> []" "?a \<noteq> ''-''" "parse ?a = Inl e"
      | (prog) q where "?a \<noteq> []" "?a \<noteq> ''-''" "parse ?a = Inr q"
      by (cases "parse ?a") blast+
    then show thesis
    proof cases
      case 1
      with act assms g show thesis
        by (intro traps [of MRSH_TRAP_IGNORE None ?conds None ?g]) (simp add: builtin_trap_def Let_def)
    next
      case 2
      with act assms g show thesis
        by (intro traps [of MRSH_TRAP_DEFAULT None ?conds None ?g]) (simp add: builtin_trap_def Let_def)
    next
      case err
      with act assms g show thesis by (intro usage [of ?g]) (simp add: builtin_trap_def Let_def)
    next
      case prog
      with act assms g show thesis
        by (intro traps [of MRSH_TRAP_CATCH "fst (new_prog q (s\<lparr>st_getopt := ?g\<rparr>))" ?conds q ?g])
          (simp add: builtin_trap_def Let_def case_prod_beta)
    qed
  qed
qed

text \<open>C35: A signal that was ignored when a non-interactive shell started stays ignored and untrapped,
  whatever is done with \<open>trap\<close>.\<close>

theorem trap_keeps_entry_ignored:
  assumes "entry_ignored sig s" "length (st_traps s) = MRSH_NSIG"
    "builtin_trap sigok parse argv s = Some (r, s')"
  shows "entry_ignored sig s'"
  using assms(3)
proof (cases rule: builtin_trap_cases)
  case (usage h)
  with assms(1) show ?thesis by (simp add: entry_ignored_def)
next
  case (print h)
  with assms(1) show ?thesis
    by (auto simp: print_traps_def entry_ignored_def dest!: print_traps_loop_frames)
next
  case (traps h q p action conds)
  show ?thesis
    by (rule set_traps_loop_entry_ignored [OF _ _ traps])
      (use assms(1,2) in \<open>auto simp: new_prog_def entry_ignored_def split: option.splits\<close>)
qed

definition sample_state :: mrsh_state where
  "sample_state = mrsh_state_create (\<lambda>sig. if sig = SIGINT then SIG_IGN else SIG_DFL) 18 []"

lemma sample_trap_returns:
  "case builtin_trap (\<lambda>_. True) (\<lambda>_. Inr None) [''trap'', ''x'', ''TERM'', ''INT''] sample_state of
     None \<Rightarrow> False | Some (r, s') \<Rightarrow> True"
  by code_simp

theorem trap_keeps_entry_ignored_witness:
  "\<exists>r s'. builtin_trap (\<lambda>_. True) (\<lambda>_. Inr None) [''trap'', ''x'', ''TERM'', ''INT''] sample_state = Some (r, s') \<and>
    entry_ignored SIGINT s'"
proof -
  have ign: "entry_ignored SIGINT sample_state" "length (st_traps sample_state) = MRSH_NSIG"
    by (simp_all add: entry_ignored_def sample_state_def mrsh_state_create_def MRSH_NSIG_def sig_defs trap_zero_def)
  obtain r s' where "builtin_trap (\<lambda>_. True) (\<lambda>_. Inr None) [''trap'', ''x'', ''TERM'', ''INT''] sample_state = Some (r, s')"
    using sample_trap_returns by (auto split: option.splits)
  with trap_keeps_entry_ignored [OF ign] show ?thesis by blast
qed

section \<open>What the trap commands do\<close>

definition effective_action :: "nat \<Rightarrow> mrsh_trap_action \<Rightarrow> mrsh_state \<Rightarrow> mrsh_trap_action" where
  "effective_action sig action s =
     (if sig \<noteq> 0 \<and> action = MRSH_TRAP_DEFAULT \<and> js_job_control (st_jobs s) \<and>
        sig \<in> set ignored_job_control_sigs
      then MRSH_TRAP_IGNORE else action)"

text \<open>Setting a trap that may be set always works: the trap and the signal's disposition become
  those of the action (with job control, resetting a terminal signal ignores it), every other trap
  and disposition is untouched, and the program it replaces, if any, is the one that is freed.\<close>

theorem set_trap_stores:
  assumes "sig < length (st_traps s)" "action = MRSH_TRAP_CATCH \<or> program = None"
    "sig = 0 \<or> sigok sig" "sig = 0 \<or> tr_set (st_traps s ! sig) \<or> st_interactive s \<or> st_handlers s sig \<noteq> SIG_IGN"
    "\<forall>a. tr_program (st_traps s ! sig) = Some a \<longrightarrow> st_progs s a \<noteq> None"
  shows "\<exists>s'. set_trap sigok sig action program s = Some (True, s') \<and>
    st_traps s' = (st_traps s)[sig :=
      \<lparr>tr_set = True, tr_action = effective_action sig action s, tr_program = program\<rparr>] \<and>
    st_handlers s' = (if sig = 0 then st_handlers s
      else (st_handlers s)(sig := action_handler (effective_action sig action s))) \<and>
    (\<forall>a. st_progs s' a = (if tr_program (st_traps s ! sig) = Some a then None else st_progs s a))"
proof -
  let ?a = "effective_action sig action s"
  let ?s = "if sig = 0 then s else set_handler sig (action_handler ?a) s"
  have sp: "st_progs ?s = st_progs s"
    by simp
  obtain s0 where s0: "prog_destroy (tr_program (st_traps s ! sig)) ?s = Some s0"
    "\<forall>a. st_progs s0 a = (if tr_program (st_traps s ! sig) = Some a then None else st_progs s a)"
    using assms(5) unfolding prog_destroy_def sp by (cases "tr_program (st_traps s ! sig)") auto
  have fr: "st_traps s0 = st_traps s"
    "st_handlers s0 = (if sig = 0 then st_handlers s else (st_handlers s)(sig := action_handler ?a))"
    using prog_destroy_frames [OF s0(1)] by auto
  let ?s' = "upd_trap sig (\<lambda>t. t\<lparr>tr_set := True, tr_action := ?a, tr_program := program\<rparr>) s0"
  have "set_trap sigok sig action program s = Some (True, ?s')"
    using assms(2-4) s0(1) by (auto simp: set_trap_def Let_def effective_action_def)
  moreover have "(st_traps s ! sig)\<lparr>tr_set := True, tr_action := ?a, tr_program := program\<rparr> =
      \<lparr>tr_set = True, tr_action = ?a, tr_program = program\<rparr>"
    by simp
  ultimately show ?thesis
    using fr s0(2) assms(1) by (auto simp: upd_trap_def)
qed

theorem set_trap_stores_witness:
  "\<exists>s'. set_trap (\<lambda>_. True) SIGTERM MRSH_TRAP_IGNORE None sample_state = Some (True, s') \<and>
    st_handlers s' SIGTERM = SIG_IGN"
  using set_trap_stores [of SIGTERM sample_state MRSH_TRAP_IGNORE None "\<lambda>_. True"]
  by (auto simp: sample_state_def mrsh_state_create_def MRSH_NSIG_def sig_defs trap_zero_def effective_action_def)

text \<open>Ignoring a signal with \<open>trap '' condition\<close> does not work: the empty action is taken for a
  signal number, then for a condition, and the call fails without setting any trap.\<close>

theorem trap_empty_action_fails:
  "\<exists>g. builtin_trap sigok parse (name # [] # conds) s = Some (1, s\<lparr>st_getopt := g\<rparr>)"
  by (rule exI [of _ "(st_getopt s)\<lparr>go_optarg := None, go_optind := 1, go_optpos := 1\<rparr>"])
    (simp add: builtin_trap_def mrsh_getopt_def Let_def is_decimal_str_def parse_sig_def find_idx_None
      sig_names_def sig_name_table_def upt_rec)

text \<open>A subshell cannot reset its traps after one \<open>trap\<close> command has named two conditions: both
  hold the same program, and the second reset frees it again.\<close>

theorem trap_shared_program_double_free:
  "case builtin_trap (\<lambda>_. True) (\<lambda>_. Inr (Some (Program []))) [''trap'', '':'', ''QUIT'', ''TERM''] sample_state of
     Some (r, s1) \<Rightarrow> r = 0 \<and> (case reset_caught_traps (\<lambda>_. True) s1 of None \<Rightarrow> True | Some _ \<Rightarrow> False)
   | None \<Rightarrow> False"
  by code_simp

section \<open>Running traps\<close>

text \<open>A runner of programs that succeeds and neither sends signals nor changes traps.\<close>

definition calm_run :: "runner \<Rightarrow> bool" where
  "calm_run run \<longleftrightarrow> (\<forall>p s. \<exists>r p' s'. run p s = Inr ((r, p'), s') \<and> 0 \<le> r \<and> st_traps s' = st_traps s \<and>
     st_progs s' = st_progs s \<and> st_pending s' = st_pending s)"

definition traps_live :: "mrsh_state \<Rightarrow> bool" where
  "traps_live s \<longleftrightarrow> (\<forall>i < MRSH_NSIG. \<forall>a. tr_program (st_traps s ! i) = Some a \<longrightarrow> st_progs s a \<noteq> None)"

lemma run_trap_loop_calm:
  assumes "calm_run run" "i < MRSH_NSIG"
  shows "traps_live s \<Longrightarrow> st_last_status s = ls \<Longrightarrow> st_pending s i < fuel \<Longrightarrow>
    \<exists>s'. run_trap_loop run ls i fuel s = Inr (True, s') \<and> st_traps s' = st_traps s \<and>
      (\<forall>b. st_progs s' b = None \<longleftrightarrow> st_progs s b = None) \<and> st_last_status s' = ls \<and> (\<forall>j. j \<noteq> i \<longrightarrow> st_pending s' j = st_pending s j)"
proof (induction fuel arbitrary: s)
  case 0
  then show ?case by simp
next
  case (Suc fuel)
  let ?trap = "st_traps s ! i"
  show ?case
  proof (cases "st_pending s i > 0 \<and> tr_set ?trap \<and> tr_action ?trap = MRSH_TRAP_CATCH \<and> tr_program ?trap \<noteq> None")
    case False
    with Suc.prems show ?thesis by (auto simp: Let_def)
  next
    case True
    then obtain a where a: "tr_program ?trap = Some a" by blast
    then obtain prog where prog: "st_progs s a = Some prog"
      using Suc.prems(1) assms(2) by (auto simp: traps_live_def)
    obtain r p s1 where s1: "run prog s = Inr ((r, p), s1)" "0 \<le> r" "st_traps s1 = st_traps s"
      "st_progs s1 = st_progs s" "st_pending s1 = st_pending s"
      using assms(1) unfolding calm_run_def by blast
    let ?s2 = "s1\<lparr>st_progs := (st_progs s1)(a := Some p),
      st_pending := (st_pending s1)(i := st_pending s1 i - 1), st_last_status := ls\<rparr>"
    have "traps_live ?s2" "st_last_status ?s2 = ls" "st_pending ?s2 i < fuel"
      using Suc.prems s1 True by (auto simp: traps_live_def)
    from Suc.IH [OF this] obtain s' where s': "run_trap_loop run ls i fuel ?s2 = Inr (True, s')"
      "st_traps s' = st_traps ?s2" "\<forall>b. st_progs s' b = None \<longleftrightarrow> st_progs ?s2 b = None" "st_last_status s' = ls"
      "\<forall>j. j \<noteq> i \<longrightarrow> st_pending s' j = st_pending ?s2 j"
      by blast
    have "run_trap_loop run ls i (Suc fuel) s = run_trap_loop run ls i fuel ?s2"
      using True a prog s1 by (simp add: Let_def)
    with s' s1 prog show ?thesis by auto
  qed
qed

lemma run_traps_loop_calm:
  assumes "calm_run run"
  shows "\<forall>i \<in> set is. i < MRSH_NSIG \<Longrightarrow> traps_live s \<Longrightarrow> st_last_status s = ls \<Longrightarrow>
    \<forall>i. st_pending s i < fuel \<Longrightarrow>
    \<exists>s'. run_traps_loop run ls fuel is s = Inr (True, s') \<and> st_last_status s' = ls \<and>
      st_traps s' = st_traps s \<and> (\<forall>i. st_pending s' i = (if i \<in> set is then 0 else st_pending s i))"
proof (induction "is" arbitrary: s)
  case Nil
  then show ?case by simp
next
  case (Cons i js)
  then have "i < MRSH_NSIG" "st_pending s i < fuel" by auto
  from run_trap_loop_calm [OF assms this(1) Cons.prems(2,3) this(2)]
  obtain s1 where s1: "run_trap_loop run ls i fuel s = Inr (True, s1)" "st_traps s1 = st_traps s"
    "\<forall>b. st_progs s1 b = None \<longleftrightarrow> st_progs s b = None" "st_last_status s1 = ls" "\<forall>j. j \<noteq> i \<longrightarrow> st_pending s1 j = st_pending s j"
    by blast
  let ?s2 = "s1\<lparr>st_pending := (st_pending s1)(i := 0)\<rparr>"
  have "\<forall>j. st_pending ?s2 j < fuel"
    using s1(5) Cons.prems(4) by (auto intro: le_less_trans [of 0])
  moreover have "traps_live ?s2"
    using s1 Cons.prems(2) by (simp add: traps_live_def)
  ultimately obtain s' where s': "run_traps_loop run ls fuel js ?s2 = Inr (True, s')"
    "st_last_status s' = ls" "st_traps s' = st_traps ?s2"
    "\<forall>i. st_pending s' i = (if i \<in> set js then 0 else st_pending ?s2 i)"
    using Cons.IH [of ?s2] Cons.prems(1) s1(4) by auto
  have "st_pending s' k = (if k \<in> set (i # js) then 0 else st_pending s k)" for k
    using s'(4) s1(5) by (cases "k = i") auto
  with s' s1 show ?case by simp
qed



text \<open>A runner that leaves the mark of a running trap alone.\<close>

definition keeps_in_trap :: "runner \<Rightarrow> bool" where
  "keeps_in_trap run \<longleftrightarrow> (\<forall>p s r s'. run p s = Inr (r, s') \<longrightarrow> st_in_trap s' = st_in_trap s)"

lemma run_trap_loop_in_trap:
  assumes "keeps_in_trap run"
  shows "run_trap_loop run ls i fuel s = Inr (ok, s') \<Longrightarrow> st_in_trap s' = st_in_trap s"
proof (induction fuel arbitrary: s)
  case 0
  then show ?case by simp
next
  case (Suc fuel)
  then show ?case
    using assms unfolding keeps_in_trap_def
    by (fastforce simp: Let_def split: if_splits prod.splits dest!: run_Inr [THEN iffD1])
qed

lemma run_traps_loop_in_trap:
  assumes "keeps_in_trap run"
  shows "run_traps_loop run ls fuel is s = Inr (ok, s') \<Longrightarrow> st_in_trap s' = st_in_trap s"
proof (induction "is" arbitrary: s)
  case Nil
  then show ?case by simp
next
  case (Cons i js)
  then obtain ok1 s1 where s1: "run_trap_loop run ls i fuel s = Inr (ok1, s1)"
    by (auto simp: run_Inr)
  note run_trap_loop_in_trap [OF assms s1]
  moreover have "st_in_trap s' = st_in_trap s1"
    using Cons.prems Cons.IH [of "s1\<lparr>st_pending := (st_pending s1)(i := 0)\<rparr>"] s1
    by (auto split: if_splits)
  ultimately show ?case by simp
qed

text \<open>After one trap has ended with an error, no trap is ever run again: \<open>in_trap\<close> stays set, and
  every later call returns at once with the signals still pending.\<close>

theorem failed_trap_disables_traps:
  assumes "keeps_in_trap run" "run_pending_traps run fuel s = Inr (False, s')"
  shows "run_pending_traps run' fuel' s' = Inr (True, s')"
proof -
  have "\<not> st_in_trap s"
    using assms(2) by (auto simp: run_pending_traps_def split: if_splits)
  then have "run_traps_loop run (st_last_status s) fuel [0..<MRSH_NSIG] (s\<lparr>st_in_trap := True\<rparr>) = Inr (False, s')"
    using assms(2) by (auto simp: run_pending_traps_def run_Inr split: if_splits)
  from run_traps_loop_in_trap [OF assms(1) this] show ?thesis
    by (simp add: run_pending_traps_def)
qed

definition failing_trap_state :: mrsh_state where
  "failing_trap_state = sample_state\<lparr>st_traps := (st_traps sample_state)[0 :=
     \<lparr>tr_set = True, tr_action = MRSH_TRAP_CATCH, tr_program = Some 0\<rparr>],
     st_progs := (\<lambda>_. Some (Program [])), st_pending := (\<lambda>_. 1)\<rparr>"

theorem failed_trap_disables_traps_witness:
  "\<exists>s'. run_pending_traps (\<lambda>p s. Inr ((- 1, p), s)) 2 failing_trap_state = Inr (False, s') \<and>
    run_pending_traps (\<lambda>p s. Inr ((0, p), s)) 2 s' = Inr (True, s')"
proof -
  obtain s' where s': "run_pending_traps (\<lambda>p s. Inr ((- 1, p), s)) 2 failing_trap_state = Inr (False, s')"
    by (simp add: run_pending_traps_def failing_trap_state_def sample_state_def mrsh_state_create_def
        MRSH_NSIG_def upt_rec Let_def eval_nat_numeral)
  have "keeps_in_trap (\<lambda>p s. Inr ((- 1, p), s))"
    by (simp add: keeps_in_trap_def)
  with s' failed_trap_disables_traps show ?thesis by blast
qed

section \<open>Job control\<close>

lemma job_control_traps_loop_spec:
  "job_control_traps_loop sigok enabled i sigs s = Some (ok, s') \<Longrightarrow>
    i + length sigs \<le> length (st_traps s) \<Longrightarrow>
    length (st_traps s') = length (st_traps s) \<and>
    (\<forall>j. j < i \<or> i + length sigs \<le> j \<longrightarrow> st_traps s' ! j = st_traps s ! j) \<and>
    (ok \<longrightarrow> (\<forall>j. i \<le> j \<and> j < i + length sigs \<longrightarrow> st_traps s' ! j = trap_zero) \<and>
       (\<forall>sig. st_handlers s' sig =
          (if sig \<in> set sigs then (if enabled then SIG_IGN else SIG_DFL) else st_handlers s sig)))"
proof (induction sigs arbitrary: i s)
  case Nil
  then show ?case by auto
next
  case (Cons sig sigs)
  let ?h = "if enabled then SIG_IGN else SIG_DFL"
  show ?case
  proof (cases "sigok sig")
    case False
    with Cons.prems show ?thesis by auto
  next
    case True
    with Cons.prems(1) obtain s1 where s1: "prog_destroy (tr_program (st_traps s ! i)) (set_handler sig ?h s) = Some s1"
      by (auto split: option.splits)
    let ?s2 = "upd_trap i (\<lambda>t. t\<lparr>tr_set := False, tr_action := MRSH_TRAP_DEFAULT, tr_program := None\<rparr>) s1"
    have fr: "st_traps s1 = st_traps s" "st_handlers s1 = (st_handlers s)(sig := ?h)"
      using prog_destroy_frames [OF s1] by auto
    have rec: "job_control_traps_loop sigok enabled (i + 1) sigs ?s2 = Some (ok, s')"
      using Cons.prems(1) True s1 by simp
    have i: "i < length (st_traps s)"
      using Cons.prems(2) by simp
    have nth2: "length (st_traps ?s2) = length (st_traps s)"
      "st_traps ?s2 ! j = (if j = i then trap_zero else st_traps s ! j)"
      "st_handlers ?s2 = (st_handlers s)(sig := ?h)" for j
      using fr i by (auto simp: upd_trap_nth trap_zero_def)
    note ih = Cons.IH [OF rec]
    have len: "i + 1 + length sigs \<le> length (st_traps ?s2)"
      using Cons.prems(2) nth2(1) by simp
    have at: "st_traps s' ! j = trap_zero" if "i \<le> j" "j < i + length (sig # sigs)" "ok" for j
      using ih [OF len] that nth2(2) [of j] by (cases "j = i") auto
    show ?thesis
      using ih [OF len] nth2 at by auto
  qed
qed

text \<open>Turning job control on or off resets the traps of the wrong conditions: the first five
  slots, so that the \<open>EXIT\<close> trap is lost, while the record of a terminal signal such as \<open>TSTP\<close>
  survives although the signal itself is ignored or back at its default.\<close>

theorem job_control_resets_wrong_traps:
  assumes "set_job_control_traps sigok enabled s = Some (True, s')" "length (st_traps s) = MRSH_NSIG"
  shows "st_traps s' ! 0 = trap_zero \<and> st_traps s' ! SIGTSTP = st_traps s ! SIGTSTP \<and>
    st_handlers s' SIGTSTP = (if enabled then SIG_IGN else SIG_DFL)"
  using job_control_traps_loop_spec [of sigok enabled 0 ignored_job_control_sigs s True s'] assms
  by (auto simp: set_job_control_traps_def ignored_job_control_sigs_def MRSH_NSIG_def sig_defs)

theorem job_control_resets_wrong_traps_witness:
  "\<exists>s'. set_job_control_traps (\<lambda>_. True) True sample_state = Some (True, s') \<and> st_traps s' ! 0 = trap_zero"
proof -
  obtain s' where s': "set_job_control_traps (\<lambda>_. True) True sample_state = Some (True, s')"
    by (simp add: set_job_control_traps_def ignored_job_control_sigs_def sample_state_def
        mrsh_state_create_def MRSH_NSIG_def trap_zero_def prog_destroy_def set_handler_def upd_trap_def
        numeral_2_eq_2)
  have "length (st_traps sample_state) = MRSH_NSIG"
    by (simp add: sample_state_def mrsh_state_create_def)
  with s' job_control_resets_wrong_traps show ?thesis by blast
qed

end
