(* ===== verification/Words.thy ===== *)
theory Words
  imports Shell_State
begin

text \<open>
  \<open>shell/word.c\<close>: tilde expansion, field splitting, patterns and pathname expansion, on words whose
  other expansions are done. \<open>None\<close> is the \<open>abort()\<close> on a word of another kind. The user database
  (\<open>getpwnam\<close>) and \<open>glob\<close> are arguments.
\<close>

section \<open>Tilde expansion\<close>

definition is_logname_char :: "char \<Rightarrow> bool" where
  "is_logname_char c \<longleftrightarrow>
     is_upper c \<or> is_lower c \<or> is_digit c \<or> c = CHR ''.'' \<or> c = CHR ''_'' \<or> c = CHR ''-''"

text \<open>The length of the prefix to replace and its replacement; \<open>None\<close> is the \<open>-1\<close>.\<close>

definition expand_tilde_at ::
    "(cstring \<Rightarrow> cstring option) \<Rightarrow> mrsh_state \<Rightarrow> cstring \<Rightarrow> bool \<Rightarrow> (nat \<times> cstring) option" where
  "expand_tilde_at getpwnam s str is_last =
     (if char_at str 0 \<noteq> CHR ''~'' then None
      else
        let name = takeWhile (\<lambda>c. c \<noteq> CHR ''/'') (tl str);
            rest = dropWhile (\<lambda>c. c \<noteq> CHR ''/'') (tl str)
        in if \<not> list_all is_logname_char name then None
           else if rest = [] \<and> \<not> is_last then None
           else
             map_option (\<lambda>dir. (Suc (length name), dir))
               (if name = [] then mrsh_env_get s ''HOME'' else getpwnam name))"

text \<open>The loop over the colons of an assignment: the words it adds and the text that is left.\<close>

function tilde_colons ::
    "(cstring \<Rightarrow> (nat \<times> cstring) option) \<Rightarrow> cstring \<Rightarrow> mrsh_word list \<times> cstring" where
  "tilde_colons til str =
     (case strchr str (CHR '':'') of
        None \<Rightarrow> ([], str)
      | Some i \<Rightarrow>
          let slice = mrsh_word_string_create (take (i + 1) str) False;
              str1 = drop (i + 1) str
          in case til str1 of
               None \<Rightarrow> (let (ws, rest) = tilde_colons til str1 in (slice # ws, rest))
             | Some (offset, dir) \<Rightarrow>
                 (let (ws, rest) = tilde_colons til (drop offset str1)
                  in (slice # mrsh_word_string_create dir True # ws, rest)))"
  by pat_completeness auto
termination
  by (relation "measure (\<lambda>(til, str). length str)") (auto simp: strchr_Some_iff)

declare tilde_colons.simps [simp del]

definition tilde_string ::
    "(cstring \<Rightarrow> bool \<Rightarrow> (nat \<times> cstring) option) \<Rightarrow> bool \<Rightarrow> bool \<Rightarrow> bool \<Rightarrow> cstring \<Rightarrow> mrsh_word list \<times> cstring" where
  "tilde_string til assignment is_first is_last str =
     (let (ws1, str1) =
        (case (if is_first then til str is_last else None) of
           None \<Rightarrow> ([], str)
         | Some (offset, dir) \<Rightarrow> ([mrsh_word_string_create dir True], drop offset str));
          (ws2, str2) = (if assignment then tilde_colons (\<lambda>str. til str is_last) str1 else ([], str1))
      in (ws1 @ ws2, str2))"

primrec expand_tilde_word ::
    "mrsh_word \<Rightarrow> (cstring \<Rightarrow> bool \<Rightarrow> (nat \<times> cstring) option) \<Rightarrow> bool \<Rightarrow> bool \<Rightarrow> bool \<Rightarrow> mrsh_word" where
  "expand_tilde_word (WString str q sf r) = (\<lambda>til assignment is_first is_last.
     if q then WString str q sf r
     else
       let (ws, trailing) = tilde_string til assignment is_first is_last str in
       if ws = [] then WString str q sf r
       else mrsh_word_list_create (ws @ [mrsh_word_string_create trailing False]) False)"
| "expand_tilde_word (WParameter name op colon arg ps) = (\<lambda>til assignment is_first is_last. WParameter name op colon arg ps)"
| "expand_tilde_word (WCommand prog bq r) = (\<lambda>til assignment is_first is_last. WCommand prog bq r)"
| "expand_tilde_word (WArithmetic body) = (\<lambda>til assignment is_first is_last. WArithmetic body)"
| "expand_tilde_word (WList children dq l r) = (\<lambda>til assignment is_first is_last.
     if dq then WList children dq l r
     else WList (map (\<lambda>(i, f). f til assignment (is_first \<and> i = 0) (is_last \<and> i = length children - 1))
       (enumerate 0 (map expand_tilde_word children))) dq l r)"

definition expand_tilde :: "(cstring \<Rightarrow> cstring option) \<Rightarrow> mrsh_state \<Rightarrow> bool \<Rightarrow> mrsh_word \<Rightarrow> mrsh_word" where
  "expand_tilde getpwnam s assignment w =
     expand_tilde_word w (expand_tilde_at getpwnam s) assignment True True"

section \<open>Field splitting\<close>

text \<open>A field is the list of its children; \<open>sp_open\<close> says whether \<open>cur_field\<close> points to the last one.\<close>

record split_fields_data =
  sp_fields :: "mrsh_word list list"
  sp_open :: bool
  sp_in_ifs :: bool
  sp_in_ifs_non_space :: bool

definition add_to_cur_field :: "mrsh_word \<Rightarrow> split_fields_data \<Rightarrow> split_fields_data" where
  "add_to_cur_field w d =
     (if \<not> sp_open d then d\<lparr>sp_fields := sp_fields d @ [[w]], sp_open := True\<rparr>
      else d\<lparr>sp_fields := butlast (sp_fields d) @ [last (sp_fields d) @ [w]]\<rparr>)"

text \<open>The loop over a string; the first argument is the text in the buffer.\<close>

fun split_string :: "cstring \<Rightarrow> cstring \<Rightarrow> cstring \<Rightarrow> cstring \<Rightarrow> split_fields_data \<Rightarrow> cstring \<times> split_fields_data" where
  "split_string ifs non_space buf [] d = (buf, d)"
| "split_string ifs non_space buf (c # cs) d =
     (if strchr ifs c = None
      then split_string ifs non_space (buf @ [c]) cs (d\<lparr>sp_in_ifs := False, sp_in_ifs_non_space := False\<rparr>)
      else
        let is_non_space = (strchr non_space c \<noteq> None) in
        if \<not> sp_in_ifs d \<or> (is_non_space \<and> sp_in_ifs_non_space d)
        then split_string ifs non_space [] cs
          ((add_to_cur_field (mrsh_word_string_create buf False) d)\<lparr>sp_open := False, sp_in_ifs := True\<rparr>)
        else if is_non_space
        then split_string ifs non_space buf cs (d\<lparr>sp_in_ifs_non_space := True\<rparr>)
        else split_string ifs non_space buf cs d)"

fun fold_opt :: "('a \<Rightarrow> 's \<Rightarrow> 's option) \<Rightarrow> 'a list \<Rightarrow> 's \<Rightarrow> 's option" where
  "fold_opt f [] s = Some s"
| "fold_opt f (x # xs) s = (case f x s of None \<Rightarrow> None | Some s \<Rightarrow> fold_opt f xs s)"

primrec split_word :: "mrsh_word \<Rightarrow> cstring \<Rightarrow> cstring \<Rightarrow> split_fields_data \<Rightarrow> split_fields_data option" where
  "split_word (WString str q sf r) = (\<lambda>ifs non_space d.
     if q \<or> \<not> sf then
       map_option (\<lambda>w. (add_to_cur_field w d)\<lparr>sp_in_ifs := False, sp_in_ifs_non_space := False\<rparr>)
         (mrsh_word_copy (WString str q sf r))
     else
       let (buf, d) = split_string ifs non_space [] str d in
       Some (if \<not> sp_in_ifs d then add_to_cur_field (mrsh_word_string_create buf False) d else d))"
| "split_word (WParameter name op colon arg ps) = (\<lambda>ifs non_space d. None)"
| "split_word (WCommand prog bq r) = (\<lambda>ifs non_space d. None)"
| "split_word (WArithmetic body) = (\<lambda>ifs non_space d. None)"
| "split_word (WList children dq l r) = (\<lambda>ifs non_space d.
     if dq then map_option (\<lambda>w. add_to_cur_field w d) (mrsh_word_copy (WList children dq l r))
     else fold_opt (\<lambda>f d. f ifs non_space d) (map split_word children) d)"

definition default_ifs :: cstring where
  "default_ifs = [SPACE, TAB, NL]"

text \<open>
  \<open>ifs = None\<close> is the null pointer. The array \<open>ifs_non_space\<close> has no terminating NUL when every
  character of \<open>ifs\<close> is kept; it is only searched for characters of \<open>ifs\<close>, which are then found in it.
\<close>

definition split_fields :: "mrsh_word \<Rightarrow> cstring option \<Rightarrow> mrsh_word list option" where
  "split_fields w ifs =
     (let ifs = (case ifs of None \<Rightarrow> default_ifs | Some i \<Rightarrow> i) in
      if ifs = [] then map_option (\<lambda>w. [w]) (mrsh_word_copy w)
      else
        map_option (\<lambda>d. map (\<lambda>ws. mrsh_word_list_create ws False) (sp_fields d))
          (split_word w ifs (filter (\<lambda>c. \<not> is_space c) ifs)
            \<lparr>sp_fields = [], sp_open = False, sp_in_ifs = True, sp_in_ifs_non_space = False\<rparr>))"

definition get_fields_str :: "mrsh_word list \<Rightarrow> cstring list option" where
  "get_fields_str fs = those (map mrsh_word_str fs)"

section \<open>Patterns and pathnames\<close>

definition is_pathname_metachar :: "char \<Rightarrow> bool" where
  "is_pathname_metachar c \<longleftrightarrow> c = CHR ''*'' \<or> c = CHR ''?'' \<or> c = CHR ''['' \<or> c = CHR '']''"

text \<open>The loop over the children stops at the first that needs expansion.\<close>

fun any_opt :: "bool option list \<Rightarrow> bool option" where
  "any_opt [] = Some False"
| "any_opt (b # bs) = (case b of None \<Rightarrow> None | Some True \<Rightarrow> Some True | Some False \<Rightarrow> any_opt bs)"

primrec needs_pathname_expansion :: "mrsh_word \<Rightarrow> bool option" where
  "needs_pathname_expansion (WString str q sf r) =
     Some (\<not> q \<and> list_ex is_pathname_metachar str)"
| "needs_pathname_expansion (WParameter name op colon arg ps) = None"
| "needs_pathname_expansion (WCommand prog bq r) = None"
| "needs_pathname_expansion (WArithmetic body) = None"
| "needs_pathname_expansion (WList children dq l r) =
     (if dq then Some False else any_opt (map needs_pathname_expansion children))"

definition escape_pattern :: "bool \<Rightarrow> cstring \<Rightarrow> cstring" where
  "escape_pattern quoted str =
     concat (map (\<lambda>c. if is_pathname_metachar c \<and> quoted then [BACKSLASH, c] else [c]) str)"

primrec word_to_pattern_buf :: "mrsh_word \<Rightarrow> bool \<Rightarrow> cstring option" where
  "word_to_pattern_buf (WString str q sf r) = (\<lambda>quoted. Some (escape_pattern (quoted \<or> q) str))"
| "word_to_pattern_buf (WParameter name op colon arg ps) = (\<lambda>quoted. None)"
| "word_to_pattern_buf (WCommand prog bq r) = (\<lambda>quoted. None)"
| "word_to_pattern_buf (WArithmetic body) = (\<lambda>quoted. None)"
| "word_to_pattern_buf (WList children dq l r) = (\<lambda>quoted.
     map_option concat (those (map (\<lambda>f. f (quoted \<or> dq)) (map word_to_pattern_buf children))))"

text \<open>The outer \<open>None\<close> is the abort, the inner one the null pointer.\<close>

definition word_to_pattern :: "mrsh_word \<Rightarrow> cstring option option" where
  "word_to_pattern w =
     (case needs_pathname_expansion w of
        None \<Rightarrow> None
      | Some False \<Rightarrow> Some None
      | Some True \<Rightarrow> map_option Some (word_to_pattern_buf w False))"

datatype glob_result = GlobMatches "cstring list" | GlobNoMatch | GlobError

text \<open>The strings, or \<open>Inl\<close> when \<open>glob\<close> fails; \<open>None\<close> is the abort.\<close>

fun expand_pathnames ::
    "(cstring \<Rightarrow> glob_result) \<Rightarrow> mrsh_word list \<Rightarrow> (unit + cstring list) option" where
  "expand_pathnames glob [] = Some (Inr [])"
| "expand_pathnames glob (field # fs) =
     (let add = (\<lambda>strs. map_option (map_sum id (\<lambda>rest. strs @ rest)) (expand_pathnames glob fs)) in
      case word_to_pattern field of
        None \<Rightarrow> None
      | Some None \<Rightarrow> (case mrsh_word_str field of None \<Rightarrow> None | Some str \<Rightarrow> add [str])
      | Some (Some pattern) \<Rightarrow>
          (case glob pattern of
             GlobMatches paths \<Rightarrow> add paths
           | GlobNoMatch \<Rightarrow> (case mrsh_word_str field of None \<Rightarrow> None | Some str \<Rightarrow> add [str])
           | GlobError \<Rightarrow> Some (Inl ())))"


section \<open>Tilde expansion leaves other text alone\<close>

lemma those_map_append:
  "those (xs @ ys) = (case (those xs, those ys) of (Some as, Some bs) \<Rightarrow> Some (as @ bs) | _ \<Rightarrow> None)"
  by (induction xs) (auto split: option.splits)

definition text_of :: "mrsh_word \<Rightarrow> cstring" where
  "text_of w = (case word_str w of None \<Rightarrow> [] | Some t \<Rightarrow> t)"

lemma text_of_create [simp]: "text_of (mrsh_word_string_create str q) = str"
  by (simp add: text_of_def mrsh_word_string_create_def)

lemma word_str_create [simp]: "word_str (mrsh_word_string_create str q) = Some str"
  by (simp add: mrsh_word_string_create_def)

primrec no_tilde :: "mrsh_word \<Rightarrow> bool" where
  "no_tilde (WString str q sf r) \<longleftrightarrow> q \<or> CHR ''~'' \<notin> set str"
| "no_tilde (WParameter name op colon arg ps) \<longleftrightarrow> True"
| "no_tilde (WCommand prog bq r) \<longleftrightarrow> True"
| "no_tilde (WArithmetic body) \<longleftrightarrow> True"
| "no_tilde (WList children dq l r) \<longleftrightarrow> dq \<or> list_all id (map no_tilde children)"

definition only_at_tilde :: "(cstring \<Rightarrow> (nat \<times> cstring) option) \<Rightarrow> bool" where
  "only_at_tilde til \<longleftrightarrow> (\<forall>str. char_at str 0 \<noteq> CHR ''~'' \<longrightarrow> til str = None)"

lemma char_at_not_in: "c \<noteq> NUL \<Longrightarrow> c \<notin> set str \<Longrightarrow> char_at str i \<noteq> c"
  by (auto simp: char_at_def)

lemma only_at_tilde_None: "only_at_tilde til \<Longrightarrow> CHR ''~'' \<notin> set str \<Longrightarrow> til str = None"
  using char_at_not_in [of "CHR ''~''" str 0] by (simp add: only_at_tilde_def)

lemma tilde_colons_text:
  "only_at_tilde til \<Longrightarrow> CHR ''~'' \<notin> set str \<Longrightarrow>
    case tilde_colons til str of (ws, rest) \<Rightarrow>
      those (map word_str ws) \<noteq> None \<and> concat (the (those (map word_str ws))) @ rest = str"
proof (induction til str rule: tilde_colons.induct)
  case (1 til str)
  show ?case
  proof (cases "strchr str (CHR '':'')")
    case None
    then show ?thesis by (subst tilde_colons.simps) simp
  next
    case (Some i)
    let ?str1 = "drop (i + 1) str"
    have no: "CHR ''~'' \<notin> set ?str1"
      using "1.prems"(2) by (auto dest: in_set_dropD)
    then have none: "til ?str1 = None"
      by (rule only_at_tilde_None [OF "1.prems"(1)])
    from "1.IH"(1) [OF Some refl refl none "1.prems"(1) no] Some none show ?thesis
      by (subst tilde_colons.simps) (auto simp: Let_def split: prod.splits)
  qed
qed

lemma tilde_string_text:
  assumes "\<And>b. only_at_tilde (\<lambda>str. til str b)" "CHR ''~'' \<notin> set str"
  shows "case tilde_string til assignment is_first is_last str of (ws, rest) \<Rightarrow>
    map_option concat (those (map word_str (ws @ [mrsh_word_string_create rest False]))) = Some str"
proof -
  have "til str is_last = None"
    by (rule only_at_tilde_None [OF assms])
  then show ?thesis
    using tilde_colons_text [OF assms(1) assms(2), of is_last]
    by (auto simp: tilde_string_def Let_def those_map_append split: prod.splits)
qed

lemma expand_tilde_word_text:
  assumes "\<And>b. only_at_tilde (\<lambda>str. til str b)"
  shows "no_tilde w \<Longrightarrow> word_str (expand_tilde_word w til assignment is_first is_last) = word_str w"
proof (induction w arbitrary: is_first is_last rule: word_induct)
  case (WString str q sf r)
  then show ?case
    using tilde_string_text [where til = til and str = str and assignment = assignment
        and is_first = is_first and is_last = is_last, OF assms]
    by (auto simp: Let_def mrsh_word_list_create_def split: prod.splits)
next
  case (WList children dq l r)
  have "map word_str (map (\<lambda>(i, f). f til assignment (is_first \<and> i = 0) (is_last \<and> i = length children - 1))
       (enumerate 0 (map (\<lambda>w. expand_tilde_word w) children))) = map word_str children" if "\<not> dq"
    using WList that by (intro nth_equalityI) (auto simp: nth_enumerate_eq list_all_iff)
  then show ?case
    by (simp del: map_map)
qed auto

text \<open>Tilde expansion replaces a leading \<open>~\<close> by the home directory, and it does not change the text of
  a word in which every tilde is quoted, whatever the rest of the word is.\<close>

theorem tilde_expansion:
  "(mrsh_env_get s ''HOME'' = Some home \<and> \<not> (assignment \<and> CHR '':'' \<in> set path) \<longrightarrow>
     mrsh_word_str (expand_tilde getpwnam s assignment (WString (''~/'' @ path) False sf r)) =
       Some (home @ ''/'' @ path)) \<and>
   (no_tilde w \<longrightarrow> mrsh_word_str (expand_tilde getpwnam s assignment w) = mrsh_word_str w)"
proof (intro conjI impI)
  assume hyp: "mrsh_env_get s ''HOME'' = Some home \<and> \<not> (assignment \<and> CHR '':'' \<in> set path)"
  have at: "expand_tilde_at getpwnam s (''~/'' @ path) True = Some (1, home)"
    using hyp by (simp add: expand_tilde_at_def)
  have "tilde_colons f (CHR ''/'' # path) = ([], CHR ''/'' # path)" if "CHR '':'' \<notin> set path" for f
    using that by (subst tilde_colons.simps) (simp add: strchr_None [THEN iffD2])
  with at hyp show "mrsh_word_str (expand_tilde getpwnam s assignment (WString (''~/'' @ path) False sf r)) =
       Some (home @ ''/'' @ path)"
    by (auto simp: expand_tilde_def mrsh_word_str_def tilde_string_def Let_def mrsh_word_list_create_def)
next
  assume "no_tilde w"
  then show "mrsh_word_str (expand_tilde getpwnam s assignment w) = mrsh_word_str w"
    unfolding expand_tilde_def mrsh_word_str_def
    by (intro expand_tilde_word_text) (auto simp: only_at_tilde_def expand_tilde_at_def)
qed

theorem tilde_expansion_witness:
  "mrsh_word_str (expand_tilde (\<lambda>_. None)
     (mrsh_env_set ''HOME'' ''/root'' 0 (mrsh_state_create (\<lambda>_. SIG_DFL) 18 [])) False
     (WString ''~/x'' False False range_zero)) = Some ''/root/x''"
  using tilde_expansion [of "mrsh_env_set ''HOME'' ''/root'' 0 (mrsh_state_create (\<lambda>_. SIG_DFL) 18 [])"
      "''/root''" False "''x''" "\<lambda>_. None" False range_zero]
  by (simp add: env_simps)


section \<open>Splitting\<close>

text \<open>The characters a split string loses are those of the separator, and only those.\<close>

primrec kept_text :: "mrsh_word \<Rightarrow> cstring \<Rightarrow> cstring" where
  "kept_text (WString str q sf r) = (\<lambda>ifs. if q \<or> \<not> sf then str else filter (\<lambda>c. c \<notin> set ifs) str)"
| "kept_text (WParameter name op colon arg ps) = (\<lambda>ifs. [])"
| "kept_text (WCommand prog bq r) = (\<lambda>ifs. [])"
| "kept_text (WArithmetic body) = (\<lambda>ifs. [])"
| "kept_text (WList children dq l r) = (\<lambda>ifs.
     if dq then text_of (WList children dq l r) else concat (map (\<lambda>f. f ifs) (map kept_text children)))"

definition fields_text :: "split_fields_data \<Rightarrow> cstring" where
  "fields_text d = concat (map (\<lambda>ws. concat (map text_of ws)) (sp_fields d))"

text \<open>The current field, when there is one, is the last; every part of a field has a text.\<close>

definition split_inv :: "split_fields_data \<Rightarrow> bool" where
  "split_inv d \<longleftrightarrow> (sp_open d \<longrightarrow> sp_fields d \<noteq> []) \<and> (\<forall>ws \<in> set (sp_fields d). list_all expanded ws)"

lemma add_to_cur_field_inv:
  assumes "split_inv d" "expanded w"
  shows "split_inv (add_to_cur_field w d) \<and> fields_text (add_to_cur_field w d) = fields_text d @ text_of w"
proof (cases "sp_open d")
  case False
  with assms show ?thesis
    by (auto simp: add_to_cur_field_def split_inv_def fields_text_def)
next
  case True
  then obtain fs ws where fs: "sp_fields d = fs @ [ws]"
    using assms(1) by (metis append_butlast_last_id split_inv_def)
  with True assms show ?thesis
    by (auto simp: add_to_cur_field_def split_inv_def fields_text_def)
qed

lemma split_inv_flags [simp]:
  "split_inv (d\<lparr>sp_in_ifs := b\<rparr>) = split_inv d" "split_inv (d\<lparr>sp_in_ifs_non_space := b\<rparr>) = split_inv d"
  "split_inv d \<Longrightarrow> split_inv (d\<lparr>sp_open := False\<rparr>)"
  "fields_text (d\<lparr>sp_in_ifs := b\<rparr>) = fields_text d" "fields_text (d\<lparr>sp_in_ifs_non_space := b\<rparr>) = fields_text d"
  "fields_text (d\<lparr>sp_open := b\<rparr>) = fields_text d"
  by (simp_all add: split_inv_def fields_text_def)

lemma expanded_create [simp]: "expanded (mrsh_word_string_create str q)"
  by (simp add: mrsh_word_string_create_def)

lemma strchr_Some_set: "strchr s c \<noteq> None \<longleftrightarrow> c \<in> set s"
  using strchr_None by metis

lemma split_string_text:
  "split_inv d \<Longrightarrow> sp_in_ifs d \<longrightarrow> buf = [] \<Longrightarrow>
    case split_string ifs ns buf cs d of (buf', d') \<Rightarrow>
      split_inv d' \<and> (sp_in_ifs d' \<longrightarrow> buf' = []) \<and>
      fields_text d' @ buf' = fields_text d @ buf @ filter (\<lambda>c. c \<notin> set ifs) cs"
proof (induction cs arbitrary: buf d)
  case Nil
  then show ?case by simp
next
  case (Cons c cs)
  have set: "strchr ifs c = None \<longleftrightarrow> c \<notin> set ifs"
    by (rule strchr_None)
  consider (out) "c \<notin> set ifs"
    | (cut) "c \<in> set ifs" "\<not> sp_in_ifs d \<or> (strchr ns c \<noteq> None \<and> sp_in_ifs_non_space d)"
    | (skip) "c \<in> set ifs" "sp_in_ifs d" "\<not> (strchr ns c \<noteq> None \<and> sp_in_ifs_non_space d)"
    by blast
  then show ?case
  proof cases
    case out
    with set Cons.IH [of "d\<lparr>sp_in_ifs := False, sp_in_ifs_non_space := False\<rparr>" "buf @ [c]"] Cons.prems(1)
    show ?thesis by simp
  next
    case cut
    let ?d = "add_to_cur_field (mrsh_word_string_create buf False) d"
    have d: "split_inv ?d \<and> fields_text ?d = fields_text d @ buf"
      using add_to_cur_field_inv [OF Cons.prems(1)] by simp
    have "split_string ifs ns buf (c # cs) d = split_string ifs ns [] cs (?d\<lparr>sp_open := False, sp_in_ifs := True\<rparr>)"
      using cut set by (auto simp: Let_def)
    with Cons.IH [of "?d\<lparr>sp_open := False, sp_in_ifs := True\<rparr>" "[]"] d cut(1) show ?thesis by simp
  next
    case skip
    then have "buf = []" using Cons.prems(2) by simp
    moreover obtain d' where "split_string ifs ns buf (c # cs) d = split_string ifs ns buf cs d'"
      "split_inv d' = split_inv d" "fields_text d' = fields_text d"
      using skip set by (cases "strchr ns c \<noteq> None") (auto simp: Let_def)
    ultimately show ?thesis
      using Cons.IH [of d' buf] Cons.prems(1) skip(1) by simp
  qed
qed

lemma copy_expanded: "expanded w \<Longrightarrow> \<exists>w'. mrsh_word_copy w = Some w' \<and> expanded w' \<and> text_of w' = text_of w"
proof (induction w rule: word_induct)
  case (WList children dq l r)
  then have "\<forall>w \<in> set children. mrsh_word_copy w \<noteq> None"
    by (fastforce simp: list_all_iff)
  then obtain cs where "those (map mrsh_word_copy children) = Some cs"
    using those_map_None by (metis not_Some_eq)
  then have copy: "mrsh_word_copy (WList children dq l r) = Some (mrsh_word_list_create cs dq)"
    by simp
  have "word_str (mrsh_word_list_create cs dq) = word_str (WList children dq l r)"
    by (rule word_str_copy [OF copy])
  with copy WList.prems word_str_None show ?case
    by (metis text_of_def)
qed (auto simp: mrsh_word_string_create_def text_of_def)

lemma split_word_text:
  assumes "ifs \<noteq> []"
  shows "expanded w \<Longrightarrow> split_inv d \<Longrightarrow>
    \<exists>d'. split_word w ifs ns d = Some d' \<and> split_inv d' \<and> fields_text d' = fields_text d @ kept_text w ifs"
proof (induction w arbitrary: d rule: word_induct)
  case (WString str q sf r)
  show ?case
  proof (cases "q \<or> \<not> sf")
    case True
    then show ?thesis
      using add_to_cur_field_inv [OF WString.prems(2), of "mrsh_word_string_create str q"] by simp
  next
    case False
    obtain buf d1 where s: "split_string ifs ns [] str d = (buf, d1)"
      by (cases "split_string ifs ns [] str d")
    have t: "split_inv d1" "sp_in_ifs d1 \<longrightarrow> buf = []"
      "fields_text d1 @ buf = fields_text d @ filter (\<lambda>c. c \<notin> set ifs) str"
      using split_string_text [OF WString.prems(2), where buf = "[]" and ifs = ifs and ns = ns and cs = str] s
      by auto
    with add_to_cur_field_inv [OF t(1), of "mrsh_word_string_create buf False"] False s show ?thesis
      by auto
  qed
next
  case (WList children dq l r)
  show ?case
  proof (cases dq)
    case True
    then show ?thesis
      using copy_expanded [OF WList.prems(1)] add_to_cur_field_inv [OF WList.prems(2)] by fastforce
  next
    case False
    have "\<exists>d'. fold_opt (\<lambda>f d. f ifs ns d) (map split_word ws) d = Some d' \<and> split_inv d' \<and>
        fields_text d' = fields_text d @ concat (map (\<lambda>f. f ifs) (map kept_text ws))"
      if "set ws \<subseteq> set children" for ws
      using that WList.prems(2)
    proof (induction ws arbitrary: d)
      case Nil
      then show ?case by simp
    next
      case (Cons w ws)
      obtain d1 where d1: "split_word w ifs ns d = Some d1" "split_inv d1"
        "fields_text d1 = fields_text d @ kept_text w ifs"
        using WList.IH [of w d] Cons.prems WList.prems(1) False by (auto simp: list_all_iff)
      from Cons.IH [OF _ d1(2)] Cons.prems(1) d1 show ?case by auto
    qed
    from this [of children] False show ?thesis by simp
  qed
qed auto

lemma text_of_field: "list_all expanded ws \<Longrightarrow> mrsh_word_str (mrsh_word_list_create ws False) = Some (concat (map text_of ws))"
proof -
  assume "list_all expanded ws"
  then have "map word_str ws = map Some (map text_of ws)"
    using word_str_None by (auto simp: list_all_iff text_of_def split: option.splits)
  then have "those (map word_str ws) = Some (map text_of ws)"
    by (simp only: those_Some_iff)
  then show ?thesis
    by (simp add: mrsh_word_str_def mrsh_word_list_create_def)
qed

definition effective_ifs :: "cstring option \<Rightarrow> cstring" where
  "effective_ifs ifs = (case ifs of None \<Rightarrow> default_ifs | Some i \<Rightarrow> i)"

text \<open>C32: Field splitting never aborts on an expanded word and neither loses nor moves text: joined
  together, the fields are the word without the separators of its unquoted expansion results.\<close>

theorem split_fields_keeps_text:
  assumes "expanded w" "ifs \<noteq> Some []"
  shows "\<exists>fs strs. split_fields w ifs = Some fs \<and> get_fields_str fs = Some strs \<and>
    concat strs = kept_text w (effective_ifs ifs)"
proof -
  let ?d0 = "\<lparr>sp_fields = [], sp_open = False, sp_in_ifs = True, sp_in_ifs_non_space = False\<rparr>"
  have ne: "effective_ifs ifs \<noteq> []"
    using assms(2) by (auto simp: effective_ifs_def default_ifs_def split: option.splits)
  have "split_inv ?d0"
    by (simp add: split_inv_def)
  from split_word_text [OF ne assms(1) this] obtain d where
    d: "split_word w (effective_ifs ifs) (filter (\<lambda>c. \<not> is_space c) (effective_ifs ifs)) ?d0 = Some d"
    "split_inv d" "fields_text d = fields_text ?d0 @ kept_text w (effective_ifs ifs)"
    by blast
  let ?fs = "map (\<lambda>ws. mrsh_word_list_create ws False) (sp_fields d)"
  have "split_fields w ifs = Some ?fs"
    using ne d(1) by (simp add: split_fields_def effective_ifs_def Let_def)
  moreover have "map mrsh_word_str ?fs = map Some (map (\<lambda>ws. concat (map text_of ws)) (sp_fields d))"
    using d(2) text_of_field by (auto simp: split_inv_def)
  then have "get_fields_str ?fs = Some (map (\<lambda>ws. concat (map text_of ws)) (sp_fields d))"
    by (simp only: get_fields_str_def those_Some_iff)
  ultimately show ?thesis
    using d(3) by (auto simp: fields_text_def)
qed

theorem split_fields_keeps_text_witness:
  "\<exists>fs strs. split_fields (WList [WString ''a b'' False True range_zero, WString ''c d'' True False range_zero]
      False position_zero position_zero) None = Some fs \<and> get_fields_str fs = Some strs \<and> concat strs = ''abc d''"
  using split_fields_keeps_text [of "WList [WString ''a b'' False True range_zero,
      WString ''c d'' True False range_zero] False position_zero position_zero" None]
  by (simp add: effective_ifs_def default_ifs_def)


section \<open>Splitting at white space\<close>

text \<open>The reference: the maximal runs of other characters.\<close>

function tokens :: "(char \<Rightarrow> bool) \<Rightarrow> cstring \<Rightarrow> cstring list" where
  "tokens P [] = []"
| "tokens P (c # cs) =
     (if P c then tokens P cs
      else (c # takeWhile (\<lambda>c. \<not> P c) cs) # tokens P (dropWhile (\<lambda>c. \<not> P c) cs))"
  by pat_completeness auto
termination
  by (relation "measure (\<lambda>(P, cs). length cs)") (auto simp: le_imp_less_Suc length_dropWhile_le)

definition split_done :: "cstring \<times> split_fields_data \<Rightarrow> mrsh_word list list" where
  "split_done r =
     (let (buf, d) = r in
      sp_fields (if \<not> sp_in_ifs d then add_to_cur_field (mrsh_word_string_create buf False) d else d))"

definition string_fields :: "cstring list \<Rightarrow> mrsh_word list list" where
  "string_fields ts = map (\<lambda>t. [mrsh_word_string_create t False]) ts"

lemma split_string_tokens:
  assumes "\<not> sp_open d"
  shows "(sp_in_ifs d \<longrightarrow> split_done (split_string ifs [] [] cs d) =
      sp_fields d @ string_fields (tokens (\<lambda>c. c \<in> set ifs) cs)) \<and>
    (\<not> sp_in_ifs d \<longrightarrow> split_done (split_string ifs [] buf cs d) =
      sp_fields d @ string_fields ((buf @ takeWhile (\<lambda>c. c \<notin> set ifs) cs) #
        tokens (\<lambda>c. c \<in> set ifs) (dropWhile (\<lambda>c. c \<notin> set ifs) cs)))"
  using assms
proof (induction cs arbitrary: buf d)
  case Nil
  then show ?case
    by (simp add: split_done_def string_fields_def add_to_cur_field_def)
next
  case (Cons c cs)
  have set: "strchr ifs c = None \<longleftrightarrow> c \<notin> set ifs"
    by (rule strchr_None)
  show ?case
  proof (cases "c \<in> set ifs")
    case False
    let ?d = "d\<lparr>sp_in_ifs := False, sp_in_ifs_non_space := False\<rparr>"
    from Cons.IH [of ?d "[c]"] Cons.IH [of ?d "buf @ [c]"] Cons.prems False set show ?thesis
      by simp
  next
    case True
    let ?d = "(add_to_cur_field (mrsh_word_string_create buf False) d)\<lparr>sp_open := False, sp_in_ifs := True\<rparr>"
    have fs: "sp_fields ?d = sp_fields d @ string_fields [buf]"
      using Cons.prems by (simp add: add_to_cur_field_def string_fields_def)
    obtain i where i: "strchr ifs c = Some i"
      using True set by auto
    show ?thesis
    proof (cases "sp_in_ifs d")
      case True
      with i Cons.IH [of d "[]"] Cons.prems \<open>c \<in> set ifs\<close> show ?thesis by simp
    next
      case False
      with i Cons.IH [of ?d "[]"] Cons.prems fs \<open>c \<in> set ifs\<close> show ?thesis
        by (simp add: string_fields_def)
    qed
  qed
qed

text \<open>With separators that are all white space, the fields of an expansion result are exactly its
  maximal runs of other characters; in particular none of them is empty.\<close>

theorem split_whitespace:
  assumes "list_all is_space ifs" "ifs \<noteq> []"
  shows "\<exists>fs. split_fields (WString str False True r) (Some ifs) = Some fs \<and>
    get_fields_str fs = Some (tokens (\<lambda>c. c \<in> set ifs) str)"
proof -
  let ?d0 = "\<lparr>sp_fields = [], sp_open = False, sp_in_ifs = True, sp_in_ifs_non_space = False\<rparr>"
  let ?ts = "tokens (\<lambda>c. c \<in> set ifs) str"
  have "filter (\<lambda>c. \<not> is_space c) ifs = []"
    using assms(1) by (simp add: filter_empty_conv list_all_iff)
  moreover have "split_done (split_string ifs [] [] str ?d0) = string_fields ?ts"
    using split_string_tokens [of ?d0 ifs str] by simp
  ultimately have "split_fields (WString str False True r) (Some ifs) =
      Some (map (\<lambda>ws. mrsh_word_list_create ws False) (string_fields ?ts))"
    using assms(2) by (auto simp: split_fields_def split_done_def Let_def split: prod.splits)
  moreover have "map mrsh_word_str (map (\<lambda>ws. mrsh_word_list_create ws False) (string_fields ?ts)) = map Some ?ts"
    by (simp add: string_fields_def mrsh_word_str_def mrsh_word_list_create_def)
  then have "get_fields_str (map (\<lambda>ws. mrsh_word_list_create ws False) (string_fields ?ts)) = Some ?ts"
    by (simp only: get_fields_str_def those_Some_iff)
  ultimately show ?thesis by blast
qed

theorem split_whitespace_witness:
  "\<exists>fs. split_fields (WString ''  ls  -l '' False True range_zero) (Some [SPACE]) = Some fs \<and>
    get_fields_str fs = Some [''ls'', ''-l'']"
  using split_whitespace [of "[SPACE]" "''  ls  -l ''" range_zero] by (simp add: char_simps)

text \<open>With a separator that is not white space, an empty field between two separators is lost, and
  so is an empty first field: POSIX gives three fields for \<open>a::b\<close> and two for \<open>:a\<close>.\<close>

theorem split_loses_empty_fields:
  "bind_opt (split_fields (WString ''a::b'' False True range_zero) (Some '':'')) get_fields_str =
      Some [''a'', ''b''] \<and>
   bind_opt (split_fields (WString '':a'' False True range_zero) (Some '':'')) get_fields_str = Some [''a'']"
  by (simp add: split_fields_def Let_def char_simps add_to_cur_field_def get_fields_str_def mrsh_word_str_def
      mrsh_word_list_create_def)

text \<open>Pathname expansion: without matches, every field is its own text.\<close>

lemma needs_expanded: "expanded w \<Longrightarrow> \<exists>b. needs_pathname_expansion w = Some b"
proof (induction w rule: word_induct)
  case (WList children dq l r)
  have "\<exists>b. any_opt (map needs_pathname_expansion ws) = Some b" if "set ws \<subseteq> set children" "\<not> dq" for ws
    using that
  proof (induction ws)
    case (Cons w ws)
    then obtain b where "needs_pathname_expansion w = Some b"
      using WList.IH [of w] WList.prems by (auto simp: list_all_iff)
    with Cons show ?case by (cases b) auto
  qed (simp, blast)
  then show ?case by (cases dq) auto
qed simp_all

lemma pattern_expanded: "expanded w \<Longrightarrow> \<exists>p. word_to_pattern_buf w b = Some p"
proof (induction w arbitrary: b rule: word_induct)
  case (WList children dq l r)
  then have "\<forall>w \<in> set children. word_to_pattern_buf w (b \<or> dq) \<noteq> None"
    by (fastforce simp: list_all_iff)
  then have "those (map (\<lambda>w. word_to_pattern_buf w (b \<or> dq)) children) \<noteq> None"
    using those_map_None [of "\<lambda>w. word_to_pattern_buf w (b \<or> dq)" children] by blast
  then show ?case by (auto simp: comp_def)
qed auto

lemma word_to_pattern_expanded: "expanded w \<Longrightarrow> \<exists>p. word_to_pattern w = Some p"
  using needs_expanded [of w] pattern_expanded [of w False]
  by (auto simp: word_to_pattern_def split: bool.splits)

end
