(* ===== verification/Host.thy ===== *)
theory Host
  imports Traps Words
begin

text \<open>
  The system the shell runs on, as far as its source calls it: the record \<open>host\<close> holds what the
  system decides (which files can be opened, what a program does, who is in the password file, how a
  pattern matches) and is an argument of every definition that asks. Descriptors, open files,
  processes and their statuses are modelled: \<open>dup\<close>, \<open>dup2\<close>, \<open>pipe\<close> and \<open>close\<close> act on the table of
  descriptors, and \<open>fork\<close> runs the child to its end before the parent goes on, with the open files
  shared and everything else copied. A pipe holds what was written to it until it is read.
\<close>

datatype open_mode = OpenRead | OpenWrite | OpenAppend | OpenReadWrite

record host =
  h_open_max :: nat \<comment> \<open>descriptors are below it\<close>
  h_pipe_capacity :: nat
  h_open :: "cstring \<Rightarrow> open_mode \<Rightarrow> mrsh_state \<Rightarrow> string option" \<comment> \<open>the bytes there are to read\<close>
  h_access :: "cstring \<Rightarrow> bool \<Rightarrow> bool" \<comment> \<open>\<open>X_OK\<close> with \<open>True\<close>, \<open>R_OK\<close> with \<open>False\<close>\<close>
  h_default_path :: "cstring option" \<comment> \<open>\<open>confstr(_CS_PATH)\<close>\<close>
  h_chdir :: "cstring \<Rightarrow> cstring \<Rightarrow> cstring option" \<comment> \<open>from a directory to a path: the new directory\<close>
  h_isdir :: "cstring \<Rightarrow> cstring \<Rightarrow> bool"
  h_getcwd_ok :: bool
  h_getpwnam :: "cstring \<Rightarrow> cstring option"
  h_glob :: "cstring \<Rightarrow> glob_result"
  h_fnmatch :: "cstring \<Rightarrow> cstring \<Rightarrow> bool"
  h_exec :: "cstring \<Rightarrow> cstring list \<Rightarrow> mrsh_state \<Rightarrow> (nat \<times> (nat \<Rightarrow> string)) option"
    \<comment> \<open>\<open>None\<close>: \<open>execv\<close> fails; otherwise the wait status of the program and the files it leaves\<close>
  h_sigok :: "nat \<Rightarrow> bool"
  h_job_control :: job_control_os
  h_setpgid_ok :: bool
  h_kill_ok :: bool
  h_rand_even :: bool
  h_setrlimit_ok :: "64 word \<Rightarrow> 64 word \<Rightarrow> bool"
  h_clk_tck :: int
  h_times :: "(int \<times> int \<times> int \<times> int) option"
  h_fmt_ratio :: "int \<Rightarrow> int \<Rightarrow> cstring" \<comment> \<open>\<open>%f\<close> of a quotient of \<open>double\<close>s\<close>

section \<open>Descriptors\<close>

text \<open>The lowest descriptor that is not in use.\<close>

definition lowest_fd :: "host \<Rightarrow> mrsh_state \<Rightarrow> int option" where
  "lowest_fd h s = find (\<lambda>fd. st_fds s fd = None) (map int [0..<h_open_max h])"

definition set_fd :: "int \<Rightarrow> nat option \<Rightarrow> mrsh_state \<Rightarrow> mrsh_state" where
  "set_fd fd f s = s\<lparr>st_fds := (st_fds s)(fd := f)\<rparr>"

definition new_file :: "string \<Rightarrow> mrsh_state \<Rightarrow> nat \<times> mrsh_state" where
  "new_file content s =
     (st_next_file s,
      s\<lparr>st_files := (st_files s)(st_next_file s := content), st_next_file := Suc (st_next_file s)\<rparr>)"

text \<open>The system calls give a descriptor or -1.\<close>

definition sys_open :: "host \<Rightarrow> cstring \<Rightarrow> open_mode \<Rightarrow> mrsh_state \<Rightarrow> int \<times> mrsh_state" where
  "sys_open h path mode s =
     (case h_open h path mode s of
        None \<Rightarrow> (- 1, s)
      | Some content \<Rightarrow>
          (case lowest_fd h s of
             None \<Rightarrow> (- 1, s)
           | Some fd \<Rightarrow>
               let (f, s) = new_file (if mode = OpenRead \<or> mode = OpenReadWrite then content else []) s
               in (fd, set_fd fd (Some f) s)))"

definition sys_dup :: "host \<Rightarrow> int \<Rightarrow> mrsh_state \<Rightarrow> int \<times> mrsh_state" where
  "sys_dup h fd s =
     (case st_fds s fd of
        None \<Rightarrow> (- 1, s)
      | Some f \<Rightarrow> (case lowest_fd h s of None \<Rightarrow> (- 1, s) | Some d \<Rightarrow> (d, set_fd d (Some f) s)))"

definition sys_dup2 :: "host \<Rightarrow> int \<Rightarrow> int \<Rightarrow> mrsh_state \<Rightarrow> int \<times> mrsh_state" where
  "sys_dup2 h old new s =
     (case st_fds s old of
        None \<Rightarrow> (- 1, s)
      | Some f \<Rightarrow> if new < 0 \<or> int (h_open_max h) \<le> new then (- 1, s) else (new, set_fd new (Some f) s))"

definition sys_close :: "int \<Rightarrow> mrsh_state \<Rightarrow> mrsh_state" where
  "sys_close fd s = set_fd fd None s"

text \<open>The two ends of a pipe, both of which stand for the bytes in it.\<close>

definition sys_pipe :: "host \<Rightarrow> mrsh_state \<Rightarrow> (int \<times> int) option \<times> mrsh_state" where
  "sys_pipe h s =
     (case lowest_fd h s of
        None \<Rightarrow> (None, s)
      | Some r \<Rightarrow>
          (let (f, s1) = new_file [] s;
               s2 = set_fd r (Some f) s1
           in case lowest_fd h s2 of
                None \<Rightarrow> (None, s)
              | Some w \<Rightarrow> (Some (r, w), set_fd w (Some f) s2)))"

section \<open>Processes\<close>

text \<open>
  \<open>fork\<close>: the child runs to its end; a child that would go on in the code of the parent is not
  followed. The result is what the parent sees.
\<close>

definition sys_fork :: "(mrsh_state \<Rightarrow> unit run) \<Rightarrow> mrsh_state \<Rightarrow> int run" where
  "sys_fork child s =
     (let pid = st_pids s 0;
          s = s\<lparr>st_pids := (\<lambda>i. st_pids s (Suc i))\<rparr>
      in if pid \<le> 0 then Inr (- 1, s)
         else case child (s\<lparr>st_pid := pid, st_zombies := (\<lambda>_. None)\<rparr>) of
           Inr _ \<Rightarrow> Inl Crash
         | Inl (Ended stat c) \<Rightarrow>
             Inr (pid, s\<lparr>st_files := st_files c, st_next_file := st_next_file c, st_pids := st_pids c,
                         st_zombies := (st_zombies s)(pid := Some stat)\<rparr>)
         | Inl e \<Rightarrow> Inl e)"

text \<open>\<open>execv\<close> in the process itself: it returns only when it fails.\<close>

definition sys_execv :: "host \<Rightarrow> cstring \<Rightarrow> cstring list \<Rightarrow> mrsh_state \<Rightarrow> unit run" where
  "sys_execv h path argv s =
     (case h_exec h path argv s of
        None \<Rightarrow> Inr ((), s)
      | Some (stat, fs) \<Rightarrow> Inl (Ended stat (s\<lparr>st_files := fs\<rparr>)))"

text \<open>The status of a child that has ended becomes the next answer of \<open>waitpid\<close>.\<close>

definition reap :: "int \<Rightarrow> mrsh_state \<Rightarrow> mrsh_state" where
  "reap pid s =
     (case st_zombies s pid of
        None \<Rightarrow> s
      | Some stat \<Rightarrow>
          s\<lparr>st_zombies := (st_zombies s)(pid := None),
            st_jobs := (st_jobs s)\<lparr>js_events := js_events (st_jobs s) @ [EvStatus stat]\<rparr>\<rparr>)"

definition run_of_wait :: "mrsh_state \<Rightarrow> ('a \<times> jobs_state) wait_result \<Rightarrow> 'a run" where
  "run_of_wait s r =
     (case r of
        WDone (x, js) \<Rightarrow> Inr (x, s\<lparr>st_jobs := js\<rparr>)
      | WBlocked \<Rightarrow> Inl Blocked
      | WAbort \<Rightarrow> Inl Crash)"

text \<open>\<open>job_wait_process\<close>, \<open>job_wait\<close> and \<open>refresh_jobs_status\<close> on the whole state.\<close>

definition wait_process :: "nat \<Rightarrow> mrsh_state \<Rightarrow> int run" where
  "wait_process proc s =
     (let s = reap (pr_pid (js_store (st_jobs s) proc)) s
      in run_of_wait s (job_wait_process proc (st_jobs s)))"

definition find_job :: "mrsh_state \<Rightarrow> nat \<Rightarrow> mrsh_job option" where
  "find_job s key = find (\<lambda>j. jb_key j = key) (js_jobs (st_jobs s))"

definition wait_job :: "nat \<Rightarrow> mrsh_state \<Rightarrow> int run" where
  "wait_job key s =
     need (find_job s key) s (\<lambda>job s.
       let pids = map (\<lambda>p. pr_pid (js_store (st_jobs s) p))
             (filter (\<lambda>p. process_poll (js_store (st_jobs s) p) = Some TASK_STATUS_WAIT) (jb_processes job));
           s = fold reap pids s
       in run_of_wait s (job_wait key (st_jobs s)))"

text \<open>One answer per job with a running process: its status, or that there is none yet.\<close>

definition refresh_event :: "mrsh_job \<Rightarrow> mrsh_state \<Rightarrow> mrsh_state" where
  "refresh_event job s =
     (case job_get_running_process (st_jobs s) job of
        None \<Rightarrow> s
      | Some p \<Rightarrow>
          (case st_zombies s (pr_pid (js_store (st_jobs s) p)) of
             None \<Rightarrow> s\<lparr>st_jobs := (st_jobs s)\<lparr>js_events := js_events (st_jobs s) @ [EvNoStatus]\<rparr>\<rparr>
           | Some _ \<Rightarrow> reap (pr_pid (js_store (st_jobs s) p)) s))"

definition refresh_jobs :: "mrsh_state \<Rightarrow> bool run" where
  "refresh_jobs s =
     (let s = fold refresh_event (js_jobs (st_jobs s)) s
      in run_of_wait s (refresh_jobs_status (st_jobs s)))"

text \<open>The functions of \<open>shell/job.c\<close> and \<open>shell/process.c\<close> on the whole state.\<close>

definition new_process :: "int \<Rightarrow> mrsh_state \<Rightarrow> nat \<times> mrsh_state" where
  "new_process pid s = (let (p, js) = process_create pid (st_jobs s) in (p, s\<lparr>st_jobs := js\<rparr>))"

definition new_job :: "mrsh_node \<Rightarrow> mrsh_state \<Rightarrow> nat run" where
  "new_job node s =
     need (job_create node (st_jobs s)) s (\<lambda>(job, js) s. Inr (jb_key job, s\<lparr>st_jobs := js\<rparr>))"

definition add_process :: "host \<Rightarrow> nat \<Rightarrow> nat \<Rightarrow> mrsh_state \<Rightarrow> unit run" where
  "add_process h key proc s =
     need (find_job s key) s (\<lambda>job s.
       Inr ((), s\<lparr>st_jobs := job_add_process (h_setpgid_ok h) job proc (st_jobs s)\<rparr>))"

definition set_foreground :: "host \<Rightarrow> nat \<Rightarrow> bool \<Rightarrow> bool \<Rightarrow> mrsh_state \<Rightarrow> bool run" where
  "set_foreground h key foreground cont s =
     need (find_job s key) s (\<lambda>job s.
       need (job_set_foreground (h_kill_ok h) job foreground cont (st_jobs s)) s (\<lambda>(ok, js) s.
         Inr (ok, s\<lparr>st_jobs := js\<rparr>)))"

section \<open>Facts about the calls\<close>

lemma set_fd_fds [simp]: "st_fds (set_fd fd f s) = (st_fds s)(fd := f)"
  by (simp add: set_fd_def)

lemma new_file_fds [simp]: "st_fds (snd (new_file c s)) = st_fds s"
  by (simp add: new_file_def)

lemma lowest_fd_Some: "lowest_fd h s = Some fd \<Longrightarrow> st_fds s fd = None \<and> 0 \<le> fd \<and> fd < int (h_open_max h)"
  unfolding lowest_fd_def by (drule find_key_member) auto

lemma lowest_fd_eq:
  assumes "st_fds s fd = None" "0 \<le> fd" "fd < int (h_open_max h)" "\<And>d. 0 \<le> d \<Longrightarrow> d < fd \<Longrightarrow> st_fds s d \<noteq> None"
  shows "lowest_fd h s = Some fd"
proof -
  let ?k = "nat fd"
  have split: "[0..<h_open_max h] = [0..<?k] @ ?k # [Suc ?k..<h_open_max h]"
    using assms(2,3) upt_add_eq_append [of 0 ?k "h_open_max h - ?k"] by (simp add: upt_conv_Cons)
  have "find (\<lambda>fd. st_fds s fd = None) (map int [0..<?k]) = None"
    using assms(4) by (auto simp: find_None_iff)
  moreover have "find P xs = None \<Longrightarrow> find P (xs @ ys) = find P ys" for P :: "int \<Rightarrow> bool" and xs ys
    by (induction xs) (auto split: if_splits)
  ultimately show ?thesis
    using assms(1,2) unfolding lowest_fd_def split by simp
qed

lemma sys_dup_fds:
  "sys_dup h fd s = (d, s') \<Longrightarrow> 0 \<le> d \<Longrightarrow>
    st_fds s fd \<noteq> None \<and> st_fds s d = None \<and> st_fds s' = (st_fds s)(d := st_fds s fd)"
  by (auto simp: sys_dup_def split: option.splits dest: lowest_fd_Some)

lemma sys_dup2_fds:
  "sys_dup2 h old new s = (d, s') \<Longrightarrow> 0 \<le> d \<Longrightarrow>
    st_fds s old \<noteq> None \<and> d = new \<and> st_fds s' = (st_fds s)(new := st_fds s old)"
  by (auto simp: sys_dup2_def split: option.splits if_splits)

lemma sys_open_fds:
  "sys_open h path mode s = (fd, s') \<Longrightarrow> 0 \<le> fd \<Longrightarrow>
    st_fds s fd = None \<and> st_fds s' = (st_fds s)(fd := Some (st_next_file s))"
  by (auto simp: sys_open_def Let_def new_file_def split: option.splits if_splits dest: lowest_fd_Some)

lemma sys_fork_parent:
  assumes "sys_fork child s = Inr (pid, s')" "0 \<le> pid"
  obtains stat c where
    "child (s\<lparr>st_pids := (\<lambda>i. st_pids s (Suc i)), st_pid := pid, st_zombies := (\<lambda>_. None)\<rparr>) = Inl (Ended stat c)"
    "0 < pid" "pid = st_pids s 0"
    "s' = s\<lparr>st_files := st_files c, st_next_file := st_next_file c, st_pids := st_pids c,
           st_zombies := (st_zombies s)(pid := Some stat)\<rparr>"
  using assms by (auto simp: sys_fork_def Let_def split: if_splits sum.splits stop.splits)

section \<open>A system for examples\<close>

text \<open>Every file can be opened and is empty, no program can be run, nobody has an account.\<close>

definition sample_host :: host where
  "sample_host =
     \<lparr>h_open_max = 16, h_pipe_capacity = 64, h_open = (\<lambda>_ _ _. Some []), h_access = (\<lambda>_ _. False),
      h_default_path = None, h_chdir = (\<lambda>_ path. Some path), h_isdir = (\<lambda>_ _. False), h_getcwd_ok = True,
      h_getpwnam = (\<lambda>_. None), h_glob = (\<lambda>_. GlobNoMatch), h_fnmatch = (\<lambda>p str. p = str),
      h_exec = (\<lambda>_ _ _. None), h_sigok = (\<lambda>_. True),
      h_job_control = \<lparr>os_term_fd_ok = True, os_foreground = [5], os_pgrp = 5, os_pid = 5, os_sid = 5,
        os_setpgid_ok = True, os_tcsetpgrp_ok = True, os_tcgetattr_ok = True\<rparr>,
      h_setpgid_ok = True, h_kill_ok = True, h_rand_even = True, h_setrlimit_ok = (\<lambda>_ _. True),
      h_clk_tck = 100, h_times = None, h_fmt_ratio = (\<lambda>_ _. [])\<rparr>"

lemma sample_pipe:
  "sys_pipe sample_host (mrsh_state_create hs m input) =
     (Some (3, 4), (mrsh_state_create hs m input)
        \<lparr>st_files := (\<lambda>f. if f = 0 then input else [])(3 := []), st_next_file := 4,
         st_fds := (\<lambda>fd. if 0 \<le> fd \<and> fd < 3 then Some (nat fd) else None)(3 := Some 3, 4 := Some 3)\<rparr>)"
proof -
  have three: "lowest_fd sample_host (mrsh_state_create hs m input) = Some 3"
    by (rule lowest_fd_eq) (auto simp: sample_host_def mrsh_state_create_def)
  have four: "lowest_fd sample_host (set_fd 3 (Some 3) (snd (new_file [] (mrsh_state_create hs m input)))) = Some 4"
    by (rule lowest_fd_eq) (auto simp: sample_host_def mrsh_state_create_def new_file_def set_fd_def)
  from three four show ?thesis
    by (simp add: sys_pipe_def Let_def new_file_def mrsh_state_create_def set_fd_def)
qed

end
