(* ===== verification/Builtins_Path.thy ===== *)
theory Builtins_Path
  imports Host
begin

text \<open>
  Paths and directories: \<open>shell/path.c\<close> and the builtins \<open>cd\<close>, \<open>pwd\<close>, \<open>type\<close>, \<open>hash\<close>, \<open>times\<close> and
  \<open>ulimit\<close>. As with the other builtins the result is the status and the state, and \<open>None\<close> is an abort
  or undefined behaviour.
\<close>

section \<open>shell/path.c\<close>

definition path_entry :: "cstring \<Rightarrow> cstring \<Rightarrow> cstring" where
  "path_entry basedir file =
     basedir @ (if char_at basedir (length basedir - 1) = CHR ''/'' then [] else ''/'') @ file"

text \<open>The loop over \<open>strtok\<close>; its tokens are never empty.\<close>

fun search_path :: "host \<Rightarrow> cstring \<Rightarrow> bool \<Rightarrow> cstring list \<Rightarrow> cstring option" where
  "search_path h file exec [] = None"
| "search_path h file exec (basedir # dirs) =
     (if h_access h (path_entry basedir file) exec then Some (path_entry basedir file)
      else search_path h file exec dirs)"

definition expand_path :: "host \<Rightarrow> mrsh_state \<Rightarrow> cstring \<Rightarrow> bool \<Rightarrow> bool \<Rightarrow> cstring option" where
  "expand_path h s file exec default_path =
     (if strchr file (CHR ''/'') \<noteq> None then Some file
      else
        case (if \<not> default_path then mrsh_env_get s ''PATH'' else h_default_path h) of
          None \<Rightarrow> None
        | Some pathe \<Rightarrow> search_path h file exec (tokens (\<lambda>c. c = CHR '':'') pathe))"

text \<open>\<open>getcwd\<close> fails with \<open>ERANGE\<close> until the buffer, which doubles, holds the path and its NUL.\<close>

function getcwd_loop :: "nat \<Rightarrow> cstring \<Rightarrow> cstring" where
  "getcwd_loop cap cwd =
     (if cap = 0 then cwd else if length cwd < cap then cwd else getcwd_loop (2 * cap) cwd)"
  by pat_completeness auto
termination
  by (relation "measure (\<lambda>(cap, cwd). Suc (length cwd) - cap)") auto

declare getcwd_loop.simps [simp del]

definition current_working_dir :: "host \<Rightarrow> mrsh_state \<Rightarrow> cstring option" where
  "current_working_dir h s = (if h_getcwd_ok h then Some (getcwd_loop 256 (st_cwd s)) else None)"

lemma getcwd_loop_id [simp]: "getcwd_loop cap cwd = cwd"
  by (induction cap cwd rule: getcwd_loop.induct) (subst getcwd_loop.simps, simp)

section \<open>Options read until one ends the loop\<close>

text \<open>
  A loop over \<open>_mrsh_getopt\<close> whose body returns at the options \<open>stops\<close> and at \<open>?\<close> or \<open>:\<close>: the
  options before that, and the one it returned at.
\<close>

fun options_until ::
    "nat \<Rightarrow> cstring \<Rightarrow> cstring list \<Rightarrow> cstring \<Rightarrow> getopt_state \<Rightarrow> (cstring \<times> char option \<times> getopt_state) option" where
  "options_until 0 stops argv optstring g = None"
| "options_until (Suc fuel) stops argv optstring g =
     (case mrsh_getopt True argv optstring g of
        None \<Rightarrow> None
      | Some (None, g) \<Rightarrow> Some ([], None, g)
      | Some (Some c, g) \<Rightarrow>
          if c = CHR ''?'' \<or> c = CHR '':'' \<or> c \<in> set stops then Some ([], Some c, g)
          else map_option (\<lambda>(cs, st, g). (c # cs, st, g)) (options_until fuel stops argv optstring g))"

definition builtin_options ::
    "cstring \<Rightarrow> cstring list \<Rightarrow> cstring \<Rightarrow> mrsh_state \<Rightarrow> (cstring \<times> char option \<times> mrsh_state) option" where
  "builtin_options stops argv optstring s =
     map_option (\<lambda>(cs, st, g). (cs, st, s\<lparr>st_getopt := g\<rparr>))
       (options_until (getopt_fuel argv) stops argv optstring ((st_getopt s)\<lparr>go_optind := 0\<rparr>))"

definition operands :: "cstring list \<Rightarrow> mrsh_state \<Rightarrow> cstring list" where
  "operands argv s = drop (go_optind (st_getopt s)) argv"

section \<open>cd and pwd\<close>

definition cd :: "host \<Rightarrow> cstring \<Rightarrow> mrsh_state \<Rightarrow> (int \<times> mrsh_state) option" where
  "cd h path s =
     (case h_chdir h (st_cwd s) path of
        None \<Rightarrow> Some (1, s)
      | Some dir \<Rightarrow>
          let oldPWD = mrsh_env_get s ''PWD''; s = s\<lparr>st_cwd := dir\<rparr> in
          case current_working_dir h s of
            None \<Rightarrow> Some (1, s)
          | Some cwd \<Rightarrow>
              (case oldPWD of
                 None \<Rightarrow> None
               | Some old \<Rightarrow>
                   Some (0, mrsh_env_set ''PWD'' cwd MRSH_VAR_ATTRIB_EXPORT
                     (mrsh_env_set ''OLDPWD'' old MRSH_VAR_ATTRIB_NONE s))))"

text \<open>\<open>strrchr\<close>: the position of the last occurrence.\<close>

definition strrchr :: "cstring \<Rightarrow> char \<Rightarrow> nat option" where
  "strrchr str c = map_option (\<lambda>i. length str - Suc i) (strchr (rev str) c)"

text \<open>
  The loop over \<open>CDPATH\<close>: \<open>c\<close> is what is left of it. The slash is looked for in all of \<open>c\<close>, before the
  colon is replaced by a NUL. The first path that is a directory is the result; \<open>isdir\<close> looks at
  uninitialised memory when \<open>stat\<close> fails.
\<close>

function cdpath_loop :: "host \<Rightarrow> cstring \<Rightarrow> cstring \<Rightarrow> cstring option \<Rightarrow> cstring option" where
  "cdpath_loop h cwd curpath None = None"
| "cdpath_loop h cwd curpath (Some c) =
     (let colon = strchr c (CHR '':'');
          slash = strrchr c (CHR ''/'');
          dir = (case colon of None \<Rightarrow> c | Some i \<Rightarrow> take i c);
          rest = map_option (\<lambda>i. drop (Suc i) c) colon;
          ends = (case slash of None \<Rightarrow> False | Some j \<Rightarrow> Suc j = length c \<or> colon = Some (Suc j));
          (dir, ends) = (if dir = [] then (''.'', False) else (dir, ends));
          path = dir @ (if ends then [] else ''/'') @ curpath
      in if h_isdir h cwd path then Some path else cdpath_loop h cwd curpath rest)"
  by pat_completeness auto
termination
  by (relation "measure (\<lambda>(h, cwd, curpath, c). case c of None \<Rightarrow> 0 | Some c \<Rightarrow> Suc (length c))")
    (auto simp: strchr_Some_iff split: option.splits)

declare cdpath_loop.simps(2) [simp del]

definition starts_with :: "cstring \<Rightarrow> cstring \<Rightarrow> bool" where
  "starts_with prefix str \<longleftrightarrow> take (length prefix) str = prefix"

definition builtin_cd :: "host \<Rightarrow> cstring list \<Rightarrow> mrsh_state \<Rightarrow> (int \<times> mrsh_state) option" where
  "builtin_cd h argv s =
     (case builtin_options ''LP'' argv '':LP'' s of
        None \<Rightarrow> None
      | Some (_, Some _, s) \<Rightarrow> Some (1, s)
      | Some (_, None, s) \<Rightarrow>
          (case operands argv s of
             [] \<Rightarrow>
               (case mrsh_env_get s ''HOME'' of
                  Some home \<Rightarrow> if home \<noteq> [] then cd h home s else Some (1, s)
                | None \<Rightarrow> Some (1, s))
           | curpath # _ \<Rightarrow>
               if curpath = ''-'' then
                 (case (mrsh_env_get s ''PWD'', mrsh_env_get s ''OLDPWD'') of
                    (None, _) \<Rightarrow> Some (1, s)
                  | (Some _, None) \<Rightarrow> Some (1, s)
                  | (Some pwd, Some oldpwd) \<Rightarrow>
                      (case h_chdir h (st_cwd s) oldpwd of
                         None \<Rightarrow> Some (1, s)
                       | Some dir \<Rightarrow>
                           Some (0, mrsh_env_set ''OLDPWD'' pwd MRSH_VAR_ATTRIB_NONE
                             (mrsh_env_set ''PWD'' oldpwd MRSH_VAR_ATTRIB_EXPORT
                               (puts (oldpwd @ [NL]) (s\<lparr>st_cwd := dir\<rparr>))))))
               else if char_at curpath 0 \<noteq> CHR ''/'' \<and> \<not> starts_with ''./'' curpath \<and> \<not> starts_with ''../'' curpath then
                 (case cdpath_loop h (st_cwd s) curpath (mrsh_env_get s ''CDPATH'') of
                    Some path \<Rightarrow> cd h path s
                  | None \<Rightarrow> cd h curpath s)
               else cd h curpath s))"

definition builtin_pwd :: "cstring list \<Rightarrow> mrsh_state \<Rightarrow> (int \<times> mrsh_state) option" where
  "builtin_pwd argv s =
     (case builtin_options [] argv '':LP'' s of
        None \<Rightarrow> None
      | Some (_, Some _, s) \<Rightarrow> Some (1, s)
      | Some (_, None, s) \<Rightarrow>
          if operands argv s \<noteq> [] then Some (1, s)
          else map_option (\<lambda>pwd. (0, puts (pwd @ [NL]) s)) (mrsh_env_get s ''PWD''))"

section \<open>type and hash\<close>

definition type_line :: "host \<Rightarrow> mrsh_state \<Rightarrow> cstring \<Rightarrow> cstring \<times> bool" where
  "type_line h s name =
     (case mrsh_hashtable_get (st_aliases s) name of
        Some alias \<Rightarrow> (name @ '' is an alias for '' @ alias @ [NL], False)
      | None \<Rightarrow>
          if mrsh_has_special_builtin name then (name @ '' is a special shell builtin'' @ [NL], False)
          else if mrsh_has_builtin name then (name @ '' is a shell builtin'' @ [NL], False)
          else case expand_path h s name True False of
            Some path \<Rightarrow> (name @ '' is '' @ path @ [NL], False)
          | None \<Rightarrow> (name @ '': not found'' @ [NL], True))"

fun type_loop :: "host \<Rightarrow> bool \<Rightarrow> cstring list \<Rightarrow> mrsh_state \<Rightarrow> int \<times> mrsh_state" where
  "type_loop h err [] s = (if err then 1 else 0, s)"
| "type_loop h err (name # names) s =
     (let (line, bad) = type_line h s name in type_loop h (err \<or> bad) names (puts line s))"

definition builtin_type :: "host \<Rightarrow> cstring list \<Rightarrow> mrsh_state \<Rightarrow> (int \<times> mrsh_state) option" where
  "builtin_type h argv s =
     (case mrsh_getopt True argv '':'' ((st_getopt s)\<lparr>go_optind := 0\<rparr>) of
        None \<Rightarrow> None
      | Some (opt, g) \<Rightarrow>
          let s = s\<lparr>st_getopt := g\<rparr> in
          if opt \<noteq> None then Some (1, s)
          else if go_optind g = length argv then Some (1, s)
          else Some (type_loop h False (operands argv s) s))"

fun hash_loop :: "host \<Rightarrow> mrsh_state \<Rightarrow> cstring list \<Rightarrow> int" where
  "hash_loop h s [] = 0"
| "hash_loop h s (utility # utilities) =
     (if strchr utility (CHR ''/'') \<noteq> None then 1
      else if mrsh_has_builtin utility then hash_loop h s utilities
      else if expand_path h s utility True False = None then 1
      else hash_loop h s utilities)"

definition builtin_hash :: "host \<Rightarrow> cstring list \<Rightarrow> mrsh_state \<Rightarrow> (int \<times> mrsh_state) option" where
  "builtin_hash h argv s =
     (case builtin_options ''r'' argv '':r'' s of
        None \<Rightarrow> None
      | Some (_, Some c, s) \<Rightarrow> Some (if c = CHR ''r'' then 0 else 1, s)
      | Some (_, None, s) \<Rightarrow> if length argv = 1 then Some (0, s) else Some (hash_loop h s (tl argv), s))"

section \<open>times and ulimit\<close>

text \<open>C division truncates towards zero; the counts of clock ticks are not negative.\<close>

definition times_field :: "host \<Rightarrow> int \<Rightarrow> cstring" where
  "times_field h ticks = fmt_d (int_of_long (ticks div h_clk_tck h div 60)) @ ''m'' @ h_fmt_ratio h ticks (h_clk_tck h) @ ''s''"

definition builtin_times :: "host \<Rightarrow> cstring list \<Rightarrow> mrsh_state \<Rightarrow> int \<times> mrsh_state" where
  "builtin_times h argv s =
     (if length argv > 1 then (1, s)
      else if h_clk_tck h = - 1 then (1, s)
      else case h_times h of
        None \<Rightarrow> (1, s)
      | Some (utime, stime, cutime, cstime) \<Rightarrow>
          (0, puts (times_field h utime @ '' '' @ times_field h stime @ [NL] @
                    times_field h cutime @ '' '' @ times_field h cstime @ [NL]) s))"

definition RLIM_INFINITY :: "64 word" where "RLIM_INFINITY = - 1"

text \<open>The product with 512 is one of \<open>long\<close>s: an overflow is undefined.\<close>

definition builtin_ulimit :: "host \<Rightarrow> cstring list \<Rightarrow> mrsh_state \<Rightarrow> (int \<times> mrsh_state) option" where
  "builtin_ulimit h argv s =
     (case builtin_options [] argv '':f'' s of
        None \<Rightarrow> None
      | Some (_, Some _, s) \<Rightarrow> Some (1, s)
      | Some (_, None, s) \<Rightarrow>
          (case operands argv s of
             [arg] \<Rightarrow>
               (case strtol 10 arg of
                  (new_limit, rest, _) \<Rightarrow>
                    if rest = arg \<or> rest \<noteq> [] then Some (1, s)
                    else if \<not> in_long (new_limit * 512) then None
                    else if \<not> h_setrlimit_ok h (st_fsize s) (word_of_int (new_limit * 512)) then Some (1, s)
                    else Some (0, s\<lparr>st_fsize := word_of_int (new_limit * 512)\<rparr>))
           | [] \<Rightarrow>
               Some (0, puts ((if st_fsize s = RLIM_INFINITY then ''unlimited''
                               else fmt_d (int (unat (st_fsize s) div 512))) @ [NL]) s)
           | _ \<Rightarrow> Some (1, s)))"

section \<open>What the builtins do\<close>

lemma options_until_none:
  assumes "mrsh_getopt True argv optstring (g\<lparr>go_optind := 0\<rparr>) = Some (None, g')"
  shows "options_until (getopt_fuel argv) stops argv optstring (g\<lparr>go_optind := 0\<rparr>) = Some ([], None, g')"
  by (simp add: getopt_fuel_def assms)

lemma builtin_options_none:
  assumes "\<not> is_optarg a" "\<not> is_dashdash a"
  shows "\<exists>g. builtin_options stops [name, a] optstring s = Some ([], None, s\<lparr>st_getopt := g\<rparr>) \<and> go_optind g = 1"
proof -
  have "\<exists>g'. mrsh_getopt True [name, a] optstring (g\<lparr>go_optind := 0\<rparr>) = Some (None, g') \<and> go_optind g' = 1" for g
    using assms by (auto simp: mrsh_getopt_def Let_def is_optarg_def is_dashdash_def)
  from this [of "st_getopt s"] show ?thesis
    by (auto simp: builtin_options_def dest: options_until_none)
qed

lemma builtin_options_empty:
  "\<exists>g. builtin_options stops [name] optstring s = Some ([], None, s\<lparr>st_getopt := g\<rparr>) \<and> go_optind g = 1"
proof -
  have "\<exists>g'. mrsh_getopt True [name] optstring (g\<lparr>go_optind := 0\<rparr>) = Some (None, g') \<and> go_optind g' = 1" for g
    by (simp add: mrsh_getopt_def Let_def)
  from this [of "st_getopt s"] show ?thesis
    by (auto simp: builtin_options_def dest: options_until_none)
qed



text \<open>\<open>cd\<close> copies a null pointer when \<open>PWD\<close> is not set.\<close>

lemma cd_without_pwd:
  assumes "mrsh_env_get s ''PWD'' = None" "h_chdir h (st_cwd s) path = Some dir" "h_getcwd_ok h"
  shows "cd h path s = None"
  using assms by (simp add: cd_def Let_def current_working_dir_def)

text \<open>With \<open>CDPATH=/a:/b/\<close> the command \<open>cd foo\<close> looks for \<open>/afoo\<close>: whether an entry ends in a slash
  is read off the last slash of the whole variable.\<close>

theorem cdpath_misses_separator:
  "cdpath_loop (sample_host\<lparr>h_isdir := (\<lambda>_ p. p = ''/a/foo'')\<rparr>) ''/'' ''foo'' (Some ''/a:/b/'') = None \<and>
   cdpath_loop (sample_host\<lparr>h_isdir := (\<lambda>_ p. p = ''/afoo'')\<rparr>) ''/'' ''foo'' (Some ''/a:/b/'') = Some ''/afoo''"
  by (simp add: cdpath_loop.simps strrchr_def Let_def)

text \<open>The limit \<open>ulimit\<close> sets is the one it prints: for a number of blocks that fits, the status is 0
  and a following \<open>ulimit\<close> prints that number.\<close>

theorem ulimit_roundtrip:
  assumes "0 \<le> n" "n * 512 \<le> LONG_MAX" "h_setrlimit_ok h (st_fsize s) (word_of_int (n * 512))"
  shows "\<exists>s1 s2. builtin_ulimit h [''ulimit'', fmt_d n] s = Some (0, s1) \<and>
    builtin_ulimit h [''ulimit''] s1 = Some (0, s2) \<and>
    fd_text s2 1 = (if st_fds s 1 = None then [] else fd_text s 1 @ fmt_d n @ [NL])"
proof -
  have long: "in_long n" "in_long (n * 512)"
    using assms(1,2) by (auto simp: in_long_def LONG_MIN_def LONG_MAX_def)
  obtain c cs where cs: "fmt_d n = c # cs" "is_digit c"
    using assms(1) show_base_10_digits [of _ "nat n"] fmt_d_nonempty [of n]
    by (cases "fmt_d n") (auto simp: fmt_d_def)
  then have no: "\<not> is_optarg (fmt_d n)" "\<not> is_dashdash (fmt_d n)"
    by (auto simp: is_optarg_def is_dashdash_def char_simps)
  obtain g1 where g1: "builtin_options [] [''ulimit'', fmt_d n] '':f'' s = Some ([], None, s\<lparr>st_getopt := g1\<rparr>)" "go_optind g1 = 1"
    using builtin_options_none [OF no] by blast
  let ?s1 = "s\<lparr>st_getopt := g1, st_fsize := word_of_int (n * 512)\<rparr>"
  have one: "builtin_ulimit h [''ulimit'', fmt_d n] s = Some (0, ?s1)"
    using assms(3) g1 strtol_fmt_d [OF long(1)] long(2) fmt_d_nonempty [of n]
    by (simp add: builtin_ulimit_def operands_def)
  obtain g2 where g2: "builtin_options [] [''ulimit''] '':f'' ?s1 = Some ([], None, ?s1\<lparr>st_getopt := g2\<rparr>)" "go_optind g2 = 1"
    using builtin_options_empty by blast
  have bound: "n * 512 < 9223372036854775808"
    using assms(2) by (simp add: LONG_MAX_def)
  then have limit: "uint (word_of_int (n * 512) :: 64 word) = n * 512"
    using assms(1) by (subst uint_word_of_int) (simp add: mod_pos_pos_trivial)
  moreover have "uint RLIM_INFINITY = 18446744073709551615"
    by (simp add: RLIM_INFINITY_def unsigned_minus_1_eq_mask mask_eq_exp_minus_1)
  ultimately have "uint (word_of_int (n * 512) :: 64 word) \<noteq> uint RLIM_INFINITY"
    using bound by linarith
  then have "word_of_int (n * 512) \<noteq> RLIM_INFINITY"
    by metis
  moreover have "int (unat (word_of_int (n * 512) :: 64 word) div 512) = n"
    using limit assms(1) by (simp add: zdiv_int)
  ultimately have two: "builtin_ulimit h [''ulimit''] ?s1 = Some (0, puts (fmt_d n @ [NL]) (?s1\<lparr>st_getopt := g2\<rparr>))"
    using g2 by (simp add: builtin_ulimit_def operands_def)
  show ?thesis
    using one two by (auto simp: fd_text_def puts_def fd_write_def split: option.split)
qed

theorem ulimit_roundtrip_witness:
  "\<exists>s1 s2. builtin_ulimit sample_host [''ulimit'', fmt_d 5] sample_state = Some (0, s1) \<and>
    builtin_ulimit sample_host [''ulimit''] s1 = Some (0, s2) \<and> fd_text s2 1 = fmt_d 5 @ [NL]"
  using ulimit_roundtrip [of 5 sample_host sample_state]
  by (auto simp: LONG_MAX_def sample_host_def sample_state_def mrsh_state_create_def fd_text_def)

end
