(* ===== verification/Builtins_Jobs.thy ===== *)
theory Builtins_Jobs
  imports Builtins_Path
begin

text \<open>
  The builtins on jobs: \<open>builtin/jobs.c\<close>, \<open>fg.c\<close>, \<open>bg.c\<close> and \<open>wait.c\<close>, and \<open>show_job\<close> and
  \<open>mrsh_destroy_terminated_jobs\<close> of \<open>shell/task/task.c\<close>, whose notices go to standard error.
\<close>

section \<open>jobs\<close>

record jobs_context =
  jc_current :: "mrsh_job option"
  jc_previous :: "mrsh_job option"
  jc_pids :: bool
  jc_pgids :: bool
  jc_r :: bool

definition same_job :: "mrsh_job \<Rightarrow> mrsh_job option \<Rightarrow> bool" where
  "same_job job other \<longleftrightarrow> map_option jb_key other = Some (jb_key job)"

definition curprev :: "mrsh_job \<Rightarrow> mrsh_job option \<Rightarrow> mrsh_job option \<Rightarrow> cstring" where
  "curprev job current previous =
     (if same_job job current then ''+'' else if same_job job previous then ''-'' else '' '')"

definition jobs_show_job :: "jobs_context \<Rightarrow> mrsh_job \<Rightarrow> mrsh_state \<Rightarrow> mrsh_state option" where
  "jobs_show_job ctx job s =
     (case job_poll (st_jobs s) job of
        None \<Rightarrow> None
      | Some status \<Rightarrow>
          if status \<ge> 0 then Some s
          else if jc_pids ctx then
            Some (fold (\<lambda>p. puts (fmt_d (pr_pid (js_store (st_jobs s) p)) @ [NL])) (jb_processes job) s)
          else
            map_option (\<lambda>st.
              puts (''['' @ fmt_d (jb_id job) @ ''] '' @ curprev job (jc_current ctx) (jc_previous ctx) @ '' '' @
                (if jc_pgids ctx then fmt_d (jb_pgid job) @ '' '' else []) @ st @ '' '' @
                mrsh_node_format (jb_node job) @ [NL]) s)
              (job_state_str (st_jobs s) job (jc_r ctx)))"

text \<open>The loop over the options; the last component says whether it failed.\<close>

fun jobs_options ::
    "nat \<Rightarrow> cstring list \<Rightarrow> jobs_context \<Rightarrow> getopt_state \<Rightarrow> (bool \<times> jobs_context \<times> getopt_state) option" where
  "jobs_options 0 argv ctx g = None"
| "jobs_options (Suc fuel) argv ctx g =
     (case mrsh_getopt True argv '':lp'' g of
        None \<Rightarrow> None
      | Some (None, g) \<Rightarrow> Some (True, ctx, g)
      | Some (Some c, g) \<Rightarrow>
          if c = CHR ''l'' then
            if jc_pids ctx then Some (False, ctx, g) else jobs_options fuel argv (ctx\<lparr>jc_pgids := True\<rparr>) g
          else if c = CHR ''p'' then
            if jc_pgids ctx then Some (False, ctx, g) else jobs_options fuel argv (ctx\<lparr>jc_pids := True\<rparr>) g
          else Some (False, ctx, g))"

fun show_jobs :: "jobs_context \<Rightarrow> mrsh_job list \<Rightarrow> mrsh_state \<Rightarrow> mrsh_state option" where
  "show_jobs ctx [] s = Some s"
| "show_jobs ctx (job # jobs) s =
     (case jobs_show_job ctx job s of None \<Rightarrow> None | Some s \<Rightarrow> show_jobs ctx jobs s)"

fun show_job_ids :: "jobs_context \<Rightarrow> cstring list \<Rightarrow> mrsh_state \<Rightarrow> (int \<times> mrsh_state) option" where
  "show_job_ids ctx [] s = Some (0, s)"
| "show_job_ids ctx (spec # specs) s =
     (case job_by_id (st_jobs s) spec of
        None \<Rightarrow> None
      | Some None \<Rightarrow> Some (1, s)
      | Some (Some job) \<Rightarrow>
          (case jobs_show_job ctx job s of None \<Rightarrow> None | Some s \<Rightarrow> show_job_ids ctx specs s))"

definition builtin_jobs :: "host \<Rightarrow> cstring list \<Rightarrow> mrsh_state \<Rightarrow> (int \<times> mrsh_state) option" where
  "builtin_jobs h argv s =
     (case (job_by_id (st_jobs s) ''%+'', job_by_id (st_jobs s) ''%-'') of
        (Some current, Some previous) \<Rightarrow>
          (case jobs_options (getopt_fuel argv) argv
              \<lparr>jc_current = current, jc_previous = previous, jc_pids = False, jc_pgids = False, jc_r = h_rand_even h\<rparr>
              ((st_getopt s)\<lparr>go_optind := 0\<rparr>) of
             None \<Rightarrow> None
           | Some (ok, ctx, g) \<Rightarrow>
               let s = s\<lparr>st_getopt := g\<rparr> in
               if \<not> ok then Some (1, s)
               else if go_optind g = length argv
               then map_option (Pair 0) (show_jobs ctx (js_jobs (st_jobs s)) s)
               else show_job_ids ctx (operands argv s) s)
      | _ \<Rightarrow> None)"

section \<open>fg and bg\<close>

definition builtin_fg :: "host \<Rightarrow> cstring list \<Rightarrow> mrsh_state \<Rightarrow> int run" where
  "builtin_fg h argv s =
     need (builtin_options [] argv '':'' s) s (\<lambda>(_, st, s) _.
       if st \<noteq> None then Inr (1, s)
       else case operands argv s of
         _ # _ # _ \<Rightarrow> Inr (1, s)
       | ops \<Rightarrow>
           need (job_by_id (st_jobs s) (case ops of [] \<Rightarrow> ''%%'' | spec # _ \<Rightarrow> spec)) s (\<lambda>job s.
             case job of
               None \<Rightarrow> Inr (1, s)
             | Some job \<Rightarrow>
                 bind_run (set_foreground h (jb_key job) True True s) (\<lambda>ok s.
                   if \<not> ok then Inr (1, s) else wait_job (jb_key job) s)))"

fun bg_loop :: "host \<Rightarrow> cstring list \<Rightarrow> mrsh_state \<Rightarrow> int run" where
  "bg_loop h [] s = Inr (0, s)"
| "bg_loop h (spec # specs) s =
     need (job_by_id (st_jobs s) spec) s (\<lambda>job s.
       case job of
         None \<Rightarrow> Inr (1, s)
       | Some job \<Rightarrow>
           bind_run (set_foreground h (jb_key job) False True s) (\<lambda>ok s.
             if \<not> ok then Inr (1, s) else bg_loop h specs s))"

definition builtin_bg :: "host \<Rightarrow> cstring list \<Rightarrow> mrsh_state \<Rightarrow> int run" where
  "builtin_bg h argv s =
     need (builtin_options [] argv '':'' s) s (\<lambda>(_, st, s) _.
       if st \<noteq> None then Inr (1, s)
       else bg_loop h (case operands argv s of [] \<Rightarrow> [''%%''] | ops \<Rightarrow> ops) s)"

section \<open>wait\<close>

datatype waited = WaitStatus int nat | WaitNoChild | WaitError

text \<open>
  \<open>waitpid(pid, &stat, 0)\<close>: a child that has ended, or none. \<open>-1\<close> stands for any child; of the ones
  the shell knows, the oldest is taken. A stopped child ends only when it is continued.
\<close>

definition sys_waitpid :: "int \<Rightarrow> mrsh_state \<Rightarrow> waited run" where
  "sys_waitpid pid s =
     (case js_events (st_jobs s) of
        EvInterrupted # evs \<Rightarrow> Inr (WaitError, s\<lparr>st_jobs := (st_jobs s)\<lparr>js_events := evs\<rparr>\<rparr>)
      | EvFailed # evs \<Rightarrow> Inr (WaitError, s\<lparr>st_jobs := (st_jobs s)\<lparr>js_events := evs\<rparr>\<rparr>)
      | _ \<Rightarrow>
          let known = map (\<lambda>p. pr_pid (js_store (st_jobs s) p)) (js_processes (st_jobs s));
              pid = (if pid = - 1 then (case find (\<lambda>p. st_zombies s p \<noteq> None) known of None \<Rightarrow> pid | Some p \<Rightarrow> p) else pid)
          in case st_zombies s pid of
               Some stat \<Rightarrow> Inr (WaitStatus pid stat, s\<lparr>st_zombies := (st_zombies s)(pid := None)\<rparr>)
             | None \<Rightarrow>
                 if \<exists>p \<in> set (js_processes (st_jobs s)). pr_pid (js_store (st_jobs s) p) = pid \<and>
                      pr_stopped (js_store (st_jobs s) p) \<and> \<not> pr_terminated (js_store (st_jobs s) p)
                 then Inl Blocked else Inr (WaitNoChild, s))"

record wait_handle =
  wh_pid :: int
  wh_status :: int

definition wait_all_handles :: "mrsh_state \<Rightarrow> wait_handle list" where
  "wait_all_handles s =
     map (\<lambda>p. \<lparr>wh_pid = pr_pid (js_store (st_jobs s) p), wh_status = - 1\<rparr>)
       (filter (\<lambda>p. \<not> pr_terminated (js_store (st_jobs s) p)) (js_processes (st_jobs s)))"

text \<open>One operand: \<open>Some None\<close> is the failure.\<close>

definition wait_operand :: "mrsh_state \<Rightarrow> cstring \<Rightarrow> wait_handle option option" where
  "wait_operand s arg =
     (if char_at arg 0 = CHR ''%'' then
        map_option (map_option (\<lambda>job. \<lparr>wh_pid = jb_pgid job, wh_status = - 1\<rparr>)) (job_by_id (st_jobs s) arg)
      else case strtol 10 arg of
        (v, rest, _) \<Rightarrow>
          let pid = int_of_long v in
          if rest \<noteq> [] \<or> arg = [] then Some None
          else if pid \<le> 0 then Some None
          else Some (Some \<lparr>wh_pid = pid, wh_status =
            (case find (\<lambda>p. pr_pid (js_store (st_jobs s) p) = pid) (js_processes (st_jobs s)) of
               None \<Rightarrow> 127
             | Some p \<Rightarrow> if pr_terminated (js_store (st_jobs s) p) then int (pr_stat (js_store (st_jobs s) p)) else - 1)\<rparr>))"

fun wait_operands :: "mrsh_state \<Rightarrow> cstring list \<Rightarrow> wait_handle list option option" where
  "wait_operands s [] = Some (Some [])"
| "wait_operands s (arg # args) =
     (case wait_operand s arg of
        None \<Rightarrow> None
      | Some None \<Rightarrow> Some None
      | Some (Some w) \<Rightarrow> map_option (map_option ((#) w)) (wait_operands s args))"

text \<open>The loop that waits: the statuses, or \<open>None\<close> for the failure.\<close>

fun wait_loop_handles :: "wait_handle list \<Rightarrow> mrsh_state \<Rightarrow> int list option run" where
  "wait_loop_handles [] s = Inr (Some [], s)"
| "wait_loop_handles (w # ws) s =
     bind_run (sys_waitpid (wh_pid w) s) (\<lambda>r s.
       case r of
         WaitError \<Rightarrow> Inr (None, s)
       | WaitNoChild \<Rightarrow>
           bind_run (wait_loop_handles ws s) (\<lambda>sts s. Inr (map_option ((#) (wh_status w)) sts, s))
       | WaitStatus pid stat \<Rightarrow>
           need (update_process pid stat (st_jobs s)) s (\<lambda>js s.
             bind_run (wait_loop_handles ws (s\<lparr>st_jobs := js\<rparr>)) (\<lambda>sts s.
               Inr (map_option ((#) (if WIFEXITED stat then int (WEXITSTATUS stat) else 129)) sts, s))))"

definition builtin_wait :: "cstring list \<Rightarrow> mrsh_state \<Rightarrow> int run" where
  "builtin_wait argv s =
     need (if length argv = 1 then Some (Some (wait_all_handles s)) else wait_operands s (tl argv)) s (\<lambda>handles s.
       case handles of
         None \<Rightarrow> Inr (1, s)
       | Some ws \<Rightarrow>
           bind_run (wait_loop_handles ws s) (\<lambda>sts s.
             case sts of
               None \<Rightarrow> Inr (1, s)
             | Some sts \<Rightarrow> Inr (if length argv = 1 then 0 else last sts, s)))"

section \<open>Terminated jobs\<close>

text \<open>
  The loop of \<open>mrsh_destroy_terminated_jobs\<close>. A job that is destroyed leaves the array, and the next
  one is at its index.
\<close>

fun destroy_jobs_loop :: "nat list \<Rightarrow> mrsh_state \<Rightarrow> mrsh_state option" where
  "destroy_jobs_loop [] s = Some s"
| "destroy_jobs_loop (key # keys) s =
     (case find_job s key of
        None \<Rightarrow> destroy_jobs_loop keys s
      | Some job \<Rightarrow>
          (case job_poll (st_jobs s) job of
             None \<Rightarrow> None
           | Some status \<Rightarrow>
               let s = (if has_option (st_options s) MRSH_OPT_NOTIFY \<and> jb_pending job
                        then s\<lparr>st_jobs := update_job_object key (\<lambda>j. j\<lparr>jb_pending := False\<rparr>) (st_jobs s)\<rparr> else s)
               in if status \<ge> 0 then
                    (case job_destroy job (st_jobs s) of
                       None \<Rightarrow> None
                     | Some js \<Rightarrow> destroy_jobs_loop keys (s\<lparr>st_jobs := js\<rparr>))
                  else destroy_jobs_loop keys s))"

definition mrsh_destroy_terminated_jobs :: "mrsh_state \<Rightarrow> unit run" where
  "mrsh_destroy_terminated_jobs s =
     need (job_by_id (st_jobs s) ''%+'') s (\<lambda>_ s.
     need (job_by_id (st_jobs s) ''%-'') s (\<lambda>_ s.
       bind_run (refresh_jobs s) (\<lambda>_ s.
         need (destroy_jobs_loop (map jb_key (js_jobs (st_jobs s))) s) s (\<lambda>s _. Inr ((), s)))))"

section \<open>Facts\<close>

text \<open>\<open>wait pid\<close> for a process the shell has already waited for gives its raw wait status, not its
  exit status: 256 for a command that exited with 1.\<close>

theorem wait_reports_raw_status:
  assumes "find (\<lambda>p. pr_pid (js_store (st_jobs s) p) = pid) (js_processes (st_jobs s)) = Some p"
    "pr_terminated (js_store (st_jobs s) p)" "st_zombies s pid = None" "js_events (st_jobs s) = []"
    "0 < pid" "pid \<le> INT_MAX" "distinct (map (\<lambda>p. pr_pid (js_store (st_jobs s) p)) (js_processes (st_jobs s)))"
  shows "builtin_wait [''wait'', fmt_d pid] s = Inr (int (pr_stat (js_store (st_jobs s) p)), s)"
proof -
  have long: "in_long pid" "int_of_long pid = pid"
    using assms(5,6) by (auto simp: in_long_def LONG_MIN_def LONG_MAX_def INT_MAX_def int_of_long_small)
  obtain c cs where cs: "fmt_d pid = c # cs" "is_digit c"
    using assms(5) show_base_10_digits [of _ "nat pid"] fmt_d_nonempty [of pid]
    by (cases "fmt_d pid") (auto simp: fmt_d_def)
  then have no_percent: "char_at (fmt_d pid) 0 \<noteq> CHR ''%''"
    by (auto simp: char_simps)
  then have op: "wait_operand s (fmt_d pid) = Some (Some \<lparr>wh_pid = pid, wh_status = int (pr_stat (js_store (st_jobs s) p))\<rparr>)"
    using assms(1,2,5) strtol_fmt_d [OF long(1)] long(2) fmt_d_nonempty [of pid]
    by (simp add: wait_operand_def)
  have p: "p \<in> set (js_processes (st_jobs s))" "pr_pid (js_store (st_jobs s) p) = pid"
    using find_key_member [OF assms(1)] by auto
  have "\<not> (\<exists>q \<in> set (js_processes (st_jobs s)). pr_pid (js_store (st_jobs s) q) = pid \<and>
      pr_stopped (js_store (st_jobs s) q) \<and> \<not> pr_terminated (js_store (st_jobs s) q))"
    using p assms(2,7) by (auto simp: distinct_map inj_on_def)
  then have "sys_waitpid pid s = Inr (WaitNoChild, s)"
    using assms(3-5) by (simp add: sys_waitpid_def Let_def)
  with op show ?thesis
    by (simp add: builtin_wait_def)
qed

definition waited_state :: mrsh_state where
  "waited_state = sample_state\<lparr>st_jobs := (st_jobs sample_state)
     \<lparr>js_store := (\<lambda>_. \<lparr>pr_pid = 7, pr_stopped = False, pr_terminated = True, pr_stat = 256, pr_signal = 0\<rparr>),
      js_next := 1, js_processes := [0]\<rparr>\<rparr>"

theorem wait_reports_raw_status_witness: "builtin_wait [''wait'', fmt_d 7] waited_state = Inr (256, waited_state)"
  using wait_reports_raw_status [of waited_state 7 0]
  by (simp add: waited_state_def sample_state_def mrsh_state_create_def jobs_zero_def INT_MAX_def)

end
