(* ===== verification/Builtins_Control.thy ===== *)
theory Builtins_Control
  imports Traps
begin

text \<open>
  The builtins that act on the call frame and the control flow: \<open>builtin/shift.c\<close>,
  \<open>break.c\<close>, \<open>exit.c\<close>, \<open>return.c\<close>, \<open>colon.c\<close>, \<open>true.c\<close>, \<open>false.c\<close>, \<open>unspecified.c\<close>. A builtin
  takes its argument vector and the state and gives its status and the new state; \<open>None\<close>, where it
  occurs, is undefined behaviour (a string freed twice).
\<close>

section \<open>shift\<close>

text \<open>One turn of the loop, for index \<open>i\<close>, with \<open>j = i + n\<close>.\<close>

definition shift_step :: "nat \<Rightarrow> nat \<Rightarrow> mrsh_call_frame \<Rightarrow> mrsh_call_frame option" where
  "shift_step n i fr =
     (case fr_argv fr of None \<Rightarrow> None
      | Some ps \<Rightarrow>
          if i + n \<le> fr_argc fr - n then Some (fr\<lparr>fr_argv := Some (ps[i := ps ! (i + n)])\<rparr>)
          else map_option (\<lambda>mem. fr\<lparr>fr_mem := mem\<rparr>) (free_arg (ps ! i) (fr_mem fr)))"

fun shift_loop :: "nat \<Rightarrow> nat list \<Rightarrow> mrsh_call_frame \<Rightarrow> mrsh_call_frame option" where
  "shift_loop n [] fr = Some fr"
| "shift_loop n (i # is) fr =
     (case shift_step n i fr of None \<Rightarrow> None | Some fr \<Rightarrow> shift_loop n is fr)"

definition exit_unless_interactive :: "mrsh_state \<Rightarrow> mrsh_state" where
  "exit_unless_interactive s = (if \<not> st_interactive s then s\<lparr>st_exit := 1\<rparr> else s)"

definition shift_by :: "int \<Rightarrow> mrsh_state \<Rightarrow> (int \<times> mrsh_state) option" where
  "shift_by n s =
     (let fr = cur_frame s in
      if n = 0 then Some (0, s)
      else if n < 1 then Some (1, exit_unless_interactive s)
      else if n > int (fr_argc fr) - 1 then Some (1, exit_unless_interactive s)
      else
        case shift_loop (nat n) [1..<fr_argc fr - nat n] fr of
          None \<Rightarrow> None
        | Some fr \<Rightarrow> Some (0, upd_frame (\<lambda>_. fr\<lparr>fr_argc := fr_argc fr - nat n\<rparr>) s))"

definition builtin_shift :: "cstring list \<Rightarrow> mrsh_state \<Rightarrow> (int \<times> mrsh_state) option" where
  "builtin_shift argv s =
     (if length argv > 2 then Some (1, s)
      else if length argv = 2 then
        (case strtol 10 (argv ! 1) of
           (n_long, rest, erange) \<Rightarrow>
             if rest \<noteq> [] \<or> erange then Some (1, exit_unless_interactive s)
             else shift_by (int_of_long n_long) s)
      else shift_by 1 s)"

section \<open>break, continue, exit and return\<close>

text \<open>The number is converted to an \<open>int\<close>; the test for an empty string looks at \<open>argv[0]\<close>.\<close>

definition builtin_break :: "cstring list \<Rightarrow> mrsh_state \<Rightarrow> int \<times> mrsh_state" where
  "builtin_break argv s =
     (if length argv > 2 then (1, s)
      else
        let (n, bad) =
          (if length argv = 2 then
             (case strtol 10 (argv ! 1) of
                (v, rest, _) \<Rightarrow>
                  let n = int_of_long v in (n, rest \<noteq> [] \<or> char_at (argv ! 0) 0 = NUL \<or> n < 0))
           else (1, False))
        in if bad then (1, s)
           else
             let nloops = fr_nloops (cur_frame s);
                 n = (if n > nloops then nloops else n)
             in (TASK_STATUS_INTERRUPTED,
                 upd_frame (\<lambda>fr. fr\<lparr>fr_nloops := nloops - (n - 1),
                   fr_branch_control := (if argv ! 0 = ''break'' then MRSH_BRANCH_BREAK
                                         else MRSH_BRANCH_CONTINUE)\<rparr>) s))"

definition builtin_exit :: "cstring list \<Rightarrow> mrsh_state \<Rightarrow> int \<times> mrsh_state" where
  "builtin_exit argv s =
     (if length argv > 2 then (1, s)
      else
        let (status, bad) =
          (if length argv > 1 then
             (case strtol 10 (argv ! 1) of
                (v, rest, erange) \<Rightarrow> (v, rest \<noteq> [] \<or> erange \<or> v < 0 \<or> v > 255))
           else (0, False))
        in if bad then (1, s)
           else (TASK_STATUS_INTERRUPTED,
             upd_frame (\<lambda>fr. fr\<lparr>fr_branch_control := MRSH_BRANCH_EXIT\<rparr>) (s\<lparr>st_exit := status\<rparr>)))"

definition builtin_return :: "cstring list \<Rightarrow> mrsh_state \<Rightarrow> int \<times> mrsh_state" where
  "builtin_return argv s =
     (if length argv > 2 then (1, s)
      else
        let (n, bad) =
          (if length argv = 2 then
             (case strtol 10 (argv ! 1) of
                (v, rest, _) \<Rightarrow>
                  let n = int_of_long v in
                  (n, rest \<noteq> [] \<or> char_at (argv ! 0) 0 = NUL \<or> n < 0 \<or> n > 255))
           else (0, False))
        in if bad then (1, s)
           else (TASK_STATUS_INTERRUPTED,
             (upd_frame (\<lambda>fr. fr\<lparr>fr_nloops := 0, fr_branch_control := MRSH_BRANCH_RETURN\<rparr>) s)
               \<lparr>st_last_status := n\<rparr>))"

section \<open>The simplest builtins\<close>

definition builtin_colon :: "cstring list \<Rightarrow> mrsh_state \<Rightarrow> int \<times> mrsh_state" where
  "builtin_colon argv s = (0, s)"

definition builtin_true :: "cstring list \<Rightarrow> mrsh_state \<Rightarrow> int \<times> mrsh_state" where
  "builtin_true argv s = (0, s)"

definition builtin_false :: "cstring list \<Rightarrow> mrsh_state \<Rightarrow> int \<times> mrsh_state" where
  "builtin_false argv s = (1, s)"

definition builtin_unspecified :: "cstring list \<Rightarrow> mrsh_state \<Rightarrow> int \<times> mrsh_state" where
  "builtin_unspecified argv s = (1, if st_interactive s then s else s\<lparr>st_exit := 1\<rparr>)"

section \<open>The effect of shift\<close>

lemma shift_loop_append:
  "shift_loop n (is @ js) fr =
    (case shift_loop n is fr of None \<Rightarrow> None | Some fr \<Rightarrow> shift_loop n js fr)"
  by (induction "is" arbitrary: fr) (auto split: option.splits)

text \<open>The slots and the memory after the turns for \<open>1, \<dots>, m - 1\<close>.\<close>

definition shifted_slots :: "nat \<Rightarrow> nat \<Rightarrow> nat \<Rightarrow> nat option list \<Rightarrow> nat option list" where
  "shifted_slots n argc m ps =
     map (\<lambda>i. if 1 \<le> i \<and> i < m \<and> i + n \<le> argc - n then ps ! (i + n) else ps ! i) [0..<length ps]"

definition freed_slots :: "nat \<Rightarrow> nat \<Rightarrow> nat \<Rightarrow> nat option list \<Rightarrow> nat \<Rightarrow> bool" where
  "freed_slots n argc m ps a \<longleftrightarrow> (\<exists>i. 1 \<le> i \<and> i < m \<and> \<not> i + n \<le> argc - n \<and> ps ! i = Some a)"

lemma shift_loop_spec:
  assumes ps: "fr_argv fr = Some ps" "fr_argc fr < length ps"
    and live: "\<forall>i < fr_argc fr. \<exists>a. ps ! i = Some a \<and> fr_mem fr a \<noteq> None"
    and dist: "distinct (take (fr_argc fr) ps)" and n: "1 \<le> n"
  shows "1 \<le> m \<Longrightarrow> m + n \<le> fr_argc fr \<Longrightarrow>
    \<exists>fr'. shift_loop n [1..<m] fr = Some fr' \<and>
      fr' = fr\<lparr>fr_argv := Some (shifted_slots n (fr_argc fr) m ps),
               fr_mem := (\<lambda>a. if freed_slots n (fr_argc fr) m ps a then None else fr_mem fr a)\<rparr>"
proof (induction m)
  case 0
  then show ?case by simp
next
  case (Suc m)
  show ?case
  proof (cases "m = 0")
    case True
    have "shifted_slots n (fr_argc fr) (Suc 0) ps = ps"
      by (auto simp: shifted_slots_def intro: nth_equalityI)
    with True show ?thesis
      by (simp add: freed_slots_def ps(1))
  next
    case False
    let ?argc = "fr_argc fr"
    let ?fr' = "fr\<lparr>fr_argv := Some (shifted_slots n ?argc m ps),
               fr_mem := (\<lambda>a. if freed_slots n ?argc m ps a then None else fr_mem fr a)\<rparr>"
    have ih: "shift_loop n [1..<m] fr = Some ?fr'"
      using Suc False by auto
    have upt: "[1..<Suc m] = [1..<m] @ [m]"
      using False by (simp add: upt_Suc)
    have m: "m < length ps" "m < ?argc"
      using Suc.prems n ps(2) by auto
    have slot: "shifted_slots n ?argc m ps ! i = (if 1 \<le> i \<and> i < m \<and> i + n \<le> ?argc - n then ps ! (i + n) else ps ! i)"
      if "i < length ps" for i
      using that by (simp add: shifted_slots_def)
    obtain a where a: "ps ! m = Some a" "fr_mem fr a \<noteq> None"
      using live m(2) by blast
    have fresh: "\<not> freed_slots n ?argc m ps a"
    proof
      assume "freed_slots n ?argc m ps a"
      then obtain i where i: "i < m" "ps ! i = Some a"
        by (auto simp: freed_slots_def)
      have "take ?argc ps ! i = take ?argc ps ! m" "i < length (take ?argc ps)" "m < length (take ?argc ps)"
        using i a(1) m ps(2) by simp_all
      with dist i(1) show False
        by (metis nth_eq_iff_index_eq less_irrefl)
    qed
    show ?thesis
    proof (cases "m + n \<le> ?argc - n")
      case True
      then have "m + n < length ps"
        using Suc.prems ps(2) by linarith
      then have "(shifted_slots n ?argc m ps)[m := shifted_slots n ?argc m ps ! (m + n)] = shifted_slots n ?argc (Suc m) ps"
        using m slot True n \<open>m \<noteq> 0\<close> by (auto simp: shifted_slots_def nth_list_update less_Suc_eq intro!: nth_equalityI)
      moreover have "freed_slots n ?argc (Suc m) ps = freed_slots n ?argc m ps"
        using True by (auto simp: freed_slots_def less_Suc_eq fun_eq_iff)
      ultimately show ?thesis
        using True unfolding upt shift_loop_append ih by (simp add: shift_step_def)
    next
      case no: False
      have "shifted_slots n ?argc (Suc m) ps = shifted_slots n ?argc m ps"
        using no by (auto simp: shifted_slots_def less_Suc_eq)
      moreover have "freed_slots n ?argc (Suc m) ps b \<longleftrightarrow> freed_slots n ?argc m ps b \<or> b = a" for b
        using no a(1) False unfolding freed_slots_def
        by (auto simp: less_Suc_eq intro: exI [of _ m])
      moreover have "shifted_slots n ?argc m ps ! m = Some a"
        using slot [OF m(1)] a(1) by simp
      ultimately show ?thesis
        using no a fresh unfolding upt shift_loop_append ih
        by (auto simp: shift_step_def free_arg_def fun_eq_iff)
    qed
  qed
qed


text \<open>\<open>shift\<close> without an operand drops \<open>$1\<close> and keeps the others in order, in a vector that is
  again sound.\<close>

theorem shift_drops_first:
  assumes "frame_ok (cur_frame s)" "frame_args (cur_frame s) = Some (a0 # a1 # rest)"
  shows "\<exists>s'. builtin_shift [name] s = Some (0, s') \<and>
    frame_args (cur_frame s') = Some (a0 # rest) \<and> frame_ok (cur_frame s') \<and>
    tl (st_frames s') = tl (st_frames s)"
proof -
  let ?fr = "cur_frame s" and ?argc = "fr_argc (cur_frame s)"
  obtain ps where ps: "fr_argv ?fr = Some ps" "?argc < length ps" "0 < ?argc"
    "\<forall>i < ?argc. \<exists>a. ps ! i = Some a \<and> fr_mem ?fr a \<noteq> None" "distinct (take ?argc ps)"
    using assms(1) by (auto simp: frame_ok_def)
  have args: "?argc = Suc (Suc (length rest))" "\<forall>i < ?argc. frame_arg ?fr i = Some ((a0 # a1 # rest) ! i)"
    using assms(2) by (auto simp: frame_args_iff)
  let ?ps' = "shifted_slots 1 ?argc (?argc - 1) ps"
  let ?fr' = "?fr\<lparr>fr_argv := Some ?ps', fr_argc := ?argc - 1\<rparr>"
  have "\<not> freed_slots 1 ?argc (?argc - 1) ps a" for a
    by (auto simp: freed_slots_def)
  then have loop: "shift_loop 1 [1..<?argc - 1] ?fr = Some (?fr\<lparr>fr_argv := Some ?ps'\<rparr>)"
    using shift_loop_spec [OF ps(1,2,4,5), of 1 "?argc - 1"] args(1) by simp
  have sh: "builtin_shift [name] s = Some (0, upd_frame (\<lambda>_. ?fr') s)"
    using loop args(1) by (simp add: builtin_shift_def shift_by_def Let_def cur_frame_def)
  have cur: "cur_frame (upd_frame (\<lambda>_. ?fr') s) = ?fr'" "tl (st_frames (upd_frame (\<lambda>_. ?fr') s)) = tl (st_frames s)"
    by (simp_all add: cur_frame_def upd_frame_def)
  have slot: "?ps' ! i = (if i = 0 then ps ! 0 else ps ! (i + 1))" if "i < ?argc - 1" for i
  proof -
    have "i < length ps"
      using that ps(2) by simp
    then show ?thesis
      using that by (auto simp: shifted_slots_def)
  qed
  have len': "length ?ps' = length ps"
    by (simp add: shifted_slots_def)
  have "frame_arg ?fr' i = Some ((a0 # rest) ! i)" if i: "i < ?argc - 1" for i
  proof -
    have "Suc i < length ps" "i < length ps" "ps \<noteq> []"
      using i ps(2) by auto
    then have "frame_arg ?fr' i = frame_arg ?fr (if i = 0 then 0 else i + 1)"
      unfolding frame_arg_def using slot [OF i] i ps(1,2) len' by (simp split: option.split)
    with args(2) i show ?thesis
      by (cases i) auto
  qed
  then have fa: "frame_args ?fr' = Some (a0 # rest)"
    using args(1) by (simp add: frame_args_iff)
  have "inj_on (\<lambda>i. ps ! i) {..<?argc}"
    using ps(2,5) by (auto simp: inj_on_def distinct_conv_nth)
  note inj = this
  have "distinct (take (?argc - 1) ?ps')"
    unfolding distinct_conv_nth
  proof (intro allI impI)
    fix i j assume ij: "i < length (take (?argc - 1) ?ps')" "j < length (take (?argc - 1) ?ps')" "i \<noteq> j"
    then have lt: "i < ?argc - 1" "j < ?argc - 1" by simp_all
    have "(if i = 0 then 0 else i + 1) \<noteq> (if j = 0 then 0 else j + 1)"
      "(if i = 0 then 0 else i + 1) < ?argc" "(if j = 0 then 0 else j + 1) < ?argc"
      using ij(3) lt by auto
    with inj have "ps ! (if i = 0 then 0 else i + 1) \<noteq> ps ! (if j = 0 then 0 else j + 1)"
      unfolding inj_on_def by blast
    with slot [OF lt(1)] slot [OF lt(2)] lt show "take (?argc - 1) ?ps' ! i \<noteq> take (?argc - 1) ?ps' ! j"
      by (auto split: if_splits)
  qed
  moreover have "\<exists>a. ?ps' ! i = Some a \<and> fr_mem ?fr a \<noteq> None" if "i < ?argc - 1" for i
    using slot [OF that] ps(4) that by auto
  ultimately have "frame_ok ?fr'"
    using ps(2) args(1) by (simp add: frame_ok_def shifted_slots_def)
  with sh cur fa show ?thesis by auto
qed

definition args_state :: "cstring list \<Rightarrow> mrsh_state" where
  "args_state args = push_frame args sample_state"

lemma args_state_frame:
  "args \<noteq> [] \<Longrightarrow> frame_ok (cur_frame (args_state args)) \<and> frame_args (cur_frame (args_state args)) = Some args \<and>
    argv_terminated (cur_frame (args_state args))"
  using frame_ok_fresh [of args frame_zero] terminated_fresh [of args frame_zero]
    frame_arg_fresh [of _ args "length args" frame_zero]
  by (auto simp: args_state_def push_frame_def cur_frame_def frame_args_iff)

theorem shift_drops_first_witness:
  "\<exists>s'. builtin_shift [''shift''] (args_state [''sh'', ''a'', ''b'']) = Some (0, s') \<and>
    frame_args (cur_frame s') = Some [''sh'', ''b'']"
  using shift_drops_first [of "args_state [''sh'', ''a'', ''b'']" "''sh''" "''a''" "[''b'']" "''shift''"]
    args_state_frame [of "[''sh'', ''a'', ''b'']"] by auto

text \<open>\<open>shift n\<close> with \<open>n \<ge> 2\<close> frees a string it keeps: whenever parameters are left over, the
  last of them is a dangling pointer afterwards.\<close>

theorem shift_many_dangles:
  assumes "frame_ok (cur_frame s)" "2 \<le> n" "n + 2 \<le> fr_argc (cur_frame s)"
  shows "\<exists>s'. shift_by (int n) s = Some (0, s') \<and> fr_argc (cur_frame s') = fr_argc (cur_frame s) - n \<and>
    frame_arg (cur_frame s') (fr_argc (cur_frame s') - 1) = None"
proof -
  let ?fr = "cur_frame s" and ?argc = "fr_argc (cur_frame s)"
  obtain ps where ps: "fr_argv ?fr = Some ps" "?argc < length ps" "0 < ?argc"
    "\<forall>i < ?argc. \<exists>a. ps ! i = Some a \<and> fr_mem ?fr a \<noteq> None" "distinct (take ?argc ps)"
    using assms(1) by (auto simp: frame_ok_def)
  let ?m = "?argc - n" and ?k = "?argc - n - 1"
  obtain fr' where loop: "shift_loop n [1..<?m] ?fr = Some fr'"
    and fr': "fr' = ?fr\<lparr>fr_argv := Some (shifted_slots n ?argc ?m ps),
      fr_mem := (\<lambda>a. if freed_slots n ?argc ?m ps a then None else fr_mem ?fr a)\<rparr>"
    using shift_loop_spec [OF ps(1,2,4,5), of n ?m] assms(2,3) by auto
  have sh: "shift_by (int n) s = Some (0, upd_frame (\<lambda>_. fr'\<lparr>fr_argc := ?m\<rparr>) s)"
    using loop assms(2,3) fr' by (simp add: shift_by_def Let_def)
  obtain a where a: "ps ! ?k = Some a"
    using ps(3,4) by (metis diff_less diff_right_commute less_imp_diff_less zero_less_one)
  have "\<not> ?k + n \<le> ?argc - n"
    using assms(2,3) by linarith
  moreover have "1 \<le> ?k" "?k < ?m"
    using assms(3) by linarith+
  ultimately have "freed_slots n ?argc ?m ps a" "shifted_slots n ?argc ?m ps ! ?k = Some a"
    using a ps(2) assms(3) by (auto simp: freed_slots_def shifted_slots_def)
  then have "frame_arg (fr'\<lparr>fr_argc := ?m\<rparr>) ?k = None"
    using fr' by (simp add: frame_arg_def)
  then show ?thesis
    using sh by (simp add: cur_frame_def upd_frame_def)
qed

theorem shift_many_dangles_witness:
  "\<exists>s'. shift_by 2 (args_state [''sh'', ''a'', ''b'', ''c'']) = Some (0, s') \<and>
    frame_arg (cur_frame s') 1 = None"
  using shift_many_dangles [of "args_state [''sh'', ''a'', ''b'', ''c'']" 2]
    args_state_frame [of "[''sh'', ''a'', ''b'', ''c'']"]
  by (auto simp: args_state_def push_frame_def cur_frame_def)


lemma cur_upd_frame [simp]: "cur_frame (upd_frame f s) = f (cur_frame s)"
  by (simp add: cur_frame_def upd_frame_def)

lemma upd_frame_fields [simp]:
  "st_exit (upd_frame f s) = st_exit s" "st_last_status (upd_frame f s) = st_last_status s"
  "tl (st_frames (upd_frame f s)) = tl (st_frames s)" "st_options (upd_frame f s) = st_options s"
  "cur_frame (s\<lparr>st_exit := e\<rparr>) = cur_frame s" "cur_frame (s\<lparr>st_last_status := e\<rparr>) = cur_frame s"
  by (simp_all add: upd_frame_def cur_frame_def)

text \<open>\<open>exit n\<close> leaves the shell with status \<open>n\<close>, for the statuses 0 to 255 and no others: whenever it
  interrupts, the recorded status is in that range.\<close>

theorem exit_status:
  "(0 \<le> v \<and> v \<le> 255 \<longrightarrow>
     (\<exists>s'. builtin_exit [name, fmt_d v] s = (TASK_STATUS_INTERRUPTED, s') \<and> st_exit s' = v \<and>
        fr_branch_control (cur_frame s') = MRSH_BRANCH_EXIT)) \<and>
   (fst (builtin_exit argv s) = TASK_STATUS_INTERRUPTED \<longrightarrow>
     0 \<le> st_exit (snd (builtin_exit argv s)) \<and> st_exit (snd (builtin_exit argv s)) \<le> 255)"
proof (intro conjI impI)
  assume v: "0 \<le> v \<and> v \<le> 255"
  then have "strtol 10 (fmt_d v) = (v, [], False)"
    by (intro strtol_fmt_d) (simp add: in_long_def LONG_MIN_def LONG_MAX_def)
  with v show "\<exists>s'. builtin_exit [name, fmt_d v] s = (TASK_STATUS_INTERRUPTED, s') \<and> st_exit s' = v \<and>
        fr_branch_control (cur_frame s') = MRSH_BRANCH_EXIT"
    by (simp add: builtin_exit_def)
qed (auto simp: builtin_exit_def Let_def task_status_defs split: if_splits prod.splits)

theorem exit_status_witness:
  "\<exists>s'. builtin_exit [''exit'', fmt_d 3] sample_state = (TASK_STATUS_INTERRUPTED, s') \<and> st_exit s' = 3"
  using exit_status [of 3 "''exit''" sample_state "[]"] by auto

text \<open>\<open>break n\<close> and \<open>continue n\<close> inside \<open>nloops\<close> loops leave the counter at the loop they aim at, the
  outermost one when \<open>n\<close> is too large, and record which of the two it was.\<close>

theorem break_levels:
  assumes "1 \<le> n" "n \<le> INT_MAX" "1 \<le> fr_nloops (cur_frame s)" "name = ''break'' \<or> name = ''continue''"
  shows "\<exists>s'. builtin_break [name, fmt_d n] s = (TASK_STATUS_INTERRUPTED, s') \<and>
    fr_nloops (cur_frame s') = fr_nloops (cur_frame s) - min n (fr_nloops (cur_frame s)) + 1 \<and>
    1 \<le> fr_nloops (cur_frame s') \<and>
    fr_branch_control (cur_frame s') = (if name = ''break'' then MRSH_BRANCH_BREAK else MRSH_BRANCH_CONTINUE)"
proof -
  have "strtol 10 (fmt_d n) = (n, [], False)"
    using assms(1,2) by (intro strtol_fmt_d) (simp add: in_long_def LONG_MIN_def LONG_MAX_def INT_MAX_def)
  moreover have "int_of_long n = n"
    using assms(1,2) by (intro int_of_long_small) (simp_all add: INT_MAX_def)
  ultimately show ?thesis
    using assms(1,3,4) by (auto simp: builtin_break_def Let_def min_def)
qed

theorem break_levels_witness:
  "\<exists>s'. builtin_break [''break'', fmt_d 2] (upd_frame (\<lambda>fr. fr\<lparr>fr_nloops := 3\<rparr>) sample_state) =
      (TASK_STATUS_INTERRUPTED, s') \<and> fr_nloops (cur_frame s') = 2"
  using break_levels [of 2 "upd_frame (\<lambda>fr. fr\<lparr>fr_nloops := 3\<rparr>) sample_state" "''break''"]
  by (auto simp: INT_MAX_def)

text \<open>Outside every loop, \<open>break\<close> is not a no-op: it leaves the frame counting a loop that does
  not exist.\<close>

theorem break_outside_loop:
  assumes "fr_nloops (cur_frame s) = 0"
  shows "fr_nloops (cur_frame (snd (builtin_break [''break''] s))) = 1"
  using assms by (simp add: builtin_break_def)

theorem break_outside_loop_witness:
  "fr_nloops (cur_frame (snd (builtin_break [''break''] sample_state))) = 1"
  by (rule break_outside_loop)
    (simp add: sample_state_def mrsh_state_create_def cur_frame_def frame_zero_def)

end
