(* ===== verification/Builtin_Set.thy ===== *)
theory Builtin_Set
  imports Builtins_Control
begin

text \<open>
  \<open>builtin/set.c\<close>: the option table, \<open>set\<close> as a builtin and as the parser of the shell's own
  command line (\<open>mrsh_process_args\<close>). An index running past the argument vector, \<open>strdup(NULL)\<close> and
  a double free are \<open>None\<close>.
\<close>

record mrsh_init_args =
  ia_command_file :: "cstring option"
  ia_command_str :: "cstring option"

type_synonym option_map = "cstring option \<times> char \<times> mrsh_option"

definition options :: "option_map list" where
  "options = [
     (Some ''allexport'', CHR ''a'', MRSH_OPT_ALLEXPORT),
     (Some ''notify'', CHR ''b'', MRSH_OPT_NOTIFY),
     (Some ''noclobber'', CHR ''C'', MRSH_OPT_NOCLOBBER),
     (Some ''errexit'', CHR ''e'', MRSH_OPT_ERREXIT),
     (Some ''noglob'', CHR ''f'', MRSH_OPT_NOGLOB),
     (None, CHR ''h'', MRSH_OPT_PRELOOKUP),
     (Some ''monitor'', CHR ''m'', MRSH_OPT_MONITOR),
     (Some ''noexec'', CHR ''n'', MRSH_OPT_NOEXEC),
     (Some ''ignoreeof'', NUL, MRSH_OPT_IGNOREEOF),
     (Some ''nolog'', NUL, MRSH_OPT_NOLOG),
     (Some ''vi'', NUL, MRSH_OPT_VI),
     (Some ''nounset'', CHR ''u'', MRSH_OPT_NOUNSET),
     (Some ''verbose'', CHR ''v'', MRSH_OPT_VERBOSE),
     (Some ''xtrace'', CHR ''x'', MRSH_OPT_XTRACE)]"

definition state_get_options :: "mrsh_state \<Rightarrow> cstring" where
  "state_get_options s =
     map (\<lambda>(_, c, _). c) (filter (\<lambda>(_, c, v). c \<noteq> NUL \<and> has_option (st_options s) v) options)"

definition print_option_list :: "mrsh_state \<Rightarrow> mrsh_state" where
  "print_option_list s =
     puts (concat (map (\<lambda>(name, _, v). case name of None \<Rightarrow> []
        | Some n \<Rightarrow> ''set '' @ [if has_option (st_options s) v then CHR ''-'' else CHR ''+''] @ ''o '' @ n @ [NL])
        options)) s"

definition find_option :: "char \<Rightarrow> mrsh_option option" where
  "find_option opt =
     map_option (\<lambda>(_, _, v). v) (find (\<lambda>(_, c, _). c \<noteq> NUL \<and> c = opt) options)"

definition find_long_option :: "cstring \<Rightarrow> mrsh_option option" where
  "find_long_option opt = map_option (\<lambda>(_, _, v). v) (find (\<lambda>(n, _, _). n = Some opt) options)"

definition argv_dup :: "cstring \<Rightarrow> cstring list \<Rightarrow> cstring list" where
  "argv_dup argv_0 rest = argv_0 # rest"

definition argv_free :: "mrsh_call_frame \<Rightarrow> (nat \<Rightarrow> cstring option) option" where
  "argv_free fr =
     (case fr_argv fr of None \<Rightarrow> Some (fr_mem fr)
      | Some ps \<Rightarrow> free_args (take (fr_argc fr) ps) (fr_mem fr))"

text \<open>The data \<open>set\<close> threads through its loop: the shell, the arguments of the command line (when it
  parses them) and the options it has touched.\<close>

record set_data =
  sd_state :: mrsh_state
  sd_init :: "mrsh_init_args option"
  sd_populated :: u32

definition apply_option :: "char \<Rightarrow> mrsh_option \<Rightarrow> set_data \<Rightarrow> set_data" where
  "apply_option sign v d =
     (let s = sd_state d in
      d\<lparr>sd_state := s\<lparr>st_options := (if sign = CHR ''-'' then st_options s OR option_value v
                                   else st_options s AND NOT (option_value v))\<rparr>,
        sd_populated := sd_populated d OR option_value v\<rparr>)"

text \<open>The loop over the letters of an argument; the flag says whether all were known.\<close>

fun set_letters :: "char \<Rightarrow> cstring \<Rightarrow> set_data \<Rightarrow> bool \<times> set_data" where
  "set_letters sign [] d = (True, d)"
| "set_letters sign (c # cs) d =
     (case find_option c of None \<Rightarrow> (False, d) | Some v \<Rightarrow> set_letters sign cs (apply_option sign v d))"

datatype set_scan =
    SetUsage
  | SetOut \<comment> \<open>the \<open>goto out\<close> after printing the options\<close>
  | SetRest bool "cstring list" \<comment> \<open>\<open>force_positional\<close> and the arguments from \<open>i\<close> on\<close>
  | SetOverrun \<comment> \<open>the index has passed \<open>argc\<close>\<close>

fun set_loop :: "cstring list \<Rightarrow> set_data \<Rightarrow> set_scan \<times> set_data" where
  "set_loop [] d = (SetRest False [], d)"
| "set_loop (a # as) d =
     (if a = ''--'' then (SetRest True as, d)
      else if char_at a 0 \<noteq> CHR ''-'' \<and> char_at a 0 \<noteq> CHR ''+'' then (SetRest False (a # as), d)
      else if char_at a 1 = NUL then (SetUsage, d)
      else if char_at a 1 = CHR ''o'' then
        (case as of
           [] \<Rightarrow> (SetOut, d\<lparr>sd_state := print_option_list (sd_state d)\<rparr>)
         | name # as' \<Rightarrow>
             (case find_long_option name of
                None \<Rightarrow> (SetUsage, d)
              | Some v \<Rightarrow> set_loop as' (apply_option (char_at a 0) v d)))
      else if char_at a 1 = CHR ''c'' then
        (case sd_init d of
           None \<Rightarrow> (SetUsage, d)
         | Some ia \<Rightarrow>
             (case as of
                [] \<Rightarrow> (SetOverrun, d\<lparr>sd_init := Some (ia\<lparr>ia_command_str := None\<rparr>)\<rparr>)
              | str # as' \<Rightarrow> set_loop as' (d\<lparr>sd_init := Some (ia\<lparr>ia_command_str := Some str\<rparr>)\<rparr>)))
      else if char_at a 1 = CHR ''s'' then
        (case sd_init d of
           None \<Rightarrow> (SetUsage, d)
         | Some ia \<Rightarrow> set_loop as (d\<lparr>sd_init := Some (ia\<lparr>ia_command_str := None, ia_command_file := None\<rparr>)\<rparr>))
      else
        (case set_letters (char_at a 0) (tl a) d of
           (False, d) \<Rightarrow> (SetUsage, d)
         | (True, d) \<Rightarrow> set_loop as d))"

definition replace_argv :: "cstring list \<Rightarrow> mrsh_state \<Rightarrow> mrsh_state" where
  "replace_argv args s =
     upd_frame (\<lambda>fr. fr\<lparr>fr_argv := Some (fresh_argv args), fr_argc := length args, fr_mem := fresh_mem args\<rparr>) s"

text \<open>Printing the variables.\<close>

definition print_vars :: "mrsh_state \<Rightarrow> mrsh_state" where
  "print_vars s =
     puts (concat (map (\<lambda>(k, v). k @ ''='' @ print_escaped v @ [NL]) (collect_vars s MRSH_VAR_ATTRIB_NONE))) s"

definition set_finish :: "cstring list \<Rightarrow> set_scan \<Rightarrow> set_data \<Rightarrow> (int \<times> set_data) option" where
  "set_finish argv scan d =
     (let s = sd_state d;
          out = (case sd_init d of
                   None \<Rightarrow> Some (0, d)
                 | Some ia \<Rightarrow> Some (0, d\<lparr>sd_state := replace_argv (argv_dup (hd argv) []) s\<rparr>))
      in case scan of
        SetUsage \<Rightarrow> Some (1, d)
      | SetOverrun \<Rightarrow> None
      | SetOut \<Rightarrow> out
      | SetRest force rest \<Rightarrow>
          if rest = [] \<and> \<not> force then out
          else
            case sd_init d of
              Some ia \<Rightarrow>
                (case rest of
                   [] \<Rightarrow> None
                 | file # operands \<Rightarrow>
                     (case argv_free (cur_frame s) of
                        None \<Rightarrow> None
                      | Some _ \<Rightarrow> Some (0, d\<lparr>sd_init := Some (ia\<lparr>ia_command_file := Some file\<rparr>),
                          sd_state := replace_argv (argv_dup file operands) s\<rparr>)))
            | None \<Rightarrow>
                if fr_argv (cur_frame s) = None then Some (1, d)
                else case frame_arg (cur_frame s) 0 of
                  None \<Rightarrow> None
                | Some argv_0 \<Rightarrow>
                    (case argv_free (cur_frame s) of
                       None \<Rightarrow> None
                     | Some _ \<Rightarrow> Some (0, d\<lparr>sd_state := replace_argv (argv_dup argv_0 rest) s\<rparr>)))"

definition set_impl :: "cstring list \<Rightarrow> set_data \<Rightarrow> (int \<times> set_data) option" where
  "set_impl argv d =
     (if length argv = 1 \<and> sd_init d = None then Some (0, d\<lparr>sd_state := print_vars (sd_state d)\<rparr>)
      else let (scan, d) = set_loop (tl argv) d in set_finish argv scan d)"

definition builtin_set ::
    "(nat \<Rightarrow> bool) \<Rightarrow> job_control_os \<Rightarrow> cstring list \<Rightarrow> mrsh_state \<Rightarrow> (int \<times> mrsh_state) option" where
  "builtin_set sigok os argv s =
     (case set_impl argv \<lparr>sd_state = s, sd_init = None, sd_populated = 0\<rparr> of
        None \<Rightarrow> None
      | Some (ret, d) \<Rightarrow>
          if ret \<noteq> 0 then Some (ret, sd_state d)
          else if has_option (sd_populated d) MRSH_OPT_MONITOR then
            (case mrsh_set_job_control sigok os (has_option (st_options (sd_state d)) MRSH_OPT_MONITOR) (sd_state d) of
               None \<Rightarrow> None
             | Some (ok, s) \<Rightarrow> Some (if ok then 0 else 1, s))
          else Some (0, sd_state d))"

text \<open>\<open>isatty\<close> is the answer for the terminal.\<close>

definition mrsh_process_args ::
    "bool \<Rightarrow> mrsh_init_args \<Rightarrow> cstring list \<Rightarrow> mrsh_state \<Rightarrow> (int \<times> mrsh_init_args \<times> mrsh_state) option" where
  "mrsh_process_args isatty init_args argv s =
     (case set_impl argv \<lparr>sd_state = s, sd_init = Some init_args, sd_populated = 0\<rparr> of
        None \<Rightarrow> None
      | Some (ret, d) \<Rightarrow>
          let ia = the (sd_init d); s = sd_state d in
          if ret \<noteq> 0 then Some (ret, ia, s)
          else
            let s = s\<lparr>st_interactive := (isatty \<and> ia_command_str ia = None \<and> ia_command_file ia = None)\<rparr>;
                s = (if st_interactive s \<and> \<not> has_option (sd_populated d) MRSH_OPT_MONITOR
                     then s\<lparr>st_options := st_options s OR option_value MRSH_OPT_MONITOR\<rparr> else s)
            in Some (0, ia, s))"


section \<open>Options as bits\<close>

lemma option_shift_bound: "option_shift v < 14"
  by (cases v) simp_all

lemma bit_option_value: "bit (option_value v) n \<longleftrightarrow> n = option_shift v"
proof -
  have "option_value v = 2 ^ option_shift v"
    by (simp add: option_value_def push_bit_eq_mult)
  then show ?thesis
    using option_shift_bound [of v] by (auto simp: bit_exp_iff possible_bit_def)
qed

lemma has_option_bit: "has_option w v \<longleftrightarrow> bit w (option_shift v)"
proof
  assume "has_option w v"
  then have "\<exists>n. bit (w AND option_value v) n"
    unfolding has_option_def by (auto intro: ccontr simp: bit_eq_iff)
  then show "bit w (option_shift v)"
    by (auto simp: bit_and_iff bit_option_value)
next
  assume "bit w (option_shift v)"
  then have "bit (w AND option_value v) (option_shift v)"
    by (simp add: bit_and_iff bit_option_value)
  then show "has_option w v"
    unfolding has_option_def by auto
qed

definition or_options :: "u32 \<Rightarrow> option_map list \<Rightarrow> u32" where
  "or_options w xs = foldl (\<lambda>w (_, _, v). w OR option_value v) w xs"

lemma bit_or_options:
  "bit (or_options w xs) n \<longleftrightarrow> bit w n \<or> (\<exists>(_, _, v) \<in> set xs. n = option_shift v)"
  by (induction xs arbitrary: w)
    (auto simp: or_options_def bit_or_iff bit_option_value)

definition short_options :: "option_map list" where
  "short_options = filter (\<lambda>(_, c, _). c \<noteq> NUL) options"

text \<open>The options that have a letter.\<close>

definition short_option_mask :: u32 where
  "short_option_mask = or_options 0 short_options"

lemma short_option_table:
  "list_all (\<lambda>(n, c, v). find_option c = Some v \<and>
     c \<notin> {NUL, CHR ''o'', CHR ''c'', CHR ''s'', CHR ''-''}) short_options"
  by code_simp

lemma find_option_table: "(n, c, v) \<in> set short_options \<Longrightarrow> find_option c = Some v"
  using short_option_table by (auto simp: list_all_iff)

lemma set_letters_options:
  "set xs \<subseteq> set short_options \<Longrightarrow>
    set_letters (CHR ''-'') (map (\<lambda>(_, c, _). c) xs) d = (True, snd (set_letters (CHR ''-'') (map (\<lambda>(_, c, _). c) xs) d)) \<and>
    st_options (sd_state (snd (set_letters (CHR ''-'') (map (\<lambda>(_, c, _). c) xs) d))) =
      or_options (st_options (sd_state d)) xs \<and>
    sd_init (snd (set_letters (CHR ''-'') (map (\<lambda>(_, c, _). c) xs) d)) = sd_init d"
proof (induction xs arbitrary: d)
  case Nil
  then show ?case by (simp add: or_options_def)
next
  case (Cons x xs)
  obtain n c v where x: "x = (n, c, v)" by (cases x)
  then have "find_option c = Some v"
    using Cons.prems by (auto intro: find_option_table)
  with Cons.IH [of "apply_option (CHR ''-'') v d"] Cons.prems x show ?case
    by (simp add: apply_option_def or_options_def Let_def)
qed

lemma state_get_options_short:
  "state_get_options s =
    map (\<lambda>(_, c, _). c) (filter (\<lambda>(_, _, v). has_option (st_options s) v) short_options)"
  unfolding state_get_options_def short_options_def filter_filter
  by (rule arg_cong [where f = "map (\<lambda>(_, c, _). c)"], rule filter_cong) auto

lemma short_letters: "(n, c, v) \<in> set short_options \<Longrightarrow> c \<notin> {NUL, CHR ''o'', CHR ''c'', CHR ''s'', CHR ''-''}"
  using short_option_table unfolding list_all_iff by blast

text \<open>\<open>set -$-\<close> restores the options: from a state with none set, it sets exactly the options that
  \<open>$-\<close> showed, which are those that have a letter.\<close>

theorem set_restores_options:
  assumes "state_get_options s \<noteq> []" "st_options (sd_state d) = 0"
  shows "\<exists>d'. set_loop [CHR ''-'' # state_get_options s] d = (SetRest False [], d') \<and>
    st_options (sd_state d') = st_options s AND short_option_mask"
proof -
  let ?xs = "filter (\<lambda>(_, _, v). has_option (st_options s) v) short_options"
  let ?cs = "map (\<lambda>(_, c, _). c) ?xs"
  obtain n c v rest where xs: "?xs = (n, c, v) # rest"
    using assms(1) unfolding state_get_options_short by (cases ?xs) auto
  then have "(n, c, v) \<in> set short_options"
    by (metis (no_types, lifting) filter_is_subset list.set_intros(1) subsetD)
  note c = short_letters [OF this]
  obtain d' where d': "set_letters (CHR ''-'') ?cs d = (True, d')"
    "st_options (sd_state d') = or_options 0 ?xs"
    using set_letters_options [of ?xs d] assms(2) by (auto simp: prod_eq_iff)
  have "bit (or_options 0 ?xs) k \<longleftrightarrow> bit (st_options s AND short_option_mask) k" for k
    by (auto simp: bit_or_options bit_and_iff short_option_mask_def has_option_bit)
  then have "or_options 0 ?xs = st_options s AND short_option_mask"
    by (simp add: bit_eq_iff)
  with d' c xs show ?thesis
    unfolding state_get_options_short by (auto simp: char_at_def)
qed

theorem set_restores_options_witness:
  "\<exists>d'. set_loop [CHR ''-'' # state_get_options (sample_state\<lparr>st_options := 8\<rparr>)]
      \<lparr>sd_state = sample_state, sd_init = None, sd_populated = 0\<rparr> = (SetRest False [], d') \<and>
    st_options (sd_state d') = 8 AND short_option_mask"
proof -
  have "state_get_options (sample_state\<lparr>st_options := 8\<rparr>) = ''e''"
    by code_simp
  moreover have "st_options sample_state = 0"
    by (simp add: sample_state_def mrsh_state_create_def)
  ultimately show ?thesis
    using set_restores_options [of "sample_state\<lparr>st_options := 8\<rparr>"
        "\<lparr>sd_state = sample_state, sd_init = None, sd_populated = 0\<rparr>"] by simp
qed

text \<open>\<open>set -- args\<close> replaces the positional parameters by \<open>args\<close>, keeps \<open>$0\<close>, frees the old strings
  once, and leaves a sound vector that ends in a null pointer.\<close>

theorem set_positional:
  assumes "frame_ok (cur_frame s)" "frame_args (cur_frame s) = Some (a0 # old)"
  shows "\<exists>s'. builtin_set sigok os (name # ''--'' # args) s = Some (0, s') \<and>
    frame_args (cur_frame s') = Some (a0 # args) \<and> frame_ok (cur_frame s') \<and>
    argv_terminated (cur_frame s') \<and> st_options s' = st_options s \<and> tl (st_frames s') = tl (st_frames s)"
proof -
  let ?fr = "cur_frame s"
  have "frame_arg ?fr 0 = Some a0"
    using assms(2) by (auto simp: frame_args_iff)
  moreover obtain mem where "argv_free ?fr = Some mem"
    using frame_destroy_ok [OF assms(1)] by (auto simp: argv_free_def call_frame_destroy_def)
  moreover have "fr_argv ?fr \<noteq> None"
    using assms(1) by (auto simp: frame_ok_def)
  ultimately have "builtin_set sigok os (name # ''--'' # args) s = Some (0, replace_argv (a0 # args) s)"
    by (auto simp: builtin_set_def set_impl_def set_finish_def argv_dup_def has_option_def)
  moreover have "frame_args (cur_frame (replace_argv (a0 # args) s)) = Some (a0 # args)"
    using frame_arg_fresh [of _ "a0 # args" "length (a0 # args)" ?fr]
    by (auto simp: frame_args_iff replace_argv_def)
  ultimately show ?thesis
    using frame_ok_fresh [of "a0 # args" ?fr] terminated_fresh [of "a0 # args" ?fr]
    by (simp add: replace_argv_def)
qed

definition sample_os :: job_control_os where
  "sample_os = \<lparr>os_term_fd_ok = True, os_foreground = [5], os_pgrp = 5, os_pid = 5, os_sid = 5,
     os_setpgid_ok = True, os_tcsetpgrp_ok = True, os_tcgetattr_ok = True\<rparr>"

theorem set_positional_witness:
  "\<exists>s'. builtin_set (\<lambda>_. True) sample_os [''set'', ''--'', ''x'', ''y''] (args_state [''sh'', ''a'']) = Some (0, s') \<and>
    frame_args (cur_frame s') = Some [''sh'', ''x'', ''y'']"
  using set_positional [of "args_state [''sh'', ''a'']" "''sh''" "[''a'']" "\<lambda>_. True" sample_os "''set''" "[''x'', ''y'']"]
    args_state_frame [of "[''sh'', ''a'']"] by auto

text \<open>The command line \<open>mrsh -c\<close> without a command string makes the shell read past the end of its
  argument vector, and \<open>mrsh --\<close> without an operand makes it copy the null pointer that ends the vector.\<close>

theorem process_args_overrun:
  "mrsh_process_args isatty ia [name, ''-c''] s = None \<and> mrsh_process_args isatty ia [name, ''--''] s = None"
  by (simp add: mrsh_process_args_def set_impl_def set_finish_def char_at_def)

end
