(* ===== verification/Builtins_Env.thy ===== *)
theory Builtins_Env
  imports Builtin_Set Words
begin

text \<open>
  The builtins on variables, functions and aliases: \<open>builtin/export.c\<close> (also \<open>readonly\<close>), \<open>unset.c\<close>,
  \<open>alias.c\<close>, \<open>unalias.c\<close>, \<open>read.c\<close> and \<open>getopts.c\<close>. \<open>None\<close> is a crash: a failed assertion, a null
  pointer or a read out of bounds.
\<close>

definition print_assignments :: "cstring \<Rightarrow> (cstring \<times> cstring) list \<Rightarrow> mrsh_state \<Rightarrow> mrsh_state" where
  "print_assignments prefix vs s =
     puts (concat (map (\<lambda>(k, v). prefix @ k @ ''='' @ print_escaped v @ [NL]) vs)) s"

section \<open>export and readonly\<close>

definition export_arg ::
    "(cstring \<Rightarrow> cstring option) \<Rightarrow> u32 \<Rightarrow> cstring \<Rightarrow> mrsh_state \<Rightarrow> (bool \<times> mrsh_state) option" where
  "export_arg getpwnam attrib arg s =
     (let (key, val) =
        (case strchr arg (CHR ''='') of
           Some i \<Rightarrow> (take i arg, drop (i + 1) arg)
         | None \<Rightarrow> (arg, case mrsh_env_get s arg of None \<Rightarrow> [] | Some v \<Rightarrow> v));
          prev = env_attribs s key
      in if has_attrib prev MRSH_VAR_ATTRIB_READONLY then Some (False, s)
         else
           map_option (\<lambda>new_val. (True, mrsh_env_set key new_val (attrib OR prev) s))
             (mrsh_word_str (expand_tilde getpwnam s True (mrsh_word_string_create val False))))"

fun export_loop ::
    "(cstring \<Rightarrow> cstring option) \<Rightarrow> u32 \<Rightarrow> cstring list \<Rightarrow> mrsh_state \<Rightarrow> (int \<times> mrsh_state) option" where
  "export_loop getpwnam attrib [] s = Some (0, s)"
| "export_loop getpwnam attrib (arg # args) s =
     (case export_arg getpwnam attrib arg s of
        None \<Rightarrow> None
      | Some (ok, s) \<Rightarrow> if \<not> ok then Some (1, s) else export_loop getpwnam attrib args s)"

definition builtin_export ::
    "(cstring \<Rightarrow> cstring option) \<Rightarrow> cstring list \<Rightarrow> mrsh_state \<Rightarrow> (int \<times> mrsh_state) option" where
  "builtin_export getpwnam argv s =
     (let attrib = (if argv ! 0 = ''readonly'' then MRSH_VAR_ATTRIB_READONLY else MRSH_VAR_ATTRIB_EXPORT) in
      if length argv < 2 then Some (1, s)
      else if length argv = 2 \<and> argv ! 1 = ''-p''
      then Some (0, print_assignments (argv ! 0 @ '' '') (collect_vars s attrib) s)
      else export_loop getpwnam attrib (tl argv) s)"

section \<open>unset\<close>

fun unset_loop :: "bool \<Rightarrow> cstring list \<Rightarrow> mrsh_state \<Rightarrow> int \<times> mrsh_state" where
  "unset_loop funcs [] s = (0, s)"
| "unset_loop funcs (name # names) s =
     (if \<not> funcs then
        (if mrsh_env_get s name \<noteq> None then
           if has_attrib (env_attribs s name) MRSH_VAR_ATTRIB_READONLY then (1, s)
           else unset_loop funcs names (mrsh_env_unset name s)
         else unset_loop funcs names s)
      else unset_loop funcs names (s\<lparr>st_functions := snd (mrsh_hashtable_del (st_functions s) name)\<rparr>))"

definition builtin_unset :: "cstring list \<Rightarrow> mrsh_state \<Rightarrow> (int \<times> mrsh_state) option" where
  "builtin_unset argv s =
     (case getopt_all argv '':fv'' (st_getopt s) of
        None \<Rightarrow> None
      | Some (opts, bad, g) \<Rightarrow>
          let s = s\<lparr>st_getopt := g\<rparr>; funcs = (opts \<noteq> [] \<and> last opts = CHR ''f'') in
          if bad then Some (1, s)
          else if go_optind g \<ge> length argv then Some (1, s)
          else Some (unset_loop funcs (drop (go_optind g) argv) s))"

section \<open>alias and unalias\<close>

fun alias_loop :: "cstring list \<Rightarrow> mrsh_state \<Rightarrow> int \<times> mrsh_state" where
  "alias_loop [] s = (0, s)"
| "alias_loop (alias # as) s =
     (case strchr alias (CHR ''='') of
        Some i \<Rightarrow>
          alias_loop as (s\<lparr>st_aliases := snd (mrsh_hashtable_set (st_aliases s) (take i alias) (drop (i + 1) alias))\<rparr>)
      | None \<Rightarrow>
          (case mrsh_hashtable_get (st_aliases s) alias of
             None \<Rightarrow> (1, s)
           | Some value \<Rightarrow> alias_loop as (puts (alias @ ''='' @ print_escaped value @ [NL]) s)))"

definition builtin_alias :: "cstring list \<Rightarrow> mrsh_state \<Rightarrow> (int \<times> mrsh_state) option" where
  "builtin_alias argv s =
     (case mrsh_getopt True argv '':'' ((st_getopt s)\<lparr>go_optind := 0\<rparr>) of
        None \<Rightarrow> None
      | Some (opt, g) \<Rightarrow>
          let s = s\<lparr>st_getopt := g\<rparr> in
          if opt \<noteq> None then Some (1, s)
          else if go_optind g = length argv
          then Some (0, mrsh_hashtable_for_each (st_aliases s)
            (\<lambda>k v. puts (k @ ''='' @ print_escaped v @ [NL])) s)
          else Some (alias_loop (drop (go_optind g) argv) s))"

text \<open>Deleting inside the iteration: the entries are those of the table at the start.\<close>

definition delete_alias_iterator :: "cstring \<Rightarrow> cstring \<Rightarrow> mrsh_state \<Rightarrow> mrsh_state" where
  "delete_alias_iterator key value s = s\<lparr>st_aliases := snd (mrsh_hashtable_del (st_aliases s) key)\<rparr>"

definition builtin_unalias :: "cstring list \<Rightarrow> mrsh_state \<Rightarrow> (int \<times> mrsh_state) option" where
  "builtin_unalias argv s =
     (case getopt_all argv '':a'' (st_getopt s) of
        None \<Rightarrow> None
      | Some (opts, bad, g) \<Rightarrow>
          let s = s\<lparr>st_getopt := g\<rparr> in
          if bad then Some (1, s)
          else if opts \<noteq> [] then
            if go_optind g < length argv then Some (1, s)
            else Some (0, mrsh_hashtable_for_each (st_aliases s) delete_alias_iterator s)
          else if go_optind g = length argv then Some (1, s)
          else Some (0, fold (\<lambda>name s. s\<lparr>st_aliases := snd (mrsh_hashtable_del (st_aliases s) name)\<rparr>)
            (drop (go_optind g) argv) s))"

section \<open>read\<close>

text \<open>The loop over standard input: the line, the input left, and whether the end was reached.\<close>

fun read_line :: "bool \<Rightarrow> bool \<Rightarrow> string \<Rightarrow> string \<times> string \<times> bool" where
  "read_line raw escaped [] = ([], [], True)"
| "read_line raw escaped (c # input) =
     (if \<not> raw \<and> \<not> escaped \<and> c = BACKSLASH then read_line raw True input
      else if c = NL then
        (if escaped then read_line raw False input else ([], input, False))
      else (let (line, rest, eof) = read_line raw False input in (c # line, rest, eof)))"

definition set_all :: "(cstring \<times> cstring) list \<Rightarrow> mrsh_state \<Rightarrow> mrsh_state" where
  "set_all vs s = fold (\<lambda>(k, v). mrsh_env_set k v MRSH_VAR_ATTRIB_NONE) vs s"

definition read_assign :: "cstring list \<Rightarrow> cstring list \<Rightarrow> mrsh_state \<Rightarrow> mrsh_state" where
  "read_assign names strs s =
     (if length strs \<le> length names
      then set_all (zip names (strs @ replicate (length names - length strs) [])) s
      else
        let k = length names - 1 in
        set_all (zip (butlast names) strs @ [(last names, join '' '' (drop k strs))]) s)"

definition builtin_read :: "cstring list \<Rightarrow> mrsh_state \<Rightarrow> (int \<times> mrsh_state) option" where
  "builtin_read argv s =
     (case getopt_all argv '':r'' (st_getopt s) of
        None \<Rightarrow> None
      | Some (opts, bad, g) \<Rightarrow>
          let s = s\<lparr>st_getopt := g\<rparr> in
          if bad then Some (1, s)
          else if go_optind g = length argv then Some (1, s)
          else
            case read_line (opts \<noteq> []) False (fd_text s 0) of
              (line, rest, eof) \<Rightarrow>
                let s = fd_set_text 0 rest s in
                (case bind_opt (split_fields (mrsh_word_string_create (cstr_of line) False)
                         (mrsh_env_get s ''IFS'')) get_fields_str of
                   None \<Rightarrow> None
                 | Some strs \<Rightarrow>
                     Some (if eof then 1 else 0, read_assign (drop (go_optind g) argv) strs s)))"

section \<open>getopts\<close>

text \<open>A vector that holds a dangling string counts as undefined.\<close>

definition getopts_step ::
    "cstring \<Rightarrow> cstring \<Rightarrow> nat \<Rightarrow> mrsh_state \<Rightarrow> (int \<times> mrsh_state) option" where
  "getopts_step optstring name optind s =
     (case frame_args (cur_frame s) of
        None \<Rightarrow> None
      | Some args \<Rightarrow>
          (case mrsh_getopt (argv_terminated (cur_frame s)) args optstring
                  ((st_getopt s)\<lparr>go_optind := optind, go_optopt := NUL\<rparr>) of
             None \<Rightarrow> None
           | Some (opt, g) \<Rightarrow>
               let s = mrsh_env_set ''OPTIND'' (fmt_d (int (go_optind g))) MRSH_VAR_ATTRIB_NONE (s\<lparr>st_getopt := g\<rparr>);
                   s = (if go_optopt g \<noteq> NUL then
                          if opt = Some (CHR '':'')
                          then mrsh_env_set ''OPTARG'' [go_optopt g] MRSH_VAR_ATTRIB_NONE s
                          else if char_at optstring 0 \<noteq> CHR '':'' then mrsh_env_unset ''OPTARG'' s
                          else if go_optopt g \<in> set optstring then mrsh_env_unset ''OPTARG'' s
                          else mrsh_env_set ''OPTARG'' [go_optopt g] MRSH_VAR_ATTRIB_NONE s
                        else case go_optarg g of
                          Some a \<Rightarrow> mrsh_env_set ''OPTARG'' a MRSH_VAR_ATTRIB_NONE s
                        | None \<Rightarrow> mrsh_env_unset ''OPTARG'' s);
                   s = mrsh_env_set name [case opt of None \<Rightarrow> CHR ''?'' | Some c \<Rightarrow> c] MRSH_VAR_ATTRIB_NONE s
               in Some (if opt = None then 1 else 0, s)))"

definition builtin_getopts :: "cstring list \<Rightarrow> mrsh_state \<Rightarrow> (int \<times> mrsh_state) option" where
  "builtin_getopts argv s =
     (case mrsh_getopt True argv '':'' ((st_getopt s)\<lparr>go_optind := 0\<rparr>) of
        None \<Rightarrow> None
      | Some (opt, g) \<Rightarrow>
          let s = s\<lparr>st_getopt := g\<rparr> in
          if opt \<noteq> None then Some (1, s)
          else if go_optind g + 2 < length argv then Some (1, s)
          else
            case mrsh_env_get s ''OPTIND'' of
              None \<Rightarrow> Some (1, s)
            | Some optind_str \<Rightarrow>
                (case strtol 10 optind_str of
                   (n, rest, _) \<Rightarrow>
                     if rest \<noteq> [] \<or> n \<le> 0 \<or> n > INT_MAX then Some (1, s)
                     else if go_optind g + 2 > length argv then None \<comment> \<open>\<open>name\<close> lies behind the vector\<close>
                     else getopts_step (argv ! go_optind g) (argv ! (go_optind g + 1)) (nat n) s))"


section \<open>Read-only variables\<close>

lemma puts_env [simp]:
  "mrsh_env_get (puts str s) k = mrsh_env_get s k" "env_attribs (puts str s) k = env_attribs s k"
  "mrsh_env_get (s\<lparr>st_getopt := g\<rparr>) k = mrsh_env_get s k" "env_attribs (s\<lparr>st_getopt := g\<rparr>) k = env_attribs s k"
  "mrsh_env_get (s\<lparr>st_functions := fn\<rparr>) k = mrsh_env_get s k" "env_attribs (s\<lparr>st_functions := fn\<rparr>) k = env_attribs s k"
  "mrsh_env_get (fd_set_text fd i s) k = mrsh_env_get s k" "env_attribs (fd_set_text fd i s) k = env_attribs s k"
  by (simp_all add: puts_def mrsh_env_get_def env_attribs_def mrsh_env_get_attribs_def)

definition same_var :: "cstring \<Rightarrow> mrsh_state \<Rightarrow> mrsh_state \<Rightarrow> bool" where
  "same_var k s s' \<longleftrightarrow> mrsh_env_get s' k = mrsh_env_get s k \<and> env_attribs s' k = env_attribs s k"

lemma same_var_readonly: "same_var k s s' \<Longrightarrow> is_readonly s' k = is_readonly s k"
  by (simp add: same_var_def is_readonly_def)

lemma export_arg_readonly:
  assumes "is_readonly s k" "export_arg getpwnam attrib arg s = Some (ok, s')"
  shows "same_var k s s'"
proof -
  obtain key val where kv: "(case strchr arg (CHR ''='') of
           Some i \<Rightarrow> (take i arg, drop (i + 1) arg)
         | None \<Rightarrow> (arg, case mrsh_env_get s arg of None \<Rightarrow> [] | Some v \<Rightarrow> v)) = (key, val)"
    by (rule prod.exhaust)
  show ?thesis
  proof (cases "key = k")
    case True
    then have "has_attrib (env_attribs s key) MRSH_VAR_ATTRIB_READONLY"
      using assms(1) by (simp add: is_readonly_def)
    then show ?thesis
      using assms(2) kv unfolding export_arg_def by (simp add: Let_def same_var_def)
  next
    case False
    then show ?thesis
      using assms(2) kv unfolding export_arg_def
      by (auto simp: Let_def same_var_def env_simps split: if_splits)
  qed
qed

lemma export_loop_readonly:
  "is_readonly s k \<Longrightarrow> export_loop getpwnam attrib args s = Some (r, s') \<Longrightarrow> same_var k s s'"
proof (induction args arbitrary: s)
  case Nil
  then show ?case by (simp add: same_var_def)
next
  case (Cons arg args)
  then obtain ok s1 where s1: "export_arg getpwnam attrib arg s = Some (ok, s1)"
    by (auto split: option.splits)
  note same = export_arg_readonly [OF Cons.prems(1) s1]
  show ?case
  proof (cases ok)
    case True
    then have "same_var k s1 s'"
      using Cons.IH [of s1] Cons.prems s1 same_var_readonly [OF same] by simp
    with same show ?thesis by (simp add: same_var_def)
  next
    case False
    with Cons.prems(2) s1 same show ?thesis by simp
  qed
qed

lemma unset_loop_readonly:
  "env_inv s \<Longrightarrow> is_readonly s k \<Longrightarrow> same_var k s (snd (unset_loop funcs names s))"
proof (induction names arbitrary: s)
  case Nil
  then show ?case by (simp add: same_var_def)
next
  case (Cons name names)
  let ?f = "s\<lparr>st_functions := snd (mrsh_hashtable_del (st_functions s) name)\<rparr>"
  consider (func) "funcs" | (skip) "\<not> funcs" "mrsh_env_get s name = None"
    | (ro) "\<not> funcs" "mrsh_env_get s name \<noteq> None" "is_readonly s name"
    | (del) "\<not> funcs" "mrsh_env_get s name \<noteq> None" "\<not> is_readonly s name"
    by blast
  then show ?case
  proof cases
    case func
    have "same_var k ?f (snd (unset_loop funcs names ?f))"
      by (rule Cons.IH) (use Cons.prems in \<open>auto simp: env_inv_def is_readonly_def ht.inv_del\<close>)
    with func show ?thesis by (simp add: same_var_def)
  next
    case skip
    with Cons show ?thesis by simp
  next
    case ro
    then show ?thesis by (simp add: is_readonly_def same_var_def)
  next
    case del
    then have ne: "k \<noteq> name"
      using Cons.prems(2) by auto
    have "same_var k (mrsh_env_unset name s) (snd (unset_loop funcs names (mrsh_env_unset name s)))"
      by (rule Cons.IH) (use Cons.prems ne in \<open>auto simp: is_readonly_def env_simps\<close>)
    with del ne Cons.prems(1) show ?thesis
      by (auto simp: same_var_def env_simps is_readonly_def)
  qed
qed

text \<open>C34: No call of \<open>export\<close>, \<open>readonly\<close> or \<open>unset\<close>, with whatever arguments, changes the value or the
  attributes of a read-only variable.\<close>

theorem readonly_protected:
  assumes "env_inv s" "is_readonly s k"
  shows "(builtin_export getpwnam argv s = Some (r, s') \<longrightarrow> same_var k s s' \<and> is_readonly s' k) \<and>
    (builtin_unset argv s = Some (r, s') \<longrightarrow> same_var k s s' \<and> is_readonly s' k)"
proof -
  have "same_var k s s'" if ex: "builtin_export getpwnam argv s = Some (r, s')"
    using ex export_loop_readonly [OF assms(2)]
    by (auto simp: builtin_export_def Let_def print_assignments_def same_var_def split: if_splits)
  moreover have "same_var k s s'" if un: "builtin_unset argv s = Some (r, s')"
  proof -
    have "same_var k s s'" if "unset_loop funcs names (s\<lparr>st_getopt := g\<rparr>) = (r, s')" for funcs names g
      using unset_loop_readonly [of "s\<lparr>st_getopt := g\<rparr>" k funcs names] assms that
      by (simp add: env_inv_def is_readonly_def same_var_def)
    moreover have "same_var k s (s\<lparr>st_getopt := g\<rparr>)" for g
      by (simp add: same_var_def)
    ultimately show ?thesis
      using un by (auto simp: builtin_unset_def Let_def split: option.splits if_splits)
  qed
  ultimately show ?thesis
    using same_var_readonly assms(2) by blast
qed

definition readonly_state :: mrsh_state where
  "readonly_state = mrsh_env_set ''K'' ''v'' MRSH_VAR_ATTRIB_READONLY sample_state"

lemma readonly_state_inv: "env_inv readonly_state" "is_readonly readonly_state ''K''"
proof -
  have "env_inv sample_state"
    by (simp add: sample_state_def mrsh_state_create_def env_inv_def ht.inv_empty)
  then show "env_inv readonly_state"
    by (simp add: readonly_state_def)
  show "is_readonly readonly_state ''K''"
    by (simp add: readonly_state_def is_readonly_def env_simps has_attrib_def MRSH_VAR_ATTRIB_READONLY_def)
qed

theorem readonly_protected_witness:
  "\<exists>r s'. builtin_export (\<lambda>_. None) [''export'', ''K=w''] readonly_state = Some (r, s') \<and> is_readonly s' ''K''"
proof -
  have "\<exists>r s'. builtin_export (\<lambda>_. None) [''export'', ''K=w''] readonly_state = Some (r, s')"
    using readonly_state_inv(2) by (simp add: builtin_export_def Let_def export_arg_def is_readonly_def)
  then show ?thesis
    using readonly_protected [OF readonly_state_inv, of "\<lambda>_. None" "[''export'', ''K=w'']"] by blast
qed

lemma fold_delete_aliases:
  "st_aliases (fold (\<lambda>(k, v). delete_alias_iterator k v) es s) =
    fold (\<lambda>k t. snd (mrsh_hashtable_del t k)) (map fst es) (st_aliases s)"
  by (induction es arbitrary: s) (auto simp: delete_alias_iterator_def)

text \<open>\<open>unalias -a\<close> removes every alias, although it deletes entries while it iterates over the table.\<close>

theorem unalias_all:
  assumes "env_inv s"
  shows "\<exists>s'. builtin_unalias [''unalias'', ''-a''] s = Some (0, s') \<and>
    (\<forall>name. get_alias_func s' name = None)"
proof -
  obtain g where g: "getopt_all [''unalias'', ''-a''] '':a'' (st_getopt s) = Some (''a'', False, g)" "go_optind g = 2"
    by (simp add: getopt_all_def getopt_fuel_def mrsh_getopt_def Let_def getopt_found_def opt_ret_def eval_nat_numeral
        char_at_def)
  have inv: "hashtable_inv (st_aliases s)"
    using assms by (simp add: env_inv_def)
  show ?thesis
    using g ht.del_all_entries [OF inv]
    by (simp add: builtin_unalias_def get_alias_func_def mrsh_hashtable_for_each_def fold_delete_aliases
        ht.del_all_def)
qed

theorem unalias_all_witness:
  "\<exists>s'. builtin_unalias [''unalias'', ''-a''] readonly_state = Some (0, s') \<and>
    (\<forall>name. get_alias_func s' name = None)"
  by (rule unalias_all) (rule readonly_state_inv)

end
