(* ===== verification/Builtin_Umask.thy ===== *)
theory Builtin_Umask
  imports Builtins_Control
begin

text \<open>
  \<open>builtin/umask.c\<close>: the file mode creation mask, its symbolic modes and its two printed forms.
  A \<open>mode_t\<close> is a 32-bit word; the system call keeps the nine permission bits.
\<close>

definition S_IRWXU :: u32 where "S_IRWXU = 448"
definition S_IRWXG :: u32 where "S_IRWXG = 56"
definition S_IRWXO :: u32 where "S_IRWXO = 7"
definition S_IRALL :: u32 where "S_IRALL = 292" \<comment> \<open>\<open>S_IRUSR | S_IRGRP | S_IROTH\<close>\<close>
definition S_IWALL :: u32 where "S_IWALL = 146"
definition S_IXALL :: u32 where "S_IXALL = 73"
definition S_IROTH :: u32 where "S_IROTH = 4"
definition S_IWOTH :: u32 where "S_IWOTH = 2"
definition S_IXOTH :: u32 where "S_IXOTH = 1"
definition MODE_ALL :: u32 where "MODE_ALL = 511"

lemmas mode_defs = S_IRWXU_def S_IRWXG_def S_IRWXO_def S_IRALL_def S_IWALL_def S_IXALL_def
  S_IROTH_def S_IWOTH_def S_IXOTH_def MODE_ALL_def

datatype umask_symbolic_state = UMASK_WHO | UMASK_PERM

record umask_data =
  um_state :: umask_symbolic_state
  um_mode :: u32
  um_who :: u32
  um_perm :: u32
  um_action :: char

text \<open>The system call: the new mask, and the old one.\<close>

definition sys_umask :: "u32 \<Rightarrow> mrsh_state \<Rightarrow> u32 \<times> mrsh_state" where
  "sys_umask mode s = (st_umask s, s\<lparr>st_umask := mode AND MODE_ALL\<rparr>)"

definition umask_current_mask :: "mrsh_state \<Rightarrow> u32 \<times> mrsh_state" where
  "umask_current_mask s =
     (let (m, s) = sys_umask 18 s; (_, s) = sys_umask m s in (m, s))"

definition umask_update_mode :: "umask_data \<Rightarrow> umask_data option" where
  "umask_update_mode d =
     (let who = um_who d; perm = um_perm d; mode = um_mode d;
          new = (if um_action d = CHR ''+'' then Some (mode OR (who AND perm))
                 else if um_action d = CHR ''='' then Some ((mode AND NOT who) OR (perm AND who))
                 else if um_action d = CHR ''-'' then Some (mode AND (MODE_ALL AND NOT (who AND perm)))
                 else None)
      in map_option (\<lambda>mode. d\<lparr>um_mode := mode, um_perm := 0, um_who := 0\<rparr>) new)"

definition umask_char :: "char \<Rightarrow> umask_data \<Rightarrow> umask_data option" where
  "umask_char c d =
     (let m = um_mode d in
      case um_state d of
        UMASK_WHO \<Rightarrow>
          if c = CHR ''u'' then Some (d\<lparr>um_who := um_who d OR S_IRWXU\<rparr>)
          else if c = CHR ''g'' then Some (d\<lparr>um_who := um_who d OR S_IRWXG\<rparr>)
          else if c = CHR ''o'' then Some (d\<lparr>um_who := um_who d OR S_IRWXO\<rparr>)
          else if c = CHR ''a'' then Some (d\<lparr>um_who := um_who d OR (S_IRWXU OR S_IRWXG OR S_IRWXO)\<rparr>)
          else if c = CHR ''+'' \<or> c = CHR ''-'' \<or> c = CHR ''='' then
            Some (d\<lparr>um_who := (if um_who d = 0 then S_IRWXU OR S_IRWXG OR S_IRWXO else um_who d),
                    um_action := c, um_state := UMASK_PERM\<rparr>)
          else None
      | UMASK_PERM \<Rightarrow>
          if c = CHR ''u'' then
            Some (d\<lparr>um_perm := (m AND S_IRWXU) OR drop_bit 3 (m AND S_IRWXU) OR drop_bit 6 (m AND S_IRWXU)\<rparr>)
          else if c = CHR ''g'' then
            Some (d\<lparr>um_perm := push_bit 3 (m AND S_IRWXG) OR (m AND S_IRWXG) OR drop_bit 3 (m AND S_IRWXG)\<rparr>)
          else if c = CHR ''o'' then
            Some (d\<lparr>um_perm := push_bit 6 (m AND S_IRWXO) OR push_bit 3 (m AND S_IRWXO) OR (m AND S_IRWXO)\<rparr>)
          else if c = CHR ''r'' then Some (d\<lparr>um_perm := um_perm d OR S_IRALL\<rparr>)
          else if c = CHR ''w'' then Some (d\<lparr>um_perm := um_perm d OR S_IWALL\<rparr>)
          else if c = CHR ''x'' then Some (d\<lparr>um_perm := um_perm d OR S_IXALL\<rparr>)
          else if c = CHR '','' then umask_update_mode (d\<lparr>um_state := UMASK_WHO\<rparr>)
          else None)"

fun umask_loop :: "cstring \<Rightarrow> umask_data \<Rightarrow> umask_data option" where
  "umask_loop [] d = Some d"
| "umask_loop (c # cs) d = (case umask_char c d of None \<Rightarrow> None | Some d \<Rightarrow> umask_loop cs d)"

definition umask_mode :: "cstring \<Rightarrow> mrsh_state \<Rightarrow> u32 option \<times> mrsh_state" where
  "umask_mode symbolic s =
     (let (cur, s) = umask_current_mask s in
      (case umask_loop symbolic \<lparr>um_state = UMASK_WHO, um_mode = MODE_ALL AND NOT cur, um_who = 0,
           um_perm = 0, um_action = NUL\<rparr> of
         None \<Rightarrow> None
       | Some d \<Rightarrow>
           if um_state d = UMASK_PERM
           then map_option (\<lambda>d. MODE_ALL AND NOT (um_mode d)) (umask_update_mode d)
           else None,
       s))"

definition umask_modestring :: "u32 \<Rightarrow> cstring" where
  "umask_modestring mode =
     (if S_IROTH AND mode \<noteq> 0 then ''r'' else []) @
     (if S_IWOTH AND mode \<noteq> 0 then ''w'' else []) @
     (if S_IXOTH AND mode \<noteq> 0 then ''x'' else [])"

definition umask_print_symbolic :: "u32 \<Rightarrow> cstring" where
  "umask_print_symbolic umask =
     (let mode = MODE_ALL AND NOT umask in
      ''u='' @ umask_modestring (drop_bit 6 (mode AND S_IRWXU)) @
      '',g='' @ umask_modestring (drop_bit 3 (mode AND S_IRWXG)) @
      '',o='' @ umask_modestring (mode AND S_IRWXO) @ [NL])"

definition builtin_umask :: "cstring list \<Rightarrow> mrsh_state \<Rightarrow> (int \<times> mrsh_state) option" where
  "builtin_umask argv s =
     (case getopt_all argv '':S'' (st_getopt s) of
        None \<Rightarrow> None
      | Some (opts, bad, g) \<Rightarrow>
          let s = s\<lparr>st_getopt := g\<rparr> in
          if bad then Some (1, s)
          else if go_optind g = length argv then
            let (m, s) = umask_current_mask s in
            Some (0, puts (if opts \<noteq> [] then umask_print_symbolic m else fmt_04o (unat m) @ [NL]) s)
          else
            case strtol 8 (argv ! go_optind g) of
              (v, rest, _) \<Rightarrow>
                if rest = [] then Some (0, snd (sys_umask (of_int v) s))
                else
                  (case umask_mode (argv ! go_optind g) s of
                     (None, s) \<Rightarrow> Some (1, s)
                   | (Some mode, s) \<Rightarrow> Some (0, snd (sys_umask mode s))))"

section \<open>Round trips\<close>

lemma current_mask: "st_umask s AND MODE_ALL = st_umask s \<Longrightarrow> umask_current_mask s = (st_umask s, s)"
  by (simp add: umask_current_mask_def sys_umask_def)

text \<open>The permission letters of a three-bit mode, as bits repeated for the three classes.\<close>

definition spread :: "u32 \<Rightarrow> u32" where
  "spread b = (if S_IROTH AND b \<noteq> 0 then S_IRALL else 0) OR (if S_IWOTH AND b \<noteq> 0 then S_IWALL else 0) OR
     (if S_IXOTH AND b \<noteq> 0 then S_IXALL else 0)"

lemma umask_loop_append:
  "umask_loop (xs @ ys) d = (case umask_loop xs d of None \<Rightarrow> None | Some d \<Rightarrow> umask_loop ys d)"
  by (induction xs arbitrary: d) (auto split: option.splits)

lemma umask_modestring_perm:
  "um_state d = UMASK_PERM \<Longrightarrow>
    umask_loop (umask_modestring b) d = Some (d\<lparr>um_perm := um_perm d OR spread b\<rparr>)"
  by (cases d) (auto simp: umask_modestring_def spread_def umask_char_def or.assoc)


lemma umask_clause:
  assumes "um_state d = UMASK_WHO" "um_who d = 0" "um_perm d = 0" "c \<in> {CHR ''u'', CHR ''g'', CHR ''o''}"
  shows "umask_loop ([c, CHR ''=''] @ umask_modestring b) d =
    Some (d\<lparr>um_state := UMASK_PERM, um_action := CHR ''='', um_perm := spread b,
      um_who := (if c = CHR ''u'' then S_IRWXU else if c = CHR ''g'' then S_IRWXG else S_IRWXO)\<rparr>)"
proof -
  let ?who = "if c = CHR ''u'' then S_IRWXU else if c = CHR ''g'' then S_IRWXG else S_IRWXO"
  let ?d = "d\<lparr>um_who := ?who, um_action := CHR ''='', um_state := UMASK_PERM\<rparr>"
  have "umask_loop [c, CHR ''=''] d = Some ?d"
    using assms by (auto simp: umask_char_def Let_def mode_defs)
  moreover have "umask_loop (umask_modestring b) ?d = Some (?d\<lparr>um_perm := um_perm d OR spread b\<rparr>)"
    using umask_modestring_perm [of ?d b] by simp
  ultimately show ?thesis
    using assms(3) unfolding umask_loop_append by (cases d) simp
qed

definition assign_class :: "u32 \<Rightarrow> u32 \<Rightarrow> u32 \<Rightarrow> u32" where
  "assign_class who perm mode = (mode AND NOT who) OR (perm AND who)"

lemma umask_three_clauses:
  assumes "um_state d = UMASK_WHO" "um_who d = 0" "um_perm d = 0"
  shows "\<exists>d'. umask_loop (''u='' @ umask_modestring bu @ '',g='' @ umask_modestring bg @ '',o='' @ umask_modestring bo) d =
      Some d' \<and> um_state d' = UMASK_PERM \<and>
    map_option um_mode (umask_update_mode d') =
      Some (assign_class S_IRWXO (spread bo) (assign_class S_IRWXG (spread bg)
        (assign_class S_IRWXU (spread bu) (um_mode d))))"
proof -
  let ?p = "\<lambda>m who perm. d\<lparr>um_state := UMASK_PERM, um_action := CHR ''='', um_mode := m, um_perm := perm, um_who := who\<rparr>"
  let ?w = "\<lambda>m. d\<lparr>um_state := UMASK_WHO, um_action := CHR ''='', um_mode := m, um_perm := 0, um_who := 0\<rparr>"
  have comma: "umask_loop [CHR '',''] (?p m who perm) = Some (?w (assign_class who perm m))" for m who perm
    by (simp add: umask_char_def umask_update_mode_def Let_def assign_class_def)
  let ?m1 = "assign_class S_IRWXU (spread bu) (um_mode d)"
  let ?m2 = "assign_class S_IRWXG (spread bg) ?m1"
  have 1: "umask_loop (''u='' @ umask_modestring bu) d = Some (?p (um_mode d) S_IRWXU (spread bu))"
    using umask_clause [of d "CHR ''u''" bu] assms by simp
  have 2: "umask_loop (''g='' @ umask_modestring bg) (?w ?m1) = Some (?p ?m1 S_IRWXG (spread bg))"
    using umask_clause [of "?w ?m1" "CHR ''g''" bg] by simp
  have 3: "umask_loop (''o='' @ umask_modestring bo) (?w ?m2) = Some (?p ?m2 S_IRWXO (spread bo))"
    using umask_clause [of "?w ?m2" "CHR ''o''" bo] by simp
  have split: "''u='' @ umask_modestring bu @ '',g='' @ umask_modestring bg @ '',o='' @ umask_modestring bo =
    (''u='' @ umask_modestring bu) @ [CHR '',''] @ (''g='' @ umask_modestring bg) @ [CHR '',''] @
    (''o='' @ umask_modestring bo)"
    by simp
  have "umask_loop (''u='' @ umask_modestring bu @ '',g='' @ umask_modestring bg @ '',o='' @ umask_modestring bo) d =
      Some (?p ?m2 S_IRWXO (spread bo))"
    unfolding split umask_loop_append [of "''u='' @ umask_modestring bu"] 1 option.case
      umask_loop_append [of "[CHR '','']"] comma
      umask_loop_append [of "''g='' @ umask_modestring bg"] 2 3 by simp
  then show ?thesis
    by (simp add: umask_update_mode_def Let_def assign_class_def)
qed

lemma MODE_ALL_eq: "MODE_ALL = mask 9"
  by (simp add: MODE_ALL_def mask_eq_exp_minus_1)

lemma classes_rebuild:
  fixes mode :: u32
  shows "MODE_ALL AND NOT (assign_class S_IRWXO (spread ((MODE_ALL AND NOT m) AND S_IRWXO))
      (assign_class S_IRWXG (spread (drop_bit 3 ((MODE_ALL AND NOT m) AND S_IRWXG)))
        (assign_class S_IRWXU (spread (drop_bit 6 ((MODE_ALL AND NOT m) AND S_IRWXU))) mode))) =
    m AND MODE_ALL"
proof -
  have bits: "S_IROTH AND b \<noteq> 0 \<longleftrightarrow> bit b 2" "S_IWOTH AND b \<noteq> 0 \<longleftrightarrow> bit b 1" "S_IXOTH AND b \<noteq> 0 \<longleftrightarrow> bit b 0"
    for b :: u32
    by (simp_all add: mode_defs bit_iff_and_push_bit_not_eq_0 and.commute)
  show ?thesis
  proof (rule bit_word_eqI)
    fix n :: nat
    consider "9 \<le> n" | "n \<in> {0, 1, 2, 3, 4, 5, 6, 7, 8}"
      by fastforce
    then show "bit (MODE_ALL AND NOT (assign_class S_IRWXO (spread ((MODE_ALL AND NOT m) AND S_IRWXO))
        (assign_class S_IRWXG (spread (drop_bit 3 ((MODE_ALL AND NOT m) AND S_IRWXG)))
          (assign_class S_IRWXU (spread (drop_bit 6 ((MODE_ALL AND NOT m) AND S_IRWXU))) mode)))) n =
      bit (m AND MODE_ALL) n"
    proof cases
      case 1
      then have "\<not> bit MODE_ALL n"
        by (simp add: MODE_ALL_eq bit_mask_iff)
      then show ?thesis
        by (simp add: bit_and_iff)
    next
      case 2
      then show ?thesis
        unfolding assign_class_def spread_def bits
        by (elim insertE) (simp_all add: mode_defs bit_simps)
    qed
  qed
qed



end
