(* ===== verification/Redir.thy ===== *)
theory Redir
  imports Host
begin

text \<open>
  Redirections: \<open>shell/redir.c\<close>, and the part of \<open>shell/task/simple_command.c\<close> that redirects the
  descriptors of the shell itself for a builtin and restores them (\<open>dup_and_save_fd\<close>, the loops of
  \<open>run_builtin\<close>). \<open>write\<close> to a pipe that has no reader yet blocks when the pipe is full.
\<close>

section \<open>Here-documents\<close>

definition PIPE_BUF :: nat where "PIPE_BUF = 4096"

text \<open>\<open>write\<close> to a pipe whose reader is this very process: it takes what fits, or never returns.\<close>

definition write_pipe :: "host \<Rightarrow> int \<Rightarrow> string \<Rightarrow> mrsh_state \<Rightarrow> unit run" where
  "write_pipe h fd str s =
     (if h_pipe_capacity h < length (fd_text s fd) + length str then Inl Blocked
      else Inr ((), fd_write fd str s))"

text \<open>
  \<open>write_here_document_line\<close> gives the number of bytes written. The limit is \<open>None\<close> for \<open>-1\<close>, which
  only the forked writer uses; its reader empties the pipe.
\<close>

definition write_here_document_line :: "host \<Rightarrow> int \<Rightarrow> mrsh_word \<Rightarrow> nat option \<Rightarrow> mrsh_state \<Rightarrow> nat run" where
  "write_here_document_line h fd line max_size s =
     need (mrsh_word_str line) s (\<lambda>line_str s.
       let write_len = length line_str + 1 in
       case max_size of
         Some m \<Rightarrow>
           if m < write_len then Inr (0, s)
           else bind_run (write_pipe h fd line_str s) (\<lambda>_ s.
                  bind_run (write_pipe h fd [NL] s) (\<lambda>_ s. Inr (write_len, s)))
       | None \<Rightarrow> Inr (write_len, fd_write fd (line_str @ [NL]) s))"

text \<open>The first loop of \<open>create_here_document_fd\<close>: the lines that are left when one was too long.\<close>

fun here_document_lines :: "host \<Rightarrow> int \<Rightarrow> mrsh_word list \<Rightarrow> mrsh_state \<Rightarrow> mrsh_word list run" where
  "here_document_lines h fd [] s = Inr ([], s)"
| "here_document_lines h fd (line # lines) s =
     bind_run (write_here_document_line h fd line (Some PIPE_BUF) s) (\<lambda>n s.
       if n = 0 then Inr (line # lines, s) else here_document_lines h fd lines s)"

text \<open>The loop of the forked writer.\<close>

fun here_document_writer :: "host \<Rightarrow> int \<Rightarrow> mrsh_word list \<Rightarrow> mrsh_state \<Rightarrow> unit run" where
  "here_document_writer h fd [] s = Inr ((), s)"
| "here_document_writer h fd (line # lines) s =
     bind_run (write_here_document_line h fd line None s) (\<lambda>_ s. here_document_writer h fd lines s)"

definition create_here_document_fd :: "host \<Rightarrow> mrsh_word list \<Rightarrow> mrsh_state \<Rightarrow> int run" where
  "create_here_document_fd h lines s =
     (case sys_pipe h s of
        (None, s) \<Rightarrow> Inr (- 1, s)
      | (Some (r, w), s) \<Rightarrow>
          bind_run (here_document_lines h w lines s) (\<lambda>rest s.
            if rest = [] then Inr (r, sys_close w s)
            else
              bind_run (sys_fork (\<lambda>s.
                  bind_run (here_document_writer h w rest (sys_close r s)) (\<lambda>_ s.
                    exit_process 0 (sys_close w s))) s) (\<lambda>pid s.
                if pid < 0 then Inr (- 1, sys_close w (sys_close r s))
                else Inr (r, sys_close w s))))"

section \<open>One redirection\<close>

definition parse_fd :: "cstring \<Rightarrow> int" where
  "parse_fd str =
     (case strtol 10 str of
        (v, rest, erange) \<Rightarrow> if erange then - 1 else if rest \<noteq> [] then - 1 else int_of_long v)"

definition STDIN_FILENO :: int where "STDIN_FILENO = 0"
definition STDOUT_FILENO :: int where "STDOUT_FILENO = 1"

lemmas fileno_defs = STDIN_FILENO_def STDOUT_FILENO_def

text \<open>The descriptor the operator opens, and the one it is for by default.\<close>

definition redir_source ::
    "host \<Rightarrow> io_redirect_op \<Rightarrow> cstring \<Rightarrow> mrsh_word list \<Rightarrow> mrsh_state \<Rightarrow> (int \<times> int) run" where
  "redir_source h op filename here s =
     (case op of
        IO_LESS \<Rightarrow> (case sys_open h filename OpenRead s of (fd, s) \<Rightarrow> Inr ((fd, STDIN_FILENO), s))
      | IO_GREAT \<Rightarrow> (case sys_open h filename OpenWrite s of (fd, s) \<Rightarrow> Inr ((fd, STDOUT_FILENO), s))
      | IO_CLOBBER \<Rightarrow> (case sys_open h filename OpenWrite s of (fd, s) \<Rightarrow> Inr ((fd, STDOUT_FILENO), s))
      | IO_DGREAT \<Rightarrow> (case sys_open h filename OpenAppend s of (fd, s) \<Rightarrow> Inr ((fd, STDOUT_FILENO), s))
      | IO_LESSAND \<Rightarrow> Inr ((parse_fd filename, STDIN_FILENO), s)
      | IO_GREATAND \<Rightarrow> Inr ((parse_fd filename, STDOUT_FILENO), s)
      | IO_LESSGREAT \<Rightarrow> (case sys_open h filename OpenReadWrite s of (fd, s) \<Rightarrow> Inr ((fd, STDIN_FILENO), s))
      | IO_DLESS \<Rightarrow> bind_run (create_here_document_fd h here s) (\<lambda>fd s. Inr ((fd, STDIN_FILENO), s))
      | IO_DLESSDASH \<Rightarrow> bind_run (create_here_document_fd h here s) (\<lambda>fd s. Inr ((fd, STDIN_FILENO), s)))"

text \<open>\<open>process_redir\<close>: the source, negative after an error, and the descriptor that is redirected.\<close>

fun process_redir :: "host \<Rightarrow> mrsh_io_redirect \<Rightarrow> mrsh_state \<Rightarrow> (int \<times> int) run" where
  "process_redir h (IoRedirect io_number op name here np opr) s =
     need (mrsh_word_str name) s (\<lambda>filename s.
       bind_run (redir_source h op filename here s) (\<lambda>(fd, default_redir_fd) s.
         if fd < 0 then Inr ((- 1, - 1), s)
         else Inr ((fd, if io_number < 0 then default_redir_fd else io_number), s)))"

section \<open>Redirections of a builtin\<close>

record saved_fd =
  dup_fd :: int
  redir_fd :: int

definition dup_and_save_fd :: "host \<Rightarrow> int \<Rightarrow> int \<Rightarrow> mrsh_state \<Rightarrow> bool \<times> saved_fd \<times> mrsh_state" where
  "dup_and_save_fd h fd redir s =
     (if fd = redir then (True, \<lparr>dup_fd = - 1, redir_fd = redir\<rparr>, s)
      else
        let (d, s) = sys_dup h redir s;
            saved = \<lparr>dup_fd = d, redir_fd = redir\<rparr>
        in if d < 0 then (False, saved, s)
           else let (n, s) = sys_dup2 h fd redir s in (\<not> n < 0, saved, s))"

text \<open>The loop over the redirections: \<open>None\<close> is the early return with an error.\<close>

fun redirect_all :: "host \<Rightarrow> mrsh_io_redirect list \<Rightarrow> saved_fd list \<Rightarrow> mrsh_state \<Rightarrow> saved_fd list option run" where
  "redirect_all h [] fds s = Inr (Some fds, s)"
| "redirect_all h (redir # redirs) fds s =
     bind_run (process_redir h redir s) (\<lambda>(fd, redir_fd) s.
       if fd < 0 then Inr (None, s)
       else
         let (ok, saved, s) = dup_and_save_fd h fd redir_fd s in
         if \<not> ok then Inr (None, s) else redirect_all h redirs (fds @ [saved]) s)"

text \<open>The loop that restores them, in the same order; the result is whether it went through.\<close>

fun restore_fds :: "host \<Rightarrow> saved_fd list \<Rightarrow> mrsh_state \<Rightarrow> bool \<times> mrsh_state" where
  "restore_fds h [] s = (True, s)"
| "restore_fds h (saved # fds) s =
     (if dup_fd saved < 0 then restore_fds h fds s
      else
        let (n, s) = sys_dup2 h (dup_fd saved) (redir_fd saved) s in
        if n < 0 then (False, s) else restore_fds h fds (sys_close (dup_fd saved) s))"

text \<open>\<open>run_builtin\<close>, around the builtin itself.\<close>

definition with_redirects ::
    "host \<Rightarrow> mrsh_io_redirect list \<Rightarrow> (mrsh_state \<Rightarrow> int run) \<Rightarrow> mrsh_state \<Rightarrow> int run" where
  "with_redirects h redirs builtin s =
     bind_run (redirect_all h redirs [] s) (\<lambda>fds s.
       case fds of
         None \<Rightarrow> Inr (TASK_STATUS_ERROR, s)
       | Some fds \<Rightarrow>
           bind_run (builtin s) (\<lambda>ret s.
             let (ok, s) = restore_fds h fds s in
             if \<not> ok then Inr (TASK_STATUS_ERROR, s) else Inr (ret, s)))"

section \<open>What a here-document holds\<close>

definition here_text :: "mrsh_word list \<Rightarrow> string" where
  "here_text lines = concat (map (\<lambda>l. text_of l @ [NL]) lines)"

lemma fd_write_file: "st_fds s fd = Some f \<Longrightarrow> st_files (fd_write fd str s) = (st_files s)(f := st_files s f @ str)"
  by (simp add: fd_write_def)

lemma sys_pipe_spec:
  "sys_pipe h s = (Some (r, w), s') \<Longrightarrow>
    \<exists>f. r \<noteq> w \<and> 0 \<le> r \<and> 0 \<le> w \<and> st_fds s' = (st_fds s)(r := Some f, w := Some f) \<and> st_files s' f = [] \<and>
      st_fds s r = None \<and> st_fds s w = None"
  by (auto simp: sys_pipe_def Let_def new_file_def set_fd_def split: option.splits if_splits
      dest!: lowest_fd_Some intro!: exI [of _ "st_next_file s"])

lemma write_line_spec:
  assumes "write_here_document_line h w line m s = Inr (n, s')" "st_fds s w = Some f"
  shows "n = 0 \<and> s' = s \<or>
    n \<noteq> 0 \<and> st_fds s' = st_fds s \<and> st_files s' f = st_files s f @ text_of line @ [NL]"
  using assms
  by (cases m) (auto simp: write_here_document_line_def run_Inr write_pipe_def Let_def fd_write_file text_of_def
      mrsh_word_str_def split: if_splits)

lemma here_lines_spec:
  "here_document_lines h w lines s = Inr (rest, s') \<Longrightarrow> st_fds s w = Some f \<Longrightarrow>
    st_fds s' = st_fds s \<and> (\<exists>done. lines = done @ rest \<and> st_files s' f = st_files s f @ here_text done)"
proof (induction lines arbitrary: s)
  case Nil
  then show ?case by (simp add: here_text_def)
next
  case (Cons line lines)
  from Cons.prems(1) obtain n s1 where n: "write_here_document_line h w line (Some PIPE_BUF) s = Inr (n, s1)"
    and next_lines: "(if n = 0 then Inr (line # lines, s1) else here_document_lines h w lines s1) = Inr (rest, s')"
    by (auto simp: run_Inr)
  show ?case
  proof (cases "n = 0")
    case True
    with next_lines write_line_spec [OF n Cons.prems(2)] show ?thesis
      by (auto simp: here_text_def)
  next
    case False
    then have s1: "st_fds s1 = st_fds s" "st_files s1 f = st_files s f @ text_of line @ [NL]"
      using write_line_spec [OF n Cons.prems(2)] by auto
    then obtain written where "st_fds s' = st_fds s1" "lines = written @ rest"
      "st_files s' f = st_files s1 f @ here_text written"
      using Cons.IH [of s1] next_lines False Cons.prems(2) by auto
    with s1 show ?thesis
      by (auto simp: here_text_def intro: exI [of _ "line # written"])
  qed
qed

lemma here_writer_spec:
  "here_document_writer h w lines s = Inr (u, s') \<Longrightarrow> st_fds s w = Some f \<Longrightarrow>
    st_fds s' = st_fds s \<and> st_files s' f = st_files s f @ here_text lines"
proof (induction lines arbitrary: s)
  case Nil
  then show ?case by (simp add: here_text_def)
next
  case (Cons line lines)
  from Cons.prems(1) obtain n s1 where n: "write_here_document_line h w line None s = Inr (n, s1)"
    and s': "here_document_writer h w lines s1 = Inr (u, s')"
    by (auto simp: run_Inr)
  then have "n \<noteq> 0"
    by (auto simp: write_here_document_line_def run_Inr)
  with write_line_spec [OF n Cons.prems(2)] Cons.IH [OF s'] Cons.prems(2) show ?case
    by (simp add: here_text_def)
qed

text \<open>C19: A here-document that is set up can be read back: the descriptor \<open>create_here_document_fd\<close>
  gives has each line followed by a newline, in order, and nothing else, whether the shell wrote all
  of it itself or left a part to another process; the descriptors that were open stay as they were.\<close>

theorem here_document_content:
  assumes "create_here_document_fd h lines s = Inr (fd, s')" "0 \<le> fd"
  shows "fd_text s' fd = here_text lines \<and> st_fds s fd = None \<and>
    (\<forall>d. d = fd \<or> st_fds s' d = st_fds s d)"
proof -
  obtain r w s1 where pipe: "sys_pipe h s = (Some (r, w), s1)"
    using assms by (cases "sys_pipe h s") (auto simp: create_here_document_fd_def split: option.splits)
  then obtain f where f: "r \<noteq> w" "st_fds s1 = (st_fds s)(r := Some f, w := Some f)" "st_files s1 f = []"
    "st_fds s r = None" "st_fds s w = None"
    using sys_pipe_spec by blast
  then have w: "st_fds s1 w = Some f" by simp
  obtain rest s2 where lines: "here_document_lines h w lines s1 = Inr (rest, s2)"
    using assms pipe by (auto simp: create_here_document_fd_def run_Inr)
  from here_lines_spec [OF this w] f(3) obtain written where s2: "st_fds s2 = st_fds s1" "lines = written @ rest"
    "st_files s2 f = here_text written"
    by auto
  show ?thesis
  proof (cases "rest = []")
    case True
    with assms pipe lines have "fd = r" "s' = sys_close w s2"
      by (auto simp: create_here_document_fd_def)
    with True s2 f show ?thesis
      by (auto simp: sys_close_def set_fd_def fd_text_def)
  next
    case False
    let ?child = "\<lambda>s. bind_run (here_document_writer h w rest (sys_close r s)) (\<lambda>_ s. exit_process 0 (sys_close w s) :: unit run)"
    obtain pid s3 where fork: "sys_fork ?child s2 = Inr (pid, s3)"
      and fin: "(if pid < 0 then Inr (- 1, sys_close w (sys_close r s3)) else Inr (r, sys_close w s3) :: int run)
        = Inr (fd, s')"
      using assms(1) pipe lines False by (auto simp: create_here_document_fd_def run_Inr)
    then have fd: "0 \<le> pid" "fd = r" "s' = sys_close w s3"
      using assms(2) by (auto split: if_splits)
    obtain stat c where c: "?child (s2\<lparr>st_pids := (\<lambda>i. st_pids s2 (Suc i)), st_pid := pid, st_zombies := (\<lambda>_. None)\<rparr>)
        = Inl (Ended stat c)"
      and "s3 = s2\<lparr>st_files := st_files c, st_next_file := st_next_file c, st_pids := st_pids c,
        st_zombies := (st_zombies s2)(pid := Some stat)\<rparr>"
      by (rule sys_fork_parent [OF fork fd(1)])
    then have s3: "st_fds s3 = st_fds s2" "st_files s3 = st_files c" by simp_all
    let ?s = "sys_close r (s2\<lparr>st_pids := (\<lambda>i. st_pids s2 (Suc i)), st_pid := pid, st_zombies := (\<lambda>_. None)\<rparr>)"
    have "\<not> (\<exists>e. here_document_writer h w lns t = Inl (Ended e u))" for lns t u
      by (induction lns arbitrary: t)
        (auto simp: write_here_document_line_def need_def bind_run_def Let_def split: option.splits sum.splits)
    then obtain c1 where c1: "here_document_writer h w rest ?s = Inr ((), c1)" "c = sys_close w c1"
      using c by (auto simp: bind_run_def exit_process_def split: sum.splits)
    have "st_fds ?s w = Some f" "st_files ?s f = here_text written"
      using s2 w f by (simp_all add: sys_close_def set_fd_def)
    from here_writer_spec [OF c1(1) this(1)] this(2) s2(2) have "st_files c1 f = here_text lines"
      by (simp add: here_text_def)
    with s3 c1 fd s2 f show ?thesis
      by (auto simp: sys_close_def set_fd_def fd_text_def)
  qed
qed

text \<open>A document of two lines in a system whose pipes hold 64 bytes.\<close>

definition sample_lines :: "mrsh_word list" where
  "sample_lines = map (\<lambda>t. mrsh_word_string_create t False) [''one'', ''two'']"

lemma sample_lines_created:
  "\<exists>s'. create_here_document_fd sample_host sample_lines sample_state = Inr (3, s')"
  by (simp add: create_here_document_fd_def sys_pipe_def lowest_fd_def sample_host_def sample_lines_def sample_state_def
      mrsh_state_create_def new_file_def set_fd_def eval_nat_numeral upt_rec write_here_document_line_def
      mrsh_word_str_def mrsh_word_string_create_def write_pipe_def fd_text_def fd_write_def PIPE_BUF_def)

theorem here_document_content_witness:
  "\<exists>s'. create_here_document_fd sample_host sample_lines sample_state = Inr (3, s') \<and>
    fd_text s' 3 = ''one'' @ [NL] @ ''two'' @ [NL]"
proof -
  obtain s' where s': "create_here_document_fd sample_host sample_lines sample_state = Inr (3, s')"
    using sample_lines_created by blast
  with here_document_content [OF s'] show ?thesis
    by (simp add: here_text_def sample_lines_def text_of_def mrsh_word_string_create_def)
qed

lemma here_lines_block:
  "\<forall>l \<in> set lines. \<exists>t. mrsh_word_str l = Some t \<and> length t < PIPE_BUF \<Longrightarrow> st_fds s w = Some f \<Longrightarrow>
    length (st_files s f) \<le> h_pipe_capacity h \<Longrightarrow>
    h_pipe_capacity h < length (st_files s f) + length (here_text lines) \<Longrightarrow>
    here_document_lines h w lines s = Inl Blocked"
proof (induction lines arbitrary: s)
  case Nil
  then show ?case by (simp add: here_text_def)
next
  case (Cons line lines)
  obtain t where t: "mrsh_word_str line = Some t" "length t < PIPE_BUF"
    using Cons.prems(1) by auto
  then have tx: "text_of line = t"
    by (simp add: text_of_def mrsh_word_str_def)
  show ?case
  proof (cases "length (st_files s f) + length t + 1 \<le> h_pipe_capacity h")
    case False
    with t Cons.prems(2) show ?thesis
      by (simp add: write_here_document_line_def Let_def write_pipe_def fd_text_def fd_write_file)
  next
    case True
    let ?s = "fd_write w [NL] (fd_write w t s)"
    have f: "st_fds ?s w = Some f" "st_files ?s f = st_files s f @ t @ [NL]"
      using Cons.prems(2) by (simp_all add: fd_write_file)
    have "write_here_document_line h w line (Some PIPE_BUF) s = Inr (length t + 1, ?s)"
      using t True Cons.prems(2) by (simp add: write_here_document_line_def Let_def write_pipe_def fd_text_def fd_write_file)
    moreover have "here_document_lines h w lines ?s = Inl Blocked"
      using Cons.prems True tx f by (intro Cons.IH) (auto simp: here_text_def)
    ultimately show ?thesis by simp
  qed
qed

text \<open>A here-document of short lines that together exceed what a pipe holds hangs the shell: the
  count of bytes that may still be written is never reduced, so no other process is started, and the
  shell waits for the pipe it has to read itself.\<close>

theorem here_document_blocks:
  assumes "\<forall>l \<in> set lines. \<exists>t. mrsh_word_str l = Some t \<and> length t < PIPE_BUF"
    "h_pipe_capacity h < length (here_text lines)" "sys_pipe h s = (Some p, s1)"
  shows "create_here_document_fd h lines s = Inl Blocked"
proof -
  obtain r w where p: "p = (r, w)" by (cases p)
  with assms(3) obtain f where "st_fds s1 w = Some f" "st_files s1 f = []"
    using sys_pipe_spec [of h s r w s1] by auto
  then have "here_document_lines h w lines s1 = Inl Blocked"
    using assms(1,2) by (intro here_lines_block) auto
  with assms(3) p show ?thesis
    by (simp add: create_here_document_fd_def)
qed

theorem here_document_blocks_witness:
  "create_here_document_fd (sample_host\<lparr>h_pipe_capacity := 7\<rparr>) sample_lines sample_state = Inl Blocked"
proof (rule here_document_blocks)
  show "\<forall>l \<in> set sample_lines. \<exists>t. mrsh_word_str l = Some t \<and> length t < PIPE_BUF"
    by (simp add: sample_lines_def mrsh_word_str_def mrsh_word_string_create_def PIPE_BUF_def)
  show "h_pipe_capacity (sample_host\<lparr>h_pipe_capacity := 7\<rparr>) < length (here_text sample_lines)"
    by (simp add: here_text_def sample_lines_def text_of_def mrsh_word_string_create_def)
  show "sys_pipe (sample_host\<lparr>h_pipe_capacity := 7\<rparr>) sample_state
      = (Some (3, 4), snd (sys_pipe (sample_host\<lparr>h_pipe_capacity := 7\<rparr>) sample_state))"
    by (simp add: sys_pipe_def lowest_fd_def sample_host_def sample_state_def mrsh_state_create_def new_file_def
        set_fd_def eval_nat_numeral upt_rec)
qed

section \<open>Redirecting and restoring\<close>

text \<open>The descriptor a redirection is for.\<close>

fun redir_target :: "mrsh_io_redirect \<Rightarrow> int" where
  "redir_target (IoRedirect io_number op name here np opr) =
     (if 0 \<le> io_number then io_number
      else if op \<in> {IO_GREAT, IO_CLOBBER, IO_DGREAT, IO_GREATAND} then STDOUT_FILENO else STDIN_FILENO)"

text \<open>Nothing that is open is changed.\<close>

definition keeps_open :: "mrsh_state \<Rightarrow> mrsh_state \<Rightarrow> bool" where
  "keeps_open s s' \<longleftrightarrow> (\<forall>d. st_fds s d = None \<or> st_fds s' d = st_fds s d)"

lemma keeps_open_refl [simp]: "keeps_open s s"
  by (simp add: keeps_open_def)

lemma sys_open_keeps: "sys_open h path mode s = (fd, s') \<Longrightarrow> keeps_open s s'"
  by (cases "0 \<le> fd")
    (auto simp: keeps_open_def dest: sys_open_fds, auto simp: sys_open_def Let_def new_file_def
      split: option.splits if_splits dest: lowest_fd_Some)

lemma write_line_fds: "write_here_document_line h w line m s = Inr (n, s') \<Longrightarrow> st_fds s' = st_fds s"
  by (cases m) (auto simp: run_Inr write_here_document_line_def write_pipe_def Let_def split: if_splits)

lemma here_lines_fds: "here_document_lines h w lines s = Inr (rest, s') \<Longrightarrow> st_fds s' = st_fds s"
proof (induction lines arbitrary: s)
  case Nil
  then show ?case by simp
next
  case (Cons line lines)
  then obtain n s1 where "write_here_document_line h w line (Some PIPE_BUF) s = Inr (n, s1)"
    and "(if n = 0 then Inr (line # lines, s1) else here_document_lines h w lines s1) = Inr (rest, s')"
    by (auto simp: run_Inr)
  with Cons.IH [of s1] write_line_fds show ?case
    by (metis Inr_inject prod.inject)
qed

lemma sys_fork_fds: "sys_fork child s = Inr (pid, s') \<Longrightarrow> st_fds s' = st_fds s"
  by (auto simp: sys_fork_def Let_def split: if_splits sum.splits stop.splits)

lemma create_here_keeps: "create_here_document_fd h lines s = Inr (fd, s') \<Longrightarrow> keeps_open s s'"
proof (cases "sys_pipe h s")
  case (Pair p s1)
  assume created: "create_here_document_fd h lines s = Inr (fd, s')"
  show ?thesis
  proof (cases p)
    case None
    then have "s1 = s"
      using Pair by (auto simp: sys_pipe_def Let_def split: option.splits prod.splits)
    with None created Pair show ?thesis
      by (simp add: create_here_document_fd_def)
  next
    case (Some rw)
    obtain r w where rw: "rw = (r, w)" by (cases rw)
    then obtain f where f: "st_fds s1 = (st_fds s)(r := Some f, w := Some f)" "st_fds s r = None" "st_fds s w = None"
      using sys_pipe_spec [of h s r w s1] Pair Some by auto
    from created obtain s2 where "st_fds s2 = st_fds s1" "s' = sys_close w s2 \<or> s' = sys_close w (sys_close r s2)"
      by (auto simp: create_here_document_fd_def Pair Some rw run_Inr split: if_splits
          dest!: here_lines_fds sys_fork_fds)
    with f show ?thesis
      by (auto simp: keeps_open_def sys_close_def split: if_splits)
  qed
qed

lemma process_redir_spec:
  assumes "process_redir h redir s = Inr ((fd, r), s')"
  shows "keeps_open s s' \<and> (fd < 0 \<or> r = redir_target redir)"
proof -
  obtain io_number op name here np opr where redir: "redir = IoRedirect io_number op name here np opr"
    by (cases redir)
  then obtain filename fd0 d where src: "redir_source h op filename here s = Inr ((fd0, d), s')"
    and fd: "fd0 < 0 \<and> fd < 0 \<or> 0 \<le> fd0 \<and> r = (if io_number < 0 then d else io_number)"
    using assms by (auto simp: run_Inr split: if_splits)
  have "keeps_open s s'"
    using src by (auto simp: redir_source_def run_Inr split: io_redirect_op.splits prod.splits
        intro: sys_open_keeps create_here_keeps)
  moreover have "d = (if op \<in> {IO_GREAT, IO_CLOBBER, IO_DGREAT, IO_GREATAND} then STDOUT_FILENO else STDIN_FILENO)"
    using src by (auto simp: redir_source_def run_Inr split: io_redirect_op.splits prod.splits)
  ultimately show ?thesis
    using fd redir by auto
qed

text \<open>
  What the loop of redirections keeps, for the descriptors \<open>orig\<close> of the start: each saved descriptor
  is a new one and holds what its target held, and every other open descriptor is as it was.
\<close>

definition saved_inv :: "host \<Rightarrow> (int \<Rightarrow> nat option) \<Rightarrow> saved_fd list \<Rightarrow> mrsh_state \<Rightarrow> bool" where
  "saved_inv h orig fds s \<longleftrightarrow>
     distinct (map dup_fd fds) \<and> distinct (map redir_fd fds) \<and>
     (\<forall>sv \<in> set fds. 0 \<le> dup_fd sv \<and> orig (dup_fd sv) = None \<and> orig (redir_fd sv) \<noteq> None \<and>
        0 \<le> redir_fd sv \<and> redir_fd sv < int (h_open_max h) \<and> st_fds s (dup_fd sv) = orig (redir_fd sv)) \<and>
     (\<forall>d. orig d \<noteq> None \<longrightarrow> st_fds s d \<noteq> None \<and> (d \<in> set (map redir_fd fds) \<or> st_fds s d = orig d))"

definition active :: "saved_fd list \<Rightarrow> saved_fd list" where
  "active fds = filter (\<lambda>sv. 0 \<le> dup_fd sv) fds"

lemma saved_inv_keeps: "saved_inv h orig fds s \<Longrightarrow> keeps_open s s' \<Longrightarrow> saved_inv h orig fds s'"
  unfolding saved_inv_def keeps_open_def by (smt (verit, ccfv_threshold))

lemma saved_inv_add:
  assumes inv: "saved_inv h orig fds s" and d: "0 \<le> d" "st_fds s d = None"
    and r: "orig r \<noteq> None" "r \<notin> set (map redir_fd fds)" "0 \<le> r" "r < int (h_open_max h)"
    and s': "st_fds s' = (st_fds s)(d := st_fds s r, r := Some f)"
  shows "saved_inv h orig (fds @ [\<lparr>dup_fd = d, redir_fd = r\<rparr>]) s'"
proof -
  have old: "orig e \<noteq> None \<Longrightarrow> st_fds s e \<noteq> None \<and> (e \<in> set (map redir_fd fds) \<or> st_fds s e = orig e)" for e
    using inv unfolding saved_inv_def by blast
  have new: "orig d = None" "st_fds s r = orig r"
    using old [of d] old [OF r(1)] d(2) r(2) by auto
  have sv: "dup_fd sv \<noteq> d \<and> dup_fd sv \<noteq> r \<and> redir_fd sv \<noteq> d" if "sv \<in> set fds" for sv
  proof -
    have "orig (dup_fd sv) = None" "orig (redir_fd sv) \<noteq> None" "st_fds s (dup_fd sv) = orig (redir_fd sv)"
      using inv that unfolding saved_inv_def by blast+
    with d(2) r(1) new(1) show ?thesis by auto
  qed
  then have "d \<notin> dup_fd ` set fds" by blast
  then have "distinct (map dup_fd (fds @ [\<lparr>dup_fd = d, redir_fd = r\<rparr>]))"
    "distinct (map redir_fd (fds @ [\<lparr>dup_fd = d, redir_fd = r\<rparr>]))"
    using inv r(2) unfolding saved_inv_def by simp_all
  moreover have "d \<noteq> r"
    using new r(1) by auto
  moreover have "st_fds s' e \<noteq> None \<and> (e = r \<or> e \<in> set (map redir_fd fds) \<or> st_fds s' e = orig e)"
    if "orig e \<noteq> None" for e
    using old [OF that] new(1) that by (auto simp: s')
  moreover have "st_fds s' (dup_fd sv) = st_fds s (dup_fd sv)" if "sv \<in> set fds" for sv
    using sv [OF that] by (simp add: s')
  ultimately show ?thesis
    using inv d(1) r new s' unfolding saved_inv_def by simp
qed

lemma saved_inv_step:
  assumes inv: "saved_inv h orig (active fds) s" and dup: "dup_and_save_fd h fd r s = (True, saved, s')"
    and r: "orig r \<noteq> None" "r \<notin> set (map redir_fd (active fds))"
  shows "saved_inv h orig (active (fds @ [saved])) s' \<and> redir_fd saved = r"
proof (cases "fd = r")
  case True
  with assms show ?thesis by (auto simp: dup_and_save_fd_def active_def)
next
  case False
  obtain d s1 where d: "sys_dup h r s = (d, s1)" by fastforce
  obtain n s2 where n: "sys_dup2 h fd r s1 = (n, s2)" by fastforce
  have facts: "0 \<le> d" "0 \<le> n" "saved = \<lparr>dup_fd = d, redir_fd = r\<rparr>" "s' = s2"
    using dup False d n by (auto simp: dup_and_save_fd_def Let_def split: if_splits)
  have fds: "st_fds s d = None" "st_fds s1 = (st_fds s)(d := st_fds s r)" "st_fds s1 fd \<noteq> None"
    "st_fds s2 = (st_fds s1)(r := st_fds s1 fd)"
    using sys_dup_fds [OF d facts(1)] sys_dup2_fds [OF n facts(2)] by auto
  have range: "0 \<le> r" "r < int (h_open_max h)"
    using n facts(2) by (auto simp: sys_dup2_def split: option.splits if_splits)
  obtain f where "st_fds s' = (st_fds s)(d := st_fds s r, r := Some f)"
    using fds(2-4) facts(4) by auto
  from saved_inv_add [OF inv facts(1) fds(1) r range this] facts show ?thesis
    by (simp add: active_def)
qed

lemma redirect_all_spec:
  "redirect_all h redirs fds s = Inr (Some fds', s') \<Longrightarrow> saved_inv h orig (active fds) s \<Longrightarrow>
    distinct (map redir_target redirs) \<Longrightarrow> \<forall>r \<in> set redirs. orig (redir_target r) \<noteq> None \<Longrightarrow>
    set (map redir_target redirs) \<inter> set (map redir_fd (active fds)) = {} \<Longrightarrow>
    saved_inv h orig (active fds') s'"
proof (induction redirs arbitrary: fds s)
  case Nil
  then show ?case by simp
next
  case (Cons redir redirs)
  obtain fd r s1 where p: "process_redir h redir s = Inr ((fd, r), s1)"
    using Cons.prems(1) by (auto simp: run_Inr)
  obtain ok saved s2 where d: "dup_and_save_fd h fd r s1 = (ok, saved, s2)"
    using prod_cases3 by blast
  have ok: "0 \<le> fd" "ok" and all: "redirect_all h redirs (fds @ [saved]) s2 = Inr (Some fds', s')"
    using Cons.prems(1) p d by (auto split: if_splits)
  have r: "keeps_open s s1" "r = redir_target redir"
    using process_redir_spec [OF p] ok(1) by auto
  have step: "saved_inv h orig (active (fds @ [saved])) s2 \<and> redir_fd saved = r"
    using saved_inv_step [OF saved_inv_keeps [OF Cons.prems(2) r(1)], of fd r saved s2] d ok(2) Cons.prems(4,5) r(2)
    by auto
  then have "set (map redir_target redirs) \<inter> set (map redir_fd (active (fds @ [saved]))) = {}"
    using Cons.prems(3,5) r(2) by (auto simp: active_def)
  with Cons.IH [OF all conjunct1 [OF step]] Cons.prems(3,4) show ?case
    by simp
qed

lemma restore_fds_spec:
  "saved_inv h orig (active fds) s \<Longrightarrow>
    \<exists>s'. restore_fds h fds s = (True, s') \<and> (\<forall>d. orig d = None \<or> st_fds s' d = orig d)"
proof (induction fds arbitrary: s)
  case Nil
  then show ?case by (auto simp: saved_inv_def active_def)
next
  case (Cons sv fds)
  show ?case
  proof (cases "dup_fd sv < 0")
    case True
    with Cons show ?thesis by (simp add: active_def)
  next
    case False
    then have inv: "saved_inv h orig (sv # active fds) s"
      using Cons.prems by (simp add: active_def)
    then have sv: "st_fds s (dup_fd sv) = orig (redir_fd sv)" "orig (redir_fd sv) \<noteq> None" "0 \<le> redir_fd sv"
      "redir_fd sv < int (h_open_max h)" "orig (dup_fd sv) = None"
      unfolding saved_inv_def by auto
    let ?s = "sys_close (dup_fd sv) (set_fd (redir_fd sv) (orig (redir_fd sv)) s)"
    have "\<forall>x \<in> set (active fds). dup_fd x \<noteq> dup_fd sv \<and> redir_fd x \<noteq> redir_fd sv \<and>
        dup_fd x \<noteq> redir_fd sv \<and> redir_fd x \<noteq> dup_fd sv"
      using inv unfolding saved_inv_def by (auto simp: image_iff)
    with inv have "saved_inv h orig (active fds) ?s"
      unfolding saved_inv_def by (auto simp: sys_close_def)
    moreover have "restore_fds h (sv # fds) s = restore_fds h fds ?s"
      using False sv by (auto simp: sys_dup2_def)
    ultimately show ?thesis
      using Cons.IH by simp
  qed
qed

text \<open>C18: Redirections of a builtin last as long as the builtin: when each is for a different
  descriptor that is open, and the builtin itself leaves the descriptors alone, then \<open>run_builtin\<close>
  gives the status of the builtin and every descriptor that was open refers to the same file again.\<close>

theorem builtin_redirects_restored:
  assumes "distinct (map redir_target redirs)" "\<forall>r \<in> set redirs. st_fds s (redir_target r) \<noteq> None"
    "redirect_all h redirs [] s = Inr (Some fds, s1)" "builtin s1 = Inr (ret, s2)" "st_fds s2 = st_fds s1"
  shows "\<exists>s'. with_redirects h redirs builtin s = Inr (ret, s') \<and>
    (\<forall>d. st_fds s d = None \<or> st_fds s' d = st_fds s d)"
proof -
  have "saved_inv h (st_fds s) (active []) s"
    by (simp add: saved_inv_def active_def)
  with redirect_all_spec [OF assms(3)] assms(1,2) have "saved_inv h (st_fds s) (active fds) s1"
    by (simp add: active_def)
  with assms(5) have "saved_inv h (st_fds s) (active fds) s2"
    by (simp add: saved_inv_def)
  with assms(3,4) show ?thesis
    using restore_fds_spec by (fastforce simp: with_redirects_def)
qed

definition redirect_to :: "int \<Rightarrow> cstring \<Rightarrow> mrsh_io_redirect" where
  "redirect_to n path = IoRedirect n IO_GREAT (mrsh_word_string_create path False) [] position_zero range_zero"

lemmas redirect_eval = redirect_to_def sample_host_def sample_state_def mrsh_state_create_def sys_open_def
  lowest_fd_def new_file_def set_fd_def eval_nat_numeral upt_rec dup_and_save_fd_def sys_dup_def sys_dup2_def
  redir_source_def mrsh_word_str_def mrsh_word_string_create_def fileno_defs

theorem builtin_redirects_restored_witness:
  "\<exists>s'. with_redirects sample_host [redirect_to (- 1) ''a'', redirect_to 2 ''b''] (\<lambda>s. Inr (0, s)) sample_state = Inr (0, s') \<and>
    (\<forall>d. st_fds sample_state d = None \<or> st_fds s' d = st_fds sample_state d)"
proof -
  obtain fds s1 where r: "redirect_all sample_host [redirect_to (- 1) ''a'', redirect_to 2 ''b''] [] sample_state
      = Inr (Some fds, s1)"
    by (simp add: redirect_eval)
  show ?thesis
    by (rule builtin_redirects_restored [OF _ _ r]) (simp_all add: redirect_eval)
qed

text \<open>Two redirections of the same descriptor are undone in the wrong order: after
  \<open>: >a >b\<close> the standard output of the shell is the file \<open>a\<close>.\<close>

theorem builtin_redirect_twice_leaks:
  "\<exists>s'. with_redirects sample_host [redirect_to (- 1) ''a'', redirect_to (- 1) ''b''] (\<lambda>s. Inr (0, s)) sample_state = Inr (0, s') \<and>
    st_fds sample_state 1 = Some 1 \<and> st_fds s' 1 = Some (st_next_file sample_state)"
  by (simp add: with_redirects_def redirect_eval sys_close_def)

end
