(* ===== verification/Expand.thy ===== *)
theory Expand
  imports Host Arithm_Eval Arithm_Parser Builtin_Set
begin

text \<open>
  The expansion of words, \<open>shell/task/word.c\<close>: parameters with their operators, command substitution,
  arithmetic, and \<open>expand_word\<close>, which puts all passes together. An expansion replaces the word it is
  given in place, so \<open>run_word\<close> gives the status and the new word, also after an error. Expanding the
  argument of a parameter calls \<open>run_word\<close> again: the first argument \<open>n\<close> bounds the depth of these
  calls, and \<open>run\<close> stands for \<open>mrsh_run_program\<close>.
\<close>

section \<open>Command substitution\<close>

text \<open>The name that is compared is always \<open>trap\<close>, whatever the argument says.\<close>

fun naive_word_streq :: "mrsh_word \<Rightarrow> cstring \<Rightarrow> bool" where
  "naive_word_streq (WList [w] dq l r) str = naive_word_streq w str"
| "naive_word_streq (WString str' q sf r) str = (str' = ''trap'')"
| "naive_word_streq w str = False"

fun is_print_traps :: "mrsh_program \<Rightarrow> bool" where
  "is_print_traps (Program [CommandList (Pipeline [SimpleCommand (Some name) arguments redirs assigns] False bp) False sp]) =
     (naive_word_streq name ''trap'' \<and>
      (case arguments of [] \<Rightarrow> True | [arg] \<Rightarrow> naive_word_streq arg ''--'' | _ \<Rightarrow> False))"
| "is_print_traps prog = False"

text \<open>\<open>buffer_read_from\<close>: all the bytes that are there, until the end of the file.\<close>

definition read_all :: "int \<Rightarrow> mrsh_state \<Rightarrow> string \<times> mrsh_state" where
  "read_all fd s = (fd_text s fd, fd_set_text fd [] s)"

text \<open>The newlines at the end become NULs, and the string ends at the first NUL.\<close>

definition substituted :: "string \<Rightarrow> cstring" where
  "substituted bytes = cstr_of (rev (dropWhile (\<lambda>c. c = NL) (rev bytes)))"

definition substitution_child ::
    "host \<Rightarrow> runner \<Rightarrow> mrsh_program option \<Rightarrow> int \<Rightarrow> int \<Rightarrow> mrsh_state \<Rightarrow> unit run" where
  "substitution_child h run program r w s =
     (let s = sys_close r s;
          s = (if w \<noteq> 1 then sys_close w (snd (sys_dup2 h w 1 s)) else s)
      in bind_run (run_of (init_job_child_process (h_sigok h) (h_job_control h) s)) (\<lambda>_ s.
         bind_run (case program of
             Some p \<Rightarrow> if is_print_traps p then Inr (True, s) else run_of (reset_caught_traps (h_sigok h) s)
           | None \<Rightarrow> run_of (reset_caught_traps (h_sigok h) s)) (\<lambda>_ s.
         bind_run (case program of Some p \<Rightarrow> bind_run (run p s) (\<lambda>_ s. Inr ((), s)) | None \<Rightarrow> Inr ((), s)) (\<lambda>_ s.
           exit_process (if st_exit s \<ge> 0 then st_exit s else 0) s))))"

definition run_word_command ::
    "host \<Rightarrow> runner \<Rightarrow> mrsh_program option \<Rightarrow> mrsh_word \<Rightarrow> mrsh_state \<Rightarrow> (int \<times> mrsh_word) run" where
  "run_word_command h run program word s =
     (case sys_pipe h s of
        (None, s) \<Rightarrow> Inr ((TASK_STATUS_ERROR, word), s)
      | (Some (r, w), s) \<Rightarrow>
          bind_run (sys_fork (substitution_child h run program r w) s) (\<lambda>pid s.
            if pid < 0 then Inr ((TASK_STATUS_ERROR, word), sys_close w (sys_close r s))
            else
              let (proc, s) = new_process pid s;
                  (bytes, s) = read_all r (sys_close w s);
                  s = sys_close r s
              in bind_run (wait_process proc s) (\<lambda>ret s.
                   Inr ((ret, WString (substituted bytes) False True range_zero), s))))"

section \<open>Parameters\<close>

text \<open>The process of the newest job that has one, for \<open>$!\<close>.\<close>

definition last_background_pid :: "jobs_state \<Rightarrow> int option" where
  "last_background_pid js =
     map_option (\<lambda>job. pr_pid (js_store js (last (jb_processes job))))
       (find (\<lambda>job. jb_processes job \<noteq> []) (rev (js_jobs js)))"

text \<open>\<open>None\<close> is undefined behaviour, \<open>Some None\<close> the null pointer.\<close>

definition parameter_get_value :: "mrsh_state \<Rightarrow> cstring \<Rightarrow> cstring option option" where
  "parameter_get_value s name =
     (case strtol 10 name of
        (lvalue, rest, _) \<Rightarrow>
          if name = ''@'' \<or> name = ''*'' then Some None
          else if name = ''#'' then Some (Some (fmt_d (int (fr_argc (cur_frame s)) - 1)))
          else if name = ''?'' then Some (Some (fmt_d (st_last_status s)))
          else if name = ''-'' then Some (Some (state_get_options s))
          else if name = ''$'' then Some (Some (fmt_d (st_pid s)))
          else if name = ''!'' then
            Some (Some (case last_background_pid (st_jobs s) of None \<Rightarrow> [] | Some pid \<Rightarrow> fmt_d pid))
          else if rest = [] \<and> rest \<noteq> name then
            if lvalue \<ge> int (fr_argc (cur_frame s)) then Some None
            else if lvalue < 0 then None
            else map_option Some (frame_arg (cur_frame s) (nat lvalue))
          else Some (mrsh_env_get s name))"

text \<open>The positional parameters, with the first character of \<open>IFS\<close> between them unless it is empty.\<close>

fun positional_words :: "cstring \<Rightarrow> bool \<Rightarrow> cstring list \<Rightarrow> mrsh_word list" where
  "positional_words sep quote [] = []"
| "positional_words sep quote [arg] = [WString arg quote True range_zero]"
| "positional_words sep quote (arg # args) =
     WString arg quote True range_zero #
       (if sep \<noteq> [] then [WString sep False True range_zero] else []) @ positional_words sep quote args"

definition positional_sep :: "mrsh_state \<Rightarrow> cstring" where
  "positional_sep s = (case mrsh_env_get s ''IFS'' of None \<Rightarrow> '' '' | Some ifs \<Rightarrow> take 1 ifs)"

definition expand_positional_params :: "mrsh_state \<Rightarrow> bool \<Rightarrow> mrsh_word option" where
  "expand_positional_params s quote_args =
     map_option (\<lambda>args. mrsh_word_list_create (positional_words (positional_sep s) quote_args (tl args)) False)
       (frame_args (cur_frame s))"

primrec mark_word_split_fields :: "mrsh_word \<Rightarrow> mrsh_word" where
  "mark_word_split_fields (WString str q sf r) = WString str q True r"
| "mark_word_split_fields (WParameter name op colon arg ps) = WParameter name op colon arg ps"
| "mark_word_split_fields (WCommand prog bq r) = WCommand prog bq r"
| "mark_word_split_fields (WArithmetic body) = WArithmetic body"
| "mark_word_split_fields (WList children dq l r) = WList (map mark_word_split_fields children) dq l r"

definition create_word_string :: "cstring \<Rightarrow> mrsh_word" where
  "create_word_string str = mrsh_word_string_create str False"

definition copy_word_or_null :: "mrsh_word option \<Rightarrow> mrsh_word option" where
  "copy_word_or_null w = (case w of Some w \<Rightarrow> mrsh_word_copy w | None \<Rightarrow> Some (create_word_string []))"

text \<open>\<open>None\<close> is the \<open>abort()\<close>; a list is left at its first child that is not null.\<close>

fun all_null :: "bool option list \<Rightarrow> bool option" where
  "all_null [] = Some True"
| "all_null (b # bs) = (case b of None \<Rightarrow> None | Some False \<Rightarrow> Some False | Some True \<Rightarrow> all_null bs)"

primrec is_null_word :: "mrsh_word \<Rightarrow> bool option" where
  "is_null_word (WString str q sf r) = Some (str = [])"
| "is_null_word (WParameter name op colon arg ps) = None"
| "is_null_word (WCommand prog bq r) = None"
| "is_null_word (WArithmetic body) = None"
| "is_null_word (WList children dq l r) = all_null (map is_null_word children)"

text \<open>\<open>value == NULL || (wp->colon && is_null_word(value))\<close>\<close>

definition unset_or_null :: "bool \<Rightarrow> mrsh_word option \<Rightarrow> bool option" where
  "unset_or_null colon val =
     (case val of None \<Rightarrow> Some True | Some w \<Rightarrow> if colon then is_null_word w else Some False)"

type_synonym word_runner = "bool \<Rightarrow> mrsh_word \<Rightarrow> mrsh_state \<Rightarrow> (int \<times> mrsh_word) run"

definition apply_parameter_cond_op ::
    "word_runner \<Rightarrow> cstring \<Rightarrow> param_op \<Rightarrow> bool \<Rightarrow> mrsh_word option \<Rightarrow> mrsh_word option \<Rightarrow> mrsh_state \<Rightarrow>
     (int \<times> mrsh_word option) run" where
  "apply_parameter_cond_op rec name op colon arg val s =
     (case op of
        PARAM_NONE \<Rightarrow> Inr ((0, val), s)
      | PARAM_MINUS \<Rightarrow>
          need (unset_or_null colon val) s (\<lambda>unset s.
            if unset then need (copy_word_or_null arg) s (\<lambda>w s. Inr ((0, Some w), s))
            else Inr ((0, val), s))
      | PARAM_EQUAL \<Rightarrow>
          need (unset_or_null colon val) s (\<lambda>unset s.
            if unset then
              need (copy_word_or_null arg) s (\<lambda>w s.
                bind_run (rec False w s) (\<lambda>(ret, w) s.
                  if ret < 0 then Inr ((ret, Some w), s)
                  else need (mrsh_word_str w) s (\<lambda>str s. Inr ((0, Some w), mrsh_env_set name str 0 s))))
            else Inr ((0, val), s))
      | PARAM_QMARK \<Rightarrow>
          need (unset_or_null colon val) s (\<lambda>unset s.
            if unset then
              (case arg of
                 Some a \<Rightarrow>
                   need (mrsh_word_copy a) s (\<lambda>w s.
                     bind_run (rec False w s) (\<lambda>(ret, w) s.
                       if ret < 0 then Inr ((ret, None), s)
                       else need (mrsh_word_str w) s (\<lambda>_ s. Inr ((TASK_STATUS_ERROR, None), s))))
               | None \<Rightarrow> Inr ((TASK_STATUS_ERROR, None), s))
            else Inr ((0, val), s))
      | PARAM_PLUS \<Rightarrow>
          need (unset_or_null colon val) s (\<lambda>unset s.
            if unset then Inr ((0, Some (create_word_string [])), s)
            else need (copy_word_or_null arg) s (\<lambda>w s. Inr ((0, Some w), s)))
      | _ \<Rightarrow> Inl Crash)"

definition trim_str :: "cstring \<Rightarrow> cstring \<Rightarrow> bool \<Rightarrow> cstring" where
  "trim_str str piece suffix =
     (if length piece \<le> length str \<and> \<not> suffix \<and> take (length piece) str = piece then drop (length piece) str
      else if length piece \<le> length str \<and> suffix \<and> drop (length str - length piece) str = piece
      then take (length str - length piece) str
      else str)"

definition trim_pattern :: "(cstring \<Rightarrow> cstring \<Rightarrow> bool) \<Rightarrow> cstring \<Rightarrow> cstring \<Rightarrow> bool \<Rightarrow> bool \<Rightarrow> cstring" where
  "trim_pattern fnmatch str pattern suffix largest =
     (let is = (if \<not> suffix \<and> \<not> largest \<or> suffix \<and> largest then [0..<length str] else rev [0..<length str])
      in case find (\<lambda>i. fnmatch pattern (if \<not> suffix then take i str else drop i str)) is of
           Some i \<Rightarrow> if \<not> suffix then drop i str else take i str
         | None \<Rightarrow> str)"

definition is_suffix_op :: "param_op \<Rightarrow> bool" where
  "is_suffix_op op \<longleftrightarrow> op = PARAM_PERCENT \<or> op = PARAM_DPERCENT"

definition is_largest_op :: "param_op \<Rightarrow> bool" where
  "is_largest_op op \<longleftrightarrow> op = PARAM_DPERCENT \<or> op = PARAM_DHASH"

definition apply_parameter_str_op ::
    "host \<Rightarrow> word_runner \<Rightarrow> param_op \<Rightarrow> mrsh_word option \<Rightarrow> cstring option \<Rightarrow> mrsh_state \<Rightarrow>
     (int \<times> mrsh_word option) run" where
  "apply_parameter_str_op h rec op arg str s =
     (if op = PARAM_LEADING_HASH then
        if str = None \<and> has_option (st_options s) MRSH_OPT_NOUNSET then Inr ((0, None), s)
        else Inr ((0, Some (create_word_string (fmt_d (case str of None \<Rightarrow> 0 | Some t \<Rightarrow> int_of_long (int (length t)))))), s)
      else case (str, arg) of
        (None, _) \<Rightarrow> Inr ((0, None), s)
      | (Some t, None) \<Rightarrow> Inr ((0, Some (create_word_string t)), s)
      | (Some t, Some a) \<Rightarrow>
          need (mrsh_word_copy a) s (\<lambda>pattern s.
            bind_run (rec False pattern s) (\<lambda>(ret, pattern) s.
              if ret < 0 then Inr ((ret, None), s)
              else
                need (word_to_pattern pattern) s (\<lambda>pattern_str s.
                  case pattern_str of
                    None \<Rightarrow>
                      need (mrsh_word_str pattern) s (\<lambda>piece s.
                        Inr ((0, Some (mrsh_word_string_create (trim_str t piece (is_suffix_op op)) False)), s))
                  | Some ps \<Rightarrow>
                      Inr ((0, Some (mrsh_word_string_create
                        (trim_pattern (h_fnmatch h) t ps (is_suffix_op op) (is_largest_op op)) False)), s)))))"

definition is_cond_op :: "param_op \<Rightarrow> bool" where
  "is_cond_op op \<longleftrightarrow> op \<in> {PARAM_NONE, PARAM_MINUS, PARAM_EQUAL, PARAM_QMARK, PARAM_PLUS}"

text \<open>\<open>value\<close> with the special case of \<open>LINENO\<close>, and the word it gives.\<close>

definition param_value :: "mrsh_state \<Rightarrow> cstring \<Rightarrow> param_positions \<Rightarrow> cstring option option" where
  "param_value s name ps =
     map_option (\<lambda>v. if v = None \<and> name = ''LINENO'' then Some (fmt_d (pos_line (dollar_pos ps))) else v)
       (parameter_get_value s name)"

definition value_word :: "mrsh_state \<Rightarrow> cstring \<Rightarrow> bool \<Rightarrow> cstring option \<Rightarrow> mrsh_word option option" where
  "value_word s name double_quoted v =
     (if name = ''@'' then map_option Some (expand_positional_params s double_quoted)
      else if name = ''*'' then map_option Some (expand_positional_params s False)
      else Some (map_option create_word_string v))"

text \<open>What is done with the result of an operator.\<close>

definition finish_parameter ::
    "word_runner \<Rightarrow> mrsh_word \<Rightarrow> int \<times> mrsh_word option \<Rightarrow> mrsh_state \<Rightarrow> (int \<times> mrsh_word) run" where
  "finish_parameter rec word r s =
     (let (ret, result) = r in
      if ret < 0 then Inr ((ret, word), s)
      else if result = None \<and> has_option (st_options s) MRSH_OPT_NOUNSET then Inr ((TASK_STATUS_ERROR, word), s)
      else
        let result = mark_word_split_fields (case result of None \<Rightarrow> create_word_string [] | Some w \<Rightarrow> w) in
        case result of
          WString _ _ _ _ \<Rightarrow> Inr ((0, result), s)
        | _ \<Rightarrow>
            bind_run (rec False result s) (\<lambda>(ret, result) s.
              if ret < 0 then Inr ((ret, word), s) else Inr ((0, result), s)))"

definition run_parameter ::
    "host \<Rightarrow> word_runner \<Rightarrow> bool \<Rightarrow> cstring \<Rightarrow> param_op \<Rightarrow> bool \<Rightarrow> mrsh_word option \<Rightarrow> param_positions \<Rightarrow>
     mrsh_state \<Rightarrow> (int \<times> mrsh_word) run" where
  "run_parameter h rec double_quoted name op colon arg ps s =
     need (param_value s name ps) s (\<lambda>v s.
       let word = WParameter name op colon arg ps in
       if is_cond_op op then
         need (value_word s name double_quoted v) s (\<lambda>vw s.
           bind_run (apply_parameter_cond_op rec name op colon arg vw s) (finish_parameter rec word))
       else if name = ''@'' \<or> name = ''*'' \<or> op \<noteq> PARAM_LEADING_HASH \<and> name = ''#''
       then Inr ((TASK_STATUS_ERROR, word), s)
       else bind_run (apply_parameter_str_op h rec op arg v s) (finish_parameter rec word))"

section \<open>Arithmetic\<close>

definition arithmetic_result :: "mrsh_word \<Rightarrow> arith_run \<Rightarrow> (int \<times> mrsh_word) run" where
  "arithmetic_result body r =
     (case r of
        Done (Some v) s \<Rightarrow> Inr ((0, WString (fmt_d v) False True range_zero), s)
      | Done None s \<Rightarrow> Inl Crash
      | Failed s \<Rightarrow> Inr ((TASK_STATUS_ERROR, WArithmetic body), s)
      | UndefinedRun \<Rightarrow> Inl Crash)"

definition run_arithmetic :: "word_runner \<Rightarrow> mrsh_word \<Rightarrow> mrsh_state \<Rightarrow> (int \<times> mrsh_word) run" where
  "run_arithmetic rec body s =
     bind_run (rec False body s) (\<lambda>(ret, body) s.
       if ret < 0 then Inr ((ret, WArithmetic body), s)
       else need (mrsh_word_str body) s (\<lambda>body_str s.
         need (mrsh_parse_arithm_expr (Suc (length body_str)) (mrsh_parser_with_data body_str)) s (\<lambda>(expr, _) s.
           case expr of
             None \<Rightarrow> Inr ((TASK_STATUS_ERROR, WArithmetic body), s)
           | Some e \<Rightarrow> arithmetic_result body (mrsh_run_arithm_expr e s))))"

section \<open>Lists\<close>

fun is_at_sign :: "mrsh_word \<Rightarrow> bool" where
  "is_at_sign (WParameter name op colon arg ps) = (name = ''@'')"
| "is_at_sign w = False"

text \<open>
  The loop over the children: the status, the children as they are then, and which of those that
  were run are expansions of \<open>$@\<close> inside double quotes.
\<close>

fun run_children ::
    "word_runner \<Rightarrow> bool \<Rightarrow> bool \<Rightarrow> mrsh_word list \<Rightarrow> mrsh_state \<Rightarrow> (int \<times> mrsh_word list \<times> bool list) run" where
  "run_children rec double_quoted wl_quoted [] s = Inr ((0, [], []), s)"
| "run_children rec double_quoted wl_quoted (child # children) s =
     bind_run (rec (double_quoted \<or> wl_quoted) child s) (\<lambda>(ret, child') s.
       if ret < 0 then Inr ((ret, child' # children, []), s)
       else bind_run (run_children rec double_quoted wl_quoted children s) (\<lambda>(ret, children', ats) s.
              Inr ((ret, child' # children', (wl_quoted \<and> is_at_sign child) # ats), s)))"

text \<open>The expansions of \<open>$@\<close> are put outside of the double quotes.\<close>

fun unquote_at :: "mrsh_word list \<Rightarrow> (mrsh_word \<times> bool) list \<Rightarrow> mrsh_word list" where
  "unquote_at quoted [] = (if quoted \<noteq> [] then [mrsh_word_list_create quoted True] else [])"
| "unquote_at quoted ((child, at_sign) # children) =
     (if \<not> at_sign then unquote_at (quoted @ [child]) children
      else (if quoted \<noteq> [] then [mrsh_word_list_create quoted True] else []) @ child # unquote_at [] children)"

definition run_list ::
    "word_runner \<Rightarrow> bool \<Rightarrow> mrsh_word list \<Rightarrow> bool \<Rightarrow> mrsh_position \<Rightarrow> mrsh_position \<Rightarrow> mrsh_state \<Rightarrow>
     (int \<times> mrsh_word) run" where
  "run_list rec double_quoted children wl_quoted l r s =
     bind_run (run_children rec double_quoted wl_quoted children s) (\<lambda>(ret, children, ats) s.
       if ret < 0 then Inr ((ret, WList children wl_quoted l r), s)
       else if True \<in> set ats
       then Inr ((0, mrsh_word_list_create (unquote_at [] (zip children ats)) False), s)
       else Inr ((0, WList children wl_quoted l r), s))"

section \<open>run_word and expand_word\<close>

primrec run_word_at :: "nat \<Rightarrow> host \<Rightarrow> runner \<Rightarrow> word_runner" where
  "run_word_at 0 h run = (\<lambda>_ _ _. Inl NoFuel)"
| "run_word_at (Suc n) h run = (\<lambda>double_quoted word s.
     case word of
       WString _ _ _ _ \<Rightarrow> Inr ((0, word), s)
     | WParameter name op colon arg ps \<Rightarrow>
         run_parameter h (run_word_at n h run) double_quoted name op colon arg ps s
     | WCommand program bq r \<Rightarrow> run_word_command h run program word s
     | WArithmetic body \<Rightarrow> run_arithmetic (run_word_at n h run) body s
     | WList children dq l r \<Rightarrow> run_list (run_word_at n h run) double_quoted children dq l r s)"

lemma run_word_at_simps [simp]:
  "run_word_at (Suc n) h run dq (WString str q sf r) s = Inr ((0, WString str q sf r), s)"
  "run_word_at (Suc n) h run dq (WParameter name op colon arg ps) s =
     run_parameter h (run_word_at n h run) dq name op colon arg ps s"
  "run_word_at (Suc n) h run dq (WCommand program bq rg) s =
     run_word_command h run program (WCommand program bq rg) s"
  "run_word_at (Suc n) h run dq (WArithmetic body) s = run_arithmetic (run_word_at n h run) body s"
  "run_word_at (Suc n) h run dq (WList children wq l rq) s =
     run_list (run_word_at n h run) dq children wq l rq s"
  by simp_all

declare run_word_at.simps(2) [simp del]

definition run_word :: "nat \<Rightarrow> host \<Rightarrow> runner \<Rightarrow> mrsh_word \<Rightarrow> mrsh_state \<Rightarrow> (int \<times> mrsh_word) run" where
  "run_word n h run word s = run_word_at n h run False word s"

text \<open>\<open>expand_word\<close>: the status and the fields it adds; none after an error.\<close>

definition expand_word :: "nat \<Rightarrow> host \<Rightarrow> runner \<Rightarrow> mrsh_word \<Rightarrow> mrsh_state \<Rightarrow> (int \<times> cstring list) run" where
  "expand_word n h run word s =
     need (mrsh_word_copy word) s (\<lambda>word s.
       let word = expand_tilde (h_getpwnam h) s False word in
       bind_run (run_word n h run word s) (\<lambda>(ret, word) s.
         if ret < 0 then Inr ((ret, []), s)
         else need (split_fields word (mrsh_env_get s ''IFS'')) s (\<lambda>fs s.
           if has_option (st_options s) MRSH_OPT_NOGLOB
           then need (get_fields_str fs) s (\<lambda>strs s. Inr ((ret, strs), s))
           else need (expand_pathnames (h_glob h) fs) s (\<lambda>r s.
             case r of Inl _ \<Rightarrow> Inr ((TASK_STATUS_ERROR, []), s) | Inr strs \<Rightarrow> Inr ((ret, strs), s)))))"

text \<open>\<open>mrsh_run_word\<close>.\<close>

definition mrsh_run_word :: "nat \<Rightarrow> host \<Rightarrow> runner \<Rightarrow> mrsh_word \<Rightarrow> mrsh_state \<Rightarrow> (int \<times> mrsh_word) run" where
  "mrsh_run_word n h run word s =
     (let word = expand_tilde (h_getpwnam h) s False word; last_status = st_last_status s in
      bind_run (run_word n h run word s) (\<lambda>r s. Inr (r, s\<lparr>st_last_status := last_status\<rparr>)))"

end
