(* ===== verification/Builtins_Run.thy ===== *)
theory Builtins_Run
  imports Builtins_Jobs Builtins_Control Builtins_Env Builtin_Umask Parser_Program Redir Expand
begin

text \<open>
  The builtins that run programs (\<open>builtin/eval.c\<close>, \<open>dot.c\<close>, \<open>exec.c\<close>, \<open>command.c\<close>) and the dispatch to
  all of them, \<open>mrsh_run_builtin\<close>. What they call back is in the record \<open>interp\<close>: the runners of
  commands, of programs and of builtins for one level less of nesting, and the bound for loops.
\<close>

record ctx =
  cx_job :: "nat option"
  cx_background :: bool

type_synonym 'a runs = "ctx \<Rightarrow> 'a \<Rightarrow> mrsh_state \<Rightarrow> (int \<times> 'a) run"

record interp =
  i_fuel :: nat
  i_command :: "mrsh_command runs"
  i_program :: runner
  i_builtin :: "cstring list \<Rightarrow> mrsh_state \<Rightarrow> int run"

section \<open>eval and .\<close>

text \<open>
  What the parser makes of a text: a syntax error, or the program, which may be null. A tree with a null
  pointer in a here-document crashes when the command runs; here it does at once.
\<close>

definition parse_text :: "string \<Rightarrow> mrsh_state \<Rightarrow> (unit + mrsh_program option) run" where
  "parse_text source s =
     (case mrsh_parse_program (parse_fuel source) (mrsh_parser_with_data source) of
        Inl ParseFuel \<Rightarrow> Inl NoFuel
      | Inl _ \<Rightarrow> Inl Crash
      | Inr (prog, p) \<Rightarrow> Inr (if mrsh_parser_error p = None then Inr prog else Inl (), s))"

text \<open>Running what the parser made of a text: 1 after a syntax error, 0 for nothing.\<close>

definition run_parsed :: "interp \<Rightarrow> string \<Rightarrow> mrsh_state \<Rightarrow> int run" where
  "run_parsed I source s =
     bind_run (parse_text source s) (\<lambda>prog s.
       case prog of
         Inl _ \<Rightarrow> Inr (1, s)
       | Inr None \<Rightarrow> Inr (0, s)
       | Inr (Some prog) \<Rightarrow> bind_run (i_program I prog s) (\<lambda>(ret, _) s. Inr (ret, s)))"

definition builtin_eval :: "interp \<Rightarrow> cstring list \<Rightarrow> mrsh_state \<Rightarrow> int run" where
  "builtin_eval I argv s =
     (if length argv = 1 then Inr (1, s) else run_parsed I (join '' '' (tl argv) @ [NL]) s)"

definition builtin_dot :: "host \<Rightarrow> interp \<Rightarrow> cstring list \<Rightarrow> mrsh_state \<Rightarrow> int run" where
  "builtin_dot h I argv s =
     (if length argv \<noteq> 2 then Inr (1, s)
      else case expand_path h s (argv ! 1) False False of
        None \<Rightarrow> Inr (1, exit_unless_interactive s)
      | Some path \<Rightarrow>
          (case sys_open h path OpenRead s of
             (fd, s) \<Rightarrow>
               if fd < 0 then Inr (1, exit_unless_interactive s)
               else
                 let (source, s) = read_all fd s in
                 bind_run (run_parsed I source s) (\<lambda>ret s. Inr (ret, sys_close fd s))))"

section \<open>trap\<close>

text \<open>The text that \<open>builtin_trap\<close> parses, if any, is parsed first; it has no effect on the state.\<close>

definition trap_text :: "cstring list \<Rightarrow> mrsh_state \<Rightarrow> cstring option" where
  "trap_text argv s =
     (case mrsh_getopt True argv '':'' ((st_getopt s)\<lparr>go_optind := 0\<rparr>) of
        Some (None, g) \<Rightarrow>
          (case drop (go_optind g) argv of
             [] \<Rightarrow> None
           | text # _ \<Rightarrow> if is_decimal_str text \<or> text = [] \<or> text = ''-'' then None else Some text)
      | _ \<Rightarrow> None)"

definition run_trap :: "host \<Rightarrow> interp \<Rightarrow> cstring list \<Rightarrow> mrsh_state \<Rightarrow> int run" where
  "run_trap h I argv s =
     (case trap_text argv s of
        None \<Rightarrow> run_of (builtin_trap (h_sigok h) (\<lambda>_. Inl ()) argv s)
      | Some text \<Rightarrow>
          bind_run (parse_text text s) (\<lambda>prog s. run_of (builtin_trap (h_sigok h) (\<lambda>_. prog) argv s)))"

section \<open>exec and command\<close>

definition builtin_exec :: "host \<Rightarrow> cstring list \<Rightarrow> mrsh_state \<Rightarrow> int run" where
  "builtin_exec h argv s =
     need (mrsh_getopt True argv '':'' ((st_getopt s)\<lparr>go_optind := 0\<rparr>)) s (\<lambda>(opt, g) s.
       let s = s\<lparr>st_getopt := g\<rparr> in
       if opt \<noteq> None then Inr (1, s)
       else case operands argv s of
         [] \<Rightarrow> Inr (0, s)
       | cmd # args \<Rightarrow>
           (case expand_path h s cmd False False of
              None \<Rightarrow> Inr (127, s)
            | Some path \<Rightarrow>
                if \<not> h_access h path True then Inr (126, s)
                else bind_run (sys_execv h path (cmd # args) s) (\<lambda>_ s. Inr (1, s))))"

definition verify_command :: "host \<Rightarrow> cstring \<Rightarrow> bool \<Rightarrow> mrsh_state \<Rightarrow> int \<times> mrsh_state" where
  "verify_command h name default_path s =
     (case mrsh_hashtable_get (st_aliases s) name of
        Some alias \<Rightarrow> (0, puts (''alias '' @ name @ ''='' @ [SQUOTE] @ alias @ [SQUOTE, NL]) s)
      | None \<Rightarrow>
          if mrsh_hashtable_get (st_functions s) name \<noteq> None \<or> mrsh_has_builtin name \<or> name \<in> set keyword_names
          then (0, puts (name @ [NL]) s)
          else case expand_path h s name True default_path of
            Some path \<Rightarrow> (0, puts (path @ [NL]) s)
          | None \<Rightarrow> (1, s))"

text \<open>\<open>run_command\<close> of \<open>command.c\<close>. For a builtin it skips \<open>_mrsh_optind\<close> arguments a second time.\<close>

definition command_run :: "host \<Rightarrow> interp \<Rightarrow> cstring list \<Rightarrow> bool \<Rightarrow> mrsh_state \<Rightarrow> int run" where
  "command_run h I argv default_path s =
     (if mrsh_has_builtin (argv ! 0) then i_builtin I (operands argv s) s
      else case expand_path h s (argv ! 0) True default_path of
        None \<Rightarrow> Inr (127, s)
      | Some path \<Rightarrow>
          bind_run (sys_fork (\<lambda>s. bind_run (sys_execv h path argv s) (\<lambda>_ s. exit_process 126 s)) s) (\<lambda>pid s.
            if pid < 0 then Inr (126, s)
            else let (proc, s) = new_process pid s in wait_process proc s))"

definition builtin_command :: "host \<Rightarrow> interp \<Rightarrow> cstring list \<Rightarrow> mrsh_state \<Rightarrow> int run" where
  "builtin_command h I argv s =
     need (builtin_options ''V'' argv '':vVp'' s) s (\<lambda>(opts, st, s) _.
       case st of
         Some c \<Rightarrow> Inr (if c = CHR ''V'' then 0 else 1, s)
       | None \<Rightarrow>
           (case operands argv s of
              [] \<Rightarrow> Inr (1, s)
            | name # args \<Rightarrow>
                if CHR ''v'' \<in> set opts then
                  if args \<noteq> [] then Inr (1, s)
                  else Inr (verify_command h name (CHR ''p'' \<in> set opts) s)
                else command_run h I (name # args) (CHR ''p'' \<in> set opts) s))"

section \<open>The dispatch\<close>

fun builtin_call :: "host \<Rightarrow> interp \<Rightarrow> builtin_func \<Rightarrow> cstring list \<Rightarrow> mrsh_state \<Rightarrow> int run" where
  "builtin_call h I BuiltinDot argv s = builtin_dot h I argv s"
| "builtin_call h I BuiltinColon argv s = Inr (builtin_colon argv s)"
| "builtin_call h I BuiltinAlias argv s = run_of (builtin_alias argv s)"
| "builtin_call h I BuiltinBg argv s = builtin_bg h argv s"
| "builtin_call h I BuiltinBreak argv s = Inr (builtin_break argv s)"
| "builtin_call h I BuiltinCd argv s = run_of (builtin_cd h argv s)"
| "builtin_call h I BuiltinCommand argv s = builtin_command h I argv s"
| "builtin_call h I BuiltinEval argv s = builtin_eval I argv s"
| "builtin_call h I BuiltinExec argv s = builtin_exec h argv s"
| "builtin_call h I BuiltinExit argv s = Inr (builtin_exit argv s)"
| "builtin_call h I BuiltinExport argv s = run_of (builtin_export (h_getpwnam h) argv s)"
| "builtin_call h I BuiltinFalse argv s = Inr (builtin_false argv s)"
| "builtin_call h I BuiltinFg argv s = builtin_fg h argv s"
| "builtin_call h I BuiltinGetopts argv s = run_of (builtin_getopts argv s)"
| "builtin_call h I BuiltinHash argv s = run_of (builtin_hash h argv s)"
| "builtin_call h I BuiltinJobs argv s = run_of (builtin_jobs h argv s)"
| "builtin_call h I BuiltinPwd argv s = run_of (builtin_pwd argv s)"
| "builtin_call h I BuiltinRead argv s = run_of (builtin_read argv s)"
| "builtin_call h I BuiltinReturn argv s = Inr (builtin_return argv s)"
| "builtin_call h I BuiltinSet argv s = run_of (builtin_set (h_sigok h) (h_job_control h) argv s)"
| "builtin_call h I BuiltinShift argv s = run_of (builtin_shift argv s)"
| "builtin_call h I BuiltinTimes argv s = Inr (builtin_times h argv s)"
| "builtin_call h I BuiltinTrap argv s = run_trap h I argv s"
| "builtin_call h I BuiltinTrue argv s = Inr (builtin_true argv s)"
| "builtin_call h I BuiltinType argv s = run_of (builtin_type h argv s)"
| "builtin_call h I BuiltinUlimit argv s = run_of (builtin_ulimit h argv s)"
| "builtin_call h I BuiltinUmask argv s = run_of (builtin_umask argv s)"
| "builtin_call h I BuiltinUnalias argv s = run_of (builtin_unalias argv s)"
| "builtin_call h I BuiltinUnset argv s = run_of (builtin_unset argv s)"
| "builtin_call h I BuiltinWait argv s = builtin_wait argv s"
| "builtin_call h I BuiltinUnspecified argv s = Inr (builtin_unspecified argv s)"

definition mrsh_run_builtin :: "host \<Rightarrow> interp \<Rightarrow> cstring list \<Rightarrow> mrsh_state \<Rightarrow> int run" where
  "mrsh_run_builtin h I argv s =
     (case argv of
        [] \<Rightarrow> Inl Crash
      | name # _ \<Rightarrow>
          (case get_builtin name of
             None \<Rightarrow> Inr (- 1, s)
           | Some (_, func, _) \<Rightarrow> builtin_call h I func argv s))"

text \<open>\<open>command\<close> with a builtin and no arguments for it aborts the shell: \<open>command true\<close> fails the
  assertion that there is a name, because the options of \<open>command\<close> are skipped twice.\<close>

theorem command_builtin_aborts:
  assumes "mrsh_has_builtin name" "char_at name 0 \<noteq> CHR ''-''" "i_builtin I = mrsh_run_builtin h J"
  shows "builtin_command h I [''command'', name] s = Inl Crash"
proof -
  have no: "\<not> is_optarg name" "\<not> is_dashdash name"
    using assms(2) by (simp_all add: is_optarg_def is_dashdash_def)
  obtain g where "builtin_options ''V'' [''command'', name] '':vVp'' s = Some ([], None, s\<lparr>st_getopt := g\<rparr>)" "go_optind g = 1"
    using builtin_options_none [OF no] by blast
  with assms show ?thesis
    by (simp add: builtin_command_def operands_def command_run_def mrsh_run_builtin_def)
qed

definition sample_interp :: interp where
  "sample_interp = \<lparr>i_fuel = 1, i_command = (\<lambda>_ _ _. Inl NoFuel), i_program = (\<lambda>_ _. Inl NoFuel),
     i_builtin = (\<lambda>_ _. Inl NoFuel)\<rparr>"

theorem command_builtin_aborts_witness:
  "builtin_command sample_host (sample_interp\<lparr>i_builtin := mrsh_run_builtin sample_host sample_interp\<rparr>)
     [''command'', ''true''] sample_state = Inl Crash"
proof -
  have "mrsh_has_builtin ''true''" by code_simp
  then show ?thesis
    by (rule command_builtin_aborts) (simp_all add: char_at_def)
qed

end
