(* ===== verification/Tasks.thy ===== *)
theory Tasks
  imports Builtins_Run
begin

text \<open>
  The execution of syntax trees: \<open>shell/task/simple_command.c\<close>, \<open>pipeline.c\<close> and \<open>task.c\<close>, with the
  prompt expansion of \<open>shell/entry.c\<close> that tracing needs. A command gives its status, negative for an
  error or an interruption, and its tree, since \<open>case\<close> expands its patterns in place. The functions
  take what they call recursively from an \<open>interp\<close>; \<open>interp n h\<close> at the end ties the knot for a nesting
  of at most \<open>n\<close> levels, and \<open>n\<close> turns of a loop on each.
\<close>

section \<open>Prompts\<close>

definition expand_str :: "host \<Rightarrow> interp \<Rightarrow> cstring \<Rightarrow> mrsh_state \<Rightarrow> cstring option run" where
  "expand_str h I src s =
     (case mrsh_parse_word (parse_fuel src) (mrsh_parser_with_data src) of
        Inl ParseFuel \<Rightarrow> Inl NoFuel
      | Inl _ \<Rightarrow> Inl Crash
      | Inr (None, _) \<Rightarrow> Inr (None, s)
      | Inr (Some w, _) \<Rightarrow>
          bind_run (mrsh_run_word (i_fuel I) h (i_program I) w s) (\<lambda>(_, w) s.
            need (mrsh_word_str w) s (\<lambda>str s. Inr (Some str, s))))"

definition expand_ps :: "host \<Rightarrow> interp \<Rightarrow> cstring \<Rightarrow> mrsh_state \<Rightarrow> cstring option run" where
  "expand_ps h I name s =
     (case mrsh_env_get s name of None \<Rightarrow> Inr (None, s) | Some ps \<Rightarrow> expand_str h I ps s)"

definition mrsh_get_ps4 :: "host \<Rightarrow> interp \<Rightarrow> mrsh_state \<Rightarrow> cstring run" where
  "mrsh_get_ps4 h I s =
     bind_run (expand_ps h I ''PS4'' s) (\<lambda>str s. Inr (case str of None \<Rightarrow> ''+ '' | Some t \<Rightarrow> t, s))"

section \<open>Child processes\<close>

text \<open>\<open>init_child\<close> of \<open>simple_command.c\<close> and of \<open>pipeline.c\<close>.\<close>

definition init_child :: "host \<Rightarrow> ctx \<Rightarrow> int \<Rightarrow> mrsh_state \<Rightarrow> nat run" where
  "init_child h ctx pid s =
     (let (proc, s) = new_process pid s in
      if has_option (st_options s) MRSH_OPT_MONITOR then
        need (cx_job ctx) s (\<lambda>job s.
          bind_run (add_process h job proc s) (\<lambda>_ s.
            if st_interactive s \<and> \<not> cx_background ctx
            then bind_run (set_foreground h job True False s) (\<lambda>_ s. Inr (proc, s))
            else Inr (proc, s)))
      else Inr (proc, s))"

definition init_async_child :: "host \<Rightarrow> ctx \<Rightarrow> int \<Rightarrow> mrsh_state \<Rightarrow> nat run" where
  "init_async_child h ctx pid s =
     (let (proc, s) = new_process pid s in
      if has_option (st_options s) MRSH_OPT_MONITOR then
        need (cx_job ctx) s (\<lambda>job s. bind_run (add_process h job proc s) (\<lambda>_ s. Inr (proc, s)))
      else Inr (proc, s))"

definition leave_job_control :: "host \<Rightarrow> mrsh_state \<Rightarrow> unit run" where
  "leave_job_control h s =
     (if has_option (st_options s) MRSH_OPT_MONITOR
      then bind_run (run_of (init_job_child_process (h_sigok h) (h_job_control h) s)) (\<lambda>_ s. Inr ((), s))
      else Inr ((), s))"

definition mark_child :: "mrsh_state \<Rightarrow> mrsh_state" where
  "mark_child s = s\<lparr>st_jobs := (st_jobs s)\<lparr>js_child := True\<rparr>\<rparr>"

text \<open>Standard input from \<open>/dev/null\<close> when job control is off; the process exits when it cannot be opened.\<close>

definition null_stdin :: "host \<Rightarrow> mrsh_state \<Rightarrow> unit run" where
  "null_stdin h s =
     (if has_option (st_options s) MRSH_OPT_MONITOR then Inr ((), s)
      else case sys_open h ''/dev/null'' OpenRead s of
        (fd, s) \<Rightarrow>
          if fd < 0 then exit_process 1 s
          else if fd \<noteq> 0 then Inr ((), sys_close fd (snd (sys_dup2 h fd 0 s)))
          else Inr ((), s))"

section \<open>Simple commands\<close>

fun child_assignments :: "mrsh_assignment list \<Rightarrow> mrsh_state \<Rightarrow> unit run" where
  "child_assignments [] s = Inr ((), s)"
| "child_assignments (Assignment name v nr eq # assigns) s =
     (if mrsh_env_get s name \<noteq> None \<and> has_attrib (env_attribs s name) MRSH_VAR_ATTRIB_READONLY
      then exit_process 1 s
      else need (mrsh_word_str v) s (\<lambda>str s.
        child_assignments assigns (s\<lparr>st_environ := (st_environ s)(name := Some str)\<rparr>)))"

definition populate_env_iterator :: "cstring \<Rightarrow> mrsh_variable \<Rightarrow> mrsh_state \<Rightarrow> mrsh_state" where
  "populate_env_iterator key var s =
     (if has_attrib (var_attribs var) MRSH_VAR_ATTRIB_EXPORT
      then s\<lparr>st_environ := (st_environ s)(key := Some (var_value var))\<rparr> else s)"

fun child_redirects :: "host \<Rightarrow> mrsh_io_redirect list \<Rightarrow> mrsh_state \<Rightarrow> unit run" where
  "child_redirects h [] s = Inr ((), s)"
| "child_redirects h (redir # redirs) s =
     bind_run (process_redir h redir s) (\<lambda>(fd, redir_fd) s.
       if fd < 0 then exit_process 1 s
       else if fd = redir_fd then child_redirects h redirs s
       else case sys_dup2 h fd redir_fd s of
         (ret, s) \<Rightarrow> if ret < 0 then exit_process 1 s else child_redirects h redirs s)"

definition process_child ::
    "host \<Rightarrow> ctx \<Rightarrow> cstring \<Rightarrow> mrsh_io_redirect list \<Rightarrow> mrsh_assignment list \<Rightarrow> cstring list \<Rightarrow> mrsh_state \<Rightarrow> unit run" where
  "process_child h ctx path redirs assigns argv s =
     bind_run (init_child h ctx (st_pid s) s) (\<lambda>_ s.
     bind_run (leave_job_control h s) (\<lambda>_ s.
     bind_run (child_assignments assigns s) (\<lambda>_ s.
     bind_run (child_redirects h redirs (mrsh_hashtable_for_each (st_variables s) populate_env_iterator s)) (\<lambda>_ s.
     bind_run (sys_execv h path argv s) (\<lambda>_ s. exit_process 127 s)))))"

definition run_process ::
    "host \<Rightarrow> ctx \<Rightarrow> mrsh_io_redirect list \<Rightarrow> mrsh_assignment list \<Rightarrow> cstring list \<Rightarrow> mrsh_state \<Rightarrow> int run" where
  "run_process h ctx redirs assigns argv s =
     (if cx_job ctx = None then Inl Crash
      else case expand_path h s (argv ! 0) True False of
        None \<Rightarrow> Inr (127, s)
      | Some path \<Rightarrow>
          bind_run (sys_fork (process_child h ctx path redirs assigns argv) s) (\<lambda>pid s.
            if pid < 0 then Inr (TASK_STATUS_ERROR, s)
            else bind_run (init_child h ctx pid s) wait_process))"

fun run_assignments :: "mrsh_assignment list \<Rightarrow> mrsh_state \<Rightarrow> int run" where
  "run_assignments [] s = Inr (0, s)"
| "run_assignments (Assignment name v nr eq # assigns) s =
     need (mrsh_word_str v) s (\<lambda>new_value s.
       let attribs = (if has_option (st_options s) MRSH_OPT_ALLEXPORT then MRSH_VAR_ATTRIB_EXPORT else MRSH_VAR_ATTRIB_NONE) in
       if mrsh_env_get s name \<noteq> None \<and> has_attrib (env_attribs s name) MRSH_VAR_ATTRIB_READONLY
       then Inr (TASK_STATUS_ERROR, s)
       else run_assignments assigns (mrsh_env_set name new_value attribs s))"

fun expand_assignments ::
    "host \<Rightarrow> interp \<Rightarrow> mrsh_assignment list \<Rightarrow> mrsh_state \<Rightarrow> (int \<times> mrsh_assignment list) run" where
  "expand_assignments h I [] s = Inr ((0, []), s)"
| "expand_assignments h I (Assignment name v nr eq # assigns) s =
     bind_run (run_word (i_fuel I) h (i_program I) (expand_tilde (h_getpwnam h) s True v) s) (\<lambda>(ret, v) s.
       if ret < 0 then Inr ((ret, Assignment name v nr eq # assigns), s)
       else bind_run (expand_assignments h I assigns s) (\<lambda>(ret, assigns) s.
              Inr ((ret, Assignment name v nr eq # assigns), s)))"

text \<open>\<open>expand_word\<close> on the name and the arguments in turn, collecting the fields.\<close>

fun expand_words :: "host \<Rightarrow> interp \<Rightarrow> mrsh_word list \<Rightarrow> mrsh_state \<Rightarrow> (int \<times> cstring list) run" where
  "expand_words h I [] s = Inr ((0, []), s)"
| "expand_words h I (w # ws) s =
     bind_run (expand_word (i_fuel I) h (i_program I) w s) (\<lambda>(ret, fs) s.
       if ret < 0 then Inr ((ret, fs), s)
       else bind_run (expand_words h I ws s) (\<lambda>(ret, gs) s. Inr ((ret, fs @ gs), s)))"

text \<open>\<open>expand_tilde\<close> and \<open>run_word\<close> on the lines of a here-document.\<close>

fun run_lines :: "host \<Rightarrow> interp \<Rightarrow> mrsh_word list \<Rightarrow> mrsh_state \<Rightarrow> (int \<times> mrsh_word list) run" where
  "run_lines h I [] s = Inr ((0, []), s)"
| "run_lines h I (w # ws) s =
     bind_run (run_word (i_fuel I) h (i_program I) (expand_tilde (h_getpwnam h) s False w) s) (\<lambda>(ret, w) s.
       if ret < 0 then Inr ((ret, w # ws), s)
       else bind_run (run_lines h I ws s) (\<lambda>(ret, ws) s. Inr ((ret, w # ws), s)))"

fun expand_redirects ::
    "host \<Rightarrow> interp \<Rightarrow> mrsh_io_redirect list \<Rightarrow> mrsh_state \<Rightarrow> (int \<times> mrsh_io_redirect list) run" where
  "expand_redirects h I [] s = Inr ((0, []), s)"
| "expand_redirects h I (IoRedirect io op name here np opr # redirs) s =
     bind_run (run_word (i_fuel I) h (i_program I) (expand_tilde (h_getpwnam h) s False name) s) (\<lambda>(ret, name) s.
       if ret < 0 then Inr ((ret, redirs), s)
       else bind_run (run_lines h I here s) (\<lambda>(ret, here) s.
         if ret < 0 then Inr ((ret, redirs), s)
         else bind_run (expand_redirects h I redirs s) (\<lambda>(ret, redirs) s.
           Inr ((ret, IoRedirect io op name here np opr # redirs), s))))"

definition call_function :: "interp \<Rightarrow> ctx \<Rightarrow> mrsh_command \<Rightarrow> cstring list \<Rightarrow> mrsh_state \<Rightarrow> int run" where
  "call_function I ctx body argv s =
     need (mrsh_command_copy body) (push_frame argv s) (\<lambda>body s.
       bind_run (i_command I ctx body s) (\<lambda>(ret, _) s.
         need (pop_frame s) s (\<lambda>s _. Inr (ret, s))))"

text \<open>What is run, once everything is expanded.\<close>

definition dispatch ::
    "host \<Rightarrow> interp \<Rightarrow> ctx \<Rightarrow> mrsh_io_redirect list \<Rightarrow> mrsh_assignment list \<Rightarrow> cstring list \<Rightarrow> mrsh_state \<Rightarrow> int run" where
  "dispatch h I ctx redirs assigns argv s =
     (case mrsh_hashtable_get (st_functions s) (argv ! 0) of
        Some body \<Rightarrow> call_function I ctx body argv s
      | None \<Rightarrow>
          if mrsh_has_builtin (argv ! 0)
          then with_redirects h redirs (mrsh_run_builtin h I argv) s
          else run_process h ctx redirs assigns argv s)"

definition run_simple_command ::
    "host \<Rightarrow> interp \<Rightarrow> ctx \<Rightarrow> mrsh_word option \<Rightarrow> mrsh_word list \<Rightarrow> mrsh_io_redirect list \<Rightarrow>
     mrsh_assignment list \<Rightarrow> mrsh_state \<Rightarrow> int run" where
  "run_simple_command h I ctx name arguments redirs assigns s =
     (case name of
        None \<Rightarrow>
          need (those (map mrsh_assignment_copy assigns)) s (\<lambda>assigns s.
            bind_run (expand_assignments h I assigns s) (\<lambda>(ret, assigns) s.
              if ret < 0 then Inr (ret, s) else run_assignments assigns s))
      | Some _ \<Rightarrow>
          need (mrsh_command_copy (SimpleCommand name arguments redirs assigns)) s (\<lambda>sc s.
            case sc of
              SimpleCommand (Some name) arguments redirs assigns \<Rightarrow>
                bind_run (expand_words h I (name # arguments) s) (\<lambda>(ret, argv) s.
                  if ret < 0 then Inr (ret, s)
                  else if argv = [] then Inl Crash
                  else bind_run (expand_assignments h I assigns s) (\<lambda>(ret, assigns) s.
                    if ret < 0 then Inr (ret, s)
                    else bind_run (expand_redirects h I redirs s) (\<lambda>(ret, redirs) s.
                      if ret < 0 then Inr (ret, s)
                      else bind_run (if has_option (st_options s) MRSH_OPT_XTRACE
                                     then bind_run (mrsh_get_ps4 h I s) (\<lambda>_ s. Inr ((), s)) else Inr ((), s)) (\<lambda>_ s.
                        dispatch h I ctx redirs assigns argv s))))
            | _ \<Rightarrow> Inl Crash))"

section \<open>Pipelines\<close>

text \<open>
  Were \<open>dup2\<close> to fail, the child would return to the callers of \<open>run_pipeline\<close> and go on as a second shell;
  the descriptors are open, so it does not, and the branch is a \<open>Crash\<close>.
\<close>

definition pipeline_child ::
    "host \<Rightarrow> interp \<Rightarrow> ctx \<Rightarrow> mrsh_command \<Rightarrow> int \<Rightarrow> int \<Rightarrow> int \<Rightarrow> mrsh_state \<Rightarrow> unit run" where
  "pipeline_child h I ctx cmd next_stdin cur_stdin cur_stdout s =
     bind_run (init_child h ctx (st_pid s) (mark_child s)) (\<lambda>_ s.
     bind_run (leave_job_control h s) (\<lambda>_ s.
       let s = (if next_stdin \<ge> 0 then sys_close next_stdin s else s);
           (r0, s) = (if cur_stdin \<ge> 0 \<and> cur_stdin \<noteq> STDIN_FILENO then sys_dup2 h cur_stdin STDIN_FILENO s else (0, s))
       in if r0 < 0 then Inl Crash
          else
            let s = (if cur_stdin \<ge> 0 \<and> cur_stdin \<noteq> STDIN_FILENO then sys_close cur_stdin s else s);
                (r1, s) = (if cur_stdout \<ge> 0 \<and> cur_stdout \<noteq> STDOUT_FILENO then sys_dup2 h cur_stdout STDOUT_FILENO s else (0, s))
            in if r1 < 0 then Inl Crash
               else
                 let s = (if cur_stdout \<ge> 0 \<and> cur_stdout \<noteq> STDOUT_FILENO then sys_close cur_stdout s else s)
                 in bind_run (i_command I ctx cmd s) (\<lambda>(ret, _) s.
                      if ret < 0 then exit_process 127 s else exit_process ret s)))"

text \<open>The loop that starts the processes: \<open>None\<close> is the early return with an error.\<close>

fun pipeline_loop ::
    "host \<Rightarrow> interp \<Rightarrow> ctx \<Rightarrow> mrsh_command list \<Rightarrow> int \<Rightarrow> nat list \<Rightarrow> mrsh_state \<Rightarrow> nat list option run" where
  "pipeline_loop h I ctx [] cur_stdin procs s = Inr (Some procs, s)"
| "pipeline_loop h I ctx (cmd # cmds) cur_stdin procs s =
     (case (if cmds \<noteq> [] then sys_pipe h s else (Some (- 1, - 1), s)) of
        (None, s) \<Rightarrow> Inr (None, s)
      | (Some (next_stdin, cur_stdout), s) \<Rightarrow>
          bind_run (sys_fork (pipeline_child h I ctx cmd next_stdin cur_stdin cur_stdout) s) (\<lambda>pid s.
            if pid < 0 then Inr (None, s)
            else bind_run (init_child h ctx pid s) (\<lambda>proc s.
              let s = (if cur_stdin \<ge> 0 then sys_close cur_stdin s else s);
                  s = (if cur_stdout \<ge> 0 then sys_close cur_stdout s else s)
              in pipeline_loop h I ctx cmds next_stdin (procs @ [proc]) s)))"

fun wait_processes :: "nat list \<Rightarrow> int \<Rightarrow> mrsh_state \<Rightarrow> int run" where
  "wait_processes [] ret s = Inr (ret, s)"
| "wait_processes (proc # procs) ret s =
     bind_run (wait_process proc s) (\<lambda>ret s. if ret < 0 then Inr (ret, s) else wait_processes procs ret s)"

definition negate :: "bool \<Rightarrow> int \<Rightarrow> int" where
  "negate bang ret = (if bang \<and> ret \<ge> 0 then (if ret = 0 then 1 else 0) else ret)"

definition with_job :: "mrsh_node \<Rightarrow> ctx \<Rightarrow> mrsh_state \<Rightarrow> ctx run" where
  "with_job node ctx s =
     (if cx_job ctx = None then bind_run (new_job node s) (\<lambda>job s. Inr (ctx\<lparr>cx_job := Some job\<rparr>, s))
      else Inr (ctx, s))"

definition run_pipeline ::
    "host \<Rightarrow> interp \<Rightarrow> ctx \<Rightarrow> mrsh_command list \<Rightarrow> bool \<Rightarrow> mrsh_position \<Rightarrow> mrsh_state \<Rightarrow> (int \<times> mrsh_and_or_list) run" where
  "run_pipeline h I ctx commands bang bp s =
     bind_run (with_job (NodeAndOrList (Pipeline commands bang bp)) ctx s) (\<lambda>ctx s.
       case commands of
         [] \<Rightarrow> Inl Crash
       | [cmd] \<Rightarrow>
           bind_run (i_command I ctx cmd s) (\<lambda>(ret, cmd) s.
             Inr ((negate bang ret, Pipeline [cmd] bang bp), s))
       | _ \<Rightarrow>
           bind_run (pipeline_loop h I ctx commands (- 1) [] s) (\<lambda>procs s.
             case procs of
               None \<Rightarrow> Inr ((TASK_STATUS_ERROR, Pipeline commands bang bp), s)
             | Some procs \<Rightarrow>
                 bind_run (wait_processes procs 0 s) (\<lambda>ret s.
                   Inr ((negate bang ret, Pipeline commands bang bp), s))))"

section \<open>Lists\<close>

fun run_and_or_list :: "host \<Rightarrow> interp \<Rightarrow> ctx \<Rightarrow> mrsh_and_or_list \<Rightarrow> mrsh_state \<Rightarrow> (int \<times> mrsh_and_or_list) run" where
  "run_and_or_list h I ctx (Pipeline commands bang bp) s = run_pipeline h I ctx commands bang bp s"
| "run_and_or_list h I ctx (Binop t left right opr) s =
     bind_run (run_and_or_list h I ctx left s) (\<lambda>(left_status, left) s.
       if t = BINOP_AND \<and> left_status \<noteq> 0 then Inr ((left_status, Binop t left right opr), s)
       else if t = BINOP_OR \<and> left_status = 0 then Inr ((0, Binop t left right opr), s)
       else bind_run (run_and_or_list h I ctx right s) (\<lambda>(ret, right) s.
              Inr ((ret, Binop t left right opr), s)))"

definition async_child :: "host \<Rightarrow> interp \<Rightarrow> ctx \<Rightarrow> mrsh_and_or_list \<Rightarrow> mrsh_state \<Rightarrow> unit run" where
  "async_child h I ctx aol s =
     bind_run (init_async_child h ctx (st_pid s) (mark_child s)) (\<lambda>_ s.
     bind_run (leave_job_control h s) (\<lambda>_ s.
     bind_run (null_stdin h s) (\<lambda>_ s.
     bind_run (run_and_or_list h I ctx aol s) (\<lambda>(ret, _) s.
       if ret < 0 then exit_process 127 s else exit_process ret s))))"

fun run_command_list_array ::
    "host \<Rightarrow> interp \<Rightarrow> ctx \<Rightarrow> int \<Rightarrow> mrsh_command_list list \<Rightarrow> mrsh_state \<Rightarrow> (int \<times> mrsh_command_list list) run" where
  "run_command_list_array h I ctx ret [] s = Inr ((ret, []), s)"
| "run_command_list_array h I ctx ret (CommandList aol ampersand sp # cls) s =
     (if ampersand then
        bind_run (with_job (NodeCommandList (CommandList aol ampersand sp)) (ctx\<lparr>cx_background := True\<rparr>) s) (\<lambda>child_ctx s.
          bind_run (sys_fork (async_child h I child_ctx aol) s) (\<lambda>pid s.
            if pid < 0 then Inr ((TASK_STATUS_ERROR, CommandList aol ampersand sp # cls), s)
            else bind_run (init_async_child h child_ctx pid s) (\<lambda>_ s.
              bind_run (run_command_list_array h I ctx 0 cls (s\<lparr>st_last_status := 0\<rparr>)) (\<lambda>(ret, cls) s.
                Inr ((ret, CommandList aol ampersand sp # cls), s)))))
      else
        bind_run (run_and_or_list h I ctx aol s) (\<lambda>(ret, aol) s.
          if ret < 0 then Inr ((ret, CommandList aol ampersand sp # cls), s)
          else bind_run (run_command_list_array h I ctx ret cls (s\<lparr>st_last_status := ret\<rparr>)) (\<lambda>(ret, cls) s.
            Inr ((ret, CommandList aol ampersand sp # cls), s))))"

abbreviation run_lists :: "host \<Rightarrow> interp \<Rightarrow> mrsh_command_list list runs" where
  "run_lists h I ctx \<equiv> run_command_list_array h I ctx 0"

section \<open>Compound commands\<close>

definition subshell_child :: "host \<Rightarrow> interp \<Rightarrow> ctx \<Rightarrow> mrsh_command_list list \<Rightarrow> mrsh_state \<Rightarrow> unit run" where
  "subshell_child h I ctx body s =
     bind_run (run_of (reset_caught_traps (h_sigok h) (mark_child s))) (\<lambda>_ s.
     bind_run (null_stdin h s) (\<lambda>_ s.
     bind_run (run_lists h I ctx body s) (\<lambda>(ret, _) s.
       if ret < 0 then exit_process 127 s
       else if st_exit s \<ge> 0 then exit_process (st_exit s) s
       else exit_process ret s)))"

definition run_subshell :: "host \<Rightarrow> interp \<Rightarrow> ctx \<Rightarrow> mrsh_command_list list \<Rightarrow> mrsh_state \<Rightarrow> int run" where
  "run_subshell h I ctx body s =
     bind_run (sys_fork (subshell_child h I ctx body) s) (\<lambda>pid s.
       if pid < 0 then Inr (TASK_STATUS_ERROR, s)
       else let (proc, s) = new_process pid s in wait_process proc s)"

text \<open>What the label \<open>interrupt\<close> of the loops decides: to leave with a status, or to go on.\<close>

definition loop_interrupted :: "int \<Rightarrow> int \<Rightarrow> mrsh_state \<Rightarrow> int option" where
  "loop_interrupted loop_num loop_ret s =
     (if fr_nloops (cur_frame s) < loop_num then Some TASK_STATUS_INTERRUPTED
      else if fr_branch_control (cur_frame s) = MRSH_BRANCH_CONTINUE then None
      else Some 0)"

definition add_nloops :: "int \<Rightarrow> mrsh_state \<Rightarrow> mrsh_state" where
  "add_nloops d s = upd_frame (\<lambda>fr. fr\<lparr>fr_nloops := fr_nloops fr + d\<rparr>) s"

text \<open>
  The loops give the status and the trees; \<open>Inl\<close> in the result is a return that leaves the count of
  loops as it is. In \<open>run_loop_clause\<close> the variable \<open>break_loop\<close> is not set yet when the condition is
  interrupted, and reading it for a \<open>continue\<close> is undefined.
\<close>

fun loop_turns ::
    "nat \<Rightarrow> host \<Rightarrow> interp \<Rightarrow> ctx \<Rightarrow> loop_type \<Rightarrow> int \<Rightarrow> int \<Rightarrow> mrsh_command_list list \<Rightarrow> mrsh_command_list list \<Rightarrow>
     mrsh_state \<Rightarrow> ((int + int) \<times> mrsh_command_list list \<times> mrsh_command_list list) run" where
  "loop_turns 0 h I ctx t loop_num loop_ret condition body s = Inl NoFuel"
| "loop_turns (Suc n) h I ctx t loop_num loop_ret condition body s =
     (if st_exit s \<noteq> - 1 then Inr ((Inr loop_ret, condition, body), s)
      else
        bind_run (run_lists h I ctx condition s) (\<lambda>(ret, condition) s.
          if ret = TASK_STATUS_INTERRUPTED then
            (case loop_interrupted loop_num loop_ret s of
               Some r \<Rightarrow> Inr ((Inr r, condition, body), s)
             | None \<Rightarrow> Inl Crash)
          else if ret < 0 then Inr ((Inl ret, condition, body), s)
          else if (case t of LOOP_WHILE \<Rightarrow> ret > 0 | LOOP_UNTIL \<Rightarrow> ret = 0)
          then Inr ((Inr loop_ret, condition, body), s)
          else
            bind_run (run_lists h I ctx body s) (\<lambda>(loop_ret, body) s.
              if loop_ret = TASK_STATUS_INTERRUPTED then
                (case loop_interrupted loop_num loop_ret s of
                   Some r \<Rightarrow> Inr ((Inr r, condition, body), s)
                 | None \<Rightarrow> loop_turns n h I ctx t loop_num loop_ret condition body s)
              else if loop_ret < 0 then Inr ((Inl loop_ret, condition, body), s)
              else loop_turns n h I ctx t loop_num loop_ret condition body s)))"

definition loop_result :: "int + int \<Rightarrow> mrsh_state \<Rightarrow> int \<times> mrsh_state" where
  "loop_result r s = (case r of Inl ret \<Rightarrow> (ret, s) | Inr ret \<Rightarrow> (ret, add_nloops (- 1) s))"

definition run_loop_clause ::
    "host \<Rightarrow> interp \<Rightarrow> ctx \<Rightarrow> loop_type \<Rightarrow> mrsh_command_list list \<Rightarrow> mrsh_command_list list \<Rightarrow> mrsh_state \<Rightarrow>
     (int \<times> mrsh_command_list list \<times> mrsh_command_list list) run" where
  "run_loop_clause h I ctx t condition body s =
     (let s = add_nloops 1 s in
      bind_run (loop_turns (i_fuel I) h I ctx t (fr_nloops (cur_frame s)) 0 condition body s) (\<lambda>(r, condition, body) s.
        let (ret, s) = loop_result r s in Inr ((ret, condition, body), s)))"

fun for_turns ::
    "host \<Rightarrow> interp \<Rightarrow> ctx \<Rightarrow> cstring \<Rightarrow> int \<Rightarrow> int \<Rightarrow> cstring list \<Rightarrow> mrsh_command_list list \<Rightarrow> mrsh_state \<Rightarrow>
     ((int + int) \<times> mrsh_command_list list) run" where
  "for_turns h I ctx name loop_num loop_ret [] body s = Inr ((Inr loop_ret, body), s)"
| "for_turns h I ctx name loop_num loop_ret (f # fs) body s =
     (if st_exit s \<noteq> - 1 then Inr ((Inr loop_ret, body), s)
      else
        bind_run (run_lists h I ctx body (mrsh_env_set name f MRSH_VAR_ATTRIB_NONE s)) (\<lambda>(loop_ret, body) s.
          if loop_ret = TASK_STATUS_INTERRUPTED then
            (case loop_interrupted loop_num loop_ret s of
               Some r \<Rightarrow> Inr ((Inr r, body), s)
             | None \<Rightarrow> for_turns h I ctx name loop_num loop_ret fs body s)
          else if loop_ret < 0 then Inr ((Inl loop_ret, body), s)
          else for_turns h I ctx name loop_num loop_ret fs body s))"

definition run_for_clause ::
    "host \<Rightarrow> interp \<Rightarrow> ctx \<Rightarrow> cstring \<Rightarrow> mrsh_word list \<Rightarrow> mrsh_command_list list \<Rightarrow> mrsh_state \<Rightarrow>
     (int \<times> mrsh_command_list list) run" where
  "run_for_clause h I ctx name ws body s =
     (let s = add_nloops 1 s; loop_num = fr_nloops (cur_frame s) in
      bind_run (expand_words h I ws s) (\<lambda>(ret, fs) s.
        if ret < 0 then Inr ((ret, body), s)
        else bind_run (for_turns h I ctx name loop_num 0 fs body s) (\<lambda>(r, body) s.
          let (ret, s) = loop_result r s in Inr ((ret, body), s))))"

definition run_if_clause ::
    "host \<Rightarrow> interp \<Rightarrow> ctx \<Rightarrow> mrsh_command_list list \<Rightarrow> mrsh_command_list list \<Rightarrow> mrsh_command option \<Rightarrow> mrsh_state \<Rightarrow>
     (int \<times> mrsh_command_list list \<times> mrsh_command_list list \<times> mrsh_command option) run" where
  "run_if_clause h I ctx condition body els s =
     bind_run (run_lists h I ctx condition s) (\<lambda>(ret, condition) s.
       if ret < 0 then Inr ((ret, condition, body, els), s)
       else if ret = 0 then
         bind_run (run_lists h I ctx body s) (\<lambda>(ret, body) s. Inr ((ret, condition, body, els), s))
       else case els of
         Some cmd \<Rightarrow> bind_run (i_command I ctx cmd s) (\<lambda>(ret, cmd) s. Inr ((ret, condition, body, Some cmd), s))
       | None \<Rightarrow> Inr ((0, condition, body, None), s))"

text \<open>The patterns of one item: an error, or whether one matches; they stay expanded.\<close>

fun case_patterns ::
    "host \<Rightarrow> interp \<Rightarrow> cstring \<Rightarrow> mrsh_word list \<Rightarrow> mrsh_state \<Rightarrow> ((int + bool) \<times> mrsh_word list) run" where
  "case_patterns h I subject [] s = Inr ((Inr False, []), s)"
| "case_patterns h I subject (p # ps) s =
     bind_run (run_word (i_fuel I) h (i_program I) (expand_tilde (h_getpwnam h) s False p) s) (\<lambda>(ret, p) s.
       if ret < 0 then Inr ((Inl ret, p # ps), s)
       else need (word_to_pattern p) s (\<lambda>pattern s.
         bind_run (case pattern of
             Some pat \<Rightarrow> Inr (h_fnmatch h pat subject, s)
           | None \<Rightarrow> need (mrsh_word_str p) s (\<lambda>str s. Inr (str = subject, s))) (\<lambda>selected s.
           if selected then Inr ((Inr True, p # ps), s)
           else bind_run (case_patterns h I subject ps s) (\<lambda>(r, ps) s. Inr ((r, p # ps), s)))))"

fun case_items ::
    "host \<Rightarrow> interp \<Rightarrow> ctx \<Rightarrow> cstring \<Rightarrow> mrsh_case_item list \<Rightarrow> mrsh_state \<Rightarrow> (int \<times> mrsh_case_item list) run" where
  "case_items h I ctx subject [] s = Inr ((0, []), s)"
| "case_items h I ctx subject (CaseItem patterns body lp rp dr # items) s =
     bind_run (case_patterns h I subject patterns s) (\<lambda>(r, patterns) s.
       case r of
         Inl ret \<Rightarrow> Inr ((ret, CaseItem patterns body lp rp dr # items), s)
       | Inr True \<Rightarrow>
           bind_run (run_lists h I ctx body s) (\<lambda>(ret, body) s.
             Inr ((ret, CaseItem patterns body lp rp dr # items), s))
       | Inr False \<Rightarrow>
           bind_run (case_items h I ctx subject items s) (\<lambda>(ret, items) s.
             Inr ((ret, CaseItem patterns body lp rp dr # items), s)))"

definition run_case_clause ::
    "host \<Rightarrow> interp \<Rightarrow> ctx \<Rightarrow> mrsh_word \<Rightarrow> mrsh_case_item list \<Rightarrow> mrsh_state \<Rightarrow> (int \<times> mrsh_case_item list) run" where
  "run_case_clause h I ctx w items s =
     need (mrsh_word_copy w) s (\<lambda>w s.
       bind_run (run_word (i_fuel I) h (i_program I) (expand_tilde (h_getpwnam h) s False w) s) (\<lambda>(ret, w) s.
         if ret < 0 then Inr ((ret, items), s)
         else need (mrsh_word_str w) s (\<lambda>subject s. case_items h I ctx subject items s)))"

definition run_function_definition :: "cstring \<Rightarrow> mrsh_command \<Rightarrow> mrsh_state \<Rightarrow> int run" where
  "run_function_definition name body s =
     need (mrsh_command_copy body) s (\<lambda>body s.
       Inr (0, s\<lparr>st_functions := snd (mrsh_hashtable_set (st_functions s) name body)\<rparr>))"

section \<open>Commands and programs\<close>

fun run_command :: "host \<Rightarrow> interp \<Rightarrow> mrsh_command runs" where
  "run_command h I ctx (SimpleCommand name arguments redirs assigns) s =
     bind_run (run_simple_command h I ctx name arguments redirs assigns s) (\<lambda>ret s.
       Inr ((ret, SimpleCommand name arguments redirs assigns), s))"
| "run_command h I ctx (BraceGroup body lb rb) s =
     bind_run (run_lists h I ctx body s) (\<lambda>(ret, body) s. Inr ((ret, BraceGroup body lb rb), s))"
| "run_command h I ctx (Subshell body lp rp) s =
     bind_run (run_subshell h I ctx body s) (\<lambda>ret s. Inr ((ret, Subshell body lp rp), s))"
| "run_command h I ctx (IfClause condition body els r1 r2 r3 r4) s =
     bind_run (run_if_clause h I ctx condition body els s) (\<lambda>(ret, condition, body, els) s.
       Inr ((ret, IfClause condition body els r1 r2 r3 r4), s))"
| "run_command h I ctx (LoopClause t condition body r1 r2 r3) s =
     bind_run (run_loop_clause h I ctx t condition body s) (\<lambda>(ret, condition, body) s.
       Inr ((ret, LoopClause t condition body r1 r2 r3), s))"
| "run_command h I ctx (ForClause name inn ws body r1 r2 r3 r4 r5) s =
     bind_run (run_for_clause h I ctx name ws body s) (\<lambda>(ret, body) s.
       Inr ((ret, ForClause name inn ws body r1 r2 r3 r4 r5), s))"
| "run_command h I ctx (CaseClause w items r1 r2 r3) s =
     bind_run (run_case_clause h I ctx w items s) (\<lambda>(ret, items) s.
       Inr ((ret, CaseClause w items r1 r2 r3), s))"
| "run_command h I ctx (FunctionDefinition name body redirs r1 lp rp) s =
     bind_run (run_function_definition name body s) (\<lambda>ret s.
       Inr ((ret, FunctionDefinition name body redirs r1 lp rp), s))"

definition ctx_zero :: ctx where
  "ctx_zero = \<lparr>cx_job = None, cx_background = False\<rparr>"

fun mrsh_run_program :: "host \<Rightarrow> interp \<Rightarrow> runner" where
  "mrsh_run_program h I (Program body) s =
     bind_run (run_lists h I ctx_zero body s) (\<lambda>(ret, body) s.
       bind_run (run_pending_traps (i_program I) (i_fuel I) s) (\<lambda>_ s. Inr ((ret, Program body), s)))"

primrec interp :: "nat \<Rightarrow> host \<Rightarrow> interp" where
  "interp 0 h = \<lparr>i_fuel = 0, i_command = (\<lambda>_ _ _. Inl NoFuel), i_program = (\<lambda>_ _. Inl NoFuel), i_builtin = (\<lambda>_ _. Inl NoFuel)\<rparr>"
| "interp (Suc n) h =
     \<lparr>i_fuel = n, i_command = run_command h (interp n h), i_program = mrsh_run_program h (interp n h),
      i_builtin = mrsh_run_builtin h (interp n h)\<rparr>"

lemma interp_Suc [simp]:
  "i_fuel (interp (Suc n) h) = n" "i_command (interp (Suc n) h) = run_command h (interp n h)"
  "i_program (interp (Suc n) h) = mrsh_run_program h (interp n h)"
  "i_builtin (interp (Suc n) h) = mrsh_run_builtin h (interp n h)"
  by simp_all

declare interp.simps(2) [simp del]

end
