(* ===== verification/Tasks_Fuel.thy ===== *)
theory Tasks_Fuel
  imports Tasks
begin

text \<open>
  The bound on the nesting does not influence what the shell does: an outcome reached with some bound
  is the outcome with every larger one. \<open>le_run r r'\<close> says that \<open>r\<close> ran out of fuel or is \<open>r'\<close>; all
  operations are monotone for it, which the rules of \<open>fuel_mono\<close> collect operation by operation.
\<close>

named_theorems fuel_mono

definition le_run :: "'a run \<Rightarrow> 'a run \<Rightarrow> bool" where
  "le_run r r' \<longleftrightarrow> r = Inl NoFuel \<or> r = r'"

lemma le_run_refl [fuel_mono, simp]: "le_run r r"
  by (simp add: le_run_def)

lemma le_run_NoFuel [fuel_mono, simp]: "le_run (Inl NoFuel) r"
  by (simp add: le_run_def)

lemma le_run_trans: "le_run r r' \<Longrightarrow> le_run r' r'' \<Longrightarrow> le_run r r''"
  by (auto simp: le_run_def)

lemma le_bind_run [fuel_mono]:
  "le_run r r' \<Longrightarrow> (\<And>x s. le_run (f x s) (g x s)) \<Longrightarrow> le_run (bind_run r f) (bind_run r' g)"
  by (auto simp: le_run_def bind_run_def split: sum.splits)

lemma le_need [fuel_mono]: "(\<And>v. le_run (f v s) (g v s)) \<Longrightarrow> le_run (need x s f) (need x s g)"
  by (cases x) simp_all

lemma le_if [fuel_mono]:
  "(b \<Longrightarrow> le_run x x') \<Longrightarrow> (\<not> b \<Longrightarrow> le_run y y') \<Longrightarrow> le_run (if b then x else y) (if b then x' else y')"
  by simp

lemma le_case_prod [fuel_mono]:
  "(\<And>a b. le_run (f a b) (g a b)) \<Longrightarrow> le_run (case p of (a, b) \<Rightarrow> f a b) (case p of (a, b) \<Rightarrow> g a b)"
  by (cases p) simp

lemma le_case_prod_state [fuel_mono]:
  "(\<And>a b. le_run (f a b s) (g a b s)) \<Longrightarrow> le_run ((case p of (a, b) \<Rightarrow> f a b) s) ((case p of (a, b) \<Rightarrow> g a b) s)"
  by (cases p) simp

lemma le_case_option [fuel_mono]:
  "le_run x x' \<Longrightarrow> (\<And>v. le_run (f v) (g v)) \<Longrightarrow>
    le_run (case opt of None \<Rightarrow> x | Some v \<Rightarrow> f v) (case opt of None \<Rightarrow> x' | Some v \<Rightarrow> g v)"
  by (cases opt) simp_all

lemma le_case_sum [fuel_mono]:
  "(\<And>v. le_run (f v) (f' v)) \<Longrightarrow> (\<And>v. le_run (g v) (g' v)) \<Longrightarrow>
    le_run (case r of Inl v \<Rightarrow> f v | Inr v \<Rightarrow> g v) (case r of Inl v \<Rightarrow> f' v | Inr v \<Rightarrow> g' v)"
  by (cases r) simp_all

lemma le_case_list [fuel_mono]:
  "le_run x x' \<Longrightarrow> (\<And>y ys. le_run (f y ys) (g y ys)) \<Longrightarrow>
    le_run (case xs of [] \<Rightarrow> x | y # ys \<Rightarrow> f y ys) (case xs of [] \<Rightarrow> x' | y # ys \<Rightarrow> g y ys)"
  by (cases xs) simp_all

lemma le_let [fuel_mono]: "(\<And>v. le_run (f v) (g v)) \<Longrightarrow> le_run (let v = x in f v) (let v = x in g v)"
  by simp

lemma le_case_bool [fuel_mono]:
  "le_run x x' \<Longrightarrow> le_run y y' \<Longrightarrow> le_run (case b of True \<Rightarrow> x | False \<Rightarrow> y) (case b of True \<Rightarrow> x' | False \<Rightarrow> y')"
  by (cases b) simp_all

lemma le_sys_fork [fuel_mono]:
  "(\<And>s. le_run (child s) (child' s)) \<Longrightarrow> le_run (sys_fork child s) (sys_fork child' s)"
proof -
  assume le: "\<And>s. le_run (child s) (child' s)"
  let ?s = "s\<lparr>st_pids := \<lambda>i. st_pids s (Suc i), st_pid := st_pids s 0, st_zombies := \<lambda>_. None\<rparr>"
  from le [of ?s] show ?thesis
    by (auto simp: le_run_def sys_fork_def Let_def)
qed

lemma le_with_redirects [fuel_mono]:
  "(\<And>s. le_run (f s) (g s)) \<Longrightarrow> le_run (with_redirects h redirs f s) (with_redirects h redirs g s)"
  unfolding with_redirects_def by (intro fuel_mono)

section \<open>Words\<close>

definition le_words :: "word_runner \<Rightarrow> word_runner \<Rightarrow> bool" where
  "le_words rec rec' \<longleftrightarrow> (\<forall>dq w s. le_run (rec dq w s) (rec' dq w s))"

definition le_programs :: "runner \<Rightarrow> runner \<Rightarrow> bool" where
  "le_programs run run' \<longleftrightarrow> (\<forall>p s. le_run (run p s) (run' p s))"

lemma le_words_run: "le_words rec rec' \<Longrightarrow> le_run (rec dq w s) (rec' dq w s)"
  by (simp add: le_words_def)

lemma le_programs_run: "le_programs run run' \<Longrightarrow> le_run (run p s) (run' p s)"
  by (simp add: le_programs_def)

lemma le_finish_parameter [fuel_mono]:
  assumes "le_words rec rec'"
  shows "le_run (finish_parameter rec wd r s) (finish_parameter rec' wd r s)"
proof -
  have case_word: "le_run (case w of WString _ _ _ _ \<Rightarrow> x | _ \<Rightarrow> y) (case w of WString _ _ _ _ \<Rightarrow> x | _ \<Rightarrow> y')"
    if "le_run y y'" for w and x y y' :: "(int \<times> mrsh_word) run"
    using that by (cases w) simp_all
  show ?thesis
    unfolding finish_parameter_def by (intro fuel_mono case_word le_words_run [OF assms])
qed

lemma le_cond_op [fuel_mono]:
  assumes "le_words rec rec'"
  shows "le_run (apply_parameter_cond_op rec name op colon arg v s) (apply_parameter_cond_op rec' name op colon arg v s)"
  by (cases op; simp add: apply_parameter_cond_op_def; intro fuel_mono assms le_words_run [OF assms])

lemma le_str_op [fuel_mono]:
  assumes "le_words rec rec'"
  shows "le_run (apply_parameter_str_op h rec op arg str s) (apply_parameter_str_op h rec' op arg str s)"
  unfolding apply_parameter_str_op_def by (intro fuel_mono assms le_words_run [OF assms])

lemma le_run_parameter [fuel_mono]:
  assumes "le_words rec rec'"
  shows "le_run (run_parameter h rec dq name op colon arg ps s) (run_parameter h rec' dq name op colon arg ps s)"
  unfolding run_parameter_def by (intro fuel_mono assms le_words_run [OF assms])

lemma le_run_arithmetic [fuel_mono]:
  assumes "le_words rec rec'"
  shows "le_run (run_arithmetic rec body s) (run_arithmetic rec' body s)"
  unfolding run_arithmetic_def by (intro fuel_mono assms le_words_run [OF assms])

lemma le_run_children [fuel_mono]:
  assumes "le_words rec rec'"
  shows "le_run (run_children rec dq wq ws s) (run_children rec' dq wq ws s)"
proof (induction ws arbitrary: s)
  case (Cons w ws)
  show ?case
    by (simp, intro fuel_mono assms le_words_run [OF assms] Cons.IH)
qed simp

lemma le_run_list [fuel_mono]:
  assumes "le_words rec rec'"
  shows "le_run (run_list rec dq ws wq l r s) (run_list rec' dq ws wq l r s)"
  unfolding run_list_def by (intro fuel_mono assms le_words_run [OF assms])

lemma le_word_command [fuel_mono]:
  assumes "le_programs run run'"
  shows "le_run (run_word_command h run prog w s) (run_word_command h run' prog w s)"
  unfolding run_word_command_def substitution_child_def by (intro fuel_mono assms le_programs_run [OF assms])

lemma le_run_word_at: "le_programs run run' \<Longrightarrow> n \<le> m \<Longrightarrow> le_words (run_word_at n h run) (run_word_at m h run')"
proof (induction n arbitrary: m)
  case 0
  then show ?case by (simp add: le_words_def)
next
  case (Suc n)
  then obtain m' where m: "m = Suc m'" "le_words (run_word_at n h run) (run_word_at m' h run')"
    by (cases m) auto
  have "le_run (run_word_at (Suc n) h run dq w s) (run_word_at (Suc m') h run' dq w s)" for dq w s
    by (cases w; simp only: run_word_at_simps; intro fuel_mono m(2) Suc.prems(1))
  with m(1) show ?case by (simp add: le_words_def)
qed

lemma le_run_word [fuel_mono]:
  "le_programs run run' \<Longrightarrow> n \<le> m \<Longrightarrow> le_run (run_word n h run w s) (run_word m h run' w s)"
  unfolding run_word_def by (rule le_words_run [OF le_run_word_at])

lemma le_expand_word [fuel_mono]:
  assumes "le_programs run run'" "n \<le> m"
  shows "le_run (expand_word n h run w s) (expand_word m h run' w s)"
  unfolding expand_word_def by (intro fuel_mono assms)

lemma le_mrsh_run_word [fuel_mono]:
  assumes "le_programs run run'" "n \<le> m"
  shows "le_run (mrsh_run_word n h run w s) (mrsh_run_word m h run' w s)"
  unfolding mrsh_run_word_def by (intro fuel_mono assms)

section \<open>Traps and builtins\<close>

lemma le_run_trap_loop [fuel_mono]:
  assumes "le_programs run run'"
  shows "n \<le> m \<Longrightarrow> le_run (run_trap_loop run l i n s) (run_trap_loop run' l i m s)"
proof (induction n arbitrary: m s)
  case (Suc n)
  then obtain m' where m: "m = Suc m'" "n \<le> m'"
    by (cases m) auto
  show ?case
    unfolding m(1) run_trap_loop.simps
    by (intro fuel_mono le_programs_run [OF assms] Suc.IH m(2))
qed simp

lemma le_run_traps_loop [fuel_mono]:
  assumes "le_programs run run'" "n \<le> m"
  shows "le_run (run_traps_loop run l n is s) (run_traps_loop run' l m is s)"
proof (induction "is" arbitrary: s)
  case (Cons i "is")
  show ?case
    unfolding run_traps_loop.simps by (intro fuel_mono assms Cons.IH)
qed simp

lemma le_run_pending_traps [fuel_mono]:
  assumes "le_programs run run'" "n \<le> m"
  shows "le_run (run_pending_traps run n s) (run_pending_traps run' m s)"
  unfolding run_pending_traps_def by (intro fuel_mono assms)

definition le_interp :: "interp \<Rightarrow> interp \<Rightarrow> bool" where
  "le_interp I J \<longleftrightarrow> i_fuel I \<le> i_fuel J \<and> le_programs (i_program I) (i_program J) \<and>
     (\<forall>ctx c s. le_run (i_command I ctx c s) (i_command J ctx c s)) \<and>
     (\<forall>argv s. le_run (i_builtin I argv s) (i_builtin J argv s))"

lemma le_interpD:
  assumes "le_interp I J"
  shows "i_fuel I \<le> i_fuel J" "le_programs (i_program I) (i_program J)"
    "le_run (i_program I p s) (i_program J p s)"
    "le_run (i_command I ctx c s) (i_command J ctx c s)" "le_run (i_builtin I argv s) (i_builtin J argv s)"
  using assms by (simp_all add: le_interp_def le_programs_def)

lemma le_run_parsed [fuel_mono]:
  assumes "le_interp I J"
  shows "le_run (run_parsed I src s) (run_parsed J src s)"
  unfolding run_parsed_def by (intro fuel_mono le_interpD [OF assms])

lemma le_run_trap [fuel_mono]:
  assumes "le_interp I J"
  shows "le_run (run_trap h I argv s) (run_trap h J argv s)"
  unfolding run_trap_def by (intro fuel_mono le_interpD [OF assms])

lemma le_command_run [fuel_mono]:
  assumes "le_interp I J"
  shows "le_run (command_run h I argv p s) (command_run h J argv p s)"
  unfolding command_run_def by (intro fuel_mono le_interpD [OF assms])

lemma le_builtin_call [fuel_mono]:
  assumes "le_interp I J"
  shows "le_run (builtin_call h I f argv s) (builtin_call h J f argv s)"
  by (cases f; simp add: builtin_dot_def builtin_eval_def builtin_command_def;
      intro fuel_mono impI conjI assms le_interpD [OF assms])

lemma le_run_builtin [fuel_mono]:
  assumes "le_interp I J"
  shows "le_run (mrsh_run_builtin h I argv s) (mrsh_run_builtin h J argv s)"
  unfolding mrsh_run_builtin_def by (intro fuel_mono assms)

section \<open>Simple commands\<close>

lemma le_expand_assignments [fuel_mono]:
  assumes "le_interp I J"
  shows "le_run (expand_assignments h I as s) (expand_assignments h J as s)"
proof (induction as arbitrary: s)
  case (Cons a as)
  show ?case
    by (cases a) (simp, intro fuel_mono le_interpD [OF assms] Cons.IH)
qed simp

lemma le_expand_words [fuel_mono]:
  assumes "le_interp I J"
  shows "le_run (expand_words h I ws s) (expand_words h J ws s)"
proof (induction ws arbitrary: s)
  case (Cons w ws)
  show ?case
    by (simp, intro fuel_mono le_interpD [OF assms] Cons.IH)
qed simp

lemma le_run_lines [fuel_mono]:
  assumes "le_interp I J"
  shows "le_run (run_lines h I ws s) (run_lines h J ws s)"
proof (induction ws arbitrary: s)
  case (Cons w ws)
  show ?case
    by (simp, intro fuel_mono le_interpD [OF assms] Cons.IH)
qed simp

lemma le_expand_redirects [fuel_mono]:
  assumes "le_interp I J"
  shows "le_run (expand_redirects h I rs s) (expand_redirects h J rs s)"
proof (induction rs arbitrary: s)
  case (Cons r rs)
  show ?case
    by (cases r) (simp, intro fuel_mono le_interpD [OF assms] assms Cons.IH)
qed simp

lemma le_dispatch [fuel_mono]:
  assumes "le_interp I J"
  shows "le_run (dispatch h I ctx rs as argv s) (dispatch h J ctx rs as argv s)"
  unfolding dispatch_def call_function_def by (intro fuel_mono le_interpD [OF assms] assms)

lemma le_expand_str [fuel_mono]:
  assumes "le_interp I J"
  shows "le_run (expand_str h I src s) (expand_str h J src s)"
proof -
  have "le_run (bind_run (mrsh_run_word (i_fuel I) h (i_program I) w s) f)
      (bind_run (mrsh_run_word (i_fuel J) h (i_program J) w s) f)" for w s f
    by (intro fuel_mono le_interpD [OF assms])
  then show ?thesis
    by (auto simp: expand_str_def split: sum.splits parse_stop.splits option.splits)
qed

lemma le_get_ps4 [fuel_mono]:
  assumes "le_interp I J"
  shows "le_run (mrsh_get_ps4 h I s) (mrsh_get_ps4 h J s)"
  unfolding mrsh_get_ps4_def expand_ps_def by (intro fuel_mono assms le_interpD [OF assms])

lemma le_case_simple [fuel_mono]:
  "(\<And>name args rs as. le_run (f name args rs as) (g name args rs as)) \<Longrightarrow>
    le_run (case c of SimpleCommand (Some name) args rs as \<Rightarrow> f name args rs as | _ \<Rightarrow> Inl Crash)
           (case c of SimpleCommand (Some name) args rs as \<Rightarrow> g name args rs as | _ \<Rightarrow> Inl Crash)"
  by (cases c) (auto split: option.split)

lemma le_simple_command [fuel_mono]:
  assumes "le_interp I J"
  shows "le_run (run_simple_command h I ctx name args rs as s) (run_simple_command h J ctx name args rs as s)"
  unfolding run_simple_command_def by (intro fuel_mono le_interpD [OF assms] assms)

section \<open>Pipelines, lists and compound commands\<close>

lemma le_pipeline_loop [fuel_mono]:
  assumes "le_interp I J"
  shows "le_run (pipeline_loop h I ctx cmds fd procs s) (pipeline_loop h J ctx cmds fd procs s)"
proof (induction cmds arbitrary: fd procs s)
  case (Cons c cmds)
  show ?case
    unfolding pipeline_loop.simps pipeline_child_def
    by (intro fuel_mono le_interpD [OF assms] Cons.IH)
qed simp

lemma le_run_pipeline [fuel_mono]:
  assumes "le_interp I J"
  shows "le_run (run_pipeline h I ctx cmds bang bp s) (run_pipeline h J ctx cmds bang bp s)"
  unfolding run_pipeline_def by (intro fuel_mono le_interpD [OF assms] assms)

lemma le_and_or_list [fuel_mono]:
  assumes "le_interp I J"
  shows "le_run (run_and_or_list h I ctx aol s) (run_and_or_list h J ctx aol s)"
proof (induction "size aol" arbitrary: aol s rule: less_induct)
  case less
  show ?case
  proof (cases aol)
    case (Binop t l r op)
    show ?thesis
      unfolding Binop run_and_or_list.simps by (intro fuel_mono less) (simp_all add: Binop)
  qed (simp add: fuel_mono assms)
qed

lemma le_async_child [fuel_mono]:
  assumes "le_interp I J"
  shows "le_run (async_child h I ctx aol s) (async_child h J ctx aol s)"
  unfolding async_child_def by (intro fuel_mono assms)

lemma le_command_lists [fuel_mono]:
  assumes "le_interp I J"
  shows "le_run (run_command_list_array h I ctx ret cls s) (run_command_list_array h J ctx ret cls s)"
proof (induction cls arbitrary: ret s)
  case (Cons cl cls)
  show ?case
    by (cases cl) (simp only: run_command_list_array.simps, intro fuel_mono assms Cons.IH)
qed simp

lemma le_loop_turns [fuel_mono]:
  assumes "le_interp I J"
  shows "n \<le> m \<Longrightarrow> le_run (loop_turns n h I ctx t k ret cond body s) (loop_turns m h J ctx t k ret cond body s)"
proof (induction n arbitrary: m ret cond body s)
  case (Suc n)
  then obtain m' where m: "m = Suc m'" "n \<le> m'"
    by (cases m) auto
  show ?case
    unfolding m(1) loop_turns.simps by (intro fuel_mono assms Suc.IH m(2))
qed simp

lemma le_for_turns [fuel_mono]:
  assumes "le_interp I J"
  shows "le_run (for_turns h I ctx name k ret fs body s) (for_turns h J ctx name k ret fs body s)"
proof (induction fs arbitrary: ret body s)
  case (Cons f fs)
  show ?case
    unfolding for_turns.simps by (intro fuel_mono assms Cons.IH)
qed simp

lemma le_case_patterns [fuel_mono]:
  assumes "le_interp I J"
  shows "le_run (case_patterns h I subject ps s) (case_patterns h J subject ps s)"
proof (induction ps arbitrary: s)
  case (Cons p ps)
  show ?case
    unfolding case_patterns.simps by (intro fuel_mono le_interpD [OF assms] Cons.IH)
qed simp

lemma le_case_items [fuel_mono]:
  assumes "le_interp I J"
  shows "le_run (case_items h I ctx subject is s) (case_items h J ctx subject is s)"
proof (induction "is" arbitrary: s)
  case (Cons i "is")
  show ?case
    by (cases i) (simp only: case_items.simps, intro fuel_mono assms Cons.IH)
qed simp

lemma le_subshell_child [fuel_mono]:
  assumes "le_interp I J"
  shows "le_run (subshell_child h I ctx body s) (subshell_child h J ctx body s)"
  unfolding subshell_child_def by (intro fuel_mono assms)

lemma le_run_command:
  assumes "le_interp I J"
  shows "le_run (run_command h I ctx c s) (run_command h J ctx c s)"
  by (cases c; simp only: run_command.simps run_subshell_def run_if_clause_def
        run_loop_clause_def run_for_clause_def run_case_clause_def;
      intro fuel_mono assms le_interpD [OF assms])

lemma le_run_program:
  assumes "le_interp I J"
  shows "le_run (mrsh_run_program h I p s) (mrsh_run_program h J p s)"
  by (cases p) (simp, intro fuel_mono assms le_interpD [OF assms])

lemma le_interp_more: "n \<le> m \<Longrightarrow> le_interp (interp n h) (interp m h)"
proof (induction n arbitrary: m)
  case 0
  then show ?case by (simp add: le_interp_def le_programs_def)
next
  case (Suc n)
  then obtain m' where m: "m = Suc m'" "le_interp (interp n h) (interp m' h)" "n \<le> m'"
    by (cases m) auto
  show ?case
    unfolding m(1) le_interp_def le_programs_def interp_Suc
    by (intro conjI allI m(3) le_run_command le_run_program le_run_builtin m(2))
qed

end
