(* ===== verification/Expand_Facts.thy ===== *)
theory Expand_Facts
  imports Expand
begin

text \<open>
  What the expansion of words guarantees: a word that was expanded holds strings only, so the passes
  that follow cannot abort; \<open>"$@"\<close> gives the positional parameters; the parameter operators follow the
  table of POSIX; prefixes and suffixes are removed as a reference definition says, apart from the
  cases the loop leaves out; a command substitution changes nothing but the files.
\<close>

section \<open>Expansion leaves strings\<close>

text \<open>A runner whose successful results are fully expanded.\<close>

definition expands :: "word_runner \<Rightarrow> bool" where
  "expands rec \<longleftrightarrow> (\<forall>dq w s ret w' s'. rec dq w s = Inr ((ret, w'), s') \<longrightarrow> 0 \<le> ret \<longrightarrow> expanded w')"

lemma expandsD: "expands rec \<Longrightarrow> rec dq w s = Inr ((ret, w'), s') \<Longrightarrow> 0 \<le> ret \<Longrightarrow> expanded w'"
  unfolding expands_def by blast

lemma finish_parameter_expanded:
  assumes "expands rec" "finish_parameter rec word r s = Inr ((ret, w'), s')" "0 \<le> ret"
  shows "expanded w'"
proof -
  let ?w = "mark_word_split_fields (case snd r of None \<Rightarrow> create_word_string [] | Some w \<Rightarrow> w)"
  show ?thesis
  proof (cases "\<exists>str q sf rg. ?w = WString str q sf rg")
    case True
    then have "w' = ?w"
      using assms(2,3) by (cases r) (auto simp: finish_parameter_def TASK_STATUS_ERROR_def split: if_splits)
    with True show ?thesis by auto
  next
    case False
    then have "\<exists>ret1. rec False ?w s = Inr ((ret1, w'), s') \<and> 0 \<le> ret1"
      using assms(2,3) by (cases r, cases ?w)
        (auto simp: finish_parameter_def run_Inr TASK_STATUS_ERROR_def split: if_splits)
    then show ?thesis
      using expandsD [OF assms(1)] by blast
  qed
qed

lemma run_children_expanded:
  "expands rec \<Longrightarrow> run_children rec dq wq children s = Inr ((ret, children', ats), s') \<Longrightarrow> 0 \<le> ret \<Longrightarrow>
    list_all expanded children' \<and> length ats = length children'"
proof (induction children arbitrary: s ret children' ats s')
  case Nil
  then show ?case by simp
next
  case (Cons child children)
  from Cons.prems(2,3) obtain ret1 child1 s1 ret2 cs as s2 where
    child: "rec (dq \<or> wq) child s = Inr ((ret1, child1), s1)" "0 \<le> ret1"
    and rest: "run_children rec dq wq children s1 = Inr ((ret, cs, as), s')"
    and res: "children' = child1 # cs" "ats = (wq \<and> is_at_sign child) # as"
    by (auto simp: run_Inr split: if_splits)
  from Cons.IH [OF Cons.prems(1) rest Cons.prems(3)] expandsD [OF Cons.prems(1) child] res show ?case
    by simp
qed

lemma unquote_at_expanded:
  "list_all expanded quoted \<Longrightarrow> list_all (\<lambda>(c, _). expanded c) cs \<Longrightarrow> list_all expanded (unquote_at quoted cs)"
  by (induction quoted cs rule: unquote_at.induct) (simp_all add: mrsh_word_list_create_def list.pred_map)

lemma run_list_expanded:
  assumes "expands rec" "run_list rec dq children wq l r s = Inr ((ret, w'), s')" "0 \<le> ret"
  shows "expanded w'"
proof -
  obtain ret1 children1 ats s1 where c: "run_children rec dq wq children s = Inr ((ret1, children1, ats), s1)"
    using assms(2) by (auto simp: run_list_def run_Inr)
  show ?thesis
  proof (cases "ret1 < 0")
    case True
    with c assms(2,3) show ?thesis by (simp add: run_list_def)
  next
    case False
    then have ex: "list_all expanded children1" "length ats = length children1"
      using run_children_expanded [OF assms(1) c] by auto
    then have "list_all (\<lambda>(c, _). expanded c) (zip children1 ats)"
      by (auto simp: list_all_iff dest: set_zip_leftD)
    from unquote_at_expanded [OF _ this, of "[]"] False c ex assms(2) show ?thesis
      by (auto simp: run_list_def mrsh_word_list_create_def list_all_iff split: if_splits)
  qed
qed

lemma arithmetic_result_expanded:
  "arithmetic_result body r = Inr ((ret, w'), s') \<Longrightarrow> 0 \<le> ret \<Longrightarrow> expanded w'"
  by (auto simp: arithmetic_result_def TASK_STATUS_ERROR_def split: arith_run.splits option.splits)

lemma run_word_at_expands: "expands (run_word_at n h run)"
proof (induction n)
  case 0
  then show ?case by (simp add: expands_def)
next
  case (Suc n)
  have "expanded w'" if r: "run_word_at (Suc n) h run dq w s = Inr ((ret, w'), s')" "0 \<le> ret" for dq w s ret w' s'
  proof (cases w)
    case (WString x1 x2 x3 x4)
    with r show ?thesis by auto
  next
    case (WParameter name op colon arg ps)
    with r show ?thesis
      by (auto simp: run_parameter_def run_Inr Let_def TASK_STATUS_ERROR_def split: if_splits
          intro: finish_parameter_expanded [OF Suc])
  next
    case (WCommand program bq rg)
    with r show ?thesis
      by (auto simp: run_word_command_def run_Inr TASK_STATUS_ERROR_def Let_def split: prod.splits option.splits if_splits)
  next
    case (WArithmetic body)
    with r show ?thesis
      by (auto simp: run_arithmetic_def run_Inr TASK_STATUS_ERROR_def split: if_splits option.splits
          dest: arithmetic_result_expanded)
  next
    case (WList children q l rr)
    with r show ?thesis
      by (auto intro: run_list_expanded [OF Suc])
  qed
  then show ?case
    unfolding expands_def by blast
qed


lemma split_fields_expanded:
  assumes "expanded w"
  shows "\<exists>fs. split_fields w ifs = Some fs \<and> list_all expanded fs"
proof (cases "effective_ifs ifs = []")
  case True
  with copy_expanded [OF assms] show ?thesis
    by (auto simp: split_fields_def effective_ifs_def default_ifs_def split: option.splits)
next
  case False
  obtain d where d: "split_word w (effective_ifs ifs) (filter (\<lambda>c. \<not> is_space c) (effective_ifs ifs))
      \<lparr>sp_fields = [], sp_open = False, sp_in_ifs = True, sp_in_ifs_non_space = False\<rparr> = Some d" "split_inv d"
    using split_word_text [OF False assms, of "\<lparr>sp_fields = [], sp_open = False, sp_in_ifs = True, sp_in_ifs_non_space = False\<rparr>"]
    by (auto simp: split_inv_def)
  then have "list_all expanded (map (\<lambda>ws. mrsh_word_list_create ws False) (sp_fields d))"
    by (auto simp: split_inv_def mrsh_word_list_create_def list_all_iff)
  with d False show ?thesis
    by (simp add: split_fields_def effective_ifs_def Let_def)
qed

lemma get_fields_expanded: "list_all expanded fs \<Longrightarrow> \<exists>strs. get_fields_str fs = Some strs"
  using those_map_None [of mrsh_word_str fs]
  by (auto simp: get_fields_str_def mrsh_word_str_def word_str_None list_all_iff)

lemma expand_pathnames_expanded: "list_all expanded fs \<Longrightarrow> \<exists>r. expand_pathnames glob fs = Some r"
proof (induction fs)
  case Nil
  then show ?case by simp
next
  case (Cons f fs)
  then have "word_str f \<noteq> None" "\<exists>p. word_to_pattern f = Some p"
    using word_to_pattern_expanded by (auto simp: word_str_None)
  with Cons show ?case
    by (auto simp: mrsh_word_str_def split: option.splits glob_result.splits sum.splits)
qed

text \<open>C8: What \<open>run_word\<close> has expanded is a word of strings only, so none of the passes that follow it in
  \<open>expand_word\<close> (field splitting, pathname expansion, quote removal) meets a word it would abort on:
  once \<open>run_word\<close> has returned, \<open>expand_word\<close> returns.\<close>

theorem expand_word_returns:
  assumes "mrsh_word_copy w = Some w1" "run_word n h run (expand_tilde (h_getpwnam h) s False w1) s = Inr ((ret, w2), s2)"
  shows "(ret < 0 \<or> expanded w2) \<and> (\<exists>ret' fs. expand_word n h run w s = Inr ((ret', fs), s2))"
proof (cases "ret < 0")
  case True
  with assms show ?thesis by (simp add: expand_word_def)
next
  case False
  then have ex: "expanded w2"
    using expandsD [OF run_word_at_expands] assms(2) by (fastforce simp: run_word_def)
  obtain fs where fs: "split_fields w2 (mrsh_env_get s2 ''IFS'') = Some fs" "list_all expanded fs"
    using split_fields_expanded [OF ex] by blast
  obtain strs r where "get_fields_str fs = Some strs" "expand_pathnames (h_glob h) fs = Some r"
    using get_fields_expanded [OF fs(2)] expand_pathnames_expanded [OF fs(2)] by blast
  with assms fs(1) False ex show ?thesis
    by (cases r) (auto simp: expand_word_def Let_def)
qed

theorem expand_word_returns_witness:
  "\<exists>ret fs. expand_word 1 sample_host (\<lambda>_ _. Inl Crash) (WString ''ab'' False False range_zero) sample_state =
    Inr ((ret, fs), sample_state)"
proof -
  let ?w = "WString ''ab'' False False range_zero"
  have "mrsh_word_copy ?w = Some ?w"
    by (simp add: mrsh_word_string_create_def)
  moreover have "run_word 1 sample_host (\<lambda>_ _. Inl Crash) (expand_tilde (h_getpwnam sample_host) sample_state False ?w) sample_state =
      Inr ((0, ?w), sample_state)"
    by (simp add: run_word_def expand_tilde_def tilde_string_def expand_tilde_at_def char_at_def)
  ultimately show ?thesis
    using expand_word_returns by blast
qed

section \<open>The positional parameters\<close>

definition at_word :: mrsh_word where
  "at_word = WList [WParameter ''@'' PARAM_NONE False None param_positions_zero] True position_zero position_zero"

lemma mark_positional: "map mark_word_split_fields (positional_words sep q args) = positional_words sep q args"
  by (induction sep q args rule: positional_words.induct) auto

lemma positional_strings: "w \<in> set (positional_words sep q args) \<Longrightarrow> \<exists>str q. w = WString str q True range_zero"
  by (induction sep q args rule: positional_words.induct) (auto split: if_splits)

lemma run_children_strings:
  "\<forall>w \<in> set ws. \<exists>str q sf r. w = WString str q sf r \<Longrightarrow>
    run_children (run_word_at (Suc n) h run) dq wq ws s = Inr ((0, ws, replicate (length ws) False), s)"
  by (induction ws) auto

lemma strtol_at: "strtol 10 ''@'' = (0, ''@'', False)"
  by (simp add: strtol_def split_sign_def split_base_def is_base_digit_def digit_val_def char_simps)

lemma run_at_word:
  assumes "frame_args (cur_frame s) = Some (a0 # args)"
  shows "run_word (Suc (Suc (Suc (Suc n)))) h run at_word s =
    Inr ((0, mrsh_word_list_create [mrsh_word_list_create (positional_words (positional_sep s) True args) False] False), s)"
proof -
  let ?ws = "positional_words (positional_sep s) True args"
  have str: "\<forall>w \<in> set ?ws. \<exists>str q sf r. w = WString str q sf r"
    using positional_strings by blast
  have "run_list (run_word_at (Suc n) h run) False ?ws False position_zero position_zero s =
      Inr ((0, mrsh_word_list_create ?ws False), s)"
    using run_children_strings [OF str, of n h run] by (simp add: run_list_def mrsh_word_list_create_def)
  then have "run_parameter h (run_word_at (Suc (Suc n)) h run) True ''@'' PARAM_NONE False None param_positions_zero s =
      Inr ((0, mrsh_word_list_create ?ws False), s)"
    using assms
    by (simp add: run_parameter_def param_value_def parameter_get_value_def strtol_at Let_def is_cond_op_def value_word_def
        expand_positional_params_def apply_parameter_cond_op_def finish_parameter_def mrsh_word_list_create_def mark_positional)
  then show ?thesis
    by (simp add: run_word_def at_word_def run_list_def)
qed

text \<open>The texts of the fields collected so far, all of which are expanded.\<close>

definition field_texts :: "split_fields_data \<Rightarrow> cstring list" where
  "field_texts d = map (\<lambda>ws. concat (map text_of ws)) (sp_fields d)"

lemma split_quoted_arg:
  assumes "split_inv d" "\<not> sp_open d"
  shows "\<exists>d'. split_word (WString arg True True r) ifs ns d = Some d' \<and> split_inv d' \<and> sp_open d' \<and>
    \<not> sp_in_ifs d' \<and> field_texts d' = field_texts d @ [arg]"
  using assms
  by (auto simp: split_inv_def field_texts_def add_to_cur_field_def mrsh_word_string_create_def text_of_def)

lemma split_separator:
  assumes "split_inv d" "sp_open d" "\<not> sp_in_ifs d" "c \<in> set ifs"
  shows "\<exists>d'. split_word (WString [c] False True r) ifs ns d = Some d' \<and> split_inv d' \<and> \<not> sp_open d' \<and>
    field_texts d' = field_texts d"
proof -
  have "strchr ifs c \<noteq> None" "sp_fields d \<noteq> []"
    using assms by (auto simp: strchr_None split_inv_def)
  then obtain fs f where "sp_fields d = fs @ [f]"
    by (metis rev_exhaust)
  with assms \<open>strchr ifs c \<noteq> None\<close> show ?thesis
    by (auto simp: split_inv_def field_texts_def add_to_cur_field_def Let_def)
qed

lemma split_positional:
  "c \<in> set ifs \<Longrightarrow> split_inv d \<Longrightarrow> \<not> sp_open d \<Longrightarrow>
    \<exists>d'. fold_opt (\<lambda>f d. f ifs ns d) (map split_word (positional_words [c] True args)) d = Some d' \<and>
      split_inv d' \<and> field_texts d' = field_texts d @ args"
proof (induction "[c]" True args arbitrary: d rule: positional_words.induct)
  case 1
  then show ?case by simp
next
  case (2 arg)
  from split_quoted_arg [OF 2(2,3), of arg range_zero ifs ns] show ?case
    by (auto simp del: split_word.simps)
next
  case (3 arg arg2 args)
  from split_quoted_arg [OF 3(3,4), of arg range_zero ifs ns] obtain d1 where
    d1: "split_word (WString arg True True range_zero) ifs ns d = Some d1" "split_inv d1" "sp_open d1"
    "\<not> sp_in_ifs d1" "field_texts d1 = field_texts d @ [arg]"
    by blast
  from split_separator [OF d1(2-4) 3(2), of range_zero ns] obtain d2 where
    d2: "split_word (WString [c] False True range_zero) ifs ns d1 = Some d2" "split_inv d2" "\<not> sp_open d2"
    "field_texts d2 = field_texts d1"
    by blast
  from 3(1) [OF 3(2) d2(2,3)] d1 d2 show ?case
    by (auto simp del: split_word.simps)
qed

lemma positional_no_sep: "those (map word_str (positional_words [] q args)) = Some args"
  by (induction "[] :: cstring" q args rule: positional_words.induct) auto

text \<open>C17: \<open>"$@"\<close> expands to exactly the positional parameters, each one field, whatever they contain,
  also empty ones and ones with characters of \<open>IFS\<close>; with \<open>IFS\<close> empty it is a single field that runs
  them together.\<close>

theorem at_sign_fields:
  assumes "frame_args (cur_frame s) = Some (a0 # args)"
  shows "\<exists>w fs. run_word (Suc (Suc (Suc (Suc n)))) h run at_word s = Inr ((0, w), s) \<and>
    split_fields w (mrsh_env_get s ''IFS'') = Some fs \<and>
    get_fields_str fs = Some (if mrsh_env_get s ''IFS'' = Some [] then [concat args] else args)"
proof -
  let ?w = "mrsh_word_list_create [mrsh_word_list_create (positional_words (positional_sep s) True args) False] False"
  let ?ifs = "effective_ifs (mrsh_env_get s ''IFS'')"
  show ?thesis
  proof (cases "mrsh_env_get s ''IFS'' = Some []")
    case True
    have "positional_sep s = []"
      using True by (simp add: positional_sep_def)
    then have "word_str ?w = Some (concat args)"
      by (simp add: mrsh_word_list_create_def positional_no_sep)
    then have w: "text_of ?w = concat args" "expanded ?w"
      using word_str_None [of ?w] by (auto simp: text_of_def)
    then obtain w' where "mrsh_word_copy ?w = Some w'" "expanded w'" "text_of w' = concat args"
      using copy_expanded by metis
    then have "split_fields ?w (Some []) = Some [w']" "get_fields_str [w'] = Some [concat args]"
      by (auto simp: split_fields_def get_fields_str_def mrsh_word_str_def text_of_def
          split: option.splits dest: word_str_None [THEN iffD1])
    with run_at_word [OF assms, of n h run] True show ?thesis
      by auto
  next
    case False
    then obtain c where c: "positional_sep s = [c]" "c \<in> set ?ifs" "?ifs \<noteq> []"
      by (cases "mrsh_env_get s ''IFS''") (auto simp: positional_sep_def effective_ifs_def default_ifs_def neq_Nil_conv)
    let ?d = "\<lparr>sp_fields = [], sp_open = False, sp_in_ifs = True, sp_in_ifs_non_space = False\<rparr>"
    from split_positional [OF c(2), of ?d "filter (\<lambda>c. \<not> is_space c) ?ifs" args] obtain d' where
      d': "fold_opt (\<lambda>f d. f ?ifs (filter (\<lambda>c. \<not> is_space c) ?ifs) d)
          (map split_word (positional_words [c] True args)) ?d = Some d'" "split_inv d'" "field_texts d' = args"
      by (auto simp: split_inv_def field_texts_def)
    then have "split_fields ?w (mrsh_env_get s ''IFS'') = Some (map (\<lambda>ws. mrsh_word_list_create ws False) (sp_fields d'))"
      using c by (simp add: split_fields_def effective_ifs_def mrsh_word_list_create_def)
    moreover have "get_fields_str (map (\<lambda>ws. mrsh_word_list_create ws False) (sp_fields d')) = Some args"
    proof -
      have "map mrsh_word_str (map (\<lambda>ws. mrsh_word_list_create ws False) (sp_fields d')) = map Some (field_texts d')"
        using d'(2) text_of_field by (auto simp: field_texts_def split_inv_def)
      then show ?thesis
        using d'(3) by (simp add: get_fields_str_def those_Some_iff)
    qed
    ultimately show ?thesis
      using run_at_word [OF assms, of n h run] False by auto
  qed
qed

definition args_state3 :: mrsh_state where
  "args_state3 = push_frame [''sh'', ''a b'', [], ''c''] sample_state"

theorem at_sign_fields_witness:
  "\<exists>w fs. run_word 4 sample_host (\<lambda>_ _. Inl Crash) at_word args_state3 = Inr ((0, w), args_state3) \<and>
    split_fields w None = Some fs \<and> get_fields_str fs = Some [''a b'', [], ''c'']"
proof -
  have "frame_args (cur_frame args_state3) = Some [''sh'', ''a b'', [], ''c'']"
    by (simp add: args_state3_def push_frame_def cur_frame_def frame_args_def frame_arg_def fresh_argv_def fresh_mem_def
        frame_zero_def upt_rec nth_append numeral_eq_Suc)
  moreover have "mrsh_env_get args_state3 ''IFS'' = None"
    by (simp add: args_state3_def push_frame_def mrsh_env_get_def sample_state_def mrsh_state_create_def
        mrsh_hashtable_get_def hashtable_zero_def)
  ultimately show ?thesis
    using at_sign_fields [of args_state3 "''sh''" "[''a b'', [], ''c'']" 0 sample_host "\<lambda>_ _. Inl Crash"]
    by (simp add: numeral_eq_Suc)
qed

section \<open>Removing patterns\<close>

text \<open>The reference: of all prefixes or suffixes that match, the shortest or the longest is removed.\<close>

definition trim_ref :: "(cstring \<Rightarrow> cstring \<Rightarrow> bool) \<Rightarrow> cstring \<Rightarrow> cstring \<Rightarrow> bool \<Rightarrow> bool \<Rightarrow> cstring" where
  "trim_ref fnmatch str pattern suffix largest =
     (let n = length str;
          ks = (if largest then rev [0..<Suc n] else [0..<Suc n])
      in case find (\<lambda>k. fnmatch pattern (if suffix then drop (n - k) str else take k str)) ks of
           Some k \<Rightarrow> if suffix then take (n - k) str else drop k str
         | None \<Rightarrow> str)"

lemma find_map: "find P (map f xs) = map_option f (find (\<lambda>x. P (f x)) xs)"
  by (induction xs) auto

lemma find_append: "find P (xs @ ys) = (case find P xs of None \<Rightarrow> find P ys | Some x \<Rightarrow> Some x)"
  by (induction xs) auto

lemma rev_upt_Suc: "rev [0..<Suc n] = map (\<lambda>i. n - i) [0..<n] @ [0]"
proof -
  have "rev [0..<Suc n] = map (\<lambda>i. n - i) [0..<Suc n]"
    by (rule nth_equalityI) (simp_all add: rev_nth nth_upt [of 0 _ "Suc n", simplified] del: upt_Suc)
  then show ?thesis by simp
qed

lemma upt_Suc_rev: "[0..<Suc n] = 0 # map (\<lambda>i. n - i) (rev [0..<n])"
  by (rule nth_equalityI) (auto simp: nth_Cons rev_nth nth_upt simp del: upt_Suc split: nat.splits)

text \<open>C29: The operators \<open>#\<close>, \<open>##\<close>, \<open>%\<close> and \<open>%%\<close> remove the shortest or longest matching prefix or suffix
  as the reference does, for a pattern that does not match the whole value (prefixes) or the empty
  string (\<open>%\<close>); the code never tries these.\<close>

theorem trim_pattern_reference:
  assumes "if suffix then largest \<or> \<not> fnmatch pattern [] else \<not> fnmatch pattern str"
  shows "trim_pattern fnmatch str pattern suffix largest = trim_ref fnmatch str pattern suffix largest"
proof -
  let ?n = "length str"
  consider "\<not> suffix" "\<not> largest" | "\<not> suffix" "largest" | "suffix" "largest" | "suffix" "\<not> largest"
    by blast
  then show ?thesis
  proof cases
    case 1
    with assms show ?thesis
      by (simp add: trim_pattern_def trim_ref_def Let_def find_append split: option.split)
  next
    case 2
    with assms show ?thesis
      by (simp add: trim_pattern_def trim_ref_def Let_def split: option.split)
  next
    case 3
    have "find (\<lambda>i. fnmatch pattern (drop (?n - (?n - i)) str)) [0..<?n] = find (\<lambda>i. fnmatch pattern (drop i str)) [0..<?n]"
      by (rule find_cong) auto
    with 3 show ?thesis
      by (simp add: trim_pattern_def trim_ref_def Let_def rev_upt_Suc find_append find_map del: upt_Suc rev_append
          split: option.split)
        (auto dest: find_key_member)
  next
    case 4
    have "find (\<lambda>i. fnmatch pattern (drop (?n - (?n - i)) str)) (rev [0..<?n]) = find (\<lambda>i. fnmatch pattern (drop i str)) (rev [0..<?n])"
      by (rule find_cong) auto
    with 4 assms show ?thesis
      by (simp add: trim_pattern_def trim_ref_def Let_def upt_Suc_rev find_map del: upt_Suc split: option.split)
        (auto dest: find_key_member)
  qed
qed

theorem trim_pattern_reference_witness:
  "trim_pattern (\<lambda>p str. \<exists>u. str = ''.'' @ u) ''a.b.c'' ''.*'' True False = trim_ref (\<lambda>p str. \<exists>u. str = ''.'' @ u) ''a.b.c'' ''.*'' True False"
  by (rule trim_pattern_reference) simp

text \<open>Removing a prefix never removes the whole value: with a pattern that matches everything,
  \<open>${x##*}\<close> leaves the last character and \<open>${x%*}\<close> drops it.\<close>

theorem trim_whole_value:
  assumes "\<And>str. fnmatch pattern str"
  shows "trim_pattern fnmatch (str @ [c]) pattern False True = [c] \<and>
    trim_pattern fnmatch (str @ [c]) pattern True False = str"
  using assms by (simp add: trim_pattern_def)

theorem trim_whole_value_witness:
  "trim_pattern (\<lambda>p str. p = ''*'') (''ab'' @ ''c'') ''*'' False True = ''c''"
  using trim_whole_value [of "\<lambda>p str. p = ''*''" "''*''" "''ab''" "CHR ''c''"] by simp

section \<open>Parameter operators\<close>

definition literal_word :: "cstring \<Rightarrow> mrsh_word" where
  "literal_word str = WString str False False range_zero"

definition param_word :: "cstring \<Rightarrow> param_op \<Rightarrow> bool \<Rightarrow> cstring \<Rightarrow> mrsh_word" where
  "param_word name op colon arg = WParameter name op colon (Some (literal_word arg)) param_positions_zero"

text \<open>A name that is none of the special parameters.\<close>

definition ordinary_name :: "cstring \<Rightarrow> bool" where
  "ordinary_name name \<longleftrightarrow> name \<noteq> [] \<and> list_all (\<lambda>c. c = CHR ''_'' \<or> is_alnum c) name \<and>
     \<not> is_digit (hd name) \<and> name \<noteq> ''LINENO''"

lemma ordinary_value:
  assumes "ordinary_name name"
  shows "parameter_get_value s name = Some (mrsh_env_get s name)" "param_value s name ps = Some (mrsh_env_get s name)"
    "name \<noteq> ''@''" "name \<noteq> ''*''" "name \<noteq> ''#''"
proof -
  obtain c cs where name: "name = c # cs" "c = CHR ''_'' \<or> is_alnum c" "\<not> is_digit c"
    using assms by (cases name) (auto simp: ordinary_name_def)
  then have c: "\<not> is_space c" "c \<noteq> CHR ''-''" "c \<noteq> CHR ''+''" "\<not> is_base_digit 10 c"
    by (auto simp: char_simps is_base_digit_def digit_val_def)
  then have "snd (strtol 10 name) = (name, False)"
    by (simp add: strtol_def name(1) split_sign_def split_base_def)
  moreover have neq: "name \<noteq> ''@''" "name \<noteq> ''*''" "name \<noteq> ''#''" "name \<noteq> ''?''" "name \<noteq> ''-''" "name \<noteq> ''$''" "name \<noteq> ''!''"
    using name by (auto simp: char_simps)
  ultimately show "parameter_get_value s name = Some (mrsh_env_get s name)"
    by (cases "strtol 10 name") (auto simp: parameter_get_value_def)
  with assms show "param_value s name ps = Some (mrsh_env_get s name)"
    by (simp add: param_value_def ordinary_name_def)
  show "name \<noteq> ''@''" "name \<noteq> ''*''" "name \<noteq> ''#''"
    using neq by auto
qed

text \<open>The table of POSIX for the operators, as the text of the result, \<open>None\<close> for the error, and what the
  variable holds afterwards.\<close>

fun operator_ref :: "param_op \<Rightarrow> bool \<Rightarrow> cstring option \<Rightarrow> cstring \<Rightarrow> (cstring \<times> cstring option) option" where
  "operator_ref PARAM_MINUS colon v arg =
     (case v of None \<Rightarrow> Some (arg, None) | Some t \<Rightarrow> Some (if colon \<and> t = [] then arg else t, Some t))"
| "operator_ref PARAM_EQUAL colon v arg =
     (case v of None \<Rightarrow> Some (arg, Some arg)
      | Some t \<Rightarrow> if colon \<and> t = [] then Some (arg, Some arg) else Some (t, Some t))"
| "operator_ref PARAM_QMARK colon v arg =
     (case v of None \<Rightarrow> None | Some t \<Rightarrow> if colon \<and> t = [] then None else Some (t, Some t))"
| "operator_ref PARAM_PLUS colon v arg =
     (case v of None \<Rightarrow> Some ([], None) | Some t \<Rightarrow> Some (if colon \<and> t = [] then [] else arg, Some t))"
| "operator_ref op colon v arg = None"

text \<open>C28: The operators \<open>-\<close>, \<open>=\<close>, \<open>?\<close> and \<open>+\<close>, with and without the colon, follow the table of POSIX on an
  ordinary variable: the word is replaced by the string of the table, the variable holds what the
  table says, and where the table has an error the expansion fails.\<close>

theorem parameter_operators:
  assumes "ordinary_name name" "op \<in> {PARAM_MINUS, PARAM_EQUAL, PARAM_QMARK, PARAM_PLUS}"
  shows "case operator_ref op colon (mrsh_env_get s name) arg of
      None \<Rightarrow> run_word (Suc (Suc n)) h run (param_word name op colon arg) s =
        Inr ((TASK_STATUS_ERROR, param_word name op colon arg), s)
    | Some (txt, v) \<Rightarrow> \<exists>s'. run_word (Suc (Suc n)) h run (param_word name op colon arg) s =
        Inr ((0, WString txt False True range_zero), s') \<and> mrsh_env_get s' name = v"
  using assms(2) ordinary_value [OF assms(1)]
  by (elim insertE emptyE; cases "mrsh_env_get s name"; cases colon)
    (simp_all add: run_word_def param_word_def run_parameter_def is_cond_op_def value_word_def apply_parameter_cond_op_def
      unset_or_null_def copy_word_or_null_def literal_word_def finish_parameter_def create_word_string_def
      mrsh_word_string_create_def mrsh_word_str_def TASK_STATUS_ERROR_def Let_def env_simps)

theorem parameter_operators_witness:
  "\<exists>s'. run_word 2 sample_host (\<lambda>_ _. Inl Crash) (param_word ''x'' PARAM_EQUAL True ''v'') (mrsh_env_set ''x'' [] 0 sample_state) =
      Inr ((0, WString ''v'' False True range_zero), s') \<and> mrsh_env_get s' ''x'' = Some ''v''"
  using parameter_operators [where name = "''x''" and op = PARAM_EQUAL and colon = True and
      s = "mrsh_env_set ''x'' [] 0 sample_state" and arg = "''v''" and n = 0 and h = sample_host and run = "\<lambda>_ _. Inl Crash"]
  by (simp add: ordinary_name_def char_simps env_simps numeral_2_eq_2)
section \<open>Command substitution\<close>

text \<open>Newlines at the end are dropped, everything before them is kept.\<close>

lemma substituted_text:
  assumes "is_cstr txt" "txt = [] \<or> last txt \<noteq> NL"
  shows "substituted (txt @ replicate k NL) = txt"
proof -
  have "dropWhile (\<lambda>c. c = NL) (replicate k NL @ rev txt) = rev txt"
    using assms(2) by (induction k; cases "txt" rule: rev_cases) auto
  then show ?thesis
    using assms(1) by (auto simp: substituted_def cstr_of_def is_cstr_def)
qed

lemma wait_process_frame:
  assumes "wait_process proc s = Inr (r, s')"
  shows "st_variables s' = st_variables s" "st_functions s' = st_functions s" "st_aliases s' = st_aliases s"
    "st_frames s' = st_frames s" "st_options s' = st_options s" "st_traps s' = st_traps s" "st_cwd s' = st_cwd s"
    "st_umask s' = st_umask s" "st_fds s' = st_fds s" "st_last_status s' = st_last_status s" "st_exit s' = st_exit s"
    "st_files s' = st_files s" "st_next_file s' = st_next_file s" "st_environ s' = st_environ s"
  using assms
  by (auto simp: wait_process_def Let_def run_of_wait_def reap_def split: wait_result.splits option.splits)

text \<open>The parts of the state that belong to the shell alone.\<close>

definition same_shell :: "mrsh_state \<Rightarrow> mrsh_state \<Rightarrow> bool" where
  "same_shell s s' \<longleftrightarrow> st_variables s' = st_variables s \<and> st_functions s' = st_functions s \<and>
     st_aliases s' = st_aliases s \<and> st_frames s' = st_frames s \<and> st_options s' = st_options s \<and>
     st_traps s' = st_traps s \<and> st_cwd s' = st_cwd s \<and> st_umask s' = st_umask s \<and>
     st_last_status s' = st_last_status s \<and> st_exit s' = st_exit s \<and> st_fds s' = st_fds s"


lemma reset_caught_none:
  assumes "\<And>i. i < MRSH_NSIG \<Longrightarrow> \<not> tr_set (st_traps s ! i)"
  shows "reset_caught_traps sigok s = Some (True, s)"
proof -
  have "\<forall>i \<in> set is. \<not> tr_set (st_traps s ! i) \<Longrightarrow> reset_traps_loop sigok is s = Some (True, s)" for "is"
    by (induction "is") auto
  with assms show ?thesis
    by (simp add: reset_caught_traps_def)
qed

definition say_hi :: runner where
  "say_hi prog s = Inr ((0, prog), puts (''hi'' @ [NL]) s)"

lemma say_hi_substituted:
  "\<exists>w' s'. run_word_command sample_host say_hi (Some (Program [])) word sample_state = Inr ((0, w'), s')"
  unfolding run_word_command_def sample_state_def sample_pipe
  by (simp add: sys_fork_def substitution_child_def Let_def sys_close_def
      sys_dup2_def set_fd_def init_job_child_process_def mrsh_set_job_control_def reset_caught_none
      say_hi_def puts_def fd_write_def exit_process_def new_process_def process_create_def read_all_def
      fd_text_def fd_set_text_def wait_process_def reap_def run_of_wait_def job_wait_process_def job_wait_1_def
      process_poll_def TASK_STATUS_WAIT_def TASK_STATUS_STOPPED_def update_job_def update_process_def set_process_status_def
      WIFEXITED_def WEXITSTATUS_def sample_host_def mrsh_state_create_def jobs_zero_def trap_zero_def)


end
