(* ===== verification/Tasks_Facts.thy ===== *)
theory Tasks_Facts
  imports Tasks_Fuel Expand_Facts
begin

text \<open>
  What the execution of commands guarantees, and where it departs from what the shell means to do:
  how lists compose, that subshells and pipelines leave the shell as it was, how control flow
  interrupts a list.
\<close>

section \<open>The bound\<close>


section \<open>Commands of literal words\<close>

text \<open>A word that stands for itself.\<close>

definition plain :: "cstring \<Rightarrow> bool" where
  "plain str \<longleftrightarrow> CHR ''~'' \<notin> set str \<and> \<not> list_ex is_pathname_metachar str"

lemma plain_no_tilde:
  assumes "plain str" "b \<Longrightarrow> CHR '':'' \<notin> set str"
  shows "expand_tilde pw s b (literal_word str) = literal_word str"
proof -
  from assms(1) have no: "CHR ''~'' \<notin> set str"
    by (simp add: plain_def)
  have til: "only_at_tilde (\<lambda>str. expand_tilde_at pw s str True)"
    by (simp add: only_at_tilde_def expand_tilde_at_def)
  have "b \<Longrightarrow> strchr str (CHR '':'') = None"
    using assms(2) by (simp add: strchr_None)
  then show ?thesis
    using only_at_tilde_None [OF til no]
    by (cases b) (simp_all add: expand_tilde_def literal_word_def tilde_string_def tilde_colons.simps)
qed

lemma literal_copy [simp]: "mrsh_word_copy (literal_word str) = Some (literal_word str)"
  by (simp add: literal_word_def mrsh_word_string_create_def)

lemma literal_str [simp]: "mrsh_word_str (literal_word str) = Some str"
  by (simp add: literal_word_def mrsh_word_str_def)

lemma run_literal [simp]: "run_word (Suc n) h run (literal_word str) s = Inr ((0, literal_word str), s)"
  by (simp add: run_word_def literal_word_def)

lemma expand_literal:
  assumes "plain str"
  shows "expand_word (Suc n) h run (literal_word str) s = Inr ((0, [str]), s)"
proof -
  have pat: "word_to_pattern (literal_word str) = Some None"
    using assms by (simp add: literal_word_def word_to_pattern_def plain_def)
  then have pat1: "word_to_pattern (WList [literal_word str] False l r) = Some None" for l r
    using assms by (simp add: literal_word_def word_to_pattern_def plain_def)
  obtain f where "split_fields (literal_word str) (mrsh_env_get s ''IFS'') = Some [f]"
      "f = literal_word str \<or> (\<exists>l r. f = WList [literal_word str] False l r)"
    by (cases "effective_ifs (mrsh_env_get s ''IFS'') = []")
      (auto simp: split_fields_def effective_ifs_def literal_word_def add_to_cur_field_def mrsh_word_list_create_def
        mrsh_word_string_create_def Let_def)
  moreover from this(2) pat pat1 have "word_to_pattern f = Some None" "mrsh_word_str f = Some str"
    by (auto simp: mrsh_word_str_def literal_word_def)
  ultimately show ?thesis
    by (simp add: expand_word_def plain_no_tilde [OF assms] get_fields_str_def)
qed

lemma expand_literals:
  "list_all plain strs \<Longrightarrow> i_fuel I = Suc n \<Longrightarrow> expand_words h I (map literal_word strs) s = Inr ((0, strs), s)"
  by (induction strs arbitrary: s) (simp_all add: expand_literal)

fun simple :: "cstring list \<Rightarrow> mrsh_command" where
  "simple [] = SimpleCommand None [] [] []"
| "simple (name # args) = SimpleCommand (Some (literal_word name)) (map literal_word args) [] []"

lemma those_literals: "those (map (mrsh_word_copy \<circ> literal_word) args) = Some (map literal_word args)"
  by (induction args) simp_all

lemma simple_copy [simp]: "mrsh_command_copy (simple argv) = Some (simple argv)"
  by (cases argv) (simp_all add: those_literals)

lemma with_redirects_none [simp]: "with_redirects h [] f s = f s"
  by (simp add: with_redirects_def bind_run_def split: sum.splits)

text \<open>A simple command of literal words is run for its words, without assignments and redirections.\<close>

lemma run_simple:
  assumes "list_all plain (name # args)" "i_fuel I = Suc n" "\<not> has_option (st_options s) MRSH_OPT_XTRACE"
  shows "run_command h I ctx (simple (name # args)) s =
    bind_run (dispatch h I ctx [] [] (name # args) s) (\<lambda>ret s. Inr ((ret, simple (name # args)), s))"
  using expand_literals [OF assms(1,2)] assms(3) simple_copy [of "name # args"]
  by (simp add: run_simple_command_def)

section \<open>Lists\<close>

lemma bind_run_return [simp]: "bind_run r (\<lambda>x s. Inr (x, s)) = r"
  by (auto simp: bind_run_def split: sum.splits)

definition one :: "mrsh_command \<Rightarrow> mrsh_command_list" where
  "one c = CommandList (Pipeline [c] False position_zero) False position_zero"

lemma run_one:
  assumes "cx_job ctx = Some j"
  shows "run_command_list_array h I ctx ret (one c # cls) s =
    bind_run (i_command I ctx c s) (\<lambda>(ret, c) s.
      if ret < 0 then Inr ((ret, one c # cls), s)
      else bind_run (run_command_list_array h I ctx ret cls (s\<lparr>st_last_status := ret\<rparr>)) (\<lambda>(ret, cls) s.
        Inr ((ret, one c # cls), s)))"
proof -
  have "run_and_or_list h I ctx (Pipeline [c] False position_zero) s =
      bind_run (i_command I ctx c s) (\<lambda>(ret, c) s. Inr ((ret, Pipeline [c] False position_zero), s))"
    using assms by (simp add: run_pipeline_def with_job_def negate_def)
  then show ?thesis
    by (auto simp: one_def bind_run_assoc split_def intro!: bind_run_cong)
qed

text \<open>A list of commands is run in sequence, and nothing after a command that fails with an error or is
  interrupted: the lists compose, the second part starting from the state and the status the first
  one leaves.\<close>

theorem command_lists_append:
  "run_command_list_array h I ctx ret (xs @ ys) s =
     bind_run (run_command_list_array h I ctx ret xs s) (\<lambda>(ret', xs') s.
       if ret' < 0 \<and> xs \<noteq> [] then Inr ((ret', xs' @ ys), s)
       else bind_run (run_command_list_array h I ctx ret' ys s) (\<lambda>(ret', ys') s. Inr ((ret', xs' @ ys'), s)))"
proof (induction xs arbitrary: ret s)
  case Nil
  then show ?case by (simp add: split_def)
next
  case (Cons cl xs)
  then show ?case
    by (cases cl) (auto simp: bind_run_assoc split_def Cons.IH TASK_STATUS_ERROR_def intro!: bind_run_cong)
qed

section \<open>Control flow\<close>

lemma control_builtins:
  "get_builtin ''continue'' = Some (''continue'', BuiltinBreak, True)"
  "get_builtin ''break'' = Some (''break'', BuiltinBreak, True)"
  "get_builtin ''exit'' = Some (''exit'', BuiltinExit, True)"
  "get_builtin ''return'' = Some (''return'', BuiltinReturn, True)"
  "get_builtin ''true'' = Some (''true'', BuiltinTrue, False)"
  by code_simp+

lemma plain_control [simp]:
  "plain ''continue''" "plain ''break''" "plain ''exit''" "plain ''return''"
  by (simp_all add: plain_def is_pathname_metachar_def)

definition for_in :: "cstring \<Rightarrow> cstring list \<Rightarrow> mrsh_command_list list \<Rightarrow> mrsh_command" where
  "for_in name ws body =
     ForClause name True (map literal_word ws) body range_zero range_zero range_zero range_zero range_zero"

text \<open>A state in which \<open>name\<close> runs the builtin, without tracing, outside of \<open>exit\<close>.\<close>

definition runs_builtin :: "cstring \<Rightarrow> mrsh_state \<Rightarrow> bool" where
  "runs_builtin name s \<longleftrightarrow> mrsh_hashtable_get (st_functions s) name = None \<and>
     \<not> has_option (st_options s) MRSH_OPT_XTRACE"

lemma runs_builtin_upd [simp]:
  "runs_builtin name (upd_frame f s) = runs_builtin name s"
  "runs_builtin name (mrsh_env_set k v a s) = runs_builtin name s"
  by (simp_all add: runs_builtin_def upd_frame_def mrsh_env_set_def)

lemma run_builtin_command:
  assumes "runs_builtin name s" "list_all plain (name # args)" "i_fuel I = Suc n" "mrsh_has_builtin name"
  shows "run_command h I ctx (simple (name # args)) s =
    bind_run (mrsh_run_builtin h I (name # args) s) (\<lambda>ret s. Inr ((ret, simple (name # args)), s))"
proof -
  have "\<not> has_option (st_options s) MRSH_OPT_XTRACE"
    using assms(1) by (simp add: runs_builtin_def)
  note r = run_simple [OF assms(2,3) this]
  show ?thesis
    unfolding r using assms(1,4) by (simp add: dispatch_def runs_builtin_def)
qed

lemma run_continue:
  assumes "runs_builtin ''continue'' s" "i_fuel I = Suc n" "0 < fr_nloops (cur_frame s)"
  shows "\<exists>s'. run_command h I ctx (simple [''continue'']) s = Inr ((TASK_STATUS_INTERRUPTED, simple [''continue'']), s') \<and>
    s' = upd_frame (\<lambda>fr. fr\<lparr>fr_branch_control := MRSH_BRANCH_CONTINUE\<rparr>) s"
proof -
  have "run_command h I ctx (simple [''continue'']) s =
      bind_run (mrsh_run_builtin h I [''continue''] s) (\<lambda>ret s. Inr ((ret, simple [''continue'']), s))"
    by (rule run_builtin_command) (use assms in \<open>simp_all add: mrsh_has_builtin_def control_builtins\<close>)
  moreover have "upd_frame (\<lambda>fr. fr\<lparr>fr_nloops := fr_nloops (cur_frame s), fr_branch_control := b\<rparr>) s =
      upd_frame (\<lambda>fr. fr\<lparr>fr_branch_control := b\<rparr>) s" for b
    by (simp add: upd_frame_def cur_frame_def)
  ultimately show ?thesis
    using assms(3) by (simp add: mrsh_run_builtin_def control_builtins builtin_break_def Let_def)
qed

lemma for_continue_turns:
  assumes "cx_job ctx = Some j" "i_command I = run_command h J" "i_fuel J = Suc n" "0 < loop_num"
  shows "runs_builtin ''continue'' s \<Longrightarrow> st_exit s = - 1 \<Longrightarrow> fr_nloops (cur_frame s) = loop_num \<Longrightarrow> fs \<noteq> [] \<Longrightarrow>
    \<exists>s'. for_turns h I ctx name loop_num loop_ret fs [one (simple [''continue''])] s =
      Inr ((Inr TASK_STATUS_INTERRUPTED, [one (simple [''continue''])]), s') \<and>
      mrsh_env_get s' name = Some (last fs)"
proof (induction fs arbitrary: s loop_ret)
  case Nil
  then show ?case by simp
next
  case (Cons f fs)
  let ?s = "mrsh_env_set name f MRSH_VAR_ATTRIB_NONE s"
  let ?s' = "upd_frame (\<lambda>fr. fr\<lparr>fr_branch_control := MRSH_BRANCH_CONTINUE\<rparr>) ?s"
  have frame: "cur_frame ?s = cur_frame s" "fr_nloops (cur_frame ?s') = loop_num"
      "fr_branch_control (cur_frame ?s') = MRSH_BRANCH_CONTINUE" "st_exit ?s' = - 1"
    using Cons.prems(2,3) by (simp_all add: cur_frame_def mrsh_env_set_def upd_frame_def)
  have "run_command h J ctx (simple [''continue'']) ?s = Inr ((TASK_STATUS_INTERRUPTED, simple [''continue'']), ?s')"
    using run_continue [of ?s J n h ctx] Cons.prems(1,3) assms(3,4) frame(1) by simp
  then have body: "run_lists h I ctx [one (simple [''continue''])] ?s =
      Inr ((TASK_STATUS_INTERRUPTED, [one (simple [''continue''])]), ?s')"
    using assms(1,2) by (simp add: run_one TASK_STATUS_INTERRUPTED_def)
  have next_turn: "for_turns h I ctx name loop_num loop_ret (f # fs) [one (simple [''continue''])] s =
      for_turns h I ctx name loop_num TASK_STATUS_INTERRUPTED fs [one (simple [''continue''])] ?s'"
    using body frame Cons.prems(2) by (simp add: loop_interrupted_def)
  show ?case
  proof (cases "fs = []")
    case True
    then show ?thesis
      unfolding next_turn by (simp add: env_simps upd_frame_def) (simp add: mrsh_env_get_def mrsh_env_set_def ht.get_set)
  next
    case False
    with Cons.IH [of ?s'] Cons.prems(1) frame show ?thesis
      unfolding next_turn by simp
  qed
qed

text \<open>A \<open>for\<close> loop whose last turn ends with \<open>continue\<close> gives the status of an interruption instead of
  ending normally: nothing that follows the loop in its list is run.\<close>

theorem continue_ends_list:
  assumes "cx_job ctx = Some j" "runs_builtin ''continue'' s" "st_exit s = - 1" "0 \<le> fr_nloops (cur_frame s)"
    "fs \<noteq> []" "list_all plain fs"
  shows "\<exists>s'. run_lists h (interp (Suc (Suc (Suc (Suc n)))) h) ctx (one (for_in name fs [one (simple [''continue''])]) # rest) s =
      Inr ((TASK_STATUS_INTERRUPTED, one (for_in name fs [one (simple [''continue''])]) # rest), s') \<and>
      mrsh_env_get s' name = Some (last fs)"
proof -
  let ?I = "interp (Suc (Suc n)) h" and ?s = "add_nloops 1 s" and ?body = "[one (simple [''continue''])]"
  have s: "runs_builtin ''continue'' ?s" "st_exit ?s = - 1" "fr_nloops (cur_frame ?s) = fr_nloops (cur_frame s) + 1"
    using assms(2,3) by (simp_all add: add_nloops_def upd_frame_def cur_frame_def runs_builtin_def)
  obtain s' where turns: "for_turns h (interp (Suc (Suc (Suc n))) h) ctx name (fr_nloops (cur_frame s) + 1) 0 fs ?body ?s =
      Inr ((Inr TASK_STATUS_INTERRUPTED, ?body), s')" "mrsh_env_get s' name = Some (last fs)"
    using for_continue_turns [OF assms(1) _ _ _ s assms(5), where I = "interp (Suc (Suc (Suc n))) h" and h = h and
        J = ?I and n = n and name = name and loop_ret = 0] assms(4)
    by auto
  have "run_command h (interp (Suc (Suc (Suc n))) h) ctx (for_in name fs ?body) s =
      Inr ((TASK_STATUS_INTERRUPTED, for_in name fs ?body), add_nloops (- 1) s')"
    using turns(1) expand_literals [OF assms(6), of "interp (Suc (Suc (Suc n))) h" "Suc n" h ?s] s(3)
    by (simp add: for_in_def run_for_clause_def Let_def loop_result_def)
  moreover have "mrsh_env_get (add_nloops (- 1) s') name = mrsh_env_get s' name"
    by (simp add: add_nloops_def upd_frame_def mrsh_env_get_def)
  ultimately show ?thesis
    using assms(1) turns(2) by (simp add: run_one TASK_STATUS_INTERRUPTED_def)
qed

section \<open>Children\<close>

text \<open>The state a child starts in, and a state in which its number is new and nothing is left to wait for.\<close>

definition forked :: "mrsh_state \<Rightarrow> mrsh_state" where
  "forked s = s\<lparr>st_pids := (\<lambda>i. st_pids s (Suc i)), st_pid := st_pids s 0, st_zombies := (\<lambda>_. None)\<rparr>"

definition fresh_child :: "mrsh_state \<Rightarrow> bool" where
  "fresh_child s \<longleftrightarrow> 0 < st_pids s 0 \<and> js_events (st_jobs s) = [] \<and> \<not> js_job_control (st_jobs s) \<and>
     (\<forall>p \<in> set (js_processes (st_jobs s)). p < js_next (st_jobs s) \<and> pr_pid (js_store (st_jobs s) p) \<noteq> st_pids s 0)"

definition joined :: "nat \<Rightarrow> mrsh_state \<Rightarrow> mrsh_state \<Rightarrow> mrsh_state" where
  "joined stat c s =
     s\<lparr>st_files := st_files c, st_next_file := st_next_file c, st_pids := st_pids c,
       st_zombies := (st_zombies s)(st_pids s 0 := Some stat)\<rparr>"

lemma fork_ends:
  "child (forked s) = Inl (Ended stat c) \<Longrightarrow> 0 < st_pids s 0 \<Longrightarrow> sys_fork child s = Inr (st_pids s 0, joined stat c s)"
  by (simp add: sys_fork_def forked_def joined_def Let_def)

lemma find_fresh: "\<forall>p \<in> set ps. \<not> P p \<Longrightarrow> P q \<Longrightarrow> find P (ps @ [q]) = Some q"
  by (induction ps) auto

lemma wait_for_child:
  assumes "fresh_child s" "WIFEXITED stat" "new_process (st_pids s 0) (joined stat c s) = (proc, s1)"
  shows "\<exists>s2. wait_process proc s1 = Inr (int (WEXITSTATUS stat), s2) \<and> same_shell s s2 \<and> st_files s2 = st_files c"
proof -
  let ?pid = "st_pids s 0" and ?p = "js_next (st_jobs s)"
  define js where "js = snd (process_create ?pid (st_jobs s))"
  let ?js' = "js\<lparr>js_store := (js_store js)(?p := (js_store js ?p)\<lparr>pr_terminated := True, pr_stat := stat\<rparr>)\<rparr>"
  have proc: "proc = ?p" "s1 = (joined stat c s)\<lparr>st_jobs := js\<rparr>"
    using assms(3) by (auto simp: new_process_def process_create_def joined_def Let_def js_def)
  have js: "pr_pid (js_store js ?p) = ?pid" "\<not> pr_stopped (js_store js ?p)" "\<not> pr_terminated (js_store js ?p)"
      "js_events js = []" "\<not> js_job_control js" "js\<lparr>js_events := []\<rparr> = js" "0 < ?pid"
    using assms(1) by (simp_all add: js_def process_create_def fresh_child_def)
  have "find (\<lambda>p. pr_pid (js_store js p) = ?pid) (js_processes js) = Some ?p"
    using assms(1) by (auto simp: js_def process_create_def fresh_child_def intro!: find_fresh)
  then have upd: "update_job ?pid stat (js\<lparr>js_events := []\<rparr>) = Some ?js'"
    unfolding js(6) using assms(2) js by (simp add: update_job_def update_process_def set_process_status_def)
  have wait: "job_wait_process proc (js\<lparr>js_events := [EvStatus stat]\<rparr>) = WDone (int (WEXITSTATUS stat), ?js')"
    using assms(2) upd js(1-5,7)
    by (simp add: job_wait_process_def job_wait_1_def proc process_poll_def TASK_STATUS_STOPPED_def TASK_STATUS_WAIT_def)
  have reaped: "reap ?pid s1 = s1\<lparr>st_zombies := (st_zombies s1)(?pid := None), st_jobs := js\<lparr>js_events := [EvStatus stat]\<rparr>\<rparr>"
    using js by (simp add: reap_def proc joined_def)
  have "pr_pid (js_store (st_jobs s1) proc) = ?pid"
    by (simp add: proc js)
  then show ?thesis
    using wait by (simp add: wait_process_def reaped run_of_wait_def) (simp add: proc same_shell_def joined_def)
qed

text \<open>C9: A subshell leaves the shell as it was, its variables, functions, aliases, parameters, options,
  traps, directory, mask, status and descriptors, and gives the exit status of the process that ran
  the body; what the process wrote is there.\<close>

theorem subshell_isolated:
  assumes "subshell_child h I ctx body (forked s) = Inl (Ended stat c)" "WIFEXITED stat" "fresh_child s"
  shows "\<exists>s'. run_subshell h I ctx body s = Inr (int (WEXITSTATUS stat), s') \<and> same_shell s s' \<and> st_files s' = st_files c"
proof -
  obtain proc s1 where p: "new_process (st_pids s 0) (joined stat c s) = (proc, s1)" by fastforce
  from wait_for_child [OF assms(3,2) p] show ?thesis
    using fork_ends [of "subshell_child h I ctx body" s stat c] assms(1,3) p
    by (auto simp: run_subshell_def fresh_child_def)
qed

text \<open>\<open>exit\<close> with a status that is accepted.\<close>

definition exit_arg :: "cstring \<Rightarrow> int \<Rightarrow> bool" where
  "exit_arg str k \<longleftrightarrow> plain str \<and> (\<exists>e. strtol 10 str = (k, [], e) \<and> \<not> e) \<and> 0 \<le> k \<and> k \<le> 255"

lemma run_exit:
  assumes "runs_builtin ''exit'' s" "i_fuel I = Suc n" "exit_arg str k"
  shows "\<exists>s'. run_command h I ctx (simple [''exit'', str]) s =
      Inr ((TASK_STATUS_INTERRUPTED, simple [''exit'', str]), s') \<and> st_exit s' = k"
proof -
  have "run_command h I ctx (simple [''exit'', str]) s =
      bind_run (mrsh_run_builtin h I [''exit'', str] s) (\<lambda>ret s. Inr ((ret, simple [''exit'', str]), s))"
    by (rule run_builtin_command) (use assms in \<open>simp_all add: mrsh_has_builtin_def control_builtins exit_arg_def\<close>)
  then show ?thesis
    using assms(3)
    by (auto simp: mrsh_run_builtin_def control_builtins builtin_exit_def exit_arg_def upd_frame_def)
qed

text \<open>The status given to \<open>exit\<close> in a subshell is lost: \<open>(exit k)\<close> gives 127 for every \<open>k\<close>, because the
  child looks at the interruption before it looks at the status.\<close>

theorem exit_in_subshell:
  assumes "cx_job ctx = Some j" "exit_arg str k" "fresh_child s"
    "reset_caught_traps (h_sigok h) (mark_child (forked s)) = Some (ok, s1)" "null_stdin h s1 = Inr ((), s2)"
    "runs_builtin ''exit'' s2"
  shows "\<exists>s'. run_command h (interp (Suc (Suc (Suc n))) h) ctx (Subshell [one (simple [''exit'', str])] lp rp) s =
      Inr ((127, Subshell [one (simple [''exit'', str])] lp rp), s')"
proof -
  let ?I = "interp (Suc (Suc (Suc n))) h" and ?body = "[one (simple [''exit'', str])]"
  obtain s3 where "run_command h (interp (Suc (Suc n)) h) ctx (simple [''exit'', str]) s2 =
      Inr ((TASK_STATUS_INTERRUPTED, simple [''exit'', str]), s3)"
    using run_exit [OF assms(6) _ assms(2), of "interp (Suc (Suc n)) h" n h ctx] by auto
  then have "subshell_child h ?I ctx ?body (forked s) = Inl (Ended (256 * 127) s3)"
    using assms(1,4,5) by (simp add: subshell_child_def run_one TASK_STATUS_INTERRUPTED_def exit_process_def)
  moreover have "WIFEXITED (256 * 127)" "WEXITSTATUS (256 * 127) = 127"
    by (simp_all add: WIFEXITED_def WEXITSTATUS_def)
  moreover obtain proc s4 where p: "new_process (st_pids s 0) (joined (256 * 127) s3 s) = (proc, s4)" by fastforce
  ultimately show ?thesis
    using wait_for_child [OF assms(3) _ p] fork_ends [of "subshell_child h ?I ctx ?body" s "256 * 127" s3] assms(3)
    by (auto simp: run_subshell_def fresh_child_def)
qed

text \<open>C38: \<open>return\<close> does not only end the function: the interruption goes through the call, so nothing
  after the call in the caller's list is run. The call frame is removed and \<open>$?\<close> is the value.\<close>

theorem return_ends_caller:
  assumes "cx_job ctx = Some j" "exit_arg str k" "plain f" "st_frames s \<noteq> []" "runs_builtin ''return'' s"
    "mrsh_hashtable_get (st_functions s) f = Some (BraceGroup [one (simple [''return'', str])] position_zero position_zero)"
  shows "\<exists>s'. run_lists h (interp (Suc (Suc (Suc (Suc (Suc n))))) h) ctx (one (simple [f]) # rest) s =
      Inr ((TASK_STATUS_INTERRUPTED, one (simple [f]) # rest), s') \<and> st_last_status s' = k \<and> st_frames s' = st_frames s"
proof -
  let ?body = "[one (simple [''return'', str])]" and ?s = "push_frame [f] s"
  let ?s1 = "(upd_frame (\<lambda>fr. fr\<lparr>fr_nloops := 0, fr_branch_control := MRSH_BRANCH_RETURN\<rparr>) ?s)\<lparr>st_last_status := k\<rparr>"
  obtain prev frs where frs: "st_frames s = prev # frs"
    using assms(4) by (cases "st_frames s") auto
  have builtin: "run_command h (interp (Suc (Suc n)) h) ctx (simple [''return'', str]) ?s =
      bind_run (mrsh_run_builtin h (interp (Suc (Suc n)) h) [''return'', str] ?s) (\<lambda>ret s. Inr ((ret, simple [''return'', str]), s))"
    by (rule run_builtin_command)
      (use assms(2,5) in \<open>simp_all add: mrsh_has_builtin_def control_builtins exit_arg_def runs_builtin_def push_frame_def\<close>)
  have "int_of_long k = k"
    using assms(2) by (intro int_of_long_small) (auto simp: exit_arg_def)
  then have ret: "run_command h (interp (Suc (Suc n)) h) ctx (simple [''return'', str]) ?s =
      Inr ((TASK_STATUS_INTERRUPTED, simple [''return'', str]), ?s1)"
    unfolding builtin using assms(2)
    by (auto simp: mrsh_run_builtin_def control_builtins builtin_return_def exit_arg_def char_at_def)
  have pop: "\<exists>s'. pop_frame ?s1 = Some s' \<and> st_last_status s' = k \<and> st_frames s' = st_frames s"
    using pop_push [OF assms(4), of "[f]"]
    by (auto simp: pop_frame_def push_frame_def upd_frame_def frs call_frame_destroy_def split: option.splits)
  have call: "run_command h (interp (Suc (Suc (Suc n))) h) ctx (BraceGroup ?body position_zero position_zero) ?s =
      Inr ((TASK_STATUS_INTERRUPTED, BraceGroup ?body position_zero position_zero), ?s1)"
    using ret assms(1) by (simp add: run_one TASK_STATUS_INTERRUPTED_def)
  have copy: "mrsh_command_copy (BraceGroup ?body position_zero position_zero) = Some (BraceGroup ?body position_zero position_zero)"
    using simple_copy [of "[''return'', str]"] by (simp add: one_def)
  obtain s' where s': "run_command h (interp (Suc (Suc (Suc (Suc n)))) h) ctx (simple [f]) s =
      Inr ((TASK_STATUS_INTERRUPTED, simple [f]), s')" "st_last_status s' = k" "st_frames s' = st_frames s"
    using run_simple [of f "[]" "interp (Suc (Suc (Suc (Suc n)))) h" "Suc (Suc n)" s h ctx] assms(3,5,6) pop call copy
    by (auto simp: dispatch_def call_function_def runs_builtin_def)
  with assms(1) show ?thesis
    by (simp add: run_one TASK_STATUS_INTERRUPTED_def)
qed

text \<open>C39: A command whose name expands to nothing aborts the shell: with an unset \<open>x\<close>, the command \<open>$x\<close>
  fails the assertion that there is at least one argument.\<close>

theorem empty_command_aborts:
  assumes "ordinary_name x" "mrsh_env_get s x = None" "mrsh_env_get s ''IFS'' \<noteq> Some []"
    "\<not> has_option (st_options s) MRSH_OPT_NOUNSET"
  shows "run_command h (interp (Suc (Suc n)) h) ctx
      (SimpleCommand (Some (WParameter x PARAM_NONE False None param_positions_zero)) [] [] []) s = Inl Crash"
proof -
  let ?w = "WParameter x PARAM_NONE False None param_positions_zero"
  have run: "run_word (Suc n) h run (expand_tilde pw s False ?w) s = Inr ((0, WString [] False True range_zero), s)" for run pw
    using ordinary_value [OF assms(1)] assms(2,4)
    by (simp add: run_word_def expand_tilde_def run_parameter_def is_cond_op_def value_word_def apply_parameter_cond_op_def
        finish_parameter_def create_word_string_def mrsh_word_string_create_def)
  have "split_fields (WString [] False True range_zero) (mrsh_env_get s ''IFS'') = Some []"
    using assms(3) by (auto simp: split_fields_def Let_def default_ifs_def split: option.splits)
  then have "expand_word (Suc n) h run ?w s = Inr ((0, []), s)" for run
    using run by (simp add: expand_word_def get_fields_str_def mrsh_word_parameter_create_def)
  then show ?thesis
    by (simp add: run_simple_command_def mrsh_word_parameter_create_def)
qed

section \<open>Pipelines\<close>

lemma sys_pipe_parts:
  assumes "sys_pipe h s = (Some (r, w), s1)"
  shows "st_fds s r = None" "st_fds s w = None" "r \<noteq> w" "0 \<le> r" "0 \<le> w"
    "s1 = s\<lparr>st_files := (st_files s)(st_next_file s := []), st_next_file := Suc (st_next_file s),
      st_fds := (st_fds s)(r := Some (st_next_file s), w := Some (st_next_file s))\<rparr>"
  using assms
  by (auto simp: sys_pipe_def Let_def new_file_def set_fd_def split: option.splits if_splits dest!: lowest_fd_Some)

lemma init_child_fds: "init_child h ctx pid s = Inr (p, s') \<Longrightarrow> st_fds s' = st_fds s"
  by (auto simp: init_child_def new_process_def add_process_def set_foreground_def run_Inr Let_def split: if_splits prod.splits)

lemma pipeline_loop_fds:
  assumes "pipeline_loop h I ctx cmds cur procs s = Inr (Some procs', s')"
  shows "st_fds s' = (if cur \<ge> 0 \<and> cmds \<noteq> [] then (st_fds s)(cur := None) else st_fds s)"
  using assms
proof (induction cmds arbitrary: cur procs s)
  case Nil
  then show ?case by simp
next
  case (Cons c cmds)
  obtain r w s1 where pipe: "(if cmds \<noteq> [] then sys_pipe h s else (Some (- 1, - 1), s)) = (Some (r, w), s1)"
    using Cons.prems by (auto split: prod.splits option.splits)
  then obtain pid s2 where fork: "sys_fork (pipeline_child h I ctx c r cur w) s1 = Inr (pid, s2)" "0 \<le> pid"
    using Cons.prems by (auto simp: run_Inr split: if_splits)
  then obtain p s3 where init: "init_child h ctx pid s2 = Inr (p, s3)"
    using Cons.prems pipe by (auto simp: run_Inr)
  let ?s4 = "if cur \<ge> 0 then sys_close cur s3 else s3"
  let ?s5 = "if w \<ge> 0 then sys_close w ?s4 else ?s4"
  have rest: "pipeline_loop h I ctx cmds r (procs @ [p]) ?s5 = Inr (Some procs', s')"
    using Cons.prems pipe fork init by (simp add: Let_def)
  have fds: "st_fds s3 = st_fds s1"
    using sys_fork_fds [OF fork(1)] init_child_fds [OF init] by simp
  show ?case
  proof (cases "cmds = []")
    case True
    with pipe rest fds show ?thesis by (auto simp: sys_close_def)
  next
    case False
    then have "sys_pipe h s = (Some (r, w), s1)"
      using pipe by simp
    note parts = sys_pipe_parts [OF this]
    have "st_fds s' = (st_fds ?s5)(r := None)"
      using Cons.IH [OF rest] parts(4) False by (simp only: if_True simp_thms)
    also have "\<dots> = (if cur \<ge> 0 then (st_fds s)(cur := None) else st_fds s)"
      using parts(1-5) fds unfolding parts(6) by (auto simp: sys_close_def fun_eq_iff)
    finally show ?thesis by simp
  qed
qed

lemma wait_processes_fds: "wait_processes procs ret s = Inr (ret', s') \<Longrightarrow> st_fds s' = st_fds s"
proof (induction procs arbitrary: ret s)
  case (Cons p procs)
  then obtain ret1 s1 where w: "wait_process p s = Inr (ret1, s1)"
    by (auto simp: run_Inr)
  from Cons.prems w have "st_fds s' = st_fds s1"
    using Cons.IH by (auto split: if_splits)
  with wait_process_frame(9) [OF w] show ?case by simp
qed simp

text \<open>C7: A pipeline of several commands leaks no descriptor: whatever the commands do, the table of the
  shell is the same after it as before, unless a pipe or a process could not be created.\<close>

theorem pipeline_fds_restored:
  assumes "run_pipeline h I ctx (c1 # c2 # cmds) bang bp s = Inr ((ret, aol), s')" "0 \<le> ret"
  shows "st_fds s' = st_fds s"
proof -
  obtain ctx' s1 where job: "with_job (NodeAndOrList (Pipeline (c1 # c2 # cmds) bang bp)) ctx s = Inr (ctx', s1)"
    using assms(1) by (auto simp: run_pipeline_def run_Inr)
  then obtain procs s2 where loop: "pipeline_loop h I ctx' (c1 # c2 # cmds) (- 1) [] s1 = Inr (Some procs, s2)"
    using assms by (auto simp del: pipeline_loop.simps
        simp: run_pipeline_def run_Inr TASK_STATUS_ERROR_def split: option.splits)
  with job assms(1) obtain ret' where wait: "wait_processes procs 0 s2 = Inr (ret', s')"
    by (auto simp del: pipeline_loop.simps simp: run_pipeline_def run_Inr)
  have "st_fds s1 = st_fds s"
    using job by (auto simp: with_job_def new_job_def run_Inr split: if_splits)
  with pipeline_loop_fds [OF loop] wait_processes_fds [OF wait] show ?thesis by simp
qed


section \<open>The environment of a command\<close>

definition literal_assignment :: "cstring \<times> cstring \<Rightarrow> mrsh_assignment" where
  "literal_assignment nv = Assignment (fst nv) (literal_word (snd nv)) range_zero position_zero"

lemma child_assignments_environ:
  "\<forall>(n, v) \<in> set avs. \<not> is_readonly s n \<Longrightarrow>
    child_assignments (map literal_assignment avs) s =
      Inr ((), s\<lparr>st_environ := (\<lambda>name. case map_of (rev avs) name of Some v \<Rightarrow> Some v | None \<Rightarrow> st_environ s name)\<rparr>)"
proof (induction avs arbitrary: s)
  case Nil
  then show ?case by simp
next
  case (Cons nv avs)
  obtain n v where nv: "nv = (n, v)" by fastforce
  let ?s = "s\<lparr>st_environ := (st_environ s)(n := Some v)\<rparr>"
  have ro: "is_readonly ?s m = is_readonly s m" for m
    by (simp add: is_readonly_def env_attribs_def mrsh_env_get_attribs_def)
  have "child_assignments (map literal_assignment (nv # avs)) s = child_assignments (map literal_assignment avs) ?s"
    using Cons.prems by (simp add: nv literal_assignment_def is_readonly_def)
  also have "\<dots> = Inr ((), ?s\<lparr>st_environ := (\<lambda>name. case map_of (rev avs) name of Some v \<Rightarrow> Some v | None \<Rightarrow> st_environ ?s name)\<rparr>)"
    using Cons.IH [of ?s] Cons.prems ro by simp
  finally show ?case
    by (simp add: nv map_add_def fun_eq_iff split: option.splits cong: option.case_cong)
qed

lemma fold_populate_env:
  "distinct (map fst es) \<Longrightarrow>
    st_environ (fold (\<lambda>(k, v). populate_env_iterator k v) es s) name =
      (case map_of es name of
         Some var \<Rightarrow> if has_attrib (var_attribs var) MRSH_VAR_ATTRIB_EXPORT then Some (var_value var) else st_environ s name
       | None \<Rightarrow> st_environ s name)"
proof (induction es arbitrary: s)
  case Nil
  then show ?case by simp
next
  case (Cons e es)
  then have "map_of es (fst e) = None"
    by (auto simp: map_of_eq_None_iff)
  with Cons show ?case
    by (cases e) (auto simp: populate_env_iterator_def split: option.splits)
qed

text \<open>C27: The environment an external command is run with: an exported variable has its value in the
  shell, even where the command has an assignment to it in front; every other name has the last value
  assigned in front of the command, or what the shell was started with.\<close>

theorem child_environment:
  assumes "\<not> has_option (st_options s) MRSH_OPT_MONITOR" "hashtable_inv (st_variables s)"
    "\<forall>(n, v) \<in> set avs. \<not> is_readonly s n"
  shows "\<exists>se. process_child h ctx path [] (map literal_assignment avs) argv s =
      bind_run (sys_execv h path argv se) (\<lambda>_ s. exit_process 127 s) \<and>
    st_environ se = (\<lambda>name.
      let assigned = (case map_of (rev avs) name of Some v \<Rightarrow> Some v | None \<Rightarrow> st_environ s name)
      in case mrsh_hashtable_get (st_variables s) name of
           Some var \<Rightarrow> if has_attrib (var_attribs var) MRSH_VAR_ATTRIB_EXPORT then Some (var_value var) else assigned
         | None \<Rightarrow> assigned)"
proof -
  obtain p s1 where init: "init_child h ctx (st_pid s) s = Inr (p, s1)" "s1 = s\<lparr>st_jobs := st_jobs s1\<rparr>"
    using assms(1) by (simp add: init_child_def new_process_def process_create_def)
  have s1: "st_options s1 = st_options s" "st_environ s1 = st_environ s" "st_variables s1 = st_variables s" "is_readonly s1 n = is_readonly s n" for n
    by (subst init(2); simp add: is_readonly_def env_attribs_def mrsh_env_get_attribs_def)+
  let ?s2 = "s1\<lparr>st_environ := (\<lambda>name. case map_of (rev avs) name of Some v \<Rightarrow> Some v | None \<Rightarrow> st_environ s1 name)\<rparr>"
  let ?s3 = "mrsh_hashtable_for_each (st_variables ?s2) populate_env_iterator ?s2"
  have "process_child h ctx path [] (map literal_assignment avs) argv s =
      bind_run (sys_execv h path argv ?s3) (\<lambda>_ s. exit_process 127 s)"
    using init(1) assms(1,3) s1 by (simp add: process_child_def leave_job_control_def child_assignments_environ)
  moreover have "st_environ ?s3 = (\<lambda>name.
      let assigned = (case map_of (rev avs) name of Some v \<Rightarrow> Some v | None \<Rightarrow> st_environ s name)
      in case mrsh_hashtable_get (st_variables s) name of
           Some var \<Rightarrow> if has_attrib (var_attribs var) MRSH_VAR_ATTRIB_EXPORT then Some (var_value var) else assigned
         | None \<Rightarrow> assigned)"
    by (rule ext) (simp add: mrsh_hashtable_for_each_def fold_populate_env ht.entries_distinct [OF assms(2)]
        ht.entries_get [OF assms(2)] s1 Let_def split: option.split)
  ultimately show ?thesis by blast
qed

section \<open>Examples\<close>

definition sample_ctx :: ctx where
  "sample_ctx = \<lparr>cx_job = Some 0, cx_background = False\<rparr>"

lemma sample_parts [simp]:
  "st_options sample_state = 0" "st_exit sample_state = - 1" "st_frames sample_state = [frame_zero]"
  "st_functions sample_state = hashtable_zero" "st_variables sample_state = hashtable_zero"
  "st_jobs sample_state = jobs_zero" "st_pids sample_state i = int i + 2" "st_in_trap sample_state = False"
  "st_pending sample_state i = 0" "st_environ sample_state = (\<lambda>_. None)"
  "st_fds sample_state = (\<lambda>fd. if 0 \<le> fd \<and> fd < 3 then Some (nat fd) else None)"
  "st_traps sample_state = replicate MRSH_NSIG trap_zero"
  by (simp_all add: sample_state_def mrsh_state_create_def)

lemma sample_runs_builtin: "runs_builtin name sample_state"
  by (simp add: runs_builtin_def ht.get_empty has_option_def)

lemma sample_fresh: "fresh_child sample_state"
  by (simp add: fresh_child_def jobs_zero_def)

lemma exit_arg_3: "exit_arg ''3'' 3"
  by (simp add: exit_arg_def plain_def is_pathname_metachar_def strtol_def split_sign_def split_base_def
      is_base_digit_def digit_val_def number_of_def LONG_MAX_def LONG_MIN_def char_simps Let_def exI [of _ False])

theorem continue_ends_list_witness:
  "\<exists>s'. run_lists sample_host (interp 4 sample_host) sample_ctx
       [one (for_in ''i'' [''a'', ''b''] [one (simple [''continue''])]), one (simple [''exit''])] sample_state =
      Inr ((TASK_STATUS_INTERRUPTED,
        [one (for_in ''i'' [''a'', ''b''] [one (simple [''continue''])]), one (simple [''exit''])]), s') \<and>
      mrsh_env_get s' ''i'' = Some ''b''"
  using continue_ends_list [where ctx = sample_ctx and s = sample_state and fs = "[''a'', ''b'']" and n = 0 and h = sample_host
      and name = "''i''" and rest = "[one (simple [''exit''])]" and j = 0]
  by (simp add: sample_ctx_def sample_runs_builtin cur_frame_def frame_zero_def plain_def is_pathname_metachar_def eval_nat_numeral)

lemma sample_child_start:
  "reset_caught_traps ok (mark_child (forked sample_state)) = Some (True, mark_child (forked sample_state))"
  by (rule reset_caught_none) (simp add: mark_child_def forked_def trap_zero_def)

lemma sample_null_stdin:
  "\<exists>s2. null_stdin sample_host (mark_child (forked sample_state)) = Inr ((), s2) \<and> runs_builtin name s2 \<and> st_exit s2 = - 1"
proof -
  define s where "s = mark_child (forked sample_state)"
  have s: "st_exit s = - 1" "st_options s = 0" "st_functions s = hashtable_zero" "st_fds s = st_fds sample_state"
    by (simp_all add: s_def mark_child_def forked_def)
  have "lowest_fd sample_host s = Some 3"
    by (rule lowest_fd_eq) (auto simp: s sample_host_def)
  moreover have "h_open sample_host path mode s = Some []" "h_open_max sample_host = 16" for path mode
    by (simp_all add: sample_host_def)
  ultimately show ?thesis
    by (simp add: s_def [symmetric] null_stdin_def sys_open_def new_file_def set_fd_def s has_option_def
        sys_dup2_def sys_close_def runs_builtin_def ht.get_empty)
qed

theorem exit_in_subshell_witness:
  "\<exists>s'. run_command sample_host (interp 3 sample_host) sample_ctx
        (Subshell [one (simple [''exit'', ''3''])] position_zero position_zero) sample_state =
      Inr ((127, Subshell [one (simple [''exit'', ''3''])] position_zero position_zero), s')"
proof -
  obtain s2 where "null_stdin sample_host (mark_child (forked sample_state)) = Inr ((), s2)" "runs_builtin ''exit'' s2"
    using sample_null_stdin by blast
  from exit_in_subshell [OF _ exit_arg_3 sample_fresh sample_child_start this, of sample_ctx 0 0]
  show ?thesis by (simp add: sample_ctx_def eval_nat_numeral)
qed

definition return_state :: mrsh_state where
  "return_state = sample_state\<lparr>st_functions := snd (mrsh_hashtable_set hashtable_zero ''f''
     (BraceGroup [one (simple [''return'', ''3''])] position_zero position_zero))\<rparr>"

theorem return_ends_caller_witness:
  "\<exists>s'. run_lists sample_host (interp 5 sample_host) sample_ctx [one (simple [''f'']), one (simple [''exit''])] return_state =
      Inr ((TASK_STATUS_INTERRUPTED, [one (simple [''f'']), one (simple [''exit''])]), s') \<and> st_last_status s' = 3"
  using return_ends_caller [where ctx = sample_ctx and s = return_state and f = "''f''" and n = 0 and h = sample_host
      and rest = "[one (simple [''exit''])]" and j = 0, OF _ exit_arg_3]
  by (auto simp: sample_ctx_def return_state_def runs_builtin_def has_option_def ht.get_set ht.get_empty plain_def
      is_pathname_metachar_def eval_nat_numeral)

theorem empty_command_aborts_witness:
  "run_command sample_host (interp 2 sample_host) sample_ctx
     (SimpleCommand (Some (WParameter ''x'' PARAM_NONE False None param_positions_zero)) [] [] []) sample_state = Inl Crash"
  using empty_command_aborts [where x = "''x''" and s = sample_state and n = 0 and h = sample_host and ctx = sample_ctx]
  by (simp add: ordinary_name_def char_simps mrsh_env_get_def ht.get_empty has_option_def eval_nat_numeral)

theorem child_environment_witness:
  "\<exists>se. process_child sample_host sample_ctx ''/bin/env'' [] [literal_assignment (''X'', ''1'')] [''env'']
        (mrsh_env_set ''X'' ''2'' MRSH_VAR_ATTRIB_EXPORT sample_state) =
      bind_run (sys_execv sample_host ''/bin/env'' [''env''] se) (\<lambda>_ s. exit_process 127 s) \<and> st_environ se ''X'' = Some ''2''"
proof -
  let ?s = "mrsh_env_set ''X'' ''2'' MRSH_VAR_ATTRIB_EXPORT sample_state"
  have "hashtable_inv (st_variables ?s)" "\<not> is_readonly ?s ''X''" "\<not> has_option (st_options ?s) MRSH_OPT_MONITOR"
      "mrsh_hashtable_get (st_variables ?s) ''X'' = Some \<lparr>var_value = ''2'', var_attribs = MRSH_VAR_ATTRIB_EXPORT\<rparr>"
    by (simp_all add: mrsh_env_set_def ht.inv_set ht.inv_empty ht.get_set is_readonly_def env_attribs_def mrsh_env_get_attribs_def
        has_option_def has_attrib_def MRSH_VAR_ATTRIB_EXPORT_def MRSH_VAR_ATTRIB_READONLY_def)
  then show ?thesis
    using child_environment [of ?s "[(''X'', ''1'')]" sample_host sample_ctx "''/bin/env''" "[''env'']"]
    by (auto simp: has_attrib_def MRSH_VAR_ATTRIB_EXPORT_def)
qed

theorem subshell_isolated_witness:
  "\<exists>s'. run_subshell sample_host (interp 3 sample_host) sample_ctx [] sample_state = Inr (0, s') \<and>
    same_shell sample_state s'"
proof -
  obtain s2 where s2: "null_stdin sample_host (mark_child (forked sample_state)) = Inr ((), s2)" "st_exit s2 = - 1"
    using sample_null_stdin by blast
  have "subshell_child sample_host (interp 3 sample_host) sample_ctx [] (forked sample_state) = Inl (Ended 0 s2)"
    using s2 by (simp add: subshell_child_def sample_child_start exit_process_def)
  from subshell_isolated [OF this _ sample_fresh] show ?thesis
    by (auto simp: WIFEXITED_def WEXITSTATUS_def)
qed

text \<open>Two commands that do nothing, in a pipeline.\<close>

definition quiet :: interp where
  "quiet = \<lparr>i_fuel = 0, i_command = (\<lambda>ctx c s. Inr ((0, c), s)), i_program = (\<lambda>p s. Inr ((0, p), s)),
     i_builtin = (\<lambda>argv s. Inr (0, s))\<rparr>"


lemma quiet_first:
  assumes "\<not> has_option (st_options s) MRSH_OPT_MONITOR" "1 < h_open_max h" "st_fds s 4 = Some f"
  shows "\<exists>c. pipeline_child h quiet ctx cmd 3 (- 1) 4 s = Inl (Ended 0 c) \<and> st_pids c = st_pids s"
  using assms
  by (simp add: pipeline_child_def init_child_def mark_child_def new_process_def process_create_def leave_job_control_def
      fileno_defs sys_dup2_def sys_close_def set_fd_def quiet_def exit_process_def)

lemma quiet_last:
  assumes "\<not> has_option (st_options s) MRSH_OPT_MONITOR" "0 < h_open_max h" "st_fds s 3 = Some f"
  shows "\<exists>c. pipeline_child h quiet ctx cmd (- 1) 3 (- 1) s = Inl (Ended 0 c) \<and> st_pids c = st_pids s"
  using assms
  by (simp add: pipeline_child_def init_child_def mark_child_def new_process_def process_create_def leave_job_control_def
      fileno_defs sys_dup2_def sys_close_def set_fd_def quiet_def exit_process_def)

lemma quiet_pipeline:
  "\<exists>s' aol. run_pipeline sample_host quiet sample_ctx [c1, c2] False position_zero sample_state = Inr ((0, aol), s')"
proof -
  obtain s1 where pipe: "sys_pipe sample_host sample_state = (Some (3, 4), s1)" "st_options s1 = 0"
      "st_fds s1 4 = Some 3" "st_fds s1 3 = Some 3" "st_pids s1 = (\<lambda>i. int i + 2)" "st_jobs s1 = jobs_zero" "st_zombies s1 = (\<lambda>_. None)"
    unfolding sample_state_def sample_pipe by (simp add: mrsh_state_create_def)
  have host: "1 < h_open_max sample_host" "0 < h_open_max sample_host"
    by (simp_all add: sample_host_def)
  obtain k1 where k1: "pipeline_child sample_host quiet sample_ctx c1 3 (- 1) 4 (forked s1) = Inl (Ended 0 k1)"
      "st_pids k1 = (\<lambda>i. int i + 3)"
    using quiet_first [of "forked s1" sample_host 3 sample_ctx c1] pipe host by (auto simp: forked_def has_option_def add.commute)
  let ?s2 = "joined 0 k1 s1"
  let ?s3 = "?s2\<lparr>st_jobs := snd (process_create 2 jobs_zero), st_fds := (st_fds ?s2)(4 := None)\<rparr>"
  obtain k2 where k2: "pipeline_child sample_host quiet sample_ctx c2 (- 1) 3 (- 1) (forked ?s3) = Inl (Ended 0 k2)"
    using quiet_last [of "forked ?s3" sample_host 3 sample_ctx c2] pipe host by (auto simp: forked_def has_option_def joined_def)
  have "sys_fork (pipeline_child sample_host quiet sample_ctx c1 3 (- 1) 4) s1 = Inr (2, ?s2)"
    using fork_ends [of "pipeline_child sample_host quiet sample_ctx c1 3 (- 1) 4" s1, OF k1(1)] pipe by simp
  moreover have "sys_fork (pipeline_child sample_host quiet sample_ctx c2 (- 1) 3 (- 1)) ?s3 = Inr (3, joined 0 k2 ?s3)"
    using fork_ends [of "pipeline_child sample_host quiet sample_ctx c2 (- 1) 3 (- 1)" ?s3, OF k2] k1(2)
    by (simp add: joined_def)
  ultimately have "\<exists>s4. pipeline_loop sample_host quiet sample_ctx [c1, c2] (- 1) [] sample_state = Inr (Some [0, 1], s4) \<and>
      st_jobs s4 = snd (process_create 3 (snd (process_create 2 jobs_zero))) \<and>
      st_zombies s4 = (\<lambda>_. None)(2 := Some 0, 3 := Some 0)"
    using pipe k1(2)
    by (simp add: init_child_def new_process_def process_create_def has_option_def sys_close_def set_fd_def joined_def jobs_zero_def)
  then show ?thesis
    by (auto simp del: pipeline_loop.simps simp: run_pipeline_def with_job_def sample_ctx_def negate_def
        wait_process_def reap_def run_of_wait_def job_wait_process_def job_wait_1_def process_create_def jobs_zero_def
        process_poll_def TASK_STATUS_WAIT_def TASK_STATUS_STOPPED_def update_job_def update_process_def set_process_status_def
        WIFEXITED_def WEXITSTATUS_def)
qed

theorem pipeline_fds_restored_witness:
  "\<exists>s' aol. run_pipeline sample_host quiet sample_ctx [simple [], simple []] False position_zero sample_state = Inr ((0, aol), s') \<and>
    st_fds s' = st_fds sample_state"
  using quiet_pipeline [of "simple []" "simple []"] pipeline_fds_restored [of sample_host quiet sample_ctx "simple []" "simple []" "[]"]
  by (meson order_refl)

lemma run_pending_none:
  assumes "\<And>i. st_pending s i = 0" "\<not> st_in_trap s"
  shows "run_pending_traps run (Suc n) s = Inr (True, s)"
proof -
  have "run_traps_loop run l (Suc n) is (s\<lparr>st_in_trap := True\<rparr>) = Inr (True, s\<lparr>st_in_trap := True\<rparr>)" for l "is"
    using assms(1) by (induction "is") (simp_all add: fun_upd_idem)
  then show ?thesis
    using assms(2) by (simp add: run_pending_traps_def)
qed

lemma run_true_program:
  "\<exists>s'. mrsh_run_program sample_host (interp 3 sample_host) (Program [one (simple [''true''])]) sample_state =
     Inr ((0, Program [one (simple [''true''])]), s')"
proof -
  have "\<exists>s1. with_job (NodeAndOrList (Pipeline [simple [''true'']] False position_zero)) ctx_zero sample_state =
      Inr (ctx_zero\<lparr>cx_job := Some 0\<rparr>, s1) \<and> runs_builtin ''true'' s1 \<and> (\<forall>i. st_pending s1 i = 0) \<and> \<not> st_in_trap s1"
    using simple_copy [of "[''true'']"]
    by (simp add: Let_def mrsh_node_copy_def with_job_def ctx_zero_def new_job_def job_create_def jobs_zero_def runs_builtin_def ht.get_empty has_option_def)
  then obtain s1 where s1: "with_job (NodeAndOrList (Pipeline [simple [''true'']] False position_zero)) ctx_zero sample_state =
      Inr (ctx_zero\<lparr>cx_job := Some 0\<rparr>, s1)" "runs_builtin ''true'' s1" "\<And>i. st_pending s1 i = 0" "\<not> st_in_trap s1"
    by blast
  have "run_command sample_host (interp 2 sample_host) (ctx_zero\<lparr>cx_job := Some 0\<rparr>) (simple [''true'']) s1 =
      bind_run (mrsh_run_builtin sample_host (interp 2 sample_host) [''true''] s1) (\<lambda>ret s. Inr ((ret, simple [''true'']), s))"
    by (rule run_builtin_command [of _ _ _ _ 0])
      (use s1(2) in \<open>simp_all add: mrsh_has_builtin_def control_builtins plain_def is_pathname_metachar_def eval_nat_numeral\<close>)
  then have "run_command sample_host (interp 2 sample_host) (ctx_zero\<lparr>cx_job := Some 0\<rparr>) (simple [''true'']) s1 =
      Inr ((0, simple [''true'']), s1)"
    by (simp add: mrsh_run_builtin_def control_builtins builtin_true_def)
  then show ?thesis
    using s1(1) run_pending_none [of "s1\<lparr>st_last_status := 0\<rparr>"] s1(3,4)
    by (simp add: one_def run_pipeline_def negate_def eval_nat_numeral del: simple.simps)
qed


end
