(* ===== verification/Shell_Facts.thy ===== *)
theory Shell_Facts
  imports Parser_Facts Parser_Total Tasks_Facts
begin

text \<open>
  The parser and the execution of commands together: from the text of a line to what is run.
\<close>

section \<open>Words of printed values are expanded to their text\<close>

lemma arg_char_text:
  assumes "list_all is_arg_char str"
  shows "CHR ''~'' \<notin> set str" "\<not> list_ex is_pathname_metachar str"
proof -
  have "list_all (\<lambda>c. \<not> is_arg_char c) ''~*?[]''"
    by (simp add: is_arg_char_def is_safe_def safe_chars_def char_classes)
  with assms show "CHR ''~'' \<notin> set str" "\<not> list_ex is_pathname_metachar str"
    by (auto simp: list_all_iff list_ex_iff is_pathname_metachar_def)
qed

lemma leaf_cases [consumes 1, case_names String Quotes]:
  assumes "quoted_leaf w"
  obtains str q r where "w = WString str q False r" "q \<or> list_all is_arg_char str"
  | str q r lp rp where "w = WList [WString str q False r] True lp rp"
  using assms by (cases w rule: quoted_leaf.cases) auto

text \<open>The same text in pieces of the same kind.\<close>

definition same_leaf :: "mrsh_word \<Rightarrow> mrsh_word \<Rightarrow> bool" where
  "same_leaf w w' \<longleftrightarrow> quoted_leaf w' \<and> word_str w' = word_str w"

lemma leaf_copy: "quoted_leaf w \<Longrightarrow> \<exists>w'. mrsh_word_copy w = Some w' \<and> same_leaf w w'"
  by (erule leaf_cases) (auto simp: same_leaf_def create_defs)

lemma leaves_copy:
  "list_all quoted_leaf ws \<Longrightarrow> \<exists>ws'. those (map mrsh_word_copy ws) = Some ws' \<and> list_all2 same_leaf ws ws'"
proof (induction ws)
  case (Cons w ws)
  then show ?case
    using leaf_copy [of w] by fastforce
qed simp

lemma same_leaves:
  "list_all2 same_leaf ws ws' \<Longrightarrow> list_all quoted_leaf ws' \<and> map word_str ws' = map word_str ws"
  by (induction rule: list_all2_induct) (simp_all add: same_leaf_def)

lemma leaf_tilde:
  assumes "quoted_leaf w"
  shows "expand_tilde_word w (expand_tilde_at pw s) False is_first is_last = w"
  using assms
proof (cases w rule: leaf_cases)
  case (String str q r)
  then have "\<not> q \<Longrightarrow> expand_tilde_at pw s str is_last = None"
    using only_at_tilde_None [of "\<lambda>str. expand_tilde_at pw s str is_last" str] arg_char_text(1) [of str]
    by (auto simp: only_at_tilde_def expand_tilde_at_def)
  with String show ?thesis
    by (simp add: tilde_string_def)
qed simp

lemma leaf_run: "quoted_leaf w \<Longrightarrow> run_word_at (Suc (Suc n)) h run dq w s = Inr ((0, w), s)"
  by (erule leaf_cases) (simp_all add: run_list_def)

lemma leaf_not_at_sign: "quoted_leaf w \<Longrightarrow> \<not> is_at_sign w"
  by (erule leaf_cases) simp_all

lemma leaf_split:
  assumes "quoted_leaf w"
  shows "\<exists>w' b1 b2. same_leaf w w' \<and>
    split_word w ifs ns d = Some ((add_to_cur_field w' d)\<lparr>sp_in_ifs := b1, sp_in_ifs_non_space := b2\<rparr>)"
proof -
  obtain w' where w': "mrsh_word_copy w = Some w'" "same_leaf w w'"
    using leaf_copy [OF assms] by blast
  show ?thesis
    using assms
  proof (cases w rule: leaf_cases)
    case (String str q r)
    with w' show ?thesis
      by (intro exI [of _ w'] exI [of _ False]) simp
  next
    case (Quotes str q r lp rp)
    with w' show ?thesis
      by (intro exI [of _ w'] exI [of _ "sp_in_ifs d"] exI [of _ "sp_in_ifs_non_space d"])
        (cases d, simp add: add_to_cur_field_def)
  qed
qed

lemma leaf_no_pattern: "quoted_leaf w \<Longrightarrow> needs_pathname_expansion w = Some False"
  using arg_char_text(2) by (elim leaf_cases) auto

text \<open>The fields of pieces: one, with all of them.\<close>

lemma leaves_split:
  assumes "list_all quoted_leaf ws" "sp_open d" "sp_fields d = [f]"
  shows "\<exists>ws' d'. fold_opt (\<lambda>f d. f ifs ns d) (map split_word ws) d = Some d' \<and> sp_fields d' = [f @ ws'] \<and>
    list_all2 same_leaf ws ws'"
  using assms
proof (induction ws arbitrary: d f)
  case (Cons w ws)
  obtain w' b1 b2 where w': "same_leaf w w'"
      "split_word w ifs ns d = Some ((add_to_cur_field w' d)\<lparr>sp_in_ifs := b1, sp_in_ifs_non_space := b2\<rparr>)"
    using leaf_split [of w ifs ns d] Cons.prems(1) unfolding list.pred_inject(2) by blast
  let ?d = "(add_to_cur_field w' d)\<lparr>sp_in_ifs := b1, sp_in_ifs_non_space := b2\<rparr>"
  have "sp_open ?d" "sp_fields ?d = [f @ [w']]"
    using Cons.prems(2,3) by (simp_all add: add_to_cur_field_def)
  then obtain ws' d' where "fold_opt (\<lambda>f d. f ifs ns d) (map split_word ws) ?d = Some d'"
      "sp_fields d' = [(f @ [w']) @ ws']" "list_all2 same_leaf ws ws'"
    using Cons.IH [of ?d "f @ [w']"] Cons.prems(1) by auto
  with w' show ?case
    by (intro exI [of _ "w' # ws'"] exI [of _ d']) simp
qed simp

lemma leaves_split_start:
  assumes "list_all quoted_leaf ws" "ws \<noteq> []" "\<not> sp_open d" "sp_fields d = []"
  shows "\<exists>ws' d'. fold_opt (\<lambda>f d. f ifs ns d) (map split_word ws) d = Some d' \<and> sp_fields d' = [ws'] \<and>
    list_all2 same_leaf ws ws'"
proof -
  obtain w vs where ws: "ws = w # vs" "quoted_leaf w" "list_all quoted_leaf vs"
    using assms(1,2) by (cases ws) auto
  obtain w' b1 b2 where w': "same_leaf w w'"
      "split_word w ifs ns d = Some ((add_to_cur_field w' d)\<lparr>sp_in_ifs := b1, sp_in_ifs_non_space := b2\<rparr>)"
    using leaf_split [OF ws(2)] by blast
  let ?d = "(add_to_cur_field w' d)\<lparr>sp_in_ifs := b1, sp_in_ifs_non_space := b2\<rparr>"
  have "sp_open ?d" "sp_fields ?d = [[w']]"
    using assms(3,4) by (simp_all add: add_to_cur_field_def)
  then obtain vs' d' where "fold_opt (\<lambda>f d. f ifs ns d) (map split_word vs) ?d = Some d'"
      "sp_fields d' = [[w'] @ vs']" "list_all2 same_leaf vs vs'"
    using leaves_split [OF ws(3)] by blast
  with w' ws(1) show ?thesis
    by (intro exI [of _ "w' # vs'"] exI [of _ d']) simp
qed


lemma printed_cases [consumes 1, case_names Leaf Leaves]:
  assumes "printed_word w"
  obtains "quoted_leaf w" | cs l r where "w = WList cs False l r" "cs \<noteq> []" "list_all quoted_leaf cs"
  using assms by (auto simp: printed_word_def)

lemma printed_copy:
  assumes "printed_word w"
  shows "\<exists>w'. mrsh_word_copy w = Some w' \<and> printed_word w' \<and> word_str w' = word_str w"
  using assms
proof (cases w rule: printed_cases)
  case Leaf
  then show ?thesis
    using leaf_copy [OF Leaf] by (auto simp: printed_word_def same_leaf_def)
next
  case (Leaves cs l r)
  then obtain cs' where cs': "those (map mrsh_word_copy cs) = Some cs'" "list_all2 same_leaf cs cs'"
    using leaves_copy by blast
  then have "cs' \<noteq> []"
    using Leaves(2) by auto
  with same_leaves [OF cs'(2)] cs'(1) Leaves(1) show ?thesis
    by (auto simp: printed_word_def mrsh_word_list_create_def)
qed

lemma printed_tilde:
  assumes "printed_word w"
  shows "expand_tilde pw s False w = w"
  using assms
proof (cases w rule: printed_cases)
  case (Leaves cs l r)
  have "map (\<lambda>(i, f). f (expand_tilde_at pw s) False (i = 0) (i = length cs - 1))
      (enumerate 0 (map expand_tilde_word cs)) = cs"
    using Leaves(3) by (intro nth_equalityI) (auto simp: nth_enumerate_eq list_all_length leaf_tilde)
  with Leaves show ?thesis
    by (simp add: expand_tilde_def)
qed (simp add: expand_tilde_def leaf_tilde)

lemma leaves_run:
  "list_all quoted_leaf ws \<Longrightarrow>
    run_children (run_word_at (Suc (Suc n)) h run) dq wq ws s = Inr ((0, ws, replicate (length ws) False), s)"
  by (induction ws) (simp_all add: leaf_run leaf_not_at_sign)

lemma printed_run: "printed_word w \<Longrightarrow> run_word (Suc (Suc (Suc n))) h run w s = Inr ((0, w), s)"
  by (erule printed_cases) (auto simp: run_word_def leaf_run run_list_def leaves_run)

lemma leaves_no_pattern: "list_all quoted_leaf ws \<Longrightarrow> any_opt (map needs_pathname_expansion ws) = Some False"
  by (induction ws) (simp_all add: leaf_no_pattern)

lemma printed_no_pattern: "printed_word w \<Longrightarrow> word_to_pattern w = Some None"
  by (erule printed_cases) (simp_all add: word_to_pattern_def leaf_no_pattern leaves_no_pattern)

lemma leaf_text: "quoted_leaf w \<Longrightarrow> \<exists>t. word_str w = Some t"
  by (erule leaf_cases) simp_all

lemma leaves_text: "list_all quoted_leaf ws \<Longrightarrow> \<exists>ts. those (map word_str ws) = Some ts"
  by (induction ws) (use leaf_text in fastforce)+

lemma printed_text: "printed_word w \<Longrightarrow> \<exists>t. word_str w = Some t"
  by (erule printed_cases) (use leaf_text leaves_text in fastforce)+

lemma list_of_leaf: "list_all2 same_leaf ws ws' \<Longrightarrow> ws \<noteq> [] \<Longrightarrow> printed_word (mrsh_word_list_create ws' False)"
  using same_leaves [of ws ws'] by (auto simp: printed_word_def mrsh_word_list_create_def)

lemma printed_split:
  assumes "printed_word w"
  shows "\<exists>f. split_fields w ifs = Some [f] \<and> printed_word f \<and> word_str f = word_str w"
proof (cases "(case ifs of None \<Rightarrow> default_ifs | Some i \<Rightarrow> i) = []")
  case True
  then show ?thesis
    using printed_copy [OF assms] by (auto simp: split_fields_def)
next
  case False
  let ?ifs = "case ifs of None \<Rightarrow> default_ifs | Some i \<Rightarrow> i"
  let ?ns = "filter (\<lambda>c. \<not> is_space c) ?ifs"
  let ?d = "\<lparr>sp_fields = [], sp_open = False, sp_in_ifs = True, sp_in_ifs_non_space = False\<rparr>"
  define cs where "cs = (if quoted_leaf w then [w] else case w of WList cs _ _ _ \<Rightarrow> cs | _ \<Rightarrow> [])"
  have cs: "list_all quoted_leaf cs" "cs \<noteq> []" "word_str (mrsh_word_list_create cs False) = word_str w"
      "split_word w ?ifs ?ns ?d = fold_opt (\<lambda>f d. f ?ifs ?ns d) (map split_word cs) ?d"
    using assms leaf_text [of w]
    by (auto simp: cs_def printed_word_def mrsh_word_list_create_def split: option.splits)
  obtain cs' d' where d': "split_word w ?ifs ?ns ?d = Some d'" "sp_fields d' = [cs']" "list_all2 same_leaf cs cs'"
    using leaves_split_start [OF cs(1,2), of ?d ?ifs ?ns] cs(4) by auto
  with False show ?thesis
    using list_of_leaf [OF d'(3) cs(2)] same_leaves [OF d'(3)] cs(3)
    by (auto simp: split_fields_def Let_def mrsh_word_list_create_def)
qed

text \<open>A printed word is expanded to one field, its text, on every host and in every state.\<close>

lemma printed_expand:
  assumes "printed_word w" "word_str w = Some t"
  shows "expand_word (Suc (Suc (Suc n))) h run w s = Inr ((0, [t]), s)"
proof -
  obtain w' where w': "mrsh_word_copy w = Some w'" "printed_word w'" "word_str w' = Some t"
    using printed_copy [OF assms(1)] assms(2) by auto
  obtain f where f: "split_fields w' (mrsh_env_get s ''IFS'') = Some [f]" "printed_word f" "word_str f = Some t"
    using printed_split [OF w'(2)] w'(3) by metis
  show ?thesis
    by (simp add: expand_word_def w'(1) printed_tilde [OF w'(2)] printed_run [OF w'(2)] f(1) get_fields_str_def
        mrsh_word_str_def f(3) printed_no_pattern [OF f(2)])
qed


lemma printed_words_copy:
  "list_all printed_word ws \<Longrightarrow> map word_str ws = map Some ts \<Longrightarrow>
    \<exists>ws'. those (map mrsh_word_copy ws) = Some ws' \<and> list_all printed_word ws' \<and> map word_str ws' = map Some ts"
proof (induction ws arbitrary: ts)
  case (Cons w ws)
  then obtain t us where ts: "ts = t # us" "word_str w = Some t" "map word_str ws = map Some us"
    by (cases ts) auto
  obtain w' where w': "mrsh_word_copy w = Some w'" "printed_word w'" "word_str w' = Some t"
    using printed_copy [of w] Cons.prems(1) ts(2) by auto
  obtain ws' where ws': "those (map mrsh_word_copy ws) = Some ws'" "list_all printed_word ws'" "map word_str ws' = map Some us"
    using Cons.IH [OF _ ts(3)] Cons.prems(1) by auto
  show ?case
    using w' ws' ts(1) by simp
qed simp

lemma printed_expand_words:
  "list_all printed_word ws \<Longrightarrow> map word_str ws = map Some ts \<Longrightarrow> i_fuel I = Suc (Suc (Suc n)) \<Longrightarrow>
    expand_words h I ws s = Inr ((0, ts), s)"
proof (induction ws arbitrary: ts)
  case (Cons w ws)
  then obtain t us where "ts = t # us" "word_str w = Some t" "map word_str ws = map Some us"
    by (cases ts) auto
  with Cons show ?case
    by (simp add: printed_expand)
qed simp

text \<open>A command of printed words is run for the texts of its words.\<close>

lemma run_printed_command:
  assumes "list_all printed_word (nw # ws)" "map word_str (nw # ws) = map Some argv" "i_fuel I = Suc (Suc (Suc n))"
    and "\<not> has_option (st_options st) MRSH_OPT_XTRACE"
  shows "run_command h I ctx (SimpleCommand (Some nw) ws [] []) st =
    bind_run (dispatch h I ctx [] [] argv st) (\<lambda>ret st. Inr ((ret, SimpleCommand (Some nw) ws [] []), st))"
proof -
  obtain words where words: "those (map mrsh_word_copy (nw # ws)) = Some words" "list_all printed_word words"
      "map word_str words = map Some argv"
    using printed_words_copy [OF assms(1,2)] by blast
  then obtain nw' ws' where w: "words = nw' # ws'" "mrsh_word_copy nw = Some nw'" "those (map mrsh_word_copy ws) = Some ws'"
    by (auto split: option.splits)
  have "argv \<noteq> []"
    using assms(2) by auto
  moreover have "expand_words h I (nw' # ws') st = Inr ((0, argv), st)"
    using printed_expand_words [OF words(2,3) assms(3)] by (simp only: w(1))
  ultimately show ?thesis
    using w(2,3) assms(4) by (simp add: run_simple_command_def del: expand_words.simps)
qed

section \<open>Properties\<close>



lemma run_first_pipeline:
  assumes "cx_job ctx = Some j"
  shows "run_and_or_list h I ctx (Pipeline [c] False position_zero) s =
    bind_run (i_command I ctx c s) (\<lambda>(ret, c) s. Inr ((ret, Pipeline [c] False position_zero), s))"
  using assms by (simp add: run_pipeline_def with_job_def negate_def)

lemma run_false:
  "run_command sample_host (interp (Suc (Suc (Suc (Suc 0)))) sample_host) ctx (SimpleCommand (Some (plain_word ''false'' 0)) [] [] []) sample_state =
    Inr ((1, SimpleCommand (Some (plain_word ''false'' 0)) [] [] []), sample_state)"
proof -
  have "printed_word (plain_word ''false'' 0)"
    by (simp add: printed_word_def is_arg_char_def is_safe_def char_classes)
  moreover have "get_builtin ''false'' = Some (''false'', BuiltinFalse, False)"
    by code_simp
  ultimately show ?thesis
    using run_printed_command [of "plain_word ''false'' 0" "[]" "[''false'']" "interp (Suc (Suc (Suc (Suc 0)))) sample_host" 0
        sample_state sample_host ctx] sample_runs_builtin [of "''false''"]
    by (simp add: dispatch_def runs_builtin_def mrsh_has_builtin_def mrsh_run_builtin_def builtin_false_def)
qed

lemma parse_false_and_or:
  "\<exists>q l r rg1 rg2. mrsh_parse_program (Suc (Suc six_levels)) (mrsh_parser_with_data ''false&&a||b'') =
     Inr (Some (Program [CommandList (Binop BINOP_AND
         (Pipeline [SimpleCommand (Some (plain_word ''false'' 0)) [] [] []] False position_zero)
         (Binop BINOP_OR l r rg1) rg2) False position_zero]), q)"
  by (simp add: parse_eval cong: parse_congs)

text \<open>C10: The operators \<open>&&\<close> and \<open>||\<close> of the parser nest to the right, so that the first operand of a list is a single
  pipeline, and when its status decides, everything behind it is skipped: in \<open>false && a || b\<close> neither \<open>a\<close> nor \<open>b\<close> is run.\<close>

theorem and_or_skips_rest:
  assumes "mrsh_parse_program n (mrsh_parser_with_data text) = Inr (Some (Program cls), q)"
    and "CommandList (Binop t left right op_rg) ampersand sep_pos \<in> set cls"
    and "run_and_or_list h I ctx left s = Inr ((status, left'), s')"
    and "t = BINOP_AND \<longleftrightarrow> status \<noteq> 0"
  shows "is_pipeline left \<and>
    run_and_or_list h I ctx (Binop t left right op_rg) s = Inr ((status, Binop t left' right op_rg), s')"
proof
  have "wf_program (Program cls)"
    using enough_levels [where f = "\<lambda>n. mrsh_parse_program n (mrsh_parser_with_data text)", OF le_mrsh_parse_program assms(1)
        parse_program_yields [OF ready_with_data order_trans [OF todo_below]]] by simp
  with assms(2) show "is_pipeline left"
    by (auto simp: list_all_iff)
  show "run_and_or_list h I ctx (Binop t left right op_rg) s = Inr ((status, Binop t left' right op_rg), s')"
    using assms(3,4) by (cases t) auto
qed

text \<open>In the text of the example.\<close>

theorem and_or_skips_rest_witness:
  "\<exists>q left l r rg1 rg2. mrsh_parse_program (Suc (Suc six_levels)) (mrsh_parser_with_data ''false&&a||b'') =
     Inr (Some (Program [CommandList (Binop BINOP_AND left (Binop BINOP_OR l r rg1) rg2) False position_zero]), q) \<and>
     is_pipeline left \<and>
     run_and_or_list sample_host (interp (Suc (Suc (Suc (Suc (Suc 0))))) sample_host) sample_ctx
       (Binop BINOP_AND left (Binop BINOP_OR l r rg1) rg2) sample_state =
       Inr ((1, Binop BINOP_AND left (Binop BINOP_OR l r rg1) rg2), sample_state)"
proof -
  let ?left = "Pipeline [SimpleCommand (Some (plain_word ''false'' 0)) [] [] []] False position_zero"
  let ?I = "interp (Suc (Suc (Suc (Suc (Suc 0))))) sample_host"
  obtain q l r rg1 rg2 where p: "mrsh_parse_program (Suc (Suc six_levels)) (mrsh_parser_with_data ''false&&a||b'') =
     Inr (Some (Program [CommandList (Binop BINOP_AND ?left (Binop BINOP_OR l r rg1) rg2) False position_zero]), q)"
    using parse_false_and_or by metis
  have "cx_job sample_ctx = Some 0"
    by (simp add: sample_ctx_def)
  then have run: "run_and_or_list sample_host ?I sample_ctx ?left sample_state = Inr ((1, ?left), sample_state)"
    by (simp only: run_first_pipeline interp_Suc run_false bind_run_simps split)
  show ?thesis
    using p and_or_skips_rest [OF p _ run, of BINOP_AND "Binop BINOP_OR l r rg1" rg2 False position_zero] by auto
qed

end
