(* ===== verification/Parser_Input.thy ===== *)
theory Parser_Input
  imports Parser_Core
begin

text \<open>
  The buffer behind the text of the parser, \<open>parser/parser.c\<close>: bytes are read from a file descriptor or
  taken from another buffer when a character is looked at, and a NUL is put behind the last of them. The
  calls of \<open>read\<close> give the results in \<open>rp_reads\<close>, and end-of-file when there are none left. The text that
  is left to read, the bytes before the first NUL, is what \<open>Parser_Core\<close> works on; looking ahead does not
  change it, and reading takes its first characters.
\<close>

text \<open>A result of \<open>read\<close>: the bytes, none of them at the end of the file, \<open>EINTR\<close>, or another error.\<close>

datatype read_result = ReadBytes string | ReadInterrupted | ReadFailed

record raw_parser =
  rp_fd :: int
  rp_reads :: "read_result list"
  rp_in_buf :: "string option"
  rp_eof :: bool
  rp_buf :: string
  rp_pos :: mrsh_position
  rp_error :: "(cstring \<times> mrsh_position) option"
  rp_has_sym :: bool
  rp_sym :: symbol_name
  rp_here_documents :: "here_pending list"
  rp_continuation_line :: bool

definition parser_create :: raw_parser where
  "parser_create =
     \<lparr>rp_fd = -1, rp_reads = [], rp_in_buf = None, rp_eof = False, rp_buf = [],
      rp_pos = \<lparr>pos_offset = 0, pos_line = 1, pos_column = 1\<rparr>, rp_error = None, rp_has_sym = False, rp_sym = EOF_TOKEN,
      rp_here_documents = [], rp_continuation_line = False\<rparr>"

definition mrsh_parser_with_fd :: "int \<Rightarrow> read_result list \<Rightarrow> raw_parser" where
  "mrsh_parser_with_fd fd reads = parser_create\<lparr>rp_fd := fd, rp_reads := reads\<rparr>"

definition mrsh_parser_with_data_raw :: "string \<Rightarrow> raw_parser" where
  "mrsh_parser_with_data_raw buf = parser_create\<lparr>rp_buf := buf @ [NUL]\<rparr>"

definition mrsh_parser_with_buffer :: "string \<Rightarrow> raw_parser" where
  "mrsh_parser_with_buffer buf = parser_create\<lparr>rp_in_buf := Some buf\<rparr>"

definition mrsh_parser_reset :: "raw_parser \<Rightarrow> raw_parser" where
  "mrsh_parser_reset p = p\<lparr>rp_buf := [], rp_has_sym := False, rp_pos := \<lparr>pos_offset = 0, pos_line = 0, pos_column = 0\<rparr>\<rparr>"

definition parser_set_error_raw :: "cstring \<Rightarrow> raw_parser \<Rightarrow> raw_parser" where
  "parser_set_error_raw msg p =
     (if rp_error p \<noteq> None then p else p\<lparr>rp_here_documents := [], rp_error := Some (msg, rp_pos p)\<rparr>)"

section \<open>Filling the buffer\<close>

text \<open>The number of bytes read, or -1; the results of \<open>read\<close> that are left and the bytes that came.\<close>

fun parser_peek_fd_loop :: "nat \<Rightarrow> nat \<Rightarrow> string \<Rightarrow> read_result list \<Rightarrow> int \<times> string \<times> read_result list" where
  "parser_peek_fd_loop wanted n_read buf [] = (int n_read, buf, [])"
| "parser_peek_fd_loop wanted n_read buf (r # reads) =
     (if \<not> n_read < wanted then (int n_read, buf, r # reads)
      else
        case r of
          ReadInterrupted \<Rightarrow> parser_peek_fd_loop wanted n_read buf reads
        | ReadFailed \<Rightarrow> (-1, buf, reads)
        | ReadBytes bytes \<Rightarrow>
            if bytes = [] then (int n_read, buf, reads)
            else parser_peek_fd_loop wanted (n_read + length bytes) (buf @ bytes) reads)"

definition parser_peek_fd :: "nat \<Rightarrow> raw_parser \<Rightarrow> int \<times> raw_parser" where
  "parser_peek_fd wanted p =
     (case parser_peek_fd_loop wanted 0 (rp_buf p) (rp_reads p) of
        (n_read, buf, reads) \<Rightarrow> (n_read, p\<lparr>rp_buf := buf, rp_reads := reads\<rparr>))"

text \<open>With an empty buffer the bytes are moved, otherwise appended.\<close>

definition parser_peek_buffer :: "string \<Rightarrow> raw_parser \<Rightarrow> int \<times> raw_parser" where
  "parser_peek_buffer in_buf p =
     (if in_buf = [] then (0, p)
      else (int (length in_buf),
            p\<lparr>rp_buf := (if rp_buf p = [] then in_buf else rp_buf p @ in_buf), rp_in_buf := Some []\<rparr>))"

text \<open>The bytes looked at; their number is the result of the C function.\<close>

definition parser_peek :: "nat \<Rightarrow> raw_parser \<Rightarrow> string \<times> raw_parser" where
  "parser_peek wanted p =
     (if wanted \<le> length (rp_buf p) then (take wanted (rp_buf p), p)
      else
        let n_more = wanted - length (rp_buf p);
            (n_read, p) =
              (if rp_fd p \<ge> 0 then parser_peek_fd n_more p
               else case rp_in_buf p of Some in_buf \<Rightarrow> parser_peek_buffer in_buf p | None \<Rightarrow> (0, p))
        in if n_read < 0 then ([], parser_set_error_raw ''failed to read'' p)
           else if n_read < int n_more then
             (let p = (if rp_eof p then p else p\<lparr>rp_buf := rp_buf p @ [NUL], rp_eof := True\<rparr>) in (rp_buf p, p))
           else (take wanted (rp_buf p), p))"

definition parser_peek_char_raw :: "raw_parser \<Rightarrow> char \<times> raw_parser" where
  "parser_peek_char_raw p =
     (case parser_peek 1 p of (bytes, p) \<Rightarrow> (if bytes = [] then NUL else hd bytes, p))"

text \<open>\<open>None\<close> is the assertion that no NUL is read.\<close>

definition parser_read_raw :: "nat \<Rightarrow> raw_parser \<Rightarrow> (string \<times> raw_parser) option" where
  "parser_read_raw wanted p =
     (case parser_peek wanted p of
        (bytes, p) \<Rightarrow>
          if bytes = [] then Some ([], p)
          else if NUL \<in> set bytes then None
          else Some (bytes, p\<lparr>rp_pos := fold pos_after bytes (rp_pos p), rp_buf := drop (length bytes) (rp_buf p),
                             rp_continuation_line := False\<rparr>))"

definition parser_read_char_raw :: "raw_parser \<Rightarrow> (char \<times> raw_parser) option" where
  "parser_read_char_raw p =
     map_option (\<lambda>(bytes, p). (if bytes = [] then NUL else hd bytes, p)) (parser_read_raw 1 p)"

section \<open>The text that is left\<close>

fun bytes_ahead :: "read_result list \<Rightarrow> string" where
  "bytes_ahead [] = []"
| "bytes_ahead (r # reads) =
     (case r of
        ReadInterrupted \<Rightarrow> bytes_ahead reads
      | ReadFailed \<Rightarrow> []
      | ReadBytes bytes \<Rightarrow> if bytes = [] then [] else bytes @ bytes_ahead reads)"

definition source_bytes :: "raw_parser \<Rightarrow> string" where
  "source_bytes p =
     (if rp_fd p \<ge> 0 then bytes_ahead (rp_reads p) else case rp_in_buf p of Some b \<Rightarrow> b | None \<Rightarrow> [])"

definition text_left :: "raw_parser \<Rightarrow> cstring" where
  "text_left p = cstr_of (rp_buf p @ source_bytes p)"

definition text_parser :: "raw_parser \<Rightarrow> mrsh_parser" where
  "text_parser p =
     \<lparr>p_input = text_left p, p_pos = rp_pos p, p_error = rp_error p, p_has_sym = rp_has_sym p, p_sym = rp_sym p,
      p_here_documents = rp_here_documents p, p_continuation_line = rp_continuation_line p, p_alias = None,
      p_arith_nested_parens = 0, p_docs = (\<lambda>_. None)\<rparr>"

text \<open>The NUL is in the buffer once the end was seen, or when there is nothing to read from.\<close>

definition raw_ok :: "raw_parser \<Rightarrow> bool" where
  "raw_ok p \<longleftrightarrow> (rp_eof p \<or> rp_fd p < 0 \<and> rp_in_buf p = None \<longrightarrow> NUL \<in> set (rp_buf p)) \<and> ReadFailed \<notin> set (rp_reads p)"

lemma fd_loop_bytes:
  assumes "parser_peek_fd_loop wanted k buf reads = (m, buf', reads')" "ReadFailed \<notin> set reads"
  shows "\<exists>bytes. buf' = buf @ bytes \<and> m = int (k + length bytes) \<and> ReadFailed \<notin> set reads' \<and>
    (m < int wanted \<longrightarrow> bytes = bytes_ahead reads) \<and> (wanted \<le> nat m \<longrightarrow> bytes_ahead reads = bytes @ bytes_ahead reads')"
  using assms
proof (induction wanted k buf reads rule: parser_peek_fd_loop.induct)
  case (1 wanted k buf)
  then show ?case by simp
next
  case (2 wanted k buf r reads)
  show ?case
  proof (cases "k < wanted")
    case False
    with "2.prems" show ?thesis by auto
  next
    case True
    show ?thesis
    proof (cases r)
      case (ReadBytes bytes)
      show ?thesis
      proof (cases "bytes = []")
        case True
        with ReadBytes "2.prems" \<open>k < wanted\<close> show ?thesis by auto
      next
        case False
        with ReadBytes "2.prems" \<open>k < wanted\<close> "2.IH"(1) [OF _ ReadBytes False] show ?thesis
          by (fastforce simp: add.assoc)
      qed
    qed (use "2.prems" True "2.IH"(2) in auto)
  qed
qed


lemma fd_loop_cases:
  assumes "parser_peek_fd_loop wanted k buf reads = (m, buf', reads')" "ReadFailed \<notin> set reads"
  obtains bytes where "buf' = buf @ bytes" "m = int (k + length bytes)" "ReadFailed \<notin> set reads'"
    "m < int wanted \<longrightarrow> bytes = bytes_ahead reads" "wanted \<le> nat m \<longrightarrow> bytes_ahead reads = bytes @ bytes_ahead reads'"
  using fd_loop_bytes [OF assms] by iprover

lemma cstr_of_append: "cstr_of (xs @ ys) = (if NUL \<in> set xs then cstr_of xs else xs @ cstr_of ys)"
  by (induction xs) (auto simp: cstr_of_def)

lemma cstr_of_take: "cstr_of (take n xs) = take n (cstr_of xs)"
  by (induction xs arbitrary: n) (auto simp: cstr_of_def take_Cons' split: nat.split)

lemma cstr_of_NUL: "cstr_of (xs @ NUL # ys) = cstr_of xs"
  by (induction xs) (auto simp: cstr_of_def)

lemma length_cstr_of_less: "NUL \<in> set xs \<Longrightarrow> length (cstr_of xs) < length xs"
  by (induction xs) (auto simp: cstr_of_def)

lemma length_cstr_of_whole: "NUL \<notin> set xs \<Longrightarrow> cstr_of xs = xs"
  by (induction xs) (auto simp: cstr_of_def)

text \<open>What \<open>parser_peek\<close> calls to fill the buffer.\<close>

definition fill_buffer :: "nat \<Rightarrow> raw_parser \<Rightarrow> int \<times> raw_parser" where
  "fill_buffer n_more p =
     (if rp_fd p \<ge> 0 then parser_peek_fd n_more p
      else case rp_in_buf p of Some in_buf \<Rightarrow> parser_peek_buffer in_buf p | None \<Rightarrow> (0, p))"

lemma fill_buffer_bytes:
  assumes "fill_buffer n_more p = (m, p1)" "ReadFailed \<notin> set (rp_reads p)"
  obtains bytes where "rp_buf p1 = rp_buf p @ bytes" "m = int (length bytes)" "ReadFailed \<notin> set (rp_reads p1)"
    "m < int n_more \<Longrightarrow> bytes = source_bytes p" "int n_more \<le> m \<Longrightarrow> source_bytes p = bytes @ source_bytes p1"
    "text_parser p1 = (text_parser p)\<lparr>p_input := text_left p1\<rparr>" "rp_eof p1 = rp_eof p"
    "rp_fd p1 < 0 \<and> rp_in_buf p1 = None \<longleftrightarrow> rp_fd p < 0 \<and> rp_in_buf p = None"
proof (cases "rp_fd p \<ge> 0")
  case True
  obtain k buf reads where loop: "parser_peek_fd_loop n_more 0 (rp_buf p) (rp_reads p) = (k, buf, reads)"
    by (metis prod_cases3)
  obtain bytes where bytes: "buf = rp_buf p @ bytes" "k = int (0 + length bytes)" "ReadFailed \<notin> set reads"
      "k < int n_more \<longrightarrow> bytes = bytes_ahead (rp_reads p)" "n_more \<le> nat k \<longrightarrow> bytes_ahead (rp_reads p) = bytes @ bytes_ahead reads"
    by (rule fd_loop_cases [OF loop assms(2)])
  have p1: "p1 = p\<lparr>rp_buf := buf, rp_reads := reads\<rparr>" "m = k"
    using True loop assms(1) by (simp_all add: fill_buffer_def parser_peek_fd_def)
  show ?thesis
  proof (rule that [of bytes])
    have source: "source_bytes p = bytes_ahead (rp_reads p)" "source_bytes p1 = bytes_ahead reads"
      using True by (simp_all add: source_bytes_def p1(1))
    show "bytes = source_bytes p" if "m < int n_more"
      unfolding source using that p1(2) by (intro bytes(4) [rule_format]) simp
    show "source_bytes p = bytes @ source_bytes p1" if "int n_more \<le> m"
      unfolding source using that p1(2) bytes(2) by (intro bytes(5) [rule_format]) simp
  qed (use bytes(1-3) in \<open>simp_all add: p1 text_parser_def\<close>)
next
  case False
  show ?thesis
  proof (cases "rp_in_buf p = None \<or> rp_in_buf p = Some []")
    case True
    then have p1: "p1 = p" "m = 0"
      using False assms(1) by (auto simp: fill_buffer_def parser_peek_buffer_def)
    have "source_bytes p = []"
      using True False by (auto simp: source_bytes_def)
    then show ?thesis
      by (intro that [of "[]"]) (use assms(2) in \<open>simp_all add: p1 text_parser_def\<close>)
  next
    case some: False
    then obtain b where b: "rp_in_buf p = Some b" "b \<noteq> []"
      by auto
    have p1: "p1 = p\<lparr>rp_buf := rp_buf p @ b, rp_in_buf := Some []\<rparr>" "m = int (length b)"
      using False assms(1) b by (auto simp: fill_buffer_def parser_peek_buffer_def)
    show ?thesis
      by (rule that [of b]) (use assms(2) b False in \<open>simp_all add: p1 source_bytes_def text_parser_def\<close>)
  qed
qed

text \<open>Looking ahead does not change the text, and shows its first characters and then a NUL.\<close>

lemma parser_peek_buffer_state:
  assumes "raw_ok p" "parser_peek n p = (bytes, p')"
  shows "text_parser p' = text_parser p" "raw_ok p'"
    "n \<le> length (rp_buf p') \<and> bytes = take n (rp_buf p') \<or> length (rp_buf p') \<le> n \<and> bytes = rp_buf p' \<and> NUL \<in> set (rp_buf p')"
proof -
  have "text_parser p' = text_parser p \<and> raw_ok p' \<and> (n \<le> length (rp_buf p') \<and> bytes = take n (rp_buf p') \<or>
      length (rp_buf p') \<le> n \<and> bytes = rp_buf p' \<and> NUL \<in> set (rp_buf p'))"
  proof (cases "n \<le> length (rp_buf p)")
    case True
    with assms show ?thesis by (auto simp: parser_peek_def)
  next
    case False
    define n_more where "n_more = n - length (rp_buf p)"
    obtain m p1 where fill: "fill_buffer n_more p = (m, p1)"
      by (cases "fill_buffer n_more p")
    obtain bs where bs: "rp_buf p1 = rp_buf p @ bs" "m = int (length bs)" "ReadFailed \<notin> set (rp_reads p1)"
        "m < int n_more \<Longrightarrow> bs = source_bytes p" "int n_more \<le> m \<Longrightarrow> source_bytes p = bs @ source_bytes p1"
        "text_parser p1 = (text_parser p)\<lparr>p_input := text_left p1\<rparr>" "rp_eof p1 = rp_eof p"
        "rp_fd p1 < 0 \<and> rp_in_buf p1 = None \<longleftrightarrow> rp_fd p < 0 \<and> rp_in_buf p = None"
      using fill_buffer_bytes [OF fill] assms(1) by (metis raw_ok_def)
    have peek: "parser_peek n p = (if m < int n_more
        then let p = (if rp_eof p1 then p1 else p1\<lparr>rp_buf := rp_buf p1 @ [NUL], rp_eof := True\<rparr>) in (rp_buf p, p)
        else (take n (rp_buf p1), p1))"
      using False bs(2) fill by (simp add: parser_peek_def n_more_def fill_buffer_def Let_def)
    show ?thesis
    proof (cases "m < int n_more")
      case True
      have len: "length (rp_buf p1) < n"
        using True False by (simp add: bs(1,2) n_more_def)
      have source: "source_bytes p = bs"
        using bs(4) True by simp
      have p': "p' = (if rp_eof p1 then p1 else p1\<lparr>rp_buf := rp_buf p1 @ [NUL], rp_eof := True\<rparr>)" "bytes = rp_buf p'"
        using peek assms(2) True by (simp_all add: Let_def)
      have nul: "NUL \<in> set (rp_buf p')"
        using assms(1) bs(1,7) by (auto simp: p'(1) raw_ok_def)
      have "cstr_of (rp_buf p') = cstr_of (rp_buf p @ bs)"
        using bs(1) cstr_of_NUL [of "rp_buf p @ bs" "[]"] by (simp add: p'(1))
      then have "text_left p' = text_left p"
        using nul by (simp add: text_left_def source cstr_of_append [of "rp_buf p'"])
      then have "text_parser p' = text_parser p"
        using bs(6) by (auto simp: p'(1) text_parser_def)
      moreover have "raw_ok p'"
        using nul bs(3) by (simp add: raw_ok_def) (simp add: p'(1))
      moreover have "length (rp_buf p') \<le> n"
        using len by (simp add: p'(1))
      ultimately show ?thesis
        using nul p'(2) by simp
    next
      case False
      then have "text_left p1 = text_left p"
        using bs(1,5) by (simp add: text_left_def)
      moreover have "n \<le> length (rp_buf p1)"
        using False \<open>\<not> n \<le> length (rp_buf p)\<close> by (simp add: bs(1,2) n_more_def)
      ultimately show ?thesis
        using peek assms bs(1,3,6,7,8) False by (auto simp: raw_ok_def text_parser_def)
    qed
  qed
  then show "text_parser p' = text_parser p" "raw_ok p'"
      "n \<le> length (rp_buf p') \<and> bytes = take n (rp_buf p') \<or> length (rp_buf p') \<le> n \<and> bytes = rp_buf p' \<and> NUL \<in> set (rp_buf p')"
    by blast+
qed

lemma parser_peek_text:
  assumes "raw_ok p" "parser_peek n p = (bytes, p')"
  shows "bytes = take (length bytes) (rp_buf p')" "cstr_of bytes = take n (text_left p)"
    "NUL \<in> set bytes \<longleftrightarrow> length (text_left p) < n" "NUL \<notin> set bytes \<Longrightarrow> bytes = take n (text_left p)"
proof -
  note state = parser_peek_buffer_state [OF assms]
  have left: "text_left p = cstr_of (rp_buf p' @ source_bytes p')"
    using state(1) by (simp add: text_parser_def) (simp add: text_left_def)
  have "bytes = take (length bytes) (rp_buf p') \<and> cstr_of bytes = take n (text_left p) \<and>
      (NUL \<in> set bytes \<longleftrightarrow> length (text_left p) < n)"
    using state(3)
  proof
    assume h: "n \<le> length (rp_buf p') \<and> bytes = take n (rp_buf p')"
    then have bytes: "bytes = take n (rp_buf p' @ source_bytes p')" "length bytes = n"
      by simp_all
    then have "cstr_of bytes = take n (text_left p)"
      unfolding left by (simp only: cstr_of_take)
    moreover from this have "NUL \<in> set bytes \<longleftrightarrow> length (text_left p) < n"
      using length_cstr_of_less [of bytes] length_cstr_of_whole [of bytes] bytes(2) by (cases "NUL \<in> set bytes") auto
    ultimately show ?thesis
      using h by simp
  next
    assume h: "length (rp_buf p') \<le> n \<and> bytes = rp_buf p' \<and> NUL \<in> set (rp_buf p')"
    then have "text_left p = cstr_of bytes"
      by (simp add: left cstr_of_append)
    with h length_cstr_of_less [of bytes] show ?thesis
      by simp
  qed
  then show "bytes = take (length bytes) (rp_buf p')" "cstr_of bytes = take n (text_left p)"
      "NUL \<in> set bytes \<longleftrightarrow> length (text_left p) < n" "NUL \<notin> set bytes \<Longrightarrow> bytes = take n (text_left p)"
    using length_cstr_of_whole [of bytes] by simp_all
qed

lemma peek_char_text:
  assumes "raw_ok p" "parser_peek_char_raw p = (c, p')"
  shows "c = parser_peek_char (text_parser p)" "text_parser p' = text_parser p" "raw_ok p'"
proof -
  obtain bytes where peek: "parser_peek 1 p = (bytes, p')" "c = (if bytes = [] then NUL else hd bytes)"
    using assms(2) by (auto simp: parser_peek_char_raw_def split: prod.splits)
  show "text_parser p' = text_parser p" "raw_ok p'"
    using parser_peek_buffer_state [OF assms(1) peek(1)] by simp_all
  have "cstr_of bytes = take 1 (text_left p)"
    using parser_peek_text [OF assms(1) peek(1)] by simp
  then show "c = parser_peek_char (text_parser p)"
    by (cases bytes; cases "text_left p")
      (auto simp: peek(2) parser_peek_char_def peek_at_def char_at_def text_parser_def cstr_of_def split: if_splits)
qed

lemma read_text:
  assumes "raw_ok p"
  shows "map_option (\<lambda>(bytes, p'). (bytes, text_parser p')) (parser_read_raw n p) = parser_read n (text_parser p)"
    "parser_read_raw n p = Some (bytes, p') \<Longrightarrow> raw_ok p'"
proof -
  obtain bs q where peek: "parser_peek n p = (bs, q)"
    by (cases "parser_peek n p")
  note state = parser_peek_buffer_state [OF assms peek] and look = parser_peek_text [OF assms peek]
  let ?q = "q\<lparr>rp_pos := fold pos_after bs (rp_pos q), rp_buf := drop (length bs) (rp_buf q), rp_continuation_line := False\<rparr>"
  have whole: "rp_buf q = bs @ drop (length bs) (rp_buf q)"
    using look(1) by (metis append_take_drop_id)
  have ok: "raw_ok ?q" if "NUL \<notin> set bs"
  proof -
    have "NUL \<in> set (drop (length bs) (rp_buf q))" if "NUL \<in> set (rp_buf q)"
      using that \<open>NUL \<notin> set bs\<close> whole by (metis Un_iff set_append)
    with state(2) show ?thesis
      by (auto simp: raw_ok_def)
  qed
  show "parser_read_raw n p = Some (bytes, p') \<Longrightarrow> raw_ok p'"
    using ok state(2) by (auto simp: parser_read_raw_def peek split: if_splits)
  have input: "p_input (text_parser p) = text_left p"
    by (simp add: text_parser_def)
  show "map_option (\<lambda>(bytes, p'). (bytes, text_parser p')) (parser_read_raw n p) = parser_read n (text_parser p)"
  proof (cases "NUL \<in> set bs")
    case True
    with look(3) show ?thesis
      by (auto simp: parser_read_raw_def peek parser_read_def input)
  next
    case False
    then have bs: "bs = take n (text_left p)" "n \<le> length (text_left p)"
      using look(3,4) by auto
    have "text_left q = text_left p"
      using state(1) by (simp add: text_parser_def)
    then have "text_left p = bs @ cstr_of (drop (length bs) (rp_buf q) @ source_bytes q)"
      using False whole unfolding text_left_def by (metis append.assoc cstr_of_append)
    moreover have "length bs = n" "text_left ?q = cstr_of (drop (length bs) (rp_buf q) @ source_bytes q)"
      using bs by (simp_all add: text_left_def source_bytes_def)
    ultimately have rest: "text_left ?q = drop n (text_left p)"
      by (metis append_eq_conv_conj)
    have core: "parser_read n (text_parser p) = Some (bs, skip n (text_parser p))"
      using bs by (simp add: parser_read_def input)
    show ?thesis
    proof (cases "bs = []")
      case True
      then have "n = 0"
        using bs by auto
      then show ?thesis
        unfolding core using True state(1) peek by (simp add: parser_read_raw_def skip_def)
    next
      case nonempty: False
      then have "n \<noteq> 0"
        using bs by auto
      then have "text_parser ?q = skip n (text_parser p)"
        using state(1) rest bs(1) by (simp add: skip_def text_parser_def)
      then show ?thesis
        unfolding core using nonempty False by (simp add: parser_read_raw_def peek)
    qed
  qed
qed

text \<open>The three kinds of parser and what they read.\<close>

lemma text_with_data: "text_parser (mrsh_parser_with_data_raw buf) = mrsh_parser_with_data buf \<and> raw_ok (mrsh_parser_with_data_raw buf)"
  by (simp add: text_parser_def text_left_def source_bytes_def mrsh_parser_with_data_raw_def parser_create_def
      mrsh_parser_with_data_def raw_ok_def cstr_of_NUL)

lemma text_with_fd:
  assumes "0 \<le> fd"
  shows "text_parser (mrsh_parser_with_fd fd reads) = mrsh_parser_with_data (bytes_ahead reads)"
    "ReadFailed \<notin> set reads \<Longrightarrow> raw_ok (mrsh_parser_with_fd fd reads)"
  using assms by (simp_all add: text_parser_def text_left_def source_bytes_def mrsh_parser_with_fd_def parser_create_def
      mrsh_parser_with_data_def raw_ok_def)

lemma text_with_buffer:
  "text_parser (mrsh_parser_with_buffer buf) = mrsh_parser_with_data buf \<and> raw_ok (mrsh_parser_with_buffer buf)"
  by (simp add: text_parser_def text_left_def source_bytes_def mrsh_parser_with_buffer_def parser_create_def
      mrsh_parser_with_data_def raw_ok_def)

text \<open>\<open>mrsh_parser_reset\<close> leaves \<open>eof\<close> set: the next end of the input is not marked, a look ahead shows nothing there
  and a read at it does not fail.\<close>

lemma end_not_marked_after_reset:
  assumes "rp_eof p" "rp_fd p < 0" "rp_in_buf p = Some []"
  shows "parser_peek (Suc n) (mrsh_parser_reset p) = ([], mrsh_parser_reset p)"
    "parser_read_char_raw (mrsh_parser_reset p) = Some (NUL, mrsh_parser_reset p)"
  using assms
  by (simp_all add: parser_peek_def mrsh_parser_reset_def parser_peek_buffer_def parser_read_char_raw_def parser_read_raw_def)

section \<open>Sources of characters\<close>

text \<open>The interface: looking at the next character, and reading it.\<close>

locale char_source =
  fixes inv :: "'s \<Rightarrow> bool" and left :: "'s \<Rightarrow> cstring" and peek1 :: "'s \<Rightarrow> char \<times> 's" and read1 :: "'s \<Rightarrow> (char \<times> 's) option"
  assumes peek1: "inv s \<Longrightarrow> peek1 s = (c, s') \<Longrightarrow> inv s' \<and> left s' = left s \<and> c = char_at (left s) 0"
    and read1: "inv s \<Longrightarrow> left s = c # cs \<Longrightarrow> \<exists>s'. read1 s = Some (c, s') \<and> inv s' \<and> left s' = cs"
    and no_nul: "inv s \<Longrightarrow> is_cstr (left s)"
begin

text \<open>Reading up to the end, or up to a character that stops.\<close>

fun read_until :: "nat \<Rightarrow> (char \<Rightarrow> bool) \<Rightarrow> 's \<Rightarrow> (cstring \<times> 's) option" where
  "read_until 0 stops s = None"
| "read_until (Suc n) stops s =
     (case peek1 s of
        (c, s) \<Rightarrow>
          if c = NUL \<or> stops c then Some ([], s)
          else case read1 s of
                 None \<Rightarrow> None
               | Some (c, s) \<Rightarrow> map_option (\<lambda>(cs, s). (c # cs, s)) (read_until n stops s))"

lemma read_until_text:
  assumes "inv s" "length (left s) < n"
  shows "\<exists>s'. read_until n stops s = Some (takeWhile (\<lambda>c. \<not> stops c) (left s), s') \<and> inv s' \<and>
    left s' = dropWhile (\<lambda>c. \<not> stops c) (left s)"
  using assms
proof (induction n arbitrary: s)
  case (Suc n)
  obtain c s1 where peek: "peek1 s = (c, s1)"
    by (cases "peek1 s")
  then have s1: "inv s1" "left s1 = left s" "c = char_at (left s) 0"
    using peek1 [OF Suc.prems(1)] by auto
  show ?case
  proof (cases "left s")
    case Nil
    with s1 peek show ?thesis by (simp add: char_at_def)
  next
    case (Cons d ds)
    then have c: "c = d" "d \<noteq> NUL"
      using s1 no_nul [OF Suc.prems(1)] by (auto simp: char_at_def is_cstr_def)
    show ?thesis
    proof (cases "stops d")
      case True
      with c peek Cons s1 show ?thesis by simp
    next
      case False
      obtain s2 where s2: "read1 s1 = Some (d, s2)" "inv s2" "left s2 = ds"
        using read1 [of s1 d ds] s1 Cons by auto
      with Suc.IH [of s2] Suc.prems(2) Cons obtain s' where
          "read_until n stops s2 = Some (takeWhile (\<lambda>c. \<not> stops c) ds, s')" "inv s'" "left s' = dropWhile (\<lambda>c. \<not> stops c) ds"
        by auto
      with c peek Cons s2 False show ?thesis by simp
    qed
  qed
qed simp

end

lemma is_cstr_text_left: "is_cstr (text_left p)"
  by (simp add: text_left_def)

interpretation tx: char_source "\<lambda>p. is_cstr (p_input p)" p_input "\<lambda>p. (parser_peek_char p, p)" parser_read_char
  by unfold_locales
    (auto simp: parser_peek_char_def peek_at_def parser_read_char_def parser_read_def is_cstr_def)

lemma read_char_text:
  assumes "raw_ok p" "text_left p = c # cs"
  shows "\<exists>p'. parser_read_char_raw p = Some (c, p') \<and> raw_ok p' \<and> text_left p' = cs"
proof -
  have "parser_read 1 (text_parser p) = Some ([c], skip 1 (text_parser p))"
    using assms(2) by (simp add: parser_read_def text_parser_def)
  then obtain p' where p': "parser_read_raw 1 p = Some ([c], p')" "text_parser p' = skip 1 (text_parser p)"
    using read_text(1) [OF assms(1), of 1] by auto
  have input: "p_input (text_parser q) = text_left q" for q
    by (simp add: text_parser_def)
  have "text_left p' = cs"
    using p'(2) assms(2) by (simp add: input [symmetric])
  with p'(1) read_text(2) [OF assms(1) p'(1)] show ?thesis
    by (simp add: parser_read_char_raw_def)
qed

interpretation raw: char_source raw_ok text_left parser_peek_char_raw parser_read_char_raw
proof unfold_locales
  fix s c s'
  assume "raw_ok s" "parser_peek_char_raw s = (c, s')"
  from peek_char_text [OF this] show "raw_ok s' \<and> text_left s' = text_left s \<and> c = char_at (text_left s) 0"
    by (simp add: parser_peek_char_def peek_at_def text_parser_def)
next
  fix s c cs
  assume "raw_ok s" "text_left s = c # cs"
  then show "\<exists>s'. parser_read_char_raw s = Some (c, s') \<and> raw_ok s' \<and> text_left s' = cs"
    by (rule read_char_text)
qed (rule is_cstr_text_left)

text \<open>Reading a comment character by character takes what \<open>skip_comment\<close> takes, from the text and from the buffer.\<close>

lemma comment_read:
  assumes "raw_ok p" "length (text_left p) < n"
  shows "\<exists>p'. raw.read_until n (\<lambda>c. c = NL) p = Some (takeWhile (\<lambda>c. c \<noteq> NL) (text_left p), p') \<and>
    text_left p' = p_input (skip_comment (text_parser p))"
  using raw.read_until_text [OF assms, of "\<lambda>c. c = NL"] by (auto simp: skip_comment_input text_parser_def)

section \<open>Properties\<close>

text \<open>C12: The buffered input refines the text: in any state reached by looking ahead and reading, from a
  descriptor, a buffer or given data, however the bytes come in, \<open>parser_peek_char\<close> and \<open>parser_read\<close> have the
  result of their text versions, and crash where those do, and the text behind them is the same.\<close>

theorem buffered_input_refines:
  assumes "raw_ok p"
  shows "(case parser_peek_char_raw p of (c, p') \<Rightarrow>
      c = parser_peek_char (text_parser p) \<and> text_parser p' = text_parser p \<and> raw_ok p') \<and>
    map_option (\<lambda>(bytes, p'). (bytes, text_parser p')) (parser_read_raw n p) = parser_read n (text_parser p) \<and>
    (\<forall>bytes p'. parser_read_raw n p = Some (bytes, p') \<longrightarrow> raw_ok p')"
  using peek_char_text [OF assms] read_text [OF assms] by (auto split: prod.split)

text \<open>At a descriptor that gives its bytes in two parts, with an interruption between them.\<close>

theorem buffered_input_refines_witness:
  "map_option fst (parser_read_raw 3 (mrsh_parser_with_fd 0 [ReadBytes ''ab'', ReadInterrupted, ReadBytes ''cd'', ReadBytes []])) =
     Some ''abc''"
proof -
  let ?p = "mrsh_parser_with_fd 0 [ReadBytes ''ab'', ReadInterrupted, ReadBytes ''cd'', ReadBytes []]"
  have "raw_ok ?p" "text_left ?p = ''abcd''"
    by (simp_all add: raw_ok_def mrsh_parser_with_fd_def parser_create_def text_left_def source_bytes_def cstr_of_def)
  then show ?thesis
    using buffered_input_refines [of ?p 3]
    by (cases "parser_read_raw 3 ?p") (auto simp: parser_read_def text_parser_def)
qed

end
