(* ===== verification/Ast_Print.thy ===== *)
theory Ast_Print
  imports Ast Clib
begin

text \<open>
  \<open>ast_print.c\<close>: the tree that \<open>set -n\<close> prints for a program. The functions give the bytes they print;
  the lines and angles are UTF-8. \<open>prefix\<close> is what stands in front of the lines of a node behind its first.
\<close>

section \<open>Lines\<close>

definition L_LINE :: string where "L_LINE = [CHR 0xE2, CHR 0x94, CHR 0x82, SPACE]"
definition L_VAL :: string where "L_VAL = [CHR 0xE2, CHR 0x94, CHR 0x9C, CHR 0xE2, CHR 0x94, CHR 0x80]"
definition L_LAST :: string where "L_LAST = [CHR 0xE2, CHR 0x94, CHR 0x94, CHR 0xE2, CHR 0x94, CHR 0x80]"
definition L_GAP :: string where "L_GAP = ''  ''"

text \<open>The dash in front of a node on the same line, and the arrow of a range.\<close>

definition dash :: string where "dash = SPACE # [CHR 0xE2, CHR 0x94, CHR 0x80] @ [SPACE]"
definition arrow :: string where "arrow = SPACE # [CHR 0xE2, CHR 0x86, CHR 0x92] @ [SPACE]"

definition make_sub_prefix :: "string \<Rightarrow> bool \<Rightarrow> string" where
  "make_sub_prefix prefix is_last = prefix @ (if is_last then L_GAP else L_LINE)"

definition print_prefix :: "string \<Rightarrow> bool \<Rightarrow> string" where
  "print_prefix prefix is_last = prefix @ (if is_last then L_LAST else L_VAL)"

definition print_range :: "mrsh_range \<Rightarrow> string" where
  "print_range r =
     ''['' @ fmt_d (pos_line (rng_begin r)) @ '':'' @ fmt_d (pos_column (rng_begin r)) @ arrow @
     fmt_d (pos_line (rng_end r)) @ '':'' @ fmt_d (pos_column (rng_end r)) @ '']''"

text \<open>\<open>None\<close> is the null pointer.\<close>

fun word_parameter_op_str :: "param_op \<Rightarrow> cstring option" where
  "word_parameter_op_str PARAM_NONE = None"
| "word_parameter_op_str PARAM_MINUS = Some ''-''"
| "word_parameter_op_str PARAM_EQUAL = Some ''=''"
| "word_parameter_op_str PARAM_QMARK = Some ''?''"
| "word_parameter_op_str PARAM_PLUS = Some ''+''"
| "word_parameter_op_str PARAM_LEADING_HASH = Some ''# (leading)''"
| "word_parameter_op_str PARAM_PERCENT = Some ''%''"
| "word_parameter_op_str PARAM_DPERCENT = Some ''%%''"
| "word_parameter_op_str PARAM_HASH = Some ''#''"
| "word_parameter_op_str PARAM_DHASH = Some ''##''"

fun io_redirect_op_str :: "io_redirect_op \<Rightarrow> cstring" where
  "io_redirect_op_str IO_LESS = ''<''"
| "io_redirect_op_str IO_GREAT = ''>''"
| "io_redirect_op_str IO_CLOBBER = ''>|''"
| "io_redirect_op_str IO_DGREAT = ''>>''"
| "io_redirect_op_str IO_LESSAND = ''<&''"
| "io_redirect_op_str IO_GREATAND = ''>&''"
| "io_redirect_op_str IO_LESSGREAT = ''<>''"
| "io_redirect_op_str IO_DLESS = ''<<''"
| "io_redirect_op_str IO_DLESSDASH = ''<<-''"

fun loop_type_str :: "loop_type \<Rightarrow> cstring" where
  "loop_type_str LOOP_UNTIL = ''until''"
| "loop_type_str LOOP_WHILE = ''while''"

fun binop_type_str_print :: "binop_type \<Rightarrow> cstring" where
  "binop_type_str_print BINOP_AND = ''&&''"
| "binop_type_str_print BINOP_OR = ''||''"

section \<open>Nodes\<close>

text \<open>A node below another: its label, and how it prints itself. The last one has a corner.\<close>

definition print_child :: "string \<Rightarrow> bool \<Rightarrow> string \<times> (string \<Rightarrow> string) \<Rightarrow> string" where
  "print_child prefix is_last child = print_prefix prefix is_last @ fst child @ snd child (make_sub_prefix prefix is_last)"

fun print_children :: "string \<Rightarrow> (string \<times> (string \<Rightarrow> string)) list \<Rightarrow> string" where
  "print_children prefix [] = []"
| "print_children prefix [c] = print_child prefix True c"
| "print_children prefix (c # d # cs) = print_child prefix False c @ print_children prefix (d # cs)"

text \<open>A line below a node, which has nothing below it.\<close>

definition child_line :: "string \<Rightarrow> string \<times> (string \<Rightarrow> string)" where
  "child_line label = (label @ [NL], \<lambda>_. [])"

definition print_array :: "(string \<Rightarrow> string) list \<Rightarrow> string \<Rightarrow> string" where
  "print_array fs prefix = print_children prefix (map (Pair []) fs)"

text \<open>A line and the elements of an array below it.\<close>

definition section_below :: "string \<Rightarrow> (string \<Rightarrow> string) list \<Rightarrow> string \<times> (string \<Rightarrow> string)" where
  "section_below label fs = (label @ [NL], print_array fs)"

definition numbered_args :: "(string \<Rightarrow> string) list \<Rightarrow> (string \<times> (string \<Rightarrow> string)) list" where
  "numbered_args fs = map (\<lambda>(i, f). (''argument '' @ fmt_d (int i + 1) @ dash, f)) (enumerate 0 fs)"

text \<open>The functions for the kinds of commands, on the printers of what is below them.\<close>

type_synonym printer = "string \<Rightarrow> string"

definition print_simple_command ::
    "printer option \<Rightarrow> printer list \<Rightarrow> printer list \<Rightarrow> printer list \<Rightarrow> printer" where
  "print_simple_command name args redirs assigns prefix =
     ''simple_command'' @ [NL] @ print_children prefix
       ((case name of None \<Rightarrow> [] | Some f \<Rightarrow> [(''name'' @ dash, f)]) @
        numbered_args args @ map (Pair []) redirs @ map (Pair []) assigns)"

definition print_if_clause :: "printer list \<Rightarrow> printer list \<Rightarrow> printer option \<Rightarrow> printer" where
  "print_if_clause cond body els prefix =
     ''if_clause'' @ [NL] @ print_children prefix
       ([section_below ''condition'' cond, section_below ''body'' body] @
        (case els of None \<Rightarrow> [] | Some f \<Rightarrow> [(''else_part'' @ dash, f)]))"

definition print_for_clause :: "cstring \<Rightarrow> bool \<Rightarrow> printer list \<Rightarrow> printer list \<Rightarrow> printer" where
  "print_for_clause name inn ws body prefix =
     ''for_clause'' @ [NL] @ print_children prefix
       ([child_line (''name '' @ name)] @ (if inn then [section_below ''in'' ws] else []) @ [section_below ''body'' body])"

definition print_loop_clause :: "loop_type \<Rightarrow> printer list \<Rightarrow> printer list \<Rightarrow> printer" where
  "print_loop_clause t cond body prefix =
     ''loop_clause '' @ loop_type_str t @ [NL] @ print_children prefix
       [section_below ''condition'' cond, section_below ''body'' body]"

definition print_case_clause :: "printer \<Rightarrow> printer list \<Rightarrow> printer" where
  "print_case_clause w items prefix =
     ''case_clause'' @ [NL] @ print_children prefix [(''word'' @ dash, w), section_below ''items'' items]"

definition print_pipeline :: "bool \<Rightarrow> printer list \<Rightarrow> printer" where
  "print_pipeline bang cmds prefix = ''pipeline'' @ (if bang then '' !'' else []) @ [NL] @ print_array cmds prefix"

definition print_binop :: "binop_type \<Rightarrow> printer \<Rightarrow> printer \<Rightarrow> printer" where
  "print_binop t left right prefix =
     ''binop '' @ binop_type_str_print t @ [NL] @ print_children prefix [([], left), ([], right)]"

text \<open>A command substitution without a program is a null pointer that the C code follows; the parser makes none.\<close>

primrec print_word :: "mrsh_word \<Rightarrow> printer"
  and print_io_redirect :: "mrsh_io_redirect \<Rightarrow> printer"
  and print_assignment :: "mrsh_assignment \<Rightarrow> printer"
  and print_command :: "mrsh_command \<Rightarrow> printer"
  and print_case_item :: "mrsh_case_item \<Rightarrow> printer"
  and print_and_or_list :: "mrsh_and_or_list \<Rightarrow> printer"
  and print_command_list :: "mrsh_command_list \<Rightarrow> printer"
  and print_program :: "mrsh_program \<Rightarrow> printer" where
  "print_word (WString str q sf r) = (\<lambda>prefix.
     ''word_string'' @ (if q then '' (quoted)'' else []) @ '' '' @ print_range r @ '' '' @ str @ [NL])"
| "print_word (WParameter name op colon arg ps) = (\<lambda>prefix.
     ''word_parameter'' @ [NL] @ print_children prefix
       (child_line (''name '' @ name) #
        (case word_parameter_op_str op of
           None \<Rightarrow> []
         | Some str \<Rightarrow> [child_line (''op '' @ (if colon then '':'' else []) @ str)]) @
        (case map_option print_word arg of None \<Rightarrow> [] | Some f \<Rightarrow> [(''arg'' @ dash, f)])))"
| "print_word (WCommand prog bq r) = (\<lambda>prefix.
     ''word_command'' @ (if bq then '' (quoted)'' else []) @ dash @
     (case map_option print_program prog of None \<Rightarrow> [] | Some f \<Rightarrow> f prefix))"
| "print_word (WArithmetic body) = (\<lambda>prefix. ''word_arithmetic'' @ dash @ print_word body prefix)"
| "print_word (WList children dq l r) = (\<lambda>prefix.
     ''word_list'' @ (if dq then '' (quoted)'' else []) @ [NL] @ print_array (map print_word children) prefix)"
| "print_io_redirect (IoRedirect n op name here np opr) = (\<lambda>prefix.
     ''io_redirect'' @ [NL] @ print_children prefix
       ([child_line (''io_number '' @ fmt_d n), child_line (''op '' @ io_redirect_op_str op), (''name'' @ dash, print_word name)] @
        (if here = [] then [] else [section_below ''here_document'' (map print_word here)])))"
| "print_assignment (Assignment name v nr eq) = (\<lambda>prefix.
     ''assignment'' @ [NL] @ print_children prefix [child_line (''name '' @ name), (''value'' @ dash, print_word v)])"
| "print_command (SimpleCommand name args redirs assigns) =
     print_simple_command (map_option print_word name) (map print_word args) (map print_io_redirect redirs)
       (map print_assignment assigns)"
| "print_command (BraceGroup body l r) = (\<lambda>prefix.
     ''brace_group'' @ [NL] @ print_array (map print_command_list body) prefix)"
| "print_command (Subshell body l r) = (\<lambda>prefix.
     ''subshell'' @ [NL] @ print_array (map print_command_list body) prefix)"
| "print_command (IfClause cond body els if_r then_r fi_r else_r) =
     print_if_clause (map print_command_list cond) (map print_command_list body) (map_option print_command els)"
| "print_command (ForClause name inn ws body for_r name_r do_r done_r in_r) =
     print_for_clause name inn (map print_word ws) (map print_command_list body)"
| "print_command (LoopClause t cond body wu_r do_r done_r) =
     print_loop_clause t (map print_command_list cond) (map print_command_list body)"
| "print_command (CaseClause w items case_r in_r esac_r) =
     print_case_clause (print_word w) (map print_case_item items)"
| "print_command (FunctionDefinition name body redirs name_r lp rp) = (\<lambda>prefix.
     ''function_definition '' @ name @ dash @ print_command body prefix)"
| "print_case_item (CaseItem patterns body lp rp dsemi_r) = (\<lambda>prefix.
     ''case_item'' @ [NL] @ print_children prefix
       [section_below ''patterns'' (map print_word patterns), section_below ''body'' (map print_command_list body)])"
| "print_and_or_list (Pipeline cmds bang bp) = print_pipeline bang (map print_command cmds)"
| "print_and_or_list (Binop t l r opr) = print_binop t (print_and_or_list l) (print_and_or_list r)"
| "print_command_list (CommandList l ampersand sep) = (\<lambda>prefix.
     ''command_list'' @ (if ampersand then '' &'' else []) @ dash @ print_and_or_list l prefix)"
| "print_program (Program body) = (\<lambda>prefix.
     ''program'' @ [NL] @ print_array (map print_command_list body) prefix)"

definition mrsh_program_print :: "mrsh_program \<Rightarrow> string" where
  "mrsh_program_print prog = print_program prog []"

end
