(* ===== verification/Shell_End.thy ===== *)
theory Shell_End
  imports Traps
begin

text \<open>
  The end of a shell: \<open>mrsh_state_destroy\<close> of \<open>shell/shell.c\<close>. Of the memory it frees, the parts that can
  be shared or freed before are followed: the strings of the call frames, the programs of the
  traps, and the tables of jobs and processes. \<open>None\<close> is a double free or a failed assertion.
\<close>

section \<open>Jobs and processes\<close>

lemma job_destroy_jobs:
  assumes "job_destroy job s = Some s'"
  shows "map jb_key (js_jobs s') = filter (\<lambda>key. key \<noteq> jb_key job) (map jb_key (js_jobs s))"
proof -
  have keys: "map jb_key (js_jobs s2) = map jb_key (js_jobs s1)" if "job_queue_notification job s1 = Some s2" for s1 s2
    using that by (auto simp: job_queue_notification_def update_job_object_def split: option.splits)
  have fold: "js_jobs (fold process_destroy ps t) = js_jobs t" for ps t
    by (induction ps arbitrary: t) (simp_all add: process_destroy_def)
  have fg: "map jb_key (js_jobs t) = map jb_key (js_jobs s)"
    if "job_set_foreground True job False False s = Some (b, t)" for b t
    using that keys by (auto simp: job_set_foreground_def Let_def split: if_splits option.splits)
  obtain t where t: "(if js_foreground s = Some (jb_key job)
        then map_option snd (job_set_foreground True job False False s) else Some s) = Some t"
    "js_jobs s' = filter (\<lambda>j. jb_key j \<noteq> jb_key job) (js_jobs t)"
    using assms by (auto simp: job_destroy_def fold Let_def split: option.splits)
  have keys: "map jb_key (js_jobs t) = map jb_key (js_jobs s)"
    using t(1) fg by (cases "js_foreground s = Some (jb_key job)") auto
  have filter_keys: "map jb_key (filter (\<lambda>j. jb_key j \<noteq> k) js) = filter (\<lambda>key. key \<noteq> k) (map jb_key js)" for k js
    by (induction js) simp_all
  show ?thesis
    unfolding t(2) filter_keys keys ..
qed

text \<open>The loop takes the last job until none is left.\<close>

function destroy_jobs :: "jobs_state \<Rightarrow> jobs_state option" where
  "destroy_jobs s =
     (if js_jobs s = [] then Some s
      else case job_destroy (last (js_jobs s)) s of None \<Rightarrow> None | Some s' \<Rightarrow> destroy_jobs s')"
  by pat_completeness auto

termination
proof (relation "measure (\<lambda>s. length (js_jobs s))")
  fix s s'
  assume "js_jobs s \<noteq> []" "job_destroy (last (js_jobs s)) s = Some s'"
  then have "length (map jb_key (js_jobs s')) < length (map jb_key (js_jobs s))"
    by (simp only: job_destroy_jobs length_filter_less) (auto intro!: length_filter_less)
  then show "(s', s) \<in> measure (\<lambda>s. length (js_jobs s))"
    by simp
qed simp

declare destroy_jobs.simps [simp del]

function destroy_processes :: "jobs_state \<Rightarrow> jobs_state" where
  "destroy_processes s =
     (if js_processes s = [] then s else destroy_processes (process_destroy (last (js_processes s)) s))"
  by pat_completeness auto

termination
  by (relation "measure (\<lambda>s. length (js_processes s))") (simp_all add: process_destroy_def length_remove1)

declare destroy_processes.simps [simp del]

section \<open>The whole state\<close>

fun destroy_frames :: "mrsh_call_frame list \<Rightarrow> unit option" where
  "destroy_frames [] = Some ()"
| "destroy_frames (fr # frs) = (case call_frame_destroy fr of None \<Rightarrow> None | Some _ \<Rightarrow> destroy_frames frs)"

fun destroy_traps :: "mrsh_trap list \<Rightarrow> mrsh_state \<Rightarrow> mrsh_state option" where
  "destroy_traps [] s = Some s"
| "destroy_traps (tr # trs) s = (case prog_destroy (tr_program tr) s of None \<Rightarrow> None | Some s \<Rightarrow> destroy_traps trs s)"

definition mrsh_state_destroy :: "mrsh_state \<Rightarrow> mrsh_state option" where
  "mrsh_state_destroy s =
     (if js_job_control (st_jobs s) \<and> broadcast_sighup_to_jobs (st_jobs s) = None then None
      else case destroy_jobs (st_jobs s) of
        None \<Rightarrow> None
      | Some js \<Rightarrow>
          (case destroy_frames (st_frames s) of
             None \<Rightarrow> None
           | Some _ \<Rightarrow>
               destroy_traps (st_traps s)
                 (s\<lparr>st_variables := hashtable_zero, st_functions := hashtable_zero, st_aliases := hashtable_zero,
                   st_jobs := destroy_processes js, st_frames := []\<rparr>)))"

section \<open>Facts\<close>

lemma destroy_processes_none: "js_processes (destroy_processes s) = [] \<and> js_jobs (destroy_processes s) = js_jobs s"
proof (induction s rule: destroy_processes.induct)
  case (1 s)
  then show ?case
    by (cases "js_processes s = []") (simp_all add: destroy_processes.simps [of s] process_destroy_def)
qed

text \<open>No job is in the foreground: nothing is asserted.\<close>

lemma destroy_jobs_some:
  "js_foreground s = None \<Longrightarrow> \<exists>s'. destroy_jobs s = Some s' \<and> js_jobs s' = []"
proof (induction s rule: destroy_jobs.induct)
  case (1 s)
  have fg: "js_foreground (fold process_destroy ps t) = js_foreground t" for ps t
    by (induction ps arbitrary: t) (simp_all add: process_destroy_def)
  show ?case
  proof (cases "js_jobs s = []")
    case True
    then show ?thesis by (simp add: destroy_jobs.simps [of s])
  next
    case False
    obtain s' where s': "job_destroy (last (js_jobs s)) s = Some s'" "js_foreground s' = None"
      using "1.prems" by (simp add: job_destroy_def fg Let_def)
    with "1.IH" False show ?thesis
      by (simp add: destroy_jobs.simps [of s])
  qed
qed

lemma destroy_frames_some: "(\<forall>fr \<in> set frs. frame_ok fr \<or> fr_argv fr = None) \<Longrightarrow> destroy_frames frs = Some ()"
proof (induction frs)
  case (Cons fr frs)
  then show ?case
    using frame_destroy_ok [of fr] by (auto simp: call_frame_destroy_def split: option.splits)
qed simp

definition trap_programs :: "mrsh_trap list \<Rightarrow> nat list" where
  "trap_programs trs = concat (map (\<lambda>tr. case tr_program tr of None \<Rightarrow> [] | Some a \<Rightarrow> [a]) trs)"

lemma destroy_traps_some:
  "distinct (trap_programs trs) \<Longrightarrow> \<forall>a \<in> set (trap_programs trs). st_progs s a \<noteq> None \<Longrightarrow>
    destroy_traps trs s = Some (s\<lparr>st_progs := (\<lambda>a. if a \<in> set (trap_programs trs) then None else st_progs s a)\<rparr>)"
proof (induction trs arbitrary: s)
  case Nil
  then show ?case by (simp add: trap_programs_def)
next
  case (Cons tr trs)
  show ?case
  proof (cases "tr_program tr")
    case None
    with Cons show ?thesis by (simp add: trap_programs_def prog_destroy_def)
  next
    case (Some a)
    with Cons.prems have "distinct (trap_programs trs)" "a \<notin> set (trap_programs trs)" "st_progs s a \<noteq> None"
      "\<forall>b \<in> set (trap_programs trs). st_progs (s\<lparr>st_progs := (st_progs s)(a := None)\<rparr>) b \<noteq> None"
      by (auto simp: trap_programs_def)
    with Cons.IH [of "s\<lparr>st_progs := (st_progs s)(a := None)\<rparr>"] Some show ?thesis
      by (auto simp: trap_programs_def prog_destroy_def fun_eq_iff intro!: arg_cong [where f = "\<lambda>g. s\<lparr>st_progs := g\<rparr>"])
  qed
qed

text \<open>A shell whose frames are sound, whose traps own their programs and which has no job in the foreground
  is destroyed without an error.\<close>

theorem state_destroyed:
  assumes "\<not> js_job_control (st_jobs s)" "js_foreground (st_jobs s) = None"
    "\<forall>fr \<in> set (st_frames s). frame_ok fr \<or> fr_argv fr = None"
    "distinct (trap_programs (st_traps s))" "\<forall>a \<in> set (trap_programs (st_traps s)). st_progs s a \<noteq> None"
  shows "\<exists>s'. mrsh_state_destroy s = Some s' \<and> st_frames s' = [] \<and> js_jobs (st_jobs s') = [] \<and>
    js_processes (st_jobs s') = [] \<and> (\<forall>a \<in> set (trap_programs (st_traps s)). st_progs s' a = None)"
proof -
  obtain js where "destroy_jobs (st_jobs s) = Some js" "js_jobs js = []"
    using destroy_jobs_some [OF assms(2)] by blast
  with assms destroy_frames_some [OF assms(3)] destroy_processes_none [of js] show ?thesis
    by (simp add: mrsh_state_destroy_def destroy_traps_some)
qed

text \<open>After one \<open>trap\<close> command has named two conditions the shell frees their program twice when it ends.\<close>

theorem shared_trap_double_free_at_exit:
  "case builtin_trap (\<lambda>_. True) (\<lambda>_. Inr (Some (Program []))) [''trap'', '':'', ''QUIT'', ''TERM''] sample_state of
     Some (r, s) \<Rightarrow> r = 0 \<and> (case mrsh_state_destroy s of None \<Rightarrow> True | Some _ \<Rightarrow> False)
   | None \<Rightarrow> False"
  by code_simp

end
