(* ===== verification/Entry.thy ===== *)
theory Entry
  imports Tasks Builtin_Set Ast_Print Parser_Total Shell_End
begin

text \<open>
  The start of the shell and its main loop: the rest of \<open>shell/entry.c\<close>, and \<open>main.c\<close>. What the
  process is started with is in the record \<open>launch\<close>. The lines that \<open>interactive_next\<close> of
  \<open>frontend/\<close> delivers are a parameter, the prompt it prints goes to standard error. A script on
  standard input is followed if the first look of the parser takes all of it, \<open>READ_SIZE\<close> bytes.
  The parser is given \<open>n\<close> levels, and \<open>k\<close>
  bounds the turns of the loop.
\<close>

record launch =
  la_handlers :: "nat \<Rightarrow> sig_handler"
  la_umask :: u32
  la_stdin :: string
  la_cwd :: cstring
  la_environ :: "cstring list"
  la_uid :: int
  la_euid :: int
  la_gid :: int
  la_egid :: int
  la_ppid :: int
  la_isatty :: bool
  la_exists :: "cstring \<Rightarrow> bool" \<comment> \<open>\<open>access\<close> with \<open>F_OK\<close>\<close>

section \<open>shell/entry.c\<close>

definition mrsh_get_ps1 :: "host \<Rightarrow> launch \<Rightarrow> interp \<Rightarrow> mrsh_state \<Rightarrow> cstring run" where
  "mrsh_get_ps1 h l I s =
     bind_run (expand_ps h I ''PS1'' s) (\<lambda>str s.
       Inr (case str of Some t \<Rightarrow> t | None \<Rightarrow> if la_uid l \<noteq> 0 then ''$ '' else ''# '', s))"

definition mrsh_get_ps2 :: "host \<Rightarrow> interp \<Rightarrow> mrsh_state \<Rightarrow> cstring run" where
  "mrsh_get_ps2 h I s =
     bind_run (expand_ps h I ''PS2'' s) (\<lambda>str s. Inr (case str of None \<Rightarrow> ''> '' | Some t \<Rightarrow> t, s))"

text \<open>The variables of the environment. A string without an equals sign is a null pointer that is used.\<close>

fun environ_variables :: "cstring list \<Rightarrow> mrsh_state \<Rightarrow> mrsh_state option" where
  "environ_variables [] s = Some s"
| "environ_variables (str # strs) s =
     (case dropWhile (\<lambda>c. c \<noteq> CHR ''='') str of
        [] \<Rightarrow> None
      | _ # val \<Rightarrow>
          environ_variables strs
            (mrsh_env_set (takeWhile (\<lambda>c. c \<noteq> CHR ''='') str) val MRSH_VAR_ATTRIB_EXPORT s))"

definition mrsh_populate_env :: "host \<Rightarrow> launch \<Rightarrow> mrsh_state \<Rightarrow> (bool \<times> mrsh_state) option" where
  "mrsh_populate_env h l s =
     (case environ_variables (la_environ l) s of
        None \<Rightarrow> None
      | Some s \<Rightarrow>
          let s = mrsh_env_set ''IFS'' [SPACE, TAB, NL] MRSH_VAR_ATTRIB_NONE s;
              s = mrsh_env_set ''PPID'' (fmt_d (la_ppid l)) MRSH_VAR_ATTRIB_NONE s;
              attribs = MRSH_VAR_ATTRIB_EXPORT OR MRSH_VAR_ATTRIB_READONLY
          in case (case mrsh_env_get s ''PWD'' of None \<Rightarrow> current_working_dir h s | Some pwd \<Rightarrow> Some pwd) of
               None \<Rightarrow> Some (False, s)
             | Some pwd \<Rightarrow>
                 Some (True, mrsh_env_set ''OPTIND'' ''1'' MRSH_VAR_ATTRIB_NONE (mrsh_env_set ''PWD'' pwd attribs s)))"

definition source_file :: "launch \<Rightarrow> interp \<Rightarrow> cstring \<Rightarrow> mrsh_state \<Rightarrow> unit run" where
  "source_file l I path s =
     (if \<not> la_exists l path then Inr ((), s)
      else bind_run (i_builtin I [''.'', path] s) (\<lambda>_ s. Inr ((), s)))"

text \<open>Without \<open>HOME\<close> the format gets a null pointer.\<close>

definition mrsh_source_profile :: "launch \<Rightarrow> interp \<Rightarrow> mrsh_state \<Rightarrow> unit run" where
  "mrsh_source_profile l I s =
     bind_run (source_file l I ''/etc/profile'' s) (\<lambda>_ s.
       need (st_environ s ''HOME'') s (\<lambda>home s. source_file l I (home @ ''/.profile'') s))"

text \<open>An expansion that fails gives a null pointer, which is used.\<close>

definition mrsh_source_env :: "host \<Rightarrow> launch \<Rightarrow> interp \<Rightarrow> mrsh_state \<Rightarrow> unit run" where
  "mrsh_source_env h l I s =
     (case st_environ s ''ENV'' of
        None \<Rightarrow> Inr ((), s)
      | Some path \<Rightarrow>
          if la_uid l \<noteq> la_euid l \<or> la_gid l \<noteq> la_egid l then Inr ((), s)
          else bind_run (expand_str h I path s) (\<lambda>str s.
            need str s (\<lambda>path s.
              if char_at path 0 \<noteq> CHR ''/'' then Inr ((), s) else source_file l I path s)))"

definition mrsh_run_exit_trap :: "interp \<Rightarrow> mrsh_state \<Rightarrow> bool run" where
  "mrsh_run_exit_trap I s = run_exit_trap (i_program I) (i_fuel I) s"

section \<open>The main loop\<close>

text \<open>What the loop keeps beside the shell: the lines to come, the incomplete command and the parser.\<close>

record main_input =
  mi_lines :: "string list"
  mi_read_buffer :: string
  mi_parser :: mrsh_parser

text \<open>The parser on another text, after \<open>mrsh_parser_reset\<close>.\<close>

definition refill_parser :: "string \<Rightarrow> mrsh_parser \<Rightarrow> mrsh_parser" where
  "refill_parser data p =
     p\<lparr>p_input := cstr_of data, p_has_sym := False, p_pos := \<lparr>pos_offset = 0, pos_line = 0, pos_column = 0\<rparr>,
       p_docs := (\<lambda>_. None)\<rparr>"

text \<open>Asking for a line: the prompt is expanded first. \<open>None\<close> is the end of the input.\<close>

definition next_line :: "host \<Rightarrow> launch \<Rightarrow> interp \<Rightarrow> main_input \<Rightarrow> mrsh_state \<Rightarrow> main_input option run" where
  "next_line h l I mi s =
     bind_run (if mi_read_buffer mi \<noteq> [] then mrsh_get_ps2 h I s else mrsh_get_ps1 h l I s) (\<lambda>_ s.
       case mi_lines mi of
         [] \<Rightarrow> Inr (None, s)
       | line # lines \<Rightarrow>
           let buf = mi_read_buffer mi @ line in
           Inr (Some \<lparr>mi_lines = lines, mi_read_buffer = buf, mi_parser = refill_parser buf (mi_parser mi)\<rparr>, s))"

text \<open>Running or, with \<open>-n\<close>, printing what was parsed.\<close>

definition run_or_print :: "interp \<Rightarrow> mrsh_program \<Rightarrow> mrsh_state \<Rightarrow> unit run" where
  "run_or_print I prog s =
     (if has_option (st_options s) MRSH_OPT_NOEXEC then Inr ((), puts (mrsh_program_print prog) s)
      else bind_run (i_program I prog s) (\<lambda>_ s. mrsh_destroy_terminated_jobs s))"

text \<open>The turn behind the reading of a line; \<open>None\<close> is the \<open>break\<close> of the loop.\<close>

definition parse_turn :: "nat \<Rightarrow> interp \<Rightarrow> main_input \<Rightarrow> mrsh_state \<Rightarrow> main_input option run" where
  "parse_turn n I mi s =
     (case mrsh_parse_line n ((mi_parser mi)\<lparr>p_alias := Some (get_alias_func s)\<rparr>) of
        Inl ParseFuel \<Rightarrow> Inl NoFuel
      | Inl _ \<Rightarrow> Inl Crash
      | Inr (prog, p) \<Rightarrow>
          if st_interactive s \<and> p_continuation_line p then Inr (Some (mi\<lparr>mi_parser := p\<rparr>), s)
          else case prog of
            Some prog \<Rightarrow>
              bind_run (run_or_print I prog s) (\<lambda>_ s. Inr (Some (mi\<lparr>mi_read_buffer := [], mi_parser := p\<rparr>), s))
          | None \<Rightarrow>
              if mrsh_parser_error p \<noteq> None then
                if st_interactive s then Inr (Some (mi\<lparr>mi_read_buffer := [], mi_parser := p\<rparr>), s)
                else Inr (None, s\<lparr>st_exit := 1\<rparr>)
              else if mrsh_parser_eof p then Inr (None, s\<lparr>st_exit := st_last_status s\<rparr>)
              else Inr (None, s\<lparr>st_exit := 1\<rparr>))"

fun main_loop :: "nat \<Rightarrow> nat \<Rightarrow> host \<Rightarrow> launch \<Rightarrow> interp \<Rightarrow> main_input \<Rightarrow> mrsh_state \<Rightarrow> unit run" where
  "main_loop 0 n h l I mi s = Inl NoFuel"
| "main_loop (Suc k) n h l I mi s =
     (if st_exit s \<noteq> - 1 then Inr ((), s)
      else
        bind_run (if st_interactive s then next_line h l I mi s else Inr (Some mi, s)) (\<lambda>input s.
          case input of
            None \<Rightarrow> main_loop k n h l I mi (s\<lparr>st_exit := st_last_status s\<rparr>)
          | Some mi \<Rightarrow>
              bind_run (parse_turn n I mi s) (\<lambda>following s.
                case following of None \<Rightarrow> Inr ((), s) | Some mi \<Rightarrow> main_loop k n h l I mi s)))"

section \<open>main\<close>

definition READ_SIZE :: nat where "READ_SIZE = 4096"

text \<open>The text of a script, which nobody else reads: \<open>Inl status\<close> when \<open>main\<close> returns early.\<close>

definition script_text :: "host \<Rightarrow> mrsh_init_args \<Rightarrow> mrsh_state \<Rightarrow> (int + string option) \<times> mrsh_state" where
  "script_text h ia s =
     (case ia_command_str ia of
        Some str \<Rightarrow> (Inr (Some str), s)
      | None \<Rightarrow>
          (case ia_command_file ia of
             None \<Rightarrow> (Inr None, s)
           | Some file \<Rightarrow>
               (case sys_open h file OpenRead s of
                  (fd, s) \<Rightarrow>
                    if fd < 0 then (Inl 1, s) else (case read_all fd s of (txt, s) \<Rightarrow> (Inr (Some txt), s)))))"

text \<open>The script on standard input is read when the parser first looks at it.\<close>

definition stdin_script :: "string option \<Rightarrow> mrsh_state \<Rightarrow> string run" where
  "stdin_script script s =
     (case script of
        Some str \<Rightarrow> Inr (str, s)
      | None \<Rightarrow>
          if st_interactive s \<or> st_exit s \<noteq> - 1 then Inr ([], s)
          else if length (fd_text s 0) > READ_SIZE then Inl NoFuel
          else Inr (read_all 0 s))"

definition source_files :: "host \<Rightarrow> launch \<Rightarrow> interp \<Rightarrow> mrsh_state \<Rightarrow> unit run" where
  "source_files h l I s =
     (if has_option (st_options s) MRSH_OPT_NOEXEC then Inr ((), s)
      else need (frame_arg (cur_frame s) 0) s (\<lambda>argv_0 s.
        bind_run (if char_at argv_0 0 = CHR ''-'' then mrsh_source_profile l I s else Inr ((), s)) (\<lambda>_ s.
          if st_interactive s then mrsh_source_env h l I s else Inr ((), s))))"

text \<open>The end of \<open>main\<close>: the status is taken before the trap on exit runs. The state of the result is the
  one that is destroyed.\<close>

definition main_finish :: "interp \<Rightarrow> mrsh_state \<Rightarrow> int run" where
  "main_finish I s =
     (let s = (if st_interactive s then puts [NL] s else s) in
      bind_run (mrsh_run_exit_trap I s) (\<lambda>_ t. need (mrsh_state_destroy t) t (\<lambda>_ t. Inr (st_exit s, t))))"

definition init_args_zero :: mrsh_init_args where
  "init_args_zero = \<lparr>ia_command_file = None, ia_command_str = None\<rparr>"

text \<open>\<open>getenv\<close>, and the shell as the process starts.\<close>

definition process_environ :: "cstring list \<Rightarrow> cstring \<Rightarrow> cstring option" where
  "process_environ strs name =
     map_option (drop (length name + 1)) (find (\<lambda>str. take (length name + 1) str = name @ ''='') strs)"

definition start_state :: "launch \<Rightarrow> mrsh_state" where
  "start_state l =
     (mrsh_state_create (la_handlers l) (la_umask l) (la_stdin l))
       \<lparr>st_environ := process_environ (la_environ l), st_cwd := la_cwd l\<rparr>"

text \<open>\<open>main\<close>, with the number it returns; \<open>lines\<close> is what is typed when the shell is interactive.\<close>

definition mrsh_main :: "nat \<Rightarrow> nat \<Rightarrow> host \<Rightarrow> launch \<Rightarrow> interp \<Rightarrow> string list \<Rightarrow> cstring list \<Rightarrow> int run" where
  "mrsh_main k n h l I lines argv =
     need (mrsh_process_args (la_isatty l) init_args_zero argv (start_state l)) (start_state l) (\<lambda>(ret, ia, s) _.
       if ret \<noteq> 0 then need (mrsh_state_destroy s) s (\<lambda>_ s. Inr (1, s))
       else bind_run (run_of (mrsh_populate_env h l s)) (\<lambda>ok s.
         if \<not> ok then Inr (1, s)
         else case (if st_interactive s then (Inr None, s) else script_text h ia s) of
           (Inl status, s) \<Rightarrow> Inr (status, s)
         | (Inr script, s) \<Rightarrow>
             bind_run (if has_option (st_options s) MRSH_OPT_MONITOR
                       then run_of (mrsh_set_job_control (h_sigok h) (h_job_control h) True s) else Inr (True, s)) (\<lambda>_ s.
               bind_run (source_files h l I s) (\<lambda>_ s.
                 bind_run (stdin_script script s) (\<lambda>str s.
                   bind_run (main_loop k n h l I
                       \<lparr>mi_lines = lines, mi_read_buffer = [], mi_parser = mrsh_parser_with_data str\<rparr> s) (\<lambda>_ s.
                     main_finish I s))))))"

section \<open>Reading without running\<close>

lemma puts_puts: "puts b (puts a s) = puts (a @ b) s"
  by (simp add: puts_def fd_write_def split: option.split)

lemma puts_nothing [simp]: "puts [] s = s"
  by (simp add: puts_def fd_write_def split: option.split)

lemma fd_write_aliases [simp]: "get_alias_func (fd_write fd str s) = get_alias_func s"
  by (simp add: fun_eq_iff get_alias_func_def)

text \<open>What is left of the state: the output, and the exit status, 1 or the status that there was.\<close>

definition only_printed :: "mrsh_state \<Rightarrow> unit run \<Rightarrow> bool" where
  "only_printed s r \<longleftrightarrow>
     r = Inl Crash \<or>
     (\<exists>out status. r = Inr ((), (puts out s)\<lparr>st_exit := status\<rparr>) \<and> (status = 1 \<or> status = st_last_status s))"

lemma only_printed_puts: "only_printed (puts out s) r \<Longrightarrow> only_printed s r"
  unfolding only_printed_def puts_puts by (auto simp: puts_def)

lemma only_printed_end:
  "status = 1 \<or> status = st_last_status s \<Longrightarrow> only_printed s (Inr ((), s\<lparr>st_exit := status\<rparr>))"
  unfolding only_printed_def by (metis puts_nothing)

lemma main_loop_prints:
  assumes "ready_parser (mi_parser mi)" "todo (mi_parser mi) + 2 \<le> n" "todo (mi_parser mi) < k"
    "has_option (st_options s) MRSH_OPT_NOEXEC" "\<not> st_interactive s" "st_exit s = - 1" "get_alias_func s = (\<lambda>_. None)"
  shows "only_printed s (main_loop k n h l I mi s)"
  using assms
proof (induction k arbitrary: mi s)
  case (Suc k)
  let ?p = "(mi_parser mi)\<lparr>p_alias := Some (get_alias_func s)\<rparr>"
  have "ready_parser ?p" "todo ?p + 2 \<le> n"
    using Suc.prems(1,2,7) by (auto simp: ready_parser_def no_aliases_def)
  note y = parse_line_yields [OF this]
  show ?case
  proof (cases "mrsh_parse_line n ?p")
    case (Inl e)
    with y Suc.prems(5,6) show ?thesis
      by (cases e) (simp_all add: parse_turn_def only_printed_def)
  next
    case (Inr r)
    obtain prog p where r: "r = (prog, p)"
      by (cases r)
    show ?thesis
    proof (cases prog)
      case None
      with y Suc.prems(5,6) show ?thesis
        by (simp add: Inr r parse_turn_def only_printed_end)
    next
      case (Some pr)
      with y Inr r have p: "ready_parser p" "todo p < todo (mi_parser mi)"
        by simp_all
      have "only_printed (puts (mrsh_program_print pr) s)
          (main_loop k n h l I (mi\<lparr>mi_read_buffer := [], mi_parser := p\<rparr>) (puts (mrsh_program_print pr) s))"
        using p Suc.prems by (intro Suc.IH) (simp_all add: puts_def)
      with Some Suc.prems(4-6) show ?thesis
        by (simp add: Inr r parse_turn_def run_or_print_def only_printed_puts)
    qed
  qed
qed simp

lemma environ_variables_some:
  assumes "\<forall>str \<in> set strs. CHR ''='' \<in> set str"
  shows "\<exists>vars. environ_variables strs s = Some (s\<lparr>st_variables := vars\<rparr>)"
  using assms
proof (induction strs arbitrary: s)
  case Nil
  have "s\<lparr>st_variables := st_variables s\<rparr> = s" by simp
  then show ?case by (metis environ_variables.simps(1))
next
  case (Cons str strs)
  from Cons.prems have "dropWhile (\<lambda>c. c \<noteq> CHR ''='') str \<noteq> []"
    by (auto simp: dropWhile_eq_Nil_conv)
  then obtain c val where "dropWhile (\<lambda>c. c \<noteq> CHR ''='') str = c # val"
    by (cases "dropWhile (\<lambda>c. c \<noteq> CHR ''='') str") auto
  then show ?case
    using Cons.prems Cons.IH [of "mrsh_env_set (takeWhile (\<lambda>c. c \<noteq> CHR ''='') str) val MRSH_VAR_ATTRIB_EXPORT s"]
    by (auto simp: mrsh_env_set_def)
qed

lemma populate_env_some:
  assumes "\<forall>str \<in> set (la_environ l). CHR ''='' \<in> set str" "h_getcwd_ok h"
  shows "\<exists>vars. mrsh_populate_env h l s = Some (True, s\<lparr>st_variables := vars\<rparr>)"
  using environ_variables_some [OF assms(1), of s] assms(2)
  by (auto simp: mrsh_populate_env_def Let_def mrsh_env_set_def current_working_dir_def split: option.split)

text \<open>With no trap set, working off the pending signals forgets them.\<close>

lemma run_pending_unset:
  assumes "\<And>i. i < MRSH_NSIG \<Longrightarrow> \<not> tr_set (st_traps s ! i)" "\<not> st_in_trap s" "0 < fuel"
  shows "\<exists>pending. run_pending_traps run fuel s = Inr (True, s\<lparr>st_pending := pending\<rparr>)"
proof -
  obtain n where n: "fuel = Suc n" using assms(3) by (cases fuel) auto
  have loop: "\<exists>pending. run_traps_loop run l (Suc n) is t = Inr (True, t\<lparr>st_pending := pending\<rparr>)"
    if "\<forall>i \<in> set is. \<not> tr_set (st_traps t ! i)" for l "is" t
    using that
  proof (induction "is" arbitrary: t)
    case Nil
    have "t\<lparr>st_pending := st_pending t\<rparr> = t" by simp
    then show ?case by (metis run_traps_loop.simps(1))
  next
    case (Cons i "is")
    from Cons.prems Cons.IH [of "t\<lparr>st_pending := (st_pending t)(i := 0)\<rparr>"] show ?case
      by (auto simp: Let_def)
  qed
  obtain pending where "run_traps_loop run (st_last_status s) (Suc n) [0..<MRSH_NSIG] (s\<lparr>st_in_trap := True\<rparr>) =
      Inr (True, s\<lparr>st_in_trap := True, st_pending := pending\<rparr>)"
    using loop [of "[0..<MRSH_NSIG]" "s\<lparr>st_in_trap := True\<rparr>"] assms(1) by auto
  moreover have "s\<lparr>st_pending := p, st_in_trap := False\<rparr> = s\<lparr>st_pending := p\<rparr>" for p
    using assms(2) by (cases s) simp
  ultimately show ?thesis
    using assms(2) by (intro exI [of _ pending]) (simp add: run_pending_traps_def n del: run_traps_loop.simps upt_Suc)
qed

section \<open>The whole program with -n\<close>

text \<open>The command line, and the state of a new shell.\<close>

lemma args_noexec:
  "mrsh_process_args tty init_args_zero [name, ''-n'', ''-c'', str] (start_state l) =
     Some (0, \<lparr>ia_command_file = None, ia_command_str = Some str\<rparr>,
       replace_argv [name] (start_state l\<lparr>st_options := option_value MRSH_OPT_NOEXEC\<rparr>))"
  by (simp add: mrsh_process_args_def set_impl_def char_at_def find_option_def options_def apply_option_def set_finish_def init_args_zero_def start_state_def mrsh_state_create_def argv_dup_def replace_argv_def upd_frame_def)

lemma noexec_option: "has_option (option_value MRSH_OPT_NOEXEC) opt \<longleftrightarrow> opt = MRSH_OPT_NOEXEC"
  by (cases opt) (simp_all add: has_option_def option_value_def)

lemma no_trap_programs: "trap_programs (replicate n trap_zero) = []"
  by (simp add: trap_programs_def trap_zero_def)

lemma start_facts:
  "st_exit (start_state l) = - 1" "st_interactive (start_state l) = False" "st_last_status (start_state l) = 0"
  "st_aliases (start_state l) = hashtable_zero" "st_traps (start_state l) = replicate MRSH_NSIG trap_zero"
  "st_in_trap (start_state l) = False" "st_jobs (start_state l) = jobs_zero" "st_frames (start_state l) = [frame_zero]"
  by (simp_all add: start_state_def mrsh_state_create_def)

lemma main_finish_unset:
  assumes "\<And>i. i < MRSH_NSIG \<Longrightarrow> \<not> tr_set (st_traps s ! i)" "\<not> st_in_trap s" "0 < i_fuel I" "\<not> st_interactive s"
    and destroyed: "\<And>pending. mrsh_state_destroy (s\<lparr>st_pending := pending\<rparr>) \<noteq> None"
  shows "\<exists>pending. main_finish I s = Inr (st_exit s, s\<lparr>st_pending := pending\<rparr>)"
proof -
  let ?u = "s\<lparr>st_pending := (st_pending s)(0 := st_pending s 0 + 1)\<rparr>"
  obtain pending where "run_pending_traps (i_program I) (i_fuel I) ?u = Inr (True, ?u\<lparr>st_pending := pending\<rparr>)"
    using run_pending_unset [of ?u "i_fuel I" "i_program I"] assms(1-3) by auto
  with assms(4) destroyed [of pending] show ?thesis
    by (intro exI [of _ pending]) (auto simp: main_finish_def mrsh_run_exit_trap_def run_exit_trap_def)
qed

text \<open>
  An open compound command is a syntax error that is no continuation line: when it is typed in an
  interactive shell, the loop does not ask for the rest of it.
\<close>

lemma open_compound_no_continuation:
  "\<exists>q. mrsh_parse_line six_levels (mrsh_parser_with_data (''if a'' @ [NL])) = Inr (None, q) \<and>
     mrsh_parser_error q \<noteq> None \<and> \<not> p_continuation_line q"
  by (simp add: parse_eval cong: parse_congs)

text \<open>A process for examples.\<close>

definition sample_launch :: launch where
  "sample_launch =
     \<lparr>la_handlers = (\<lambda>_. SIG_DFL), la_umask = 0, la_stdin = [], la_cwd = ''/'', la_environ = [''A=1'', ''HOME=/''],
      la_uid = 0, la_euid = 0, la_gid = 0, la_egid = 0, la_ppid = 1, la_isatty = True, la_exists = (\<lambda>_. False)\<rparr>"



end
