(* ===== verification/Ast_Memory.thy ===== *)
theory Ast_Memory
  imports Ast_Ops Arithm_Eval
begin

text \<open>
  The memory of the trees, and the destructors of \<open>ast.c\<close> and \<open>arithm.c\<close>. The blocks of a tree are named
  by the path of fields that leads to them: the struct of a node at \<open>p\<close>, what its pointer number \<open>i\<close> leads to
  at \<open>p @ [i]\<close>, the data of an array in a field with the field itself, and its elements below. An array
  without elements has no data, and freeing its null pointer does nothing. A destructor is the
  sequence of its accesses: reading a struct or the data of an array, and freeing.
\<close>

section \<open>Blocks and accesses\<close>

type_synonym path = "nat list"

datatype access = Use path | Free path

type_synonym destroyer = "path \<Rightarrow> access list"

text \<open>Accesses to memory that is not allocated, or was freed, are undefined: \<open>None\<close>.\<close>

fun run_accesses :: "access list \<Rightarrow> path set \<Rightarrow> path set option" where
  "run_accesses [] live = Some live"
| "run_accesses (Use p # as) live = (if p \<in> live then run_accesses as live else None)"
| "run_accesses (Free p # as) live = (if p \<in> live then run_accesses as (live - {p}) else None)"

text \<open>What a node does to its fields: freeing a string, destroying what a pointer leads to, if it is not
  null, and destroying the elements of an array in turn before its data is freed.\<close>

definition free_field :: "nat \<Rightarrow> destroyer" where
  "free_field i p = [Use p, Free (p @ [i])]"

definition destroy_pointer :: "nat \<Rightarrow> destroyer option \<Rightarrow> destroyer" where
  "destroy_pointer i f p = Use p # (case f of None \<Rightarrow> [] | Some f \<Rightarrow> f (p @ [i]))"

definition destroy_elements :: "nat \<Rightarrow> nat \<Rightarrow> destroyer list \<Rightarrow> destroyer" where
  "destroy_elements i k fs p = concat (map (\<lambda>(j, f). [Use p, Use (p @ [i])] @ f (p @ [i, j])) (enumerate k fs))"

definition destroy_array :: "nat \<Rightarrow> destroyer list \<Rightarrow> destroyer" where
  "destroy_array i fs p = destroy_elements i 0 fs p @ Use p # (if fs = [] then [] else [Free (p @ [i])])"

section \<open>The destructors\<close>

primrec mrsh_word_destroy :: "mrsh_word \<Rightarrow> destroyer"
  and mrsh_io_redirect_destroy :: "mrsh_io_redirect \<Rightarrow> destroyer"
  and mrsh_assignment_destroy :: "mrsh_assignment \<Rightarrow> destroyer"
  and mrsh_command_destroy :: "mrsh_command \<Rightarrow> destroyer"
  and case_item_destroy :: "mrsh_case_item \<Rightarrow> destroyer"
  and mrsh_and_or_list_destroy :: "mrsh_and_or_list \<Rightarrow> destroyer"
  and mrsh_command_list_destroy :: "mrsh_command_list \<Rightarrow> destroyer"
  and mrsh_program_destroy :: "mrsh_program \<Rightarrow> destroyer" where
  "mrsh_word_destroy (WString str q sf r) = (\<lambda>p. Use p # free_field 0 p @ [Free p])"
| "mrsh_word_destroy (WParameter name op colon arg ps) = (\<lambda>p.
     Use p # free_field 0 p @ destroy_pointer 1 (map_option mrsh_word_destroy arg) p @ [Free p])"
| "mrsh_word_destroy (WCommand prog bq r) = (\<lambda>p.
     Use p # destroy_pointer 0 (map_option mrsh_program_destroy prog) p @ [Free p])"
| "mrsh_word_destroy (WArithmetic body) = (\<lambda>p.
     Use p # destroy_pointer 0 (Some (mrsh_word_destroy body)) p @ [Free p])"
| "mrsh_word_destroy (WList children dq l r) = (\<lambda>p.
     Use p # destroy_array 0 (map mrsh_word_destroy children) p @ [Free p])"
| "mrsh_io_redirect_destroy (IoRedirect n op name here np opr) = (\<lambda>p.
     destroy_pointer 0 (Some (mrsh_word_destroy name)) p @ destroy_array 1 (map mrsh_word_destroy here) p @ [Free p])"
| "mrsh_assignment_destroy (Assignment name v nr eq) = (\<lambda>p.
     free_field 0 p @ destroy_pointer 1 (Some (mrsh_word_destroy v)) p @ [Free p])"
| "mrsh_command_destroy (SimpleCommand name args redirs assigns) = (\<lambda>p.
     Use p # destroy_pointer 0 (map_option mrsh_word_destroy name) p @ destroy_array 1 (map mrsh_word_destroy args) p @
     destroy_array 2 (map mrsh_io_redirect_destroy redirs) p @ destroy_array 3 (map mrsh_assignment_destroy assigns) p @
     [Free p])"
| "mrsh_command_destroy (BraceGroup body l r) = (\<lambda>p.
     Use p # destroy_array 0 (map mrsh_command_list_destroy body) p @ [Free p])"
| "mrsh_command_destroy (Subshell body l r) = (\<lambda>p.
     Use p # destroy_array 0 (map mrsh_command_list_destroy body) p @ [Free p])"
| "mrsh_command_destroy (IfClause cond body els if_r then_r fi_r else_r) = (\<lambda>p.
     Use p # destroy_array 0 (map mrsh_command_list_destroy cond) p @
     destroy_array 1 (map mrsh_command_list_destroy body) p @
     destroy_pointer 2 (map_option mrsh_command_destroy els) p @ [Free p])"
| "mrsh_command_destroy (ForClause name inn ws body for_r name_r do_r done_r in_r) = (\<lambda>p.
     Use p # free_field 0 p @ destroy_array 1 (map mrsh_word_destroy ws) p @
     destroy_array 2 (map mrsh_command_list_destroy body) p @ [Free p])"
| "mrsh_command_destroy (LoopClause t cond body wu_r do_r done_r) = (\<lambda>p.
     Use p # destroy_array 0 (map mrsh_command_list_destroy cond) p @
     destroy_array 1 (map mrsh_command_list_destroy body) p @ [Free p])"
| "mrsh_command_destroy (CaseClause w items case_r in_r esac_r) = (\<lambda>p.
     Use p # destroy_pointer 0 (Some (mrsh_word_destroy w)) p @ destroy_array 1 (map case_item_destroy items) p @ [Free p])"
| "mrsh_command_destroy (FunctionDefinition name body redirs name_r lp rp) = (\<lambda>p.
     Use p # free_field 0 p @ destroy_pointer 1 (Some (mrsh_command_destroy body)) p @
     destroy_array 2 (map mrsh_io_redirect_destroy redirs) p @ [Free p])"
| "case_item_destroy (CaseItem patterns body lp rp dsemi_r) = (\<lambda>p.
     destroy_array 0 (map mrsh_word_destroy patterns) p @ destroy_array 1 (map mrsh_command_list_destroy body) p @ [Free p])"
| "mrsh_and_or_list_destroy (Pipeline cmds bang bp) = (\<lambda>p.
     Use p # destroy_array 0 (map mrsh_command_destroy cmds) p @ [Free p])"
| "mrsh_and_or_list_destroy (Binop t l r opr) = (\<lambda>p.
     Use p # destroy_pointer 0 (Some (mrsh_and_or_list_destroy l)) p @
     destroy_pointer 1 (Some (mrsh_and_or_list_destroy r)) p @ [Free p])"
| "mrsh_command_list_destroy (CommandList l ampersand sep) = (\<lambda>p.
     destroy_pointer 0 (Some (mrsh_and_or_list_destroy l)) p @ [Free p])"
| "mrsh_program_destroy (Program body) = (\<lambda>p.
     destroy_array 0 (map mrsh_command_list_destroy body) p @ [Free p])"

fun mrsh_node_destroy :: "mrsh_node \<Rightarrow> destroyer" where
  "mrsh_node_destroy (NodeProgram prog) p = Use p # mrsh_program_destroy prog p"
| "mrsh_node_destroy (NodeCommandList cl) p = Use p # mrsh_command_list_destroy cl p"
| "mrsh_node_destroy (NodeAndOrList aol) p = Use p # mrsh_and_or_list_destroy aol p"
| "mrsh_node_destroy (NodeCommand cmd) p = Use p # mrsh_command_destroy cmd p"
| "mrsh_node_destroy (NodeWord w) p = Use p # mrsh_word_destroy w p"

text \<open>\<open>mrsh_arithm_expr_destroy\<close>; names are the first field of a struct.\<close>

primrec mrsh_arithm_expr_destroy :: "mrsh_arithm_expr \<Rightarrow> destroyer" where
  "mrsh_arithm_expr_destroy (ArithmLiteral v) = (\<lambda>p. Use p # [Free p])"
| "mrsh_arithm_expr_destroy (ArithmVariable name) = (\<lambda>p. Use p # free_field 0 p @ [Free p])"
| "mrsh_arithm_expr_destroy (ArithmUnop t body) = (\<lambda>p.
     Use p # destroy_pointer 0 (Some (mrsh_arithm_expr_destroy body)) p @ [Free p])"
| "mrsh_arithm_expr_destroy (ArithmBinop t l r) = (\<lambda>p.
     Use p # destroy_pointer 0 (Some (mrsh_arithm_expr_destroy l)) p @
     destroy_pointer 1 (Some (mrsh_arithm_expr_destroy r)) p @ [Free p])"
| "mrsh_arithm_expr_destroy (ArithmCond c body els) = (\<lambda>p.
     Use p # destroy_pointer 0 (Some (mrsh_arithm_expr_destroy c)) p @
     destroy_pointer 1 (Some (mrsh_arithm_expr_destroy body)) p @
     destroy_pointer 2 (Some (mrsh_arithm_expr_destroy els)) p @ [Free p])"
| "mrsh_arithm_expr_destroy (ArithmAssign op name v) = (\<lambda>p.
     Use p # free_field 0 p @ destroy_pointer 1 (Some (mrsh_arithm_expr_destroy v)) p @ [Free p])"

section \<open>What a tree owns\<close>

text \<open>The blocks of a tree, by the types of the fields in \<open>include/mrsh/ast.h\<close> and \<open>include/mrsh/arithm.h\<close>.\<close>

type_synonym owner = "path \<Rightarrow> path set"

definition owned_pointer :: "nat \<Rightarrow> owner option \<Rightarrow> owner" where
  "owned_pointer i f p = (case f of None \<Rightarrow> {} | Some f \<Rightarrow> f (p @ [i]))"

definition owned_elements :: "nat \<Rightarrow> nat \<Rightarrow> owner list \<Rightarrow> owner" where
  "owned_elements i k fs p = (\<Union>(j, f) \<in> set (enumerate k fs). f (p @ [i, j]))"

definition owned_array :: "nat \<Rightarrow> owner list \<Rightarrow> owner" where
  "owned_array i fs p = owned_elements i 0 fs p \<union> (if fs = [] then {} else {p @ [i]})"

primrec owned_word :: "mrsh_word \<Rightarrow> owner"
  and owned_redirect :: "mrsh_io_redirect \<Rightarrow> owner"
  and owned_assignment :: "mrsh_assignment \<Rightarrow> owner"
  and owned_command :: "mrsh_command \<Rightarrow> owner"
  and owned_case_item :: "mrsh_case_item \<Rightarrow> owner"
  and owned_and_or_list :: "mrsh_and_or_list \<Rightarrow> owner"
  and owned_command_list :: "mrsh_command_list \<Rightarrow> owner"
  and owned_program :: "mrsh_program \<Rightarrow> owner" where
  "owned_word (WString str q sf r) = (\<lambda>p. insert p {p @ [0]})"
| "owned_word (WParameter name op colon arg ps) = (\<lambda>p.
     insert p ({p @ [0]} \<union> owned_pointer 1 (map_option owned_word arg) p))"
| "owned_word (WCommand prog bq r) = (\<lambda>p. insert p (owned_pointer 0 (map_option owned_program prog) p))"
| "owned_word (WArithmetic body) = (\<lambda>p. insert p (owned_pointer 0 (Some (owned_word body)) p))"
| "owned_word (WList children dq l r) = (\<lambda>p. insert p (owned_array 0 (map owned_word children) p))"
| "owned_redirect (IoRedirect n op name here np opr) = (\<lambda>p.
     insert p (owned_pointer 0 (Some (owned_word name)) p \<union> owned_array 1 (map owned_word here) p))"
| "owned_assignment (Assignment name v nr eq) = (\<lambda>p.
     insert p ({p @ [0]} \<union> owned_pointer 1 (Some (owned_word v)) p))"
| "owned_command (SimpleCommand name args redirs assigns) = (\<lambda>p.
     insert p (owned_pointer 0 (map_option owned_word name) p \<union> (owned_array 1 (map owned_word args) p \<union>
       (owned_array 2 (map owned_redirect redirs) p \<union> owned_array 3 (map owned_assignment assigns) p))))"
| "owned_command (BraceGroup body l r) = (\<lambda>p. insert p (owned_array 0 (map owned_command_list body) p))"
| "owned_command (Subshell body l r) = (\<lambda>p. insert p (owned_array 0 (map owned_command_list body) p))"
| "owned_command (IfClause cond body els if_r then_r fi_r else_r) = (\<lambda>p.
     insert p (owned_array 0 (map owned_command_list cond) p \<union> (owned_array 1 (map owned_command_list body) p \<union>
       owned_pointer 2 (map_option owned_command els) p)))"
| "owned_command (ForClause name inn ws body for_r name_r do_r done_r in_r) = (\<lambda>p.
     insert p ({p @ [0]} \<union> (owned_array 1 (map owned_word ws) p \<union> owned_array 2 (map owned_command_list body) p)))"
| "owned_command (LoopClause t cond body wu_r do_r done_r) = (\<lambda>p.
     insert p (owned_array 0 (map owned_command_list cond) p \<union> owned_array 1 (map owned_command_list body) p))"
| "owned_command (CaseClause w items case_r in_r esac_r) = (\<lambda>p.
     insert p (owned_pointer 0 (Some (owned_word w)) p \<union> owned_array 1 (map owned_case_item items) p))"
| "owned_command (FunctionDefinition name body redirs name_r lp rp) = (\<lambda>p.
     insert p ({p @ [0]} \<union> (owned_pointer 1 (Some (owned_command body)) p \<union> owned_array 2 (map owned_redirect redirs) p)))"
| "owned_case_item (CaseItem patterns body lp rp dsemi_r) = (\<lambda>p.
     insert p (owned_array 0 (map owned_word patterns) p \<union> owned_array 1 (map owned_command_list body) p))"
| "owned_and_or_list (Pipeline cmds bang bp) = (\<lambda>p. insert p (owned_array 0 (map owned_command cmds) p))"
| "owned_and_or_list (Binop t l r opr) = (\<lambda>p.
     insert p (owned_pointer 0 (Some (owned_and_or_list l)) p \<union> owned_pointer 1 (Some (owned_and_or_list r)) p))"
| "owned_command_list (CommandList l ampersand sep) = (\<lambda>p.
     insert p (owned_pointer 0 (Some (owned_and_or_list l)) p))"
| "owned_program (Program body) = (\<lambda>p. insert p (owned_array 0 (map owned_command_list body) p))"

fun owned_node :: "mrsh_node \<Rightarrow> owner" where
  "owned_node (NodeProgram prog) = owned_program prog"
| "owned_node (NodeCommandList cl) = owned_command_list cl"
| "owned_node (NodeAndOrList aol) = owned_and_or_list aol"
| "owned_node (NodeCommand cmd) = owned_command cmd"
| "owned_node (NodeWord w) = owned_word w"

primrec owned_arithm :: "mrsh_arithm_expr \<Rightarrow> owner" where
  "owned_arithm (ArithmLiteral v) = (\<lambda>p. insert p {})"
| "owned_arithm (ArithmVariable name) = (\<lambda>p. insert p {p @ [0]})"
| "owned_arithm (ArithmUnop t body) = (\<lambda>p. insert p (owned_pointer 0 (Some (owned_arithm body)) p))"
| "owned_arithm (ArithmBinop t l r) = (\<lambda>p.
     insert p (owned_pointer 0 (Some (owned_arithm l)) p \<union> owned_pointer 1 (Some (owned_arithm r)) p))"
| "owned_arithm (ArithmCond c body els) = (\<lambda>p.
     insert p (owned_pointer 0 (Some (owned_arithm c)) p \<union> (owned_pointer 1 (Some (owned_arithm body)) p \<union>
       owned_pointer 2 (Some (owned_arithm els)) p)))"
| "owned_arithm (ArithmAssign op name v) = (\<lambda>p.
     insert p ({p @ [0]} \<union> owned_pointer 1 (Some (owned_arithm v)) p))"

section \<open>Rules\<close>

text \<open>
  \<open>frees as K B\<close>: with the blocks \<open>B\<close> and at least \<open>K\<close> beside them, the accesses are defined and free \<open>B\<close>.
  \<open>frees_fields as p I B\<close> is that for the fields \<open>I\<close> of the node at \<open>p\<close>.
\<close>

definition frees :: "access list \<Rightarrow> path set \<Rightarrow> path set \<Rightarrow> bool" where
  "frees as K B \<longleftrightarrow> (\<forall>H. K \<subseteq> H \<longrightarrow> H \<inter> B = {} \<longrightarrow> run_accesses as (B \<union> H) = Some H)"

definition below :: "path \<Rightarrow> path set" where
  "below p = range (append p)"

definition frees_fields :: "access list \<Rightarrow> path \<Rightarrow> nat set \<Rightarrow> path set \<Rightarrow> bool" where
  "frees_fields as p I B \<longleftrightarrow> frees as {p} B \<and> B \<subseteq> (\<Union>i \<in> I. below (p @ [i]))"

definition destroys :: "destroyer \<Rightarrow> owner \<Rightarrow> bool" where
  "destroys f B \<longleftrightarrow> (\<forall>p. frees (f p) {} (B p) \<and> B p \<subseteq> below p)"

lemma run_accesses_append: "run_accesses (xs @ ys) H = Option.bind (run_accesses xs H) (\<lambda>H. run_accesses ys H)"
proof (induction xs arbitrary: H)
  case (Cons x xs)
  show ?case
    by (cases x) (simp_all add: Cons.IH)
qed simp

lemma frees_seq:
  assumes "frees as K B1" "frees bs K B2" "B1 \<inter> B2 = {}"
  shows "frees (as @ bs) K (B1 \<union> B2)"
  unfolding frees_def
proof (intro allI impI)
  fix H
  assume H: "K \<subseteq> H" "H \<inter> (B1 \<union> B2) = {}"
  have "run_accesses as (B1 \<union> (B2 \<union> H)) = Some (B2 \<union> H)"
    using H assms(3) by (intro assms(1) [unfolded frees_def, rule_format]) auto
  moreover have "run_accesses bs (B2 \<union> H) = Some H"
    using H by (intro assms(2) [unfolded frees_def, rule_format]) auto
  ultimately show "run_accesses (as @ bs) (B1 \<union> B2 \<union> H) = Some H"
    by (simp add: run_accesses_append Un_assoc)
qed

lemma frees_use: "k \<in> K \<Longrightarrow> frees as K B \<Longrightarrow> frees (Use k # as) K B"
  by (auto simp: frees_def)

lemma frees_last: "frees as (insert q K) B \<Longrightarrow> q \<notin> B \<Longrightarrow> frees (as @ [Free q]) K (insert q B)"
  unfolding frees_def
proof (intro allI impI)
  fix H
  assume a: "\<forall>H. insert q K \<subseteq> H \<longrightarrow> H \<inter> B = {} \<longrightarrow> run_accesses as (B \<union> H) = Some H" "q \<notin> B"
    and H: "K \<subseteq> H" "H \<inter> insert q B = {}"
  then have "run_accesses as (B \<union> insert q H) = Some (insert q H)"
    by blast
  then show "run_accesses (as @ [Free q]) (insert q B \<union> H) = Some H"
    using H by (simp add: run_accesses_append)
qed

lemma frees_more: "frees as K B \<Longrightarrow> K \<subseteq> K' \<Longrightarrow> frees as K' B"
  by (auto simp: frees_def)

lemma frees_nothing: "frees [] K {}"
  by (simp add: frees_def)

lemma below_field: "q \<in> below (p @ [i]) \<Longrightarrow> q \<in> below p" "p \<notin> below (p @ [i])"
  by (auto simp: below_def)

lemma below_fields: "i \<noteq> j \<Longrightarrow> below (p @ [i]) \<inter> below (p @ [j]) = {}"
  by (auto simp: below_def)

lemma fields_disjoint:
  assumes "B1 \<subseteq> (\<Union>i \<in> I. below (p @ [i]))" "B2 \<subseteq> (\<Union>i \<in> J. below (p @ [i]))" "I \<inter> J = {}"
  shows "B1 \<inter> B2 = {}"
proof -
  have "(\<Union>i \<in> I. below (p @ [i])) \<inter> (\<Union>i \<in> J. below (p @ [i])) = {}"
    using assms(3) by (auto simp: below_def)
  with assms(1,2) show ?thesis by blast
qed

lemma fields_seq:
  assumes "frees_fields as p I B1" "frees_fields bs p J B2" "I \<inter> J = {}"
  shows "frees_fields (as @ bs) p (I \<union> J) (B1 \<union> B2)"
proof -
  have sub: "B1 \<subseteq> (\<Union>i \<in> I. below (p @ [i]))" "B2 \<subseteq> (\<Union>i \<in> J. below (p @ [i]))"
    and fr: "frees as {p} B1" "frees bs {p} B2"
    using assms(1,2) by (simp_all add: frees_fields_def)
  from frees_seq [OF fr fields_disjoint [OF sub assms(3)]] show ?thesis
    unfolding frees_fields_def UN_Un using sub by (iprover intro: conjI Un_mono)
qed

lemma fields_free: "frees_fields (free_field i p) p {i} {p @ [i]}"
  by (auto simp: frees_fields_def frees_def free_field_def below_def)

lemma fields_pointer:
  assumes "rel_option destroys f g"
  shows "frees_fields (destroy_pointer i f p) p {i} (owned_pointer i g p)"
proof (cases f)
  case None
  with assms show ?thesis
    by (simp add: frees_fields_def destroy_pointer_def owned_pointer_def frees_use frees_nothing)
next
  case (Some f')
  with assms obtain g' where g: "g = Some g'" "destroys f' g'"
    by (cases g) simp_all
  then have "frees (f' (p @ [i])) {p} (g' (p @ [i]))" "g' (p @ [i]) \<subseteq> below (p @ [i])"
    using frees_more [of "f' (p @ [i])" "{}"] by (simp_all add: destroys_def)
  with Some g(1) show ?thesis
    by (simp add: frees_fields_def destroy_pointer_def owned_pointer_def frees_use)
qed

lemma below_later: "below (q @ [k]) \<inter> (\<Union>j \<in> {Suc k..}. below (q @ [j])) = {}"
  by (auto simp: below_def)

lemma frees_elements:
  assumes "list_all2 destroys fs gs"
  shows "frees (destroy_elements i k fs p) {p, p @ [i]} (owned_elements i k gs p) \<and>
    owned_elements i k gs p \<subseteq> (\<Union>j \<in> {k..}. below ((p @ [i]) @ [j]))"
  using assms
proof (induction arbitrary: k rule: list_all2_induct)
  case Nil
  then show ?case
    by (simp add: destroy_elements_def owned_elements_def frees_nothing)
next
  case (Cons f fs g gs)
  let ?q = "(p @ [i]) @ [k]"
  have q: "frees (f ?q) {p, p @ [i]} (g ?q)" "g ?q \<subseteq> below ?q"
    using Cons.hyps(1) frees_more [of "f ?q" "{}"] by (simp_all add: destroys_def)
  then have first: "frees ([Use p, Use (p @ [i])] @ f ?q) {p, p @ [i]} (g ?q)"
    by (simp add: frees_use)
  note IH = Cons.IH [of "Suc k"]
  have "g ?q \<inter> owned_elements i (Suc k) gs p = {}"
    using q(2) conjunct2 [OF IH] below_later [of "p @ [i]" k] by blast
  note seq = frees_seq [OF first conjunct1 [OF IH] this]
  have eqs: "destroy_elements i k (f # fs) p = ([Use p, Use (p @ [i])] @ f ?q) @ destroy_elements i (Suc k) fs p"
    "owned_elements i k (g # gs) p = g ?q \<union> owned_elements i (Suc k) gs p"
    by (simp_all add: destroy_elements_def owned_elements_def)
  have "(\<Union>j \<in> {Suc k..}. below ((p @ [i]) @ [j])) \<subseteq> (\<Union>j \<in> {k..}. below ((p @ [i]) @ [j]))"
    by (intro UN_mono) auto
  with q(2) conjunct2 [OF IH] have "owned_elements i k (g # gs) p \<subseteq> (\<Union>j \<in> {k..}. below ((p @ [i]) @ [j]))"
    unfolding eqs(2) by (intro Un_least) (blast intro: order_trans)+
  with seq show ?case
    unfolding eqs by blast
qed

lemma fields_array:
  assumes "list_all2 destroys fs gs"
  shows "frees_fields (destroy_array i fs p) p {i} (owned_array i gs p)"
proof -
  note els = frees_elements [OF assms, of i 0 p]
  have "(\<Union>j \<in> {0..}. below ((p @ [i]) @ [j])) \<subseteq> below (p @ [i])" "p @ [i] \<notin> (\<Union>j \<in> {0..}. below ((p @ [i]) @ [j]))"
    "p @ [i] \<in> below (p @ [i])"
    by (auto simp: below_def)
  with els have B: "owned_elements i 0 gs p \<subseteq> below (p @ [i])" "p @ [i] \<notin> owned_elements i 0 gs p" "p @ [i] \<in> below (p @ [i])"
    by blast+
  have use: "frees [Use p] {p, p @ [i]} {}"
    by (simp add: frees_use frees_nothing)
  from frees_seq [OF conjunct1 [OF els] this] have "frees (destroy_elements i 0 fs p @ [Use p]) (insert (p @ [i]) {p}) (owned_elements i 0 gs p)"
    by (simp add: insert_commute)
  from frees_last [OF this B(2)] B(1,3) show ?thesis
    using assms by (cases fs; cases gs) (auto simp: frees_fields_def destroy_array_def owned_array_def destroy_elements_def
      owned_elements_def frees_use frees_nothing)
qed

lemma node_destroyed:
  assumes "frees_fields as p I B"
  shows "frees (as @ [Free p]) {} (insert p B) \<and> insert p B \<subseteq> below p"
proof -
  have "(\<Union>i \<in> I. below (p @ [i])) \<subseteq> below p" "p \<notin> (\<Union>i \<in> I. below (p @ [i]))" "p \<in> below p"
    by (auto simp: below_def)
  with assms have "p \<notin> B" "insert p B \<subseteq> below p" "frees as (insert p {}) B"
    unfolding frees_fields_def by blast+
  then show ?thesis
    using frees_last by blast
qed

section \<open>The destructors free what a tree owns\<close>

lemma destroys_plain:
  assumes "\<And>p. frees_fields (as p) p I (B p)"
  shows "destroys (\<lambda>p. as p @ [Free p]) (\<lambda>p. insert p (B p))"
  using node_destroyed [OF assms] by (simp add: destroys_def)

lemma destroys_used:
  assumes "\<And>p. frees_fields (as p) p I (B p)"
  shows "destroys (\<lambda>p. Use p # as p @ [Free p]) (\<lambda>p. insert p (B p))"
  using node_destroyed [OF assms] by (simp add: destroys_def frees_def)

lemma map_list_destroys: "(\<And>x. x \<in> set xs \<Longrightarrow> destroys (f x) (g x)) \<Longrightarrow> list_all2 destroys (map f xs) (map g xs)"
  by (simp add: list.rel_map list_all2_same)

lemma map_option_destroys: "(\<And>x. x \<in> set_option v \<Longrightarrow> destroys (f x) (g x)) \<Longrightarrow> rel_option destroys (map_option f v) (map_option g v)"
  by (cases v) simp_all

lemma some_destroys: "destroys f g \<Longrightarrow> rel_option destroys (Some f) (Some g)"
  by simp

lemmas destroy_rules = destroys_plain destroys_used fields_seq fields_free fields_pointer fields_array
  map_list_destroys map_option_destroys some_destroys

lemmas destructor_simps = mrsh_word_destroy.simps mrsh_io_redirect_destroy.simps mrsh_assignment_destroy.simps
  mrsh_command_destroy.simps case_item_destroy.simps mrsh_and_or_list_destroy.simps mrsh_command_list_destroy.simps
  mrsh_program_destroy.simps mrsh_arithm_expr_destroy.simps owned_word.simps owned_redirect.simps owned_assignment.simps
  owned_command.simps owned_case_item.simps owned_and_or_list.simps owned_command_list.simps owned_program.simps
  owned_arithm.simps append_assoc [symmetric] Un_assoc [symmetric]

lemma trees_destroyed:
  "destroys (mrsh_word_destroy w) (owned_word w)"
  "destroys (mrsh_io_redirect_destroy rd) (owned_redirect rd)"
  "destroys (mrsh_assignment_destroy asg) (owned_assignment asg)"
  "destroys (mrsh_command_destroy c) (owned_command c)"
  "destroys (case_item_destroy ci) (owned_case_item ci)"
  "destroys (mrsh_and_or_list_destroy ao) (owned_and_or_list ao)"
  "destroys (mrsh_command_list_destroy cl) (owned_command_list cl)"
  "destroys (mrsh_program_destroy pr) (owned_program pr)"
proof (induction w and rd and asg and c and ci and ao and cl and pr rule: ast_induct)
qed (unfold destructor_simps, (rule destroy_rules | simp)+)

lemma expressions_destroyed: "destroys (mrsh_arithm_expr_destroy e) (owned_arithm e)"
proof (induction e)
  case (ArithmLiteral v)
  then show ?case by (simp add: destroys_def frees_def below_def)
qed (unfold destructor_simps, (rule destroy_rules | simp)+)

text \<open>A destructor that looks at the type of the node first.\<close>

lemma owned_root:
  "p \<in> owned_word w p" "p \<in> owned_command c p" "p \<in> owned_and_or_list ao p" "p \<in> owned_command_list cl p" "p \<in> owned_program pr p"
  by - ((cases w; simp), (cases c; simp), (cases ao; simp), (cases cl; simp), (cases pr; simp))

lemma frees_typed: "destroys f g \<Longrightarrow> p \<in> g p \<Longrightarrow> frees (Use p # f p) {} (g p)"
  by (simp add: destroys_def frees_def)

lemma node_destroy_frees: "frees (mrsh_node_destroy n p) {} (owned_node n p)"
  by (cases n) (simp_all add: frees_typed trees_destroyed owned_root)

text \<open>C31: \<open>mrsh_node_destroy\<close> frees the blocks of a tree, every one of them and once, reads none of them after it was
  freed, and does not touch the memory beside the tree: no leak, no double free and no use after free, as long as
  trees share nothing.\<close>

theorem destructors_free_trees:
  assumes "H \<inter> owned_node n p = {}"
  shows "run_accesses (mrsh_node_destroy n p) (owned_node n p \<union> H) = Some H"
  using node_destroy_frees [of n p] assms unfolding frees_def by (simp only: empty_subsetI)

text \<open>At a quoted word, with a block beside it.\<close>

theorem destructors_free_trees_witness:
  "run_accesses (mrsh_node_destroy (NodeWord (WList [WString ''a'' True False range_zero] True position_zero position_zero)) [0])
     ({[0], [0, 0], [0, 0, 0], [0, 0, 0, 0]} \<union> {[1]}) = Some {[1]}"
proof -
  let ?n = "NodeWord (WList [WString ''a'' True False range_zero] True position_zero position_zero)"
  have owned: "owned_node ?n [0] = {[0], [0, 0], [0, 0, 0], [0, 0, 0, 0]}"
    by (auto simp: owned_array_def owned_elements_def)
  have "{[1]} \<inter> owned_node ?n [0] = {}"
    unfolding owned by simp
  from destructors_free_trees [OF this] show ?thesis
    unfolding owned .
qed

end
