(* ===== verification/Spec2Isabelle.thy ===== *)
theory Spec2Isabelle
  imports Growable Arithm_Roundtrip Shell_Facts Parser_Input Entry Ast_Memory
begin

text \<open>
  A verification development of mrsh, a POSIX shell in C. Every definition that models code keeps the name
  of the C function, type or table it stands for, apart from a suffix where the name is taken.

  \<^bold>\<open>The program.\<close> \<open>main.c\<close> reads text through a parser (\<open>parser/parser.c\<close> for characters and symbols,
  \<open>parser/word.c\<close> for words, \<open>parser/arithm.c\<close> for arithmetic, \<open>parser/program.c\<close> for commands) into the
  trees of \<open>include/mrsh/ast.h\<close>, and runs them (\<open>shell/task/\<close>) or, with \<open>-n\<close>, prints them (\<open>ast_print.c\<close>).
  Words are expanded (\<open>shell/task/word.c\<close>, \<open>shell/word.c\<close>, \<open>shell/arithm.c\<close>), redirections are made
  (\<open>shell/redir.c\<close>), builtins (\<open>builtin/\<close>) are called and processes started, which are kept in the tables of
  processes and jobs (\<open>shell/process.c\<close>, \<open>shell/job.c\<close>). All of it works on the state of \<open>shell/shell.c\<close>:
  variables, functions and aliases in hash tables (\<open>hashtable.c\<close>), call frames with the positional
  parameters, traps (\<open>shell/trap.c\<close>) and options. Arrays and byte buffers (\<open>array.c\<close>, \<open>buffer.c\<close>) and an
  option parser (\<open>getopt.c\<close>) serve all parts.

  \<^bold>\<open>Conventions.\<close> A C string is a list of characters without NUL (\<open>Prelude\<close>). State is passed explicitly.
  In the parts that run no programs, a failed assertion, a call of \<open>abort()\<close>, a null pointer or freed memory
  that is used make the result \<open>None\<close>. What runs programs has results in \<open>'a run\<close> (\<open>Shell_State\<close>): a value
  and a state, or \<open>Crash\<close>, \<open>Blocked\<close> (a system call that never returns), \<open>Ended\<close> with a wait status, or
  \<open>NoFuel\<close>, the model's own. Parsers have the outcomes \<open>ParseCrash\<close>, \<open>ParseNull\<close> (a null pointer in a
  here-document) and \<open>ParseFuel\<close>. Allocation succeeds, as the code assumes, except in \<open>Growable\<close>, where it is a
  parameter. Messages on standard error are left out.

  \<^bold>\<open>The system.\<close> What it decides is in the records \<open>host\<close> (which files can be opened, what a program does,
  \<open>glob\<close>, \<open>fnmatch\<close>, \<open>getpwnam\<close>, the terminal) and \<open>launch\<close> (the environment, the user, the standard
  input), arguments of the definitions that ask. Descriptors, open files, pipes, processes and the statuses
  of children are modelled in \<open>Host\<close>; \<open>fork\<close> runs the child to its end before the parent goes on, with the
  open files shared and everything else copied. \<open>strtol\<close>, \<open>strtod\<close> and \<open>printf\<close> are modelled (\<open>Clib\<close>,
  \<open>Clib_Strtod\<close>).

  \<^bold>\<open>The theories.\<close>
  \<^item> \<open>Growable\<close>: arrays and buffers on memory blocks, with the wrap-around of \<open>size_t\<close> and failing
    allocation; one locale for both, no write leaves its block.
  \<^item> \<open>Hashtable\<close>: the table, and the locale \<open>kv_store\<close> of a finite map that it interprets; the shell's
    variables rest on the laws of that locale.
  \<^item> \<open>Getopt\<close>: the option parser with its globals, against a reference.
  \<^item> \<open>Ast\<close>, \<open>Ast_Ops\<close>, \<open>Ast_Print\<close>: syntax trees, copies, formatter, ranges, traversal, and the printed tree;
    \<open>Ast_Memory\<close>: the destructors, which free what a tree owns and nothing else.
  \<^item> \<open>Jobs\<close>: processes, jobs, the terminal, waiting; an invariant of the tables and a locale for the loops
    that wait.
  \<^item> \<open>Shell_State\<close>: the state record, outcomes, variables and call frames.
  \<^item> \<open>Builtin_Table\<close>, \<open>Traps\<close>, \<open>Builtins_Control\<close>, \<open>Builtin_Set\<close>, \<open>Builtin_Umask\<close>, \<open>Builtins_Env\<close>,
    \<open>Builtins_Path\<close>, \<open>Builtins_Jobs\<close>, \<open>Builtins_Run\<close>: the table of builtins, quoting, traps and job control,
    and all builtins.
  \<^item> \<open>Words\<close>: tilde expansion, field splitting, pathname expansion. \<open>Expand\<close>: the expansion of words with
    parameters, command substitutions and arithmetic; \<open>Expand_Facts\<close>: that it returns, its operators against
    references, what a substitution may change.
  \<^item> \<open>Arithm_Eval\<close>, \<open>Arithm_Parser\<close>, \<open>Arithm_Roundtrip\<close>: evaluation of arithmetic on longs against exact
    arithmetic; its parser, which always ends; and that it reads back what is printed.
  \<^item> \<open>Parser_Core\<close>: the input of the parser as the text that is left, and its symbols; \<open>Parser_Input\<close>: the
    buffer behind it, filled from a descriptor or another buffer, which refines the text. The locale
    \<open>char_source\<close> of peeking and reading is interpreted by both.
  \<^item> \<open>Parser_Word\<close>, \<open>Parser_Program\<close>: words, commands, here-documents (filled into the tree at its end) and the
    knot of the mutual recursion. \<open>Parser_Fuel\<close>: more levels do not change a result; \<open>Parser_Total\<close>: the
    parser ends, with well-formed trees or an error; \<open>Parser_Eval\<close>: evaluation of the parser on concrete
    texts; \<open>Parser_Facts\<close>: it reads back what the shell prints.
  \<^item> \<open>Redir\<close>: redirections, which builtins undo. \<open>Tasks\<close>: the execution of commands, with \<open>Tasks_Fuel\<close> (more
    fuel does not change a run) and \<open>Tasks_Facts\<close> (isolation of subshells, descriptors of pipelines, loops,
    functions). \<open>Shell_Facts\<close>: texts from the parser to their execution.
  \<^item> \<open>Entry\<close>: the start of the shell and \<open>main\<close>, and that \<open>-n\<close> runs nothing; \<open>Shell_End\<close>: the end of a shell,
    \<open>mrsh_state_destroy\<close>.

  \<^bold>\<open>Bounds and fuel.\<close> Loops that C leaves to the data are structural recursion here. Fuel is used in \<open>Jobs\<close>
  (the loops that wait: one turn per event is enough), \<open>Getopt\<close> (the length of the vector and its words),
  \<open>Traps\<close> (the runs of one trap, which may send itself signals for ever), the parsers (\<open>parse_fuel\<close>, about
  twice the length of the text, is enough when no aliases are set; an alias may grow the text), the main
  loop (a turn takes input) and \<open>interp n h\<close>, which runs programs of nesting at most \<open>n\<close> with at most \<open>n\<close> turns of
  a loop on each level: a run that comes to an end is the same for every larger \<open>n\<close>. The theorems show
  that the fuel is enough, or take it as a hypothesis.

  \<^bold>\<open>Not modelled.\<close> The memory of trees outside \<open>Ast_Memory\<close> (they are values elsewhere), and the destructor of the
  parser; signals that arrive asynchronously (pending signals are state); children that run beside the shell
  (each runs to its end first, so that a pipe that fills up or a race is not seen); the modes of the
  terminal; the messages; the line editors of \<open>frontend/\<close>, whose lines are a parameter; a script on standard
  input that does not fit into one read; \<open>example/highlight.c\<close>, which is not part of the shell.
\<close>

end
